(* ===== verification/Prelude.thy ===== *)
theory Prelude
  imports Main "HOL-Library.AList" "HOL-Library.Char_ord" "HOL-Library.List_Lexorder"
    "HOL-Library.Multiset"
begin

text \<open>
  Shared vocabulary of the development: the parts of Go's \<^verbatim>\<open>strings\<close>, \<^verbatim>\<open>strconv\<close> and
  built-in maps that the program uses, results with errors, and the generic list lemmas
  the component theories rely on.

  Conventions.
  \<^item> A Go string is a \<^typ>\<open>string\<close>, a list of bytes; \<open>len\<close> is \<^const>\<open>length\<close>.
  \<^item> A Go map is an association list with distinct keys. The order of the list is the
    order a \<^verbatim>\<open>range\<close> loop visits, which Go leaves open; theorems quantify over the list,
    so they hold for every order. A nil map reads and ranges like an empty one and is \<open>[]\<close>.
  \<^item> A function returning \<^verbatim>\<open>(T, error)\<close> has type \<open>'e + 't\<close> (\<^const>\<open>Inl\<close> the error), a
    function returning \<^verbatim>\<open>error\<close> alone has type \<open>'e option\<close> (\<^const>\<open>None\<close> is nil).
\<close>

section \<open>Collections of facts\<close>

named_theorems str_simps "string helpers"
named_theorems gomap_simps "Go map operations"
named_theorems cfg_simps "workspace configuration"
named_theorems fs_simps "file system operations"

section \<open>Strings\<close>

definition HasPrefix :: "string \<Rightarrow> string \<Rightarrow> bool" where
  "HasPrefix s p \<longleftrightarrow> take (length p) s = p"

definition HasSuffix :: "string \<Rightarrow> string \<Rightarrow> bool" where
  "HasSuffix s p \<longleftrightarrow> length p \<le> length s \<and> drop (length s - length p) s = p"

definition TrimPrefix :: "string \<Rightarrow> string \<Rightarrow> string" where
  "TrimPrefix s p = (if HasPrefix s p then drop (length p) s else s)"

definition TrimSuffix :: "string \<Rightarrow> string \<Rightarrow> string" where
  "TrimSuffix s p = (if HasSuffix s p then take (length s - length p) s else s)"

text \<open>\<^verbatim>\<open>strings.Contains\<close> with a one-byte and with a longer pattern.\<close>

definition ContainsByte :: "string \<Rightarrow> char \<Rightarrow> bool" where
  "ContainsByte s c \<longleftrightarrow> List.member s c"

fun Contains :: "string \<Rightarrow> string \<Rightarrow> bool" where
  "Contains [] p = (p = [])"
| "Contains (c # s) p = (HasPrefix (c # s) p \<or> Contains s p)"

text \<open>\<^verbatim>\<open>strings.Index\<close> of a byte as the pair of parts before and after it, if it occurs.\<close>

fun cut_first :: "char \<Rightarrow> string \<Rightarrow> (string \<times> string) option" where
  "cut_first c [] = None"
| "cut_first c (d # s) =
     (if d = c then Some ([], s)
      else map_option (\<lambda>(a, b). (d # a, b)) (cut_first c s))"

text \<open>\<^verbatim>\<open>strings.LastIndex\<close> of a byte, as the parts before and after the last occurrence.\<close>

fun cut_last :: "char \<Rightarrow> string \<Rightarrow> (string \<times> string) option" where
  "cut_last c [] = None"
| "cut_last c (d # s) =
     (case cut_last c s of
        Some (a, b) \<Rightarrow> Some (d # a, b)
      | None \<Rightarrow> if d = c then Some ([], s) else None)"

text \<open>\<^verbatim>\<open>strings.Split\<close> on a one-byte separator: never empty.\<close>

fun Split :: "char \<Rightarrow> string \<Rightarrow> string list" where
  "Split c [] = [[]]"
| "Split c (d # s) =
     (if d = c then [] # Split c s
      else (case Split c s of [] \<Rightarrow> [[d]] | w # ws \<Rightarrow> (d # w) # ws))"

fun Join :: "string \<Rightarrow> string list \<Rightarrow> string" where
  "Join sep [] = []"
| "Join sep [w] = w"
| "Join sep (w # v # ws) = w @ sep @ Join sep (v # ws)"

text \<open>
  \<^verbatim>\<open>strings.TrimSpace\<close> on ASCII white space (tab, line feed, vertical tab, form feed,
  carriage return, blank).
\<close>

definition is_space :: "char \<Rightarrow> bool" where
  "is_space c \<longleftrightarrow> c = CHR 0x20 \<or> c = CHR 0x09 \<or> c = CHR 0x0A \<or> c = CHR 0x0B \<or> c = CHR 0x0C \<or> c = CHR 0x0D"

definition TrimSpace :: "string \<Rightarrow> string" where
  "TrimSpace s = rev (dropWhile is_space (rev (dropWhile is_space s)))"

definition TrimRightByte :: "char \<Rightarrow> string \<Rightarrow> string" where
  "TrimRightByte c s = rev (dropWhile (\<lambda>d. d = c) (rev s))"

definition ReplaceByte :: "char \<Rightarrow> char \<Rightarrow> string \<Rightarrow> string" where
  "ReplaceByte a b s = map (\<lambda>c. if c = a then b else c) s"

definition is_digit :: "char \<Rightarrow> bool" where
  "is_digit c \<longleftrightarrow> CHR ''0'' \<le> c \<and> c \<le> CHR ''9''"

definition is_lower :: "char \<Rightarrow> bool" where
  "is_lower c \<longleftrightarrow> CHR ''a'' \<le> c \<and> c \<le> CHR ''z''"

definition is_upper :: "char \<Rightarrow> bool" where
  "is_upper c \<longleftrightarrow> CHR ''A'' \<le> c \<and> c \<le> CHR ''Z''"

subsection \<open>Lemmas on strings\<close>

lemma HasPrefix_append [simp]: "HasPrefix (p @ s) p"
  by (simp add: HasPrefix_def)

lemma HasPrefix_Nil [simp]: "HasPrefix s []"
  by (simp add: HasPrefix_def)

lemma HasPrefix_empty [simp]: "HasPrefix [] p \<longleftrightarrow> p = []"
  by (auto simp: HasPrefix_def)

lemma HasPrefix_Cons [simp]: "HasPrefix (c # s) (d # p) \<longleftrightarrow> c = d \<and> HasPrefix s p"
  by (auto simp: HasPrefix_def)

lemma HasPrefix_iff: "HasPrefix s p \<longleftrightarrow> (\<exists>t. s = p @ t)"
  by (metis HasPrefix_append HasPrefix_def append_take_drop_id)

lemma TrimPrefix_append [simp]: "TrimPrefix (p @ s) p = s"
  by (simp add: TrimPrefix_def)

lemma HasSuffix_append [simp]: "HasSuffix (s @ p) p"
  by (simp add: HasSuffix_def)

lemma HasSuffix_iff: "HasSuffix s p \<longleftrightarrow> (\<exists>t. s = t @ p)"
  by (metis HasSuffix_append HasSuffix_def append_take_drop_id)

lemma ContainsByte_iff [simp]: "ContainsByte s c \<longleftrightarrow> c \<in> set s"
  by (simp add: ContainsByte_def)

lemma Contains_Nil [simp]: "Contains s []"
  by (cases s) simp_all

lemma Contains_iff: "Contains s p \<longleftrightarrow> (\<exists>a b. s = a @ p @ b)"
proof (induction s)
  case Nil
  then show ?case by auto
next
  case (Cons c s)
  show ?case
  proof
    assume "Contains (c # s) p"
    then consider "HasPrefix (c # s) p" | "Contains s p" by auto
    then show "\<exists>a b. c # s = a @ p @ b"
    proof cases
      case 1
      then show ?thesis by (metis HasPrefix_iff append_Nil)
    next
      case 2
      then obtain a b where "s = a @ p @ b" using Cons.IH by blast
      then have "c # s = (c # a) @ p @ b" by simp
      then show ?thesis by blast
    qed
  next
    assume "\<exists>a b. c # s = a @ p @ b"
    then obtain a b where ab: "c # s = a @ p @ b" by blast
    show "Contains (c # s) p"
    proof (cases a)
      case Nil
      with ab have "HasPrefix (c # s) p" by (metis HasPrefix_append append_Nil)
      then show ?thesis by simp
    next
      case (Cons d a')
      with ab have "s = a' @ p @ b" by simp
      with Cons.IH show ?thesis by auto
    qed
  qed
qed

lemma cut_first_None [simp]: "cut_first c s = None \<longleftrightarrow> c \<notin> set s"
  by (induction s) auto

lemma cut_first_append [simp]: "c \<notin> set a \<Longrightarrow> cut_first c (a @ c # b) = Some (a, b)"
  by (induction a) auto

lemma cut_first_SomeD: "cut_first c s = Some (a, b) \<Longrightarrow> s = a @ c # b \<and> c \<notin> set a"
  by (induction s arbitrary: a) (auto split: if_splits)

lemma cut_last_None [simp]: "cut_last c s = None \<longleftrightarrow> c \<notin> set s"
  by (induction s) (auto split: option.splits)

lemma cut_last_append [simp]: "c \<notin> set b \<Longrightarrow> cut_last c (a @ c # b) = Some (a, b)"
proof (induction a)
  case Nil
  then have "cut_last c b = None" by (simp only: cut_last_None not_False_eq_True)
  then show ?case by (simp del: cut_last_None)
next
  case (Cons d a)
  then show ?case by simp
qed

lemma cut_last_SomeD: "cut_last c s = Some (a, b) \<Longrightarrow> s = a @ c # b \<and> c \<notin> set b"
  by (induction s arbitrary: a) (auto split: option.splits if_splits)

lemma Split_nonempty [simp]: "Split c s \<noteq> []"
  by (induction s) (auto split: list.splits)

lemma Split_parts: "w \<in> set (Split c s) \<Longrightarrow> c \<notin> set w"
  by (induction s arbitrary: w) (auto split: list.splits if_splits)

lemma Join_Split: "Join [c] (Split c s) = s"
proof (induction s)
  case (Cons d s)
  then show ?case
    by (cases "Split c s"; cases "tl (Split c s)") (auto split: list.splits)
qed simp

lemma Split_no_sep: "c \<notin> set s \<Longrightarrow> Split c s = [s]"
  by (induction s) auto

lemma Split_append: "c \<notin> set a \<Longrightarrow> Split c (a @ c # s) = a # Split c s"
  by (induction a) auto

lemma Split_Join:
  "ws \<noteq> [] \<Longrightarrow> (\<forall>w \<in> set ws. c \<notin> set w) \<Longrightarrow> Split c (Join [c] ws) = ws"
  by (induction "[c]" ws rule: Join.induct) (simp_all add: Split_no_sep Split_append)

lemma Split_append_two: "\<exists>w ws. Split c (a @ c # s) = w # ws \<and> ws \<noteq> [] \<and> last ws = last (Split c s)"
  by (induction a) auto

lemma last_Split_append: "c \<notin> set b \<Longrightarrow> last (Split c (a @ c # b)) = b"
  using Split_append_two[of c a b] by (auto simp: Split_no_sep)

lemma TrimSpace_id:
  "s = [] \<or> (\<not> is_space (hd s) \<and> \<not> is_space (last s)) \<Longrightarrow> TrimSpace s = s"
proof (cases s)
  case Nil then show ?thesis by (simp add: TrimSpace_def)
next
  case (Cons c t)
  moreover assume "s = [] \<or> (\<not> is_space (hd s) \<and> \<not> is_space (last s))"
  ultimately have h: "\<not> is_space (hd s)" "\<not> is_space (last s)" "s \<noteq> []" by auto
  then have 1: "dropWhile is_space s = s" by (cases s) auto
  from h have "dropWhile is_space (rev s) = rev s"
    by (metis dropWhile_eq_self_iff hd_rev)
  with 1 show ?thesis by (simp add: TrimSpace_def)
qed

lemma TrimSpace_no_space: "(\<forall>c \<in> set s. \<not> is_space c) \<Longrightarrow> TrimSpace s = s"
  by (rule TrimSpace_id) (cases s, auto)

lemma dropWhile_rev_idem: "dropWhile P (rev (dropWhile P (rev (dropWhile P s)))) =
    rev (dropWhile P (rev (dropWhile P s)))"
proof -
  define t where "t = dropWhile P s"
  have t: "t = [] \<or> \<not> P (hd t)" unfolding t_def by (metis hd_dropWhile)
  define u where "u = rev (dropWhile P (rev t))"
  have "\<exists>v. t = u @ v" unfolding u_def
    by (metis rev_append rev_rev_ident takeWhile_dropWhile_id)
  then have "u = [] \<or> \<not> P (hd u)" using t by (cases u) auto
  then have "dropWhile P u = u" by (cases u) auto
  then show ?thesis by (simp add: u_def t_def)
qed

lemma TrimSpace_idem [simp]: "TrimSpace (TrimSpace s) = TrimSpace s"
proof -
  have "dropWhile is_space (TrimSpace s) = TrimSpace s"
    unfolding TrimSpace_def by (rule dropWhile_rev_idem)
  then have "TrimSpace (TrimSpace s) = rev (dropWhile is_space (rev (TrimSpace s)))"
    unfolding TrimSpace_def by simp
  also have "\<dots> = TrimSpace s"
    unfolding TrimSpace_def by simp
  finally show ?thesis .
qed

section \<open>Decimal numbers\<close>

text \<open>\<^verbatim>\<open>%d\<close> of a non-negative number and the decimal digits \<^verbatim>\<open>strconv.Atoi\<close> accepts.\<close>

definition digit_char :: "nat \<Rightarrow> char" where
  "digit_char n = char_of (48 + n)"

function show_nat :: "nat \<Rightarrow> string" where
  "show_nat n = (if n < 10 then [digit_char n] else show_nat (n div 10) @ [digit_char (n mod 10)])"
  by auto
termination by (relation "measure id") auto

declare show_nat.simps [simp del]

definition digit_val :: "char \<Rightarrow> nat" where
  "digit_val c = of_char c - 48"

fun read_digits :: "nat \<Rightarrow> string \<Rightarrow> nat option" where
  "read_digits acc [] = Some acc"
| "read_digits acc (c # s) = (if is_digit c then read_digits (10 * acc + digit_val c) s else None)"

text \<open>
  \<^verbatim>\<open>strconv.Atoi\<close> on a 64-bit platform: an optional sign, at least one digit, and a range
  check; any failure is the error.
\<close>

definition Atoi :: "string \<Rightarrow> int option" where
  "Atoi s =
    (let (neg, ds) = (case s of
            [] \<Rightarrow> (False, [])
          | c # t \<Rightarrow> if c = CHR ''-'' then (True, t) else if c = CHR ''+'' then (False, t) else (False, s))
     in if ds = [] then None
        else (case read_digits 0 ds of
            None \<Rightarrow> None
          | Some n \<Rightarrow>
             if neg then (if int n \<le> 2 ^ 63 then Some (- int n) else None)
             else (if int n < 2 ^ 63 then Some (int n) else None)))"

lemma of_char_digit_char [simp]: "n < 10 \<Longrightarrow> of_char (digit_char n) = 48 + n"
  by (simp add: digit_char_def)

lemma digit_val_digit_char [simp]: "n < 10 \<Longrightarrow> digit_val (digit_char n) = n"
  by (simp add: digit_val_def)

lemma is_digit_digit_char [simp]: "n < 10 \<Longrightarrow> is_digit (digit_char n)"
  by (simp add: is_digit_def less_eq_char_def)

lemma read_digits_append:
  "read_digits a (xs @ ys) = Option.bind (read_digits a xs) (\<lambda>b. read_digits b ys)"
  by (induction xs arbitrary: a) auto

lemma read_show_nat [simp]: "read_digits 0 (show_nat n) = Some n"
proof (induction n rule: show_nat.induct)
  case (1 n)
  show ?case
  proof (cases "n < 10")
    case True
    then show ?thesis by (simp add: show_nat.simps[of n])
  next
    case False
    with 1 have "read_digits 0 (show_nat (n div 10)) = Some (n div 10)" by simp
    with False show ?thesis
      by (simp add: show_nat.simps[of n] read_digits_append)
  qed
qed

lemma show_nat_inj: "show_nat m = show_nat n \<Longrightarrow> m = n"
  by (metis option.inject read_show_nat)

lemma show_nat_digits: "c \<in> set (show_nat n) \<Longrightarrow> is_digit c"
proof (induction n rule: show_nat.induct)
  case (1 n)
  then show ?case by (cases "n < 10") (auto simp: show_nat.simps[of n])
qed

lemma show_nat_nonempty [simp]: "show_nat n \<noteq> []"
  by (subst show_nat.simps) simp

section \<open>Loops that stop at the first error\<close>

fun first_err :: "('a \<Rightarrow> 'e option) \<Rightarrow> 'a list \<Rightarrow> 'e option" where
  "first_err f [] = None"
| "first_err f (x # xs) = (case f x of Some e \<Rightarrow> Some e | None \<Rightarrow> first_err f xs)"

lemma first_err_None [simp]: "first_err f xs = None \<longleftrightarrow> (\<forall>x \<in> set xs. f x = None)"
  by (induction xs) (auto split: option.splits)

lemma first_err_SomeD:
  "first_err f xs = Some e \<Longrightarrow> \<exists>ys x zs. xs = ys @ x # zs \<and> f x = Some e \<and> (\<forall>y \<in> set ys. f y = None)"
proof (induction xs)
  case (Cons x xs)
  show ?case
  proof (cases "f x")
    case None
    with Cons obtain ys y zs where "xs = ys @ y # zs" "f y = Some e" "\<forall>z \<in> set ys. f z = None"
      by auto
    with None show ?thesis by (intro exI[of _ "x # ys"]) auto
  next
    case (Some e')
    with Cons.prems show ?thesis by (intro exI[of _ "[]"]) auto
  qed
qed simp

fun map_res :: "('a \<Rightarrow> 'e + 'b) \<Rightarrow> 'a list \<Rightarrow> 'e + 'b list" where
  "map_res f [] = Inr []"
| "map_res f (x # xs) = (case f x of Inl e \<Rightarrow> Inl e
     | Inr y \<Rightarrow> (case map_res f xs of Inl e \<Rightarrow> Inl e | Inr ys \<Rightarrow> Inr (y # ys)))"

lemma map_res_Inr_iff: "map_res f xs = Inr ys \<longleftrightarrow> list_all2 (\<lambda>x y. f x = Inr y) xs ys"
proof (induction xs arbitrary: ys)
  case (Cons x xs)
  show ?case
    by (cases "f x") (auto simp: list_all2_Cons1 Cons.IH[symmetric] split: sum.splits)
qed auto

text \<open>Two results in sequence, and the error of the first that fails.\<close>

definition err_seq :: "'e option \<Rightarrow> 'e option \<Rightarrow> 'e option" where
  "err_seq a b = (case a of Some e \<Rightarrow> Some e | None \<Rightarrow> b)"

lemma err_seq_None [simp]: "err_seq a b = None \<longleftrightarrow> a = None \<and> b = None"
  by (auto simp: err_seq_def split: option.splits)

section \<open>Go maps\<close>

text \<open>
  What the program relies on when it uses a built-in map: reading after a write or a delete,
  and that the keys of a map are exactly those that read. A property of the values is then
  kept by every write of a good value and by every delete.
\<close>

locale go_map =
  fixes get :: "'m \<Rightarrow> 'k \<Rightarrow> 'v option"
    and put :: "'k \<Rightarrow> 'v \<Rightarrow> 'm \<Rightarrow> 'm"
    and del :: "'k \<Rightarrow> 'm \<Rightarrow> 'm"
    and entries :: "'m \<Rightarrow> ('k \<times> 'v) list"
    and wf :: "'m \<Rightarrow> bool"
  assumes get_put: "get (put k v m) = (get m)(k \<mapsto> v)"
    and get_del: "get (del k m) = (get m)(k := None)"
    and get_entries: "wf m \<Longrightarrow> get m k = Some v \<longleftrightarrow> (k, v) \<in> set (entries m)"
    and wf_put: "wf m \<Longrightarrow> wf (put k v m)"
    and wf_del: "wf m \<Longrightarrow> wf (del k m)"
begin

definition all_vals :: "('k \<Rightarrow> 'v \<Rightarrow> bool) \<Rightarrow> 'm \<Rightarrow> bool" where
  "all_vals P m \<longleftrightarrow> (\<forall>k v. get m k = Some v \<longrightarrow> P k v)"

lemma all_vals_put: "all_vals P m \<Longrightarrow> P k v \<Longrightarrow> all_vals P (put k v m)"
  by (auto simp: all_vals_def get_put)

lemma all_vals_del: "all_vals P m \<Longrightarrow> all_vals P (del k m)"
  by (auto simp: all_vals_def get_del)

lemma all_vals_entries: "wf m \<Longrightarrow> all_vals P m \<longleftrightarrow> (\<forall>(k, v) \<in> set (entries m). P k v)"
  by (auto simp: all_vals_def get_entries)

lemma put_commute: "k \<noteq> k' \<Longrightarrow> get (put k v (put k' v' m)) = get (put k' v' (put k v m))"
  by (simp add: get_put fun_upd_twist)

lemma put_put_same: "get (put k v (put k v' m)) = get (put k v m)"
  by (simp add: get_put)

lemma del_put_same: "get (del k (put k v m)) = get (del k m)"
  by (simp add: get_del get_put)

end

text \<open>The association lists of the model provide that interface.\<close>

type_synonym ('k, 'v) gomap = "('k \<times> 'v) list"

definition go_get :: "('k, 'v) gomap \<Rightarrow> 'k \<Rightarrow> 'v option" where
  "go_get m k = map_of m k"

definition go_put :: "'k \<Rightarrow> 'v \<Rightarrow> ('k, 'v) gomap \<Rightarrow> ('k, 'v) gomap" where
  "go_put k v m = AList.update k v m"

definition go_del :: "'k \<Rightarrow> ('k, 'v) gomap \<Rightarrow> ('k, 'v) gomap" where
  "go_del k m = AList.delete k m"

definition go_wf :: "('k, 'v) gomap \<Rightarrow> bool" where
  "go_wf m \<longleftrightarrow> distinct (map fst m)"

interpretation gm: go_map go_get go_put go_del "\<lambda>m. m" go_wf
proof unfold_locales
  show "go_get (go_put k v m) = (go_get m)(k \<mapsto> v)" for k v and m :: "('a \<times> 'b) list"
    by (rule ext) (simp add: go_get_def go_put_def update_conv')
  show "go_get (go_del k m) = (go_get m)(k := None)" for k and m :: "('a \<times> 'b) list"
    by (rule ext) (simp add: go_get_def go_del_def delete_conv')
  show "go_wf m \<Longrightarrow> go_get m k = Some v \<longleftrightarrow> (k, v) \<in> set m" for k v and m :: "('a \<times> 'b) list"
    by (simp add: go_get_def go_wf_def)
  show "go_wf m \<Longrightarrow> go_wf (go_put k v m)" for k v and m :: "('a \<times> 'b) list"
    by (simp add: go_put_def go_wf_def distinct_update)
  show "go_wf m \<Longrightarrow> go_wf (go_del k m)" for k and m :: "('a \<times> 'b) list"
    by (simp add: go_del_def go_wf_def distinct_delete)
qed

lemmas go_get_put [simp, gomap_simps] = gm.get_put
lemmas go_get_del [simp, gomap_simps] = gm.get_del

lemma go_wf_Nil [simp]: "go_wf []"
  by (simp add: go_wf_def)

lemma go_get_Nil [simp]: "go_get [] k = None"
  by (simp add: go_get_def)

definition go_keys :: "('k, 'v) gomap \<Rightarrow> 'k list" where
  "go_keys m = map fst m"

definition go_has :: "('k, 'v) gomap \<Rightarrow> 'k \<Rightarrow> bool" where
  "go_has m k = (go_get m k \<noteq> None)"

text \<open>\<^verbatim>\<open>m[k]\<close> of a string map: the zero value when the key is missing.\<close>

definition go_str :: "(string, string) gomap \<Rightarrow> string \<Rightarrow> string" where
  "go_str m k = (case go_get m k of Some v \<Rightarrow> v | None \<Rightarrow> [])"

lemma go_has_keys [simp]: "go_has m k \<longleftrightarrow> k \<in> set (go_keys m)"
  by (auto simp: go_has_def go_keys_def go_get_def map_of_eq_None_iff)

lemma go_has_get: "go_has m k \<longleftrightarrow> go_get m k \<noteq> None"
  by (simp add: go_has_def del: go_has_keys)

lemma go_keys_put [simp]: "set (go_keys (go_put k v m)) = insert k (set (go_keys m))"
  using dom_update[of k v m] by (simp add: go_keys_def go_put_def dom_map_of_conv_image_fst)

lemma go_keys_del [simp]: "set (go_keys (go_del k m)) = set (go_keys m) - {k}"
  by (simp add: go_keys_def go_del_def delete_keys)

lemma go_put_length: "go_wf m \<Longrightarrow> length (go_put k v m) = (if k \<in> set (go_keys m) then length m else Suc (length m))"
  unfolding go_put_def go_keys_def go_wf_def
  by (induction m) auto

section \<open>Sets kept as lists\<close>

text \<open>
  The \<^verbatim>\<open>seen\<close> loop: the first element of a list whose key was already there. It finds one
  exactly when the keys are not distinct.
\<close>

fun first_dup :: "'a set \<Rightarrow> 'a list \<Rightarrow> 'a option" where
  "first_dup seen [] = None"
| "first_dup seen (x # xs) = (if x \<in> seen then Some x else first_dup (insert x seen) xs)"

lemma first_dup_None: "first_dup seen xs = None \<longleftrightarrow> distinct xs \<and> set xs \<inter> seen = {}"
  by (induction xs arbitrary: seen) auto

text \<open>Sorting by an injective key forgets the order of the input.\<close>

lemma sort_key_perm_eq:
  assumes "mset xs = mset ys" "inj_on f (set xs)"
  shows "sort_key f xs = sort_key f ys"
proof -
  have "mset (sort_key f xs) = mset (sort_key f ys)" using assms(1) by simp
  moreover have "sorted (map f (sort_key f xs))" "sorted (map f (sort_key f ys))" by simp_all
  moreover have "map f (sort_key f xs) = map f (sort_key f ys)"
    by (metis calculation(1) calculation(2) calculation(3) mset_map properties_for_sort sorted_sort_id)
  moreover have "set (sort_key f ys) = set xs" using assms(1) by (metis set_sort mset_eq_setD)
  ultimately show ?thesis
    using assms(2) by (intro map_inj_on[where f = f]) auto
qed

end
