(* ===== verification/OCI_Reference.thy ===== *)
theory OCI_Reference
  imports Prelude
begin

text \<open>
  The two vendored packages whose parsing rules decide what a policy URL means:
  \<^verbatim>\<open>opencontainers/go-digest\<close> (digest strings) and \<^verbatim>\<open>oras.land/oras-go/v2/registry\<close>
  (registry, repository, tag). The regular expressions of the sources are executable
  checkers here, and the registry check carries the host rules of \<^verbatim>\<open>net/url\<close> that
  \<^verbatim>\<open>ParseRequestURI\<close> applies to \<^verbatim>\<open>dummy://<registry>\<close> (Go 1.26: one optional port of digits
  after the first colon, the characters allowed unescaped in a host, and IPv6 literals in
  brackets).
\<close>

section \<open>Digests\<close>

datatype digest_err = ErrDigestInvalidFormat | ErrDigestInvalidLength | ErrDigestUnsupported

definition is_lhex :: "char \<Rightarrow> bool" where
  "is_lhex c \<longleftrightarrow> is_digit c \<or> (CHR ''a'' \<le> c \<and> c \<le> CHR ''f'')"

text \<open>The table of algorithms, with the size of the hash in bytes.\<close>

definition algorithms :: "(string, nat) gomap" where
  "algorithms = [(''sha256'', 32), (''sha384'', 48), (''sha512'', 64)]"

definition Algorithm_Validate :: "string \<Rightarrow> string \<Rightarrow> digest_err option" where
  "Algorithm_Validate a encoded =
    (case go_get algorithms a of
       None \<Rightarrow> Some ErrDigestUnsupported
     | Some sz \<Rightarrow>
         if sz * 2 \<noteq> length encoded then Some ErrDigestInvalidLength
         else if list_all is_lhex encoded then None
         else Some ErrDigestInvalidFormat)"

text \<open>
  \<^verbatim>\<open>DigestRegexpAnchored\<close>: alphanumeric algorithm parts joined by single separators, a colon, and a
  non-empty encoded part.
\<close>

definition is_lnum :: "char \<Rightarrow> bool" where
  "is_lnum c \<longleftrightarrow> is_lower c \<or> is_digit c"

fun alg_scan :: "bool \<Rightarrow> string \<Rightarrow> bool" where
  "alg_scan prev [] = prev"
| "alg_scan prev (c # s) =
    (if is_lnum c then alg_scan True s
     else prev \<and> c \<in> set ''.+_-'' \<and> alg_scan False s)"

definition DigestRegexpAnchored :: "string \<Rightarrow> bool" where
  "DigestRegexpAnchored s =
    (case cut_first CHR '':'' s of
       None \<Rightarrow> False
     | Some (a, e) \<Rightarrow> alg_scan False a \<and> e \<noteq> [] \<and>
         list_all (\<lambda>c. is_lnum c \<or> is_upper c \<or> c \<in> set ''=_-'') e)"

definition Digest_Validate :: "string \<Rightarrow> digest_err option" where
  "Digest_Validate s =
    (case cut_first CHR '':'' s of
       None \<Rightarrow> Some ErrDigestInvalidFormat
     | Some (a, e) \<Rightarrow>
         if a = [] \<or> e = [] then Some ErrDigestInvalidFormat
         else if \<not> go_has algorithms a then
           (if \<not> DigestRegexpAnchored s then Some ErrDigestInvalidFormat else Some ErrDigestUnsupported)
         else Algorithm_Validate a e)"

definition digest_Parse :: "string \<Rightarrow> digest_err + string" where
  "digest_Parse s = (case Digest_Validate s of None \<Rightarrow> Inr s | Some e \<Rightarrow> Inl e)"

abbreviation valid_digest :: "string \<Rightarrow> bool" where
  "valid_digest s \<equiv> Digest_Validate s = None"

lemma digest_Parse_Inr [simp]: "digest_Parse s = Inr d \<longleftrightarrow> valid_digest s \<and> d = s"
  by (auto simp: digest_Parse_def split: option.splits)

lemma isl_digest_Parse [simp]: "isl (digest_Parse s) \<longleftrightarrow> \<not> valid_digest s"
  by (auto simp: digest_Parse_def split: option.splits)

text \<open>A valid digest is one of the three algorithms, a colon, and lower-case hex of its size.\<close>

lemma valid_digest_iff:
  "valid_digest s \<longleftrightarrow>
    (\<exists>a n h. (a, n) \<in> {(''sha256'', 64), (''sha384'', 96), (''sha512'', 128)} \<and>
       s = a @ '':'' @ h \<and> length h = n \<and> list_all is_lhex h)"
proof
  assume v: "valid_digest s"
  then obtain a e where c: "cut_first CHR '':'' s = Some (a, e)"
    by (auto simp: Digest_Validate_def split: option.splits)
  then have s: "s = a @ '':'' @ e" by (auto dest: cut_first_SomeD)
  from v c have "(a, length e) \<in> {(''sha256'', 64), (''sha384'', 96), (''sha512'', 128)} \<and> list_all is_lhex e"
    by (auto simp: Digest_Validate_def Algorithm_Validate_def algorithms_def go_get_def go_keys_def
        split: if_splits option.splits)
  with s show "\<exists>a n h. (a, n) \<in> {(''sha256'', 64), (''sha384'', 96), (''sha512'', 128)} \<and>
       s = a @ '':'' @ h \<and> length h = n \<and> list_all is_lhex h" by blast
next
  assume "\<exists>a n h. (a, n) \<in> {(''sha256'', 64), (''sha384'', 96), (''sha512'', 128)} \<and>
       s = a @ '':'' @ h \<and> length h = n \<and> list_all is_lhex h"
  then obtain a n h where
    h: "(a, n) \<in> {(''sha256'', 64::nat), (''sha384'', 96), (''sha512'', 128)}"
       "s = a @ CHR '':'' # h" "length h = n" "list_all is_lhex h" by auto
  then have "CHR '':'' \<notin> set a" by auto
  then have "cut_first CHR '':'' s = Some (a, h)" using h by simp
  moreover have "h \<noteq> []" using h by auto
  ultimately show "valid_digest s" using h
    by (auto simp: Digest_Validate_def Algorithm_Validate_def algorithms_def go_get_def go_keys_def)
qed

lemma valid_digest_colon: "valid_digest s \<Longrightarrow> CHR '':'' \<in> set s"
  by (auto simp: valid_digest_iff)

lemma valid_digest_nonempty [simp]: "\<not> valid_digest []"
  by (simp add: Digest_Validate_def)

section \<open>OCI references\<close>

datatype oras_err =
    OMissingRegistryOrRepository
  | OInvalidRegistry string
  | OInvalidRepository string
  | OInvalidTag string
  | OInvalidDigest string digest_err

record Reference =
  rfRegistry :: string
  rfRepository :: string
  rfReference :: string

subsection \<open>Registry hosts\<close>

definition is_hex :: "char \<Rightarrow> bool" where
  "is_hex c \<longleftrightarrow> is_lhex c \<or> (CHR ''A'' \<le> c \<and> c \<le> CHR ''F'')"

definition ipv4_field :: "string \<Rightarrow> bool" where
  "ipv4_field f \<longleftrightarrow> f \<noteq> [] \<and> length f \<le> 3 \<and> (length f > 1 \<longrightarrow> hd f \<noteq> CHR ''0'') \<and>
     (case read_digits 0 f of None \<Rightarrow> False | Some n \<Rightarrow> n \<le> 255)"

definition ipv4_ok :: "string \<Rightarrow> bool" where
  "ipv4_ok s \<longleftrightarrow> length (Split CHR ''.'' s) = 4 \<and> list_all ipv4_field (Split CHR ''.'' s)"

definition hex_group :: "string \<Rightarrow> bool" where
  "hex_group g \<longleftrightarrow> g \<noteq> [] \<and> length g \<le> 4 \<and> list_all is_hex g"

text \<open>
  The number of 16-bit fields of a run of groups (a final IPv4 address fills two), or
  \<^const>\<open>None\<close> when a group is malformed.
\<close>

fun ipv6_fields :: "bool \<Rightarrow> string list \<Rightarrow> nat option" where
  "ipv6_fields v4 [] = Some 0"
| "ipv6_fields v4 [g] = (if hex_group g then Some 1 else if v4 \<and> ipv4_ok g then Some 2 else None)"
| "ipv6_fields v4 (g # h # gs) = (if hex_group g then map_option Suc (ipv6_fields v4 (h # gs)) else None)"

fun cut_dcolon :: "string \<Rightarrow> (string \<times> string) option" where
  "cut_dcolon (c # d # s) =
    (if c = CHR '':'' \<and> d = CHR '':'' then Some ([], s)
     else map_option (\<lambda>(a, b). (c # a, b)) (cut_dcolon (d # s)))"
| "cut_dcolon _ = None"

definition groups_of :: "string \<Rightarrow> string list" where
  "groups_of s = (if s = [] then [] else Split CHR '':'' s)"

definition ipv6_ok :: "string \<Rightarrow> bool" where
  "ipv6_ok s =
    (case cut_dcolon s of
       Some (a, b) \<Rightarrow>
         (case (ipv6_fields False (groups_of a), ipv6_fields True (groups_of b)) of
            (Some m, Some n) \<Rightarrow> m + n < 8
          | _ \<Rightarrow> False)
     | None \<Rightarrow> ipv6_fields True (groups_of s) = Some 8)"

definition host_char :: "char \<Rightarrow> bool" where
  "host_char c \<longleftrightarrow> is_lower c \<or> is_upper c \<or> is_digit c \<or> c \<in> set ''-_.~!$&()*+,;=:[]<>''
     \<or> c = CHR 0x22 \<or> c = CHR 0x27 \<or> CHR 0x80 \<le> c"

definition validOptionalPort :: "string \<Rightarrow> bool" where
  "validOptionalPort p = (case p of [] \<Rightarrow> True | c # ds \<Rightarrow> c = CHR '':'' \<and> list_all is_digit ds)"

definition valid_host :: "string \<Rightarrow> bool" where
  "valid_host h \<longleftrightarrow> h \<noteq> [] \<and> list_all host_char h \<and>
    (case cut_last CHR ''['' h of
       Some (pre, rest) \<Rightarrow> pre = [] \<and>
         (case cut_last CHR '']'' rest of
            None \<Rightarrow> False
          | Some (lit, port) \<Rightarrow> ipv6_ok lit \<and> validOptionalPort port)
     | None \<Rightarrow>
         (case cut_first CHR '':'' h of
            None \<Rightarrow> True
          | Some (_, ds) \<Rightarrow> list_all is_digit ds))"

subsection \<open>Repository and tag\<close>

definition sep_ok :: "string \<Rightarrow> bool" where
  "sep_ok sep \<longleftrightarrow> sep = ''.'' \<or> sep = ''_'' \<or> sep = ''__'' \<or> list_all (\<lambda>c. c = CHR ''-'') sep"

fun comp_scan :: "string \<Rightarrow> string \<Rightarrow> bool" where
  "comp_scan sep [] = (sep = [])"
| "comp_scan sep (c # s) =
    (if is_lnum c then sep_ok sep \<and> comp_scan [] s else comp_scan (sep @ [c]) s)"

definition repo_component :: "string \<Rightarrow> bool" where
  "repo_component s = (case s of [] \<Rightarrow> False | c # t \<Rightarrow> is_lnum c \<and> comp_scan [] t)"

definition repositoryRegexp :: "string \<Rightarrow> bool" where
  "repositoryRegexp s = list_all repo_component (Split CHR ''/'' s)"

definition is_word_char :: "char \<Rightarrow> bool" where
  "is_word_char c \<longleftrightarrow> is_lower c \<or> is_upper c \<or> is_digit c \<or> c = CHR ''_''"

definition tagRegexp :: "string \<Rightarrow> bool" where
  "tagRegexp s = (case s of [] \<Rightarrow> False | c # t \<Rightarrow>
     is_word_char c \<and> length t \<le> 127 \<and> list_all (\<lambda>d. is_word_char d \<or> d = CHR ''.'' \<or> d = CHR ''-'') t)"

definition ParseReference :: "string \<Rightarrow> oras_err + Reference" where
  "ParseReference artifact =
    (case cut_first CHR ''/'' artifact of
       None \<Rightarrow> Inl OMissingRegistryOrRepository
     | Some (registry, path) \<Rightarrow>
        (let (isTag, repository, reference) =
           (case cut_first CHR ''@'' path of
              Some (r, d) \<Rightarrow> (False, (case cut_first CHR '':'' r of Some (r', _) \<Rightarrow> r' | None \<Rightarrow> r), d)
            | None \<Rightarrow> (case cut_first CHR '':'' path of
                Some (r, t) \<Rightarrow> (True, r, t)
              | None \<Rightarrow> (False, path, [])))
         in if \<not> valid_host registry then Inl (OInvalidRegistry registry)
            else if \<not> repositoryRegexp repository then Inl (OInvalidRepository repository)
            else
              let ref = \<lparr>rfRegistry = registry, rfRepository = repository, rfReference = reference\<rparr>
              in if reference = [] then Inr ref
                 else if isTag then (if tagRegexp reference then Inr ref else Inl (OInvalidTag reference))
                 else (case Digest_Validate reference of
                         None \<Rightarrow> Inr ref
                       | Some e \<Rightarrow> Inl (OInvalidDigest reference e))))"

subsection \<open>Character facts\<close>

lemma sep_ok_chars: "sep_ok sep \<Longrightarrow> set sep \<subseteq> set ''._-''"
  by (auto simp: sep_ok_def list_all_iff)

lemma comp_scan_chars:
  "comp_scan sep s \<Longrightarrow> set sep \<subseteq> set ''._-'' \<and> (\<forall>c \<in> set s. is_lnum c \<or> c \<in> set ''._-'')"
  by (induction sep s rule: comp_scan.induct) (auto dest!: sep_ok_chars split: if_splits)

lemma repo_component_chars: "repo_component s \<Longrightarrow> c \<in> set s \<Longrightarrow> is_lnum c \<or> c \<in> set ''._-''"
  by (auto simp: repo_component_def split: list.splits dest!: comp_scan_chars)

lemma set_Split: "set s \<subseteq> {c} \<union> (\<Union>w \<in> set (Split c s). set w)"
proof (induction s)
  case (Cons d s)
  then show ?case by (cases "Split c s") (simp_all, blast+)
qed simp

lemma repositoryRegexp_chars:
  assumes "repositoryRegexp s" "c \<in> set s"
  shows "is_lnum c \<or> c \<in> set ''._-/''"
proof -
  from assms(2) set_Split[of s "CHR ''/''"] consider "c = CHR ''/''"
    | w where "w \<in> set (Split CHR ''/'' s)" "c \<in> set w" by auto
  then show ?thesis
    using assms(1) by cases (auto simp: repositoryRegexp_def list_all_iff dest!: repo_component_chars)
qed

lemma is_lnum_not [simp]:
  "\<not> is_lnum CHR ''@''" "\<not> is_lnum CHR '':''" "\<not> is_lnum CHR ''/''" "\<not> is_lnum CHR '' ''"
  by (simp_all add: is_lnum_def is_lower_def is_digit_def)

lemma repositoryRegexp_no_at: "repositoryRegexp s \<Longrightarrow> CHR ''@'' \<notin> set s"
  by (auto dest!: repositoryRegexp_chars)

lemma repositoryRegexp_no_colon: "repositoryRegexp s \<Longrightarrow> CHR '':'' \<notin> set s"
  by (auto dest!: repositoryRegexp_chars)

lemma repositoryRegexp_nonempty: "repositoryRegexp s \<Longrightarrow> s \<noteq> []"
  by (auto simp: repositoryRegexp_def repo_component_def)

lemma is_word_char_not [simp]:
  "\<not> is_word_char CHR ''@''" "\<not> is_word_char CHR '':''" "\<not> is_word_char CHR ''/''"
  by (simp_all add: is_word_char_def is_lower_def is_upper_def is_digit_def)

lemma tagRegexp_chars: "tagRegexp s \<Longrightarrow> c \<in> set s \<Longrightarrow> is_word_char c \<or> c = CHR ''.'' \<or> c = CHR ''-''"
  by (auto simp: tagRegexp_def list_all_iff split: list.splits)

lemma tagRegexp_no: "tagRegexp s \<Longrightarrow> CHR ''@'' \<notin> set s" "tagRegexp s \<Longrightarrow> CHR '':'' \<notin> set s"
    "tagRegexp s \<Longrightarrow> CHR ''/'' \<notin> set s"
  by (auto dest!: tagRegexp_chars)

lemma tagRegexp_nonempty [simp]: "\<not> tagRegexp []"
  by (simp add: tagRegexp_def)

lemma tag_not_digest: "tagRegexp t \<Longrightarrow> \<not> valid_digest t"
  using tagRegexp_no(2) valid_digest_colon by blast

lemma host_char_not [simp]: "\<not> host_char CHR ''@''" "\<not> host_char CHR ''/''" "\<not> host_char CHR '' ''"
  by (simp_all add: host_char_def is_lower_def is_upper_def is_digit_def)

lemma valid_host_no: "valid_host h \<Longrightarrow> CHR ''@'' \<notin> set h" "valid_host h \<Longrightarrow> CHR ''/'' \<notin> set h"
  by (auto simp: valid_host_def list_all_iff)

lemma valid_host_nonempty [simp]: "\<not> valid_host []"
  by (simp add: valid_host_def)

subsection \<open>What parsing gives\<close>

text \<open>The three valid forms of a reference to a good host and repository.\<close>

lemma ParseReference_plain:
  assumes "valid_host h" "repositoryRegexp r"
  shows "ParseReference (h @ ''/'' @ r) = Inr \<lparr>rfRegistry = h, rfRepository = r, rfReference = []\<rparr>"
  using assms valid_host_no(2)[of h] repositoryRegexp_no_at[of r] repositoryRegexp_no_colon[of r]
  by (simp add: ParseReference_def del: cut_first_None) (simp add: cut_first_None[THEN iffD2])

lemma ParseReference_tag:
  assumes "valid_host h" "repositoryRegexp r" "CHR ''@'' \<notin> set t"
  shows "ParseReference (h @ ''/'' @ r @ '':'' @ t) =
    (if t = [] \<or> tagRegexp t then Inr \<lparr>rfRegistry = h, rfRepository = r, rfReference = t\<rparr>
     else Inl (OInvalidTag t))"
  using assms valid_host_no(2)[of h] repositoryRegexp_no_at[of r] repositoryRegexp_no_colon[of r]
  by (simp add: ParseReference_def Let_def cut_first_None[THEN iffD2])

lemma ParseReference_digest:
  assumes "valid_host h" "repositoryRegexp r" "valid_digest d"
  shows "ParseReference (h @ ''/'' @ r @ ''@'' @ d) =
    Inr \<lparr>rfRegistry = h, rfRepository = r, rfReference = d\<rparr>"
  using assms valid_host_no(2)[of h] repositoryRegexp_no_at[of r] repositoryRegexp_no_colon[of r]
  by (auto simp: ParseReference_def Let_def cut_first_None[THEN iffD2])

lemma ParseReference_InrD:
  assumes "ParseReference s = Inr ref"
  shows "valid_host (rfRegistry ref)" "repositoryRegexp (rfRepository ref)"
    "rfReference ref = [] \<or> tagRegexp (rfReference ref) \<or> valid_digest (rfReference ref)"
  using assms by (auto simp: ParseReference_def Let_def split: option.splits prod.splits if_splits)

end
