(* ===== verification/Filepath.thy ===== *)
theory Filepath
  imports Prelude
begin

text \<open>
  The parts of Go's \<^verbatim>\<open>path/filepath\<close> (Unix) the program uses, on path strings, and the
  component lists that stand for absolute cleaned paths in the file system model.
\<close>

section \<open>Cleaning\<close>

text \<open>One component pushed on the (reversed) stack of output components.\<close>

fun clean_step :: "bool \<Rightarrow> string list \<Rightarrow> string \<Rightarrow> string list" where
  "clean_step rooted st c =
    (if c = [] \<or> c = ''.'' then st
     else if c = ''..'' then
       (case st of
          [] \<Rightarrow> if rooted then [] else [''..'']
        | t # ts \<Rightarrow> if t = ''..'' then ''..'' # st else ts)
     else c # st)"

definition clean_comps :: "bool \<Rightarrow> string list \<Rightarrow> string list" where
  "clean_comps rooted cs = rev (foldl (clean_step rooted) [] cs)"

definition IsAbs :: "string \<Rightarrow> bool" where
  "IsAbs p = HasPrefix p ''/''"

definition filepath_Clean :: "string \<Rightarrow> string" where
  "filepath_Clean p =
    (if p = [] then ''.''
     else if IsAbs p then ''/'' @ Join ''/'' (clean_comps True (Split CHR ''/'' p))
     else (let cs = clean_comps False (Split CHR ''/'' p)
           in if cs = [] then ''.'' else Join ''/'' cs))"

definition filepath_Join :: "string list \<Rightarrow> string" where
  "filepath_Join elems =
    (case dropWhile (\<lambda>e. e = []) elems of
       [] \<Rightarrow> []
     | es \<Rightarrow> filepath_Clean (Join ''/'' es))"

definition filepath_Base :: "string \<Rightarrow> string" where
  "filepath_Base p =
    (if p = [] then ''.''
     else let q = TrimRightByte CHR ''/'' p
          in if q = [] then ''/'' else last (Split CHR ''/'' q))"

definition filepath_Dir :: "string \<Rightarrow> string" where
  "filepath_Dir p = (case cut_last CHR ''/'' p of
     None \<Rightarrow> ''.''
   | Some (d, _) \<Rightarrow> filepath_Clean (d @ ''/''))"

section \<open>Normal component lists\<close>

definition plain_comp :: "string \<Rightarrow> bool" where
  "plain_comp c \<longleftrightarrow> c \<noteq> [] \<and> c \<noteq> ''.'' \<and> c \<noteq> ''..'' \<and> CHR ''/'' \<notin> set c"

text \<open>An absolute path: only plain components.\<close>

abbreviation abs_path :: "string list \<Rightarrow> bool" where
  "abs_path cs \<equiv> list_all plain_comp cs"

type_synonym path = "string list"

definition fp_join :: "path \<Rightarrow> string list \<Rightarrow> path" where
  "fp_join base elems = clean_comps True (base @ concat (map (Split CHR ''/'') elems))"

definition path_of :: "string \<Rightarrow> path" where
  "path_of p = clean_comps True (Split CHR ''/'' p)"

definition path_string :: "path \<Rightarrow> string" where
  "path_string cs = ''/'' @ Join ''/'' cs"

text \<open>A name used by a system call is relative to the working directory.\<close>

definition os_path :: "path \<Rightarrow> string \<Rightarrow> path" where
  "os_path cwd p = (if IsAbs p then path_of p else fp_join cwd [p])"

lemma clean_step_plain [simp]: "plain_comp c \<Longrightarrow> clean_step r st c = c # st"
  by (simp add: plain_comp_def)

declare clean_step.simps [simp del]

lemma foldl_clean_plain:
  "abs_path cs \<Longrightarrow> foldl (clean_step r) st cs = rev cs @ st"
  by (induction cs arbitrary: st) auto

lemma clean_comps_plain: "abs_path cs \<Longrightarrow> clean_comps r cs = cs"
  by (simp add: clean_comps_def foldl_clean_plain)

lemma clean_step_True_plain:
  "abs_path st \<Longrightarrow> CHR ''/'' \<notin> set c \<Longrightarrow> abs_path (clean_step True st c)"
  by (auto simp: clean_step.simps plain_comp_def split: list.splits)

lemma foldl_clean_True_plain:
  "abs_path st \<Longrightarrow> list_all (\<lambda>c. CHR ''/'' \<notin> set c) cs \<Longrightarrow> abs_path (foldl (clean_step True) st cs)"
  by (induction cs arbitrary: st) (auto simp: clean_step_True_plain)

lemma clean_comps_True_plain:
  "list_all (\<lambda>c. CHR ''/'' \<notin> set c) cs \<Longrightarrow> abs_path (clean_comps True cs)"
  using foldl_clean_True_plain[of "[]" cs] by (simp add: clean_comps_def)

lemma Split_no_slash: "list_all (\<lambda>w. c \<notin> set w) (Split c s)"
  by (auto simp: list_all_iff dest: Split_parts)

lemma fp_join_abs [intro]: "abs_path base \<Longrightarrow> abs_path (fp_join base elems)"
  unfolding fp_join_def
  by (rule clean_comps_True_plain) (auto simp: list_all_iff plain_comp_def dest: Split_parts)

lemma plain_comp_Split [simp]: "plain_comp c \<Longrightarrow> Split CHR ''/'' c = [c]"
  by (simp add: plain_comp_def Split_no_sep)

lemma concat_Split_plain: "list_all plain_comp es \<Longrightarrow> concat (map (Split CHR ''/'') es) = es"
  by (induction es) auto

text \<open>Joining plain components to an absolute path just appends them.\<close>

lemma fp_join_plain [simp]:
  "abs_path base \<Longrightarrow> list_all plain_comp es \<Longrightarrow> fp_join base es = base @ es"
  by (simp add: fp_join_def concat_Split_plain clean_comps_plain)

text \<open>The component \<^verbatim>\<open>.\<close> disappears and \<^verbatim>\<open>..\<close> removes what is before it.\<close>

lemma fp_join_dot: "abs_path base \<Longrightarrow> fp_join base [''.''] = base"
  by (simp add: fp_join_def clean_comps_def foldl_clean_plain clean_step.simps)

lemma fp_join_dotdot: "abs_path base \<Longrightarrow> plain_comp c \<Longrightarrow> fp_join (base @ [c]) [''..''] = base"
  by (simp add: fp_join_def clean_comps_def foldl_clean_plain clean_step.simps)
     (simp add: plain_comp_def)

lemma path_of_abs [simp, intro]: "abs_path (path_of p)"
  unfolding path_of_def by (rule clean_comps_True_plain) (rule Split_no_slash)

text \<open>Path strings and component lists of absolute paths correspond.\<close>

lemma path_of_path_string: "abs_path cs \<Longrightarrow> path_of (path_string cs) = cs"
proof (cases cs)
  case Nil
  then show ?thesis
    by (simp add: path_of_def path_string_def clean_comps_def clean_step.simps)
next
  case (Cons c cs')
  assume a: "abs_path cs"
  have "Split CHR ''/'' (Join ''/'' cs) = cs"
    using a Cons by (intro Split_Join) (auto simp: list_all_iff plain_comp_def)
  moreover have "clean_comps True cs = cs" using a by (rule clean_comps_plain)
  ultimately show ?thesis
    by (simp add: path_of_def path_string_def clean_comps_def clean_step.simps)
qed

lemma filepath_Clean_abs: "IsAbs p \<Longrightarrow> filepath_Clean p = path_string (path_of p)"
  by (auto simp: filepath_Clean_def path_string_def path_of_def IsAbs_def)

lemma filepath_Clean_abs_idem: "IsAbs p \<Longrightarrow> filepath_Clean (filepath_Clean p) = filepath_Clean p"
proof -
  assume a: "IsAbs p"
  have "IsAbs (path_string (path_of p))" by (simp add: IsAbs_def path_string_def)
  then show ?thesis
    using a by (simp add: filepath_Clean_abs path_of_path_string)
qed

text \<open>Relative paths: some \<^verbatim>\<open>..\<close> components, then plain ones.\<close>

definition rel_path :: "string list \<Rightarrow> bool" where
  "rel_path cs \<longleftrightarrow> (\<exists>n ps. cs = replicate n ''..'' @ ps \<and> abs_path ps)"

lemma rev_replicate_app: "rev (replicate n x) = replicate n x"
  by simp

lemma clean_step_False_rel:
  assumes "rel_path (rev st)" "CHR ''/'' \<notin> set c"
  shows "rel_path (rev (clean_step False st c))"
proof -
  from assms(1) obtain n ps where st: "rev st = replicate n ''..'' @ ps" "abs_path ps"
    by (auto simp: rel_path_def)
  then have st': "st = rev ps @ replicate n ''..''" by (metis rev_append rev_rev_ident rev_replicate)
  show ?thesis
  proof (cases "c = [] \<or> c = ''.''")
    case True
    then show ?thesis using assms(1) by (auto simp: clean_step.simps)
  next
    case nd: False
    show ?thesis
    proof (cases "c = ''..''")
      case False
      then have "plain_comp c" using nd assms(2) by (simp add: plain_comp_def)
      then have "rev (clean_step False st c) = replicate n ''..'' @ (ps @ [c])" "abs_path (ps @ [c])"
        using st by simp_all
      then show ?thesis unfolding rel_path_def by blast
    next
      case dd: True
      show ?thesis
      proof (cases ps rule: rev_cases)
        case Nil
        then have "clean_step False st c = replicate (Suc n) ''..''"
          using dd st' by (cases n) (auto simp: clean_step.simps)
        then have "rev (clean_step False st c) = replicate (Suc n) ''..'' @ []"
          by (metis append_Nil2 rev_replicate)
        then show ?thesis unfolding rel_path_def by (intro exI[of _ "Suc n"] exI[of _ "[]"]) simp
      next
        case (snoc qs q)
        then have "clean_step False st c = rev qs @ replicate n ''..''"
          using dd st' st(2) by (auto simp: clean_step.simps plain_comp_def)
        then have "rev (clean_step False st c) = replicate n ''..'' @ qs" "abs_path qs"
          using snoc st(2) by simp_all
        then show ?thesis unfolding rel_path_def by blast
      qed
    qed
  qed
qed

lemma clean_comps_False_rel:
  assumes "list_all (\<lambda>c. CHR ''/'' \<notin> set c) cs"
  shows "rel_path (clean_comps False cs)"
proof -
  have "rel_path (rev st) \<Longrightarrow> rel_path (rev (foldl (clean_step False) st cs))" for st
    using assms
  proof (induction cs arbitrary: st)
    case (Cons c cs)
    then show ?case using clean_step_False_rel[of st c] by simp
  qed simp
  moreover have "rel_path (rev [])" unfolding rel_path_def
    by (rule exI[of _ 0], rule exI[of _ "[]"]) simp
  ultimately show ?thesis unfolding clean_comps_def by blast
qed

lemma foldl_clean_dotdots:
  "foldl (clean_step False) (replicate m ''..'') (replicate n ''..'') = replicate (m + n) ''..''"
proof (induction n arbitrary: m)
  case (Suc n)
  have "clean_step False (replicate m ''..'') ''..'' = replicate (Suc m) ''..''"
    by (cases m) (simp_all add: clean_step.simps)
  then show ?case using Suc[of "Suc m"] by simp
qed simp

lemma clean_comps_rel: "rel_path cs \<Longrightarrow> clean_comps False cs = cs"
  using foldl_clean_dotdots[of 0]
  by (auto simp: rel_path_def clean_comps_def foldl_clean_plain)

lemma rel_path_comps: "rel_path cs \<Longrightarrow> c \<in> set cs \<Longrightarrow> c \<noteq> [] \<and> CHR ''/'' \<notin> set c"
proof -
  assume "rel_path cs" and c: "c \<in> set cs"
  then obtain n ps where "cs = replicate n ''..'' @ ps" "abs_path ps" unfolding rel_path_def by blast
  with c have "c = ''..'' \<or> plain_comp c" by (auto simp: list_all_iff)
  then show ?thesis by (elim disjE) (simp_all add: plain_comp_def)
qed

lemma Clean_dot: "filepath_Clean ''.'' = ''.''"
  by code_simp

lemma Join_starts: "\<exists>v. Join sep (w # ws) = w @ v"
  by (cases ws) auto

lemma Clean_rel: "\<not> IsAbs p \<Longrightarrow> filepath_Clean p =
    (if clean_comps False (Split CHR ''/'' p) = [] then ''.''
     else Join ''/'' (clean_comps False (Split CHR ''/'' p)))"
  by (cases "p = []") (simp_all add: filepath_Clean_def clean_comps_def clean_step.simps Let_def)

lemma Join_not_abs:
  assumes "w \<noteq> []" "CHR ''/'' \<notin> set w"
  shows "\<not> IsAbs (Join sep (w # ws))"
proof -
  obtain v where v: "Join sep (w # ws) = w @ v" using Join_starts by blast
  obtain c w' where "w = c # w'" using assms(1) by (cases w) simp_all
  then show ?thesis using assms(2) unfolding v IsAbs_def by auto
qed

lemma rel_path_Join:
  assumes rel: "rel_path cs" and ne: "cs \<noteq> []"
  shows "\<not> IsAbs (Join ''/'' cs)" "Split CHR ''/'' (Join ''/'' cs) = cs"
proof -
  obtain w ws where w: "cs = w # ws" using ne by (cases cs) simp_all
  then have "w \<noteq> [] \<and> CHR ''/'' \<notin> set w" using rel_path_comps[OF rel, of w] by simp
  then show "\<not> IsAbs (Join ''/'' cs)" unfolding w using Join_not_abs by blast
  have "\<forall>v \<in> set cs. CHR ''/'' \<notin> set v" using rel_path_comps[OF rel] by blast
  with ne show "Split CHR ''/'' (Join ''/'' cs) = cs" by (rule Split_Join)
qed

lemma filepath_Clean_rel_idem:
  assumes "\<not> IsAbs p"
  shows "filepath_Clean (filepath_Clean p) = filepath_Clean p"
proof -
  define cs where "cs = clean_comps False (Split CHR ''/'' p)"
  have rel: "rel_path cs" unfolding cs_def by (rule clean_comps_False_rel) (rule Split_no_slash)
  have c: "filepath_Clean p = (if cs = [] then ''.'' else Join ''/'' cs)"
    unfolding cs_def by (rule Clean_rel[OF assms])
  show ?thesis
  proof (cases "cs = []")
    case True
    then show ?thesis unfolding c by (simp add: Clean_dot)
  next
    case False
    have "filepath_Clean (Join ''/'' cs) = Join ''/'' cs"
      using False Clean_rel[OF rel_path_Join(1)[OF rel False]]
      by (simp only: rel_path_Join(2)[OF rel False] clean_comps_rel[OF rel] if_False)
    then show ?thesis unfolding c using False by (simp only: if_False)
  qed
qed

lemma filepath_Clean_idem [simp]: "filepath_Clean (filepath_Clean p) = filepath_Clean p"
  by (cases "IsAbs p") (rule filepath_Clean_abs_idem filepath_Clean_rel_idem, assumption)+

end
