(* ===== verification/Config.thy ===== *)
theory Config
  imports OCI_Reference Filepath
begin

text \<open>
  The workspace configuration (\<^verbatim>\<open>internal/complytime/config.go\<close>): its data, the parser of policy
  references with the \<^verbatim>\<open>@version\<close> convention, the expansion of \<^verbatim>\<open>${VAR}\<close> references, loading
  and validation. The process environment and what \<^verbatim>\<open>os.Stat\<close> and \<^verbatim>\<open>os.ReadFile\<close> answer are a
  record; the YAML parser is a parameter. \<^verbatim>\<open>Validate\<close> cleans the \<^verbatim>\<open>trusted_root\<close> paths it
  accepts in place, so the validating functions return the updated value beside the error.
\<close>

section \<open>Environment of the process\<close>

datatype stat_res = StatMissing | StatErr | StatFile | StatDir

datatype read_res = ReadMissing | ReadErr | ReadOK string

record osenv =
  osLookupEnv :: "(string, string) gomap"
  osStat :: "string \<Rightarrow> stat_res"
  osReadFile :: "string \<Rightarrow> read_res"
  osHomeDir :: "string option"
  osUserCacheDir :: "string option"
  osGetwd :: "string option"
  osGOOS :: string

definition stat_ok :: "osenv \<Rightarrow> string \<Rightarrow> bool" where
  "stat_ok os p \<longleftrightarrow> osStat os p = StatFile \<or> osStat os p = StatDir"

section \<open>Data\<close>

record VerificationConfig =
  vcIssuer :: string
  vcIdentity :: string
  vcKey :: string
  vcTrustedRoot :: string

record PolicyEntry =
  peURL :: string
  peID :: string
  peVerification :: "VerificationConfig option"
  peSkipVerify :: bool

record TargetConfig =
  tcID :: string
  tcPolicies :: "string list"
  tcVariables :: "(string, string) gomap"

record WorkspaceConfig =
  wcVersion :: int
  wcPolicies :: "PolicyEntry list"
  wcComplypacks :: "PolicyEntry list"
  wcTargets :: "TargetConfig list"
  wcVariables :: "(string, string) gomap"
  wcVerification :: "VerificationConfig option"

record PolicyRef =
  prRaw :: string
  prRegistry :: string
  prRepository :: string
  prTag :: string
  prDigest :: string

datatype cfg_err =
    EURLEmpty
  | EURLInvalidChars string
  | EURLNoRepository string
  | EURLNoHost string
  | ERootWithKey
  | EKeyAndKeyless
  | EIssuerNeedsIdentity
  | EIdentityNeedsIssuer
  | ERootNeedsKeyless
  | ERootNotFound string
  | ERefEmpty
  | ERefInvalid string oras_err
  | EConfigNotFound string
  | EConfigRead string
  | EConfigYAML string string
  | EUnsetEnv "string list"
  | ETargetVar string string cfg_err
  | EPolicyURL string cfg_err
  | EComplypackURL string cfg_err
  | EInvalidConfig string cfg_err
  | EVersion int
  | ENoPolicies
  | EEntry string cfg_err
  | EDuplicateURL string string
  | EDuplicateID string string
  | ESkipAndVerify string string
  | EEntryVerification string string cfg_err
  | ETargetIDEmpty
  | ETargetDuplicate string
  | ETargetNoPolicies string
  | ETargetUnknownPolicy string string
  | ETargetDuplicatePolicy string string
  | EMarshal
  | EWrite string
  | ENothingToSave
  | EHome
  | EAbs
  | EWsMissing string
  | EWsStat string
  | EWsNotDir string
  | ECacheDir
  | EDataDir
  | EConfigDetect string

section \<open>References\<close>

definition unsafeRefChars :: "char \<Rightarrow> bool" where
  "unsafeRefChars c \<longleftrightarrow> c \<in> set '';|&$!><(){}[]'' \<or> c = CHR 0x60 \<or> c = CHR 0x5C"

definition ValidateOCIRef :: "string \<Rightarrow> cfg_err option" where
  "ValidateOCIRef raw =
    (let s = TrimSpace raw in
     if s = [] then Some EURLEmpty
     else if list_ex unsafeRefChars s then Some (EURLInvalidChars s)
     else let stripped = TrimPrefix (TrimPrefix s ''https://'') ''http://'' in
       case cut_first CHR ''/'' stripped of
         None \<Rightarrow> Some (EURLNoRepository s)
       | Some (host, _) \<Rightarrow>
           if \<not> ContainsByte host CHR ''.'' \<and> \<not> ContainsByte host CHR '':'' then Some (EURLNoHost s)
           else None)"

definition VersionString :: "PolicyRef \<Rightarrow> string" where
  "VersionString r = (if prTag r \<noteq> [] then prTag r else prDigest r)"

text \<open>
  \<open>split_scheme\<close> is the stripping of the URL scheme; \<open>at_suffix\<close> the condition
  \<^verbatim>\<open>idx > 0 && idx < len(s)-1\<close> on the last \<^verbatim>\<open>@\<close>, as the two parts around it.
\<close>

definition split_scheme :: "string \<Rightarrow> string \<times> string" where
  "split_scheme s =
    (if HasPrefix s ''http://'' then (''http://'', TrimPrefix s ''http://'')
     else if HasPrefix s ''https://'' then (''https://'', TrimPrefix s ''https://'')
     else ([], s))"

definition at_suffix :: "string \<Rightarrow> (string \<times> string) option" where
  "at_suffix s = (case cut_last CHR ''@'' s of
     Some (a, b) \<Rightarrow> if a \<noteq> [] \<and> b \<noteq> [] then Some (a, b) else None
   | None \<Rightarrow> None)"

definition digest_suffix :: "string \<Rightarrow> bool" where
  "digest_suffix suffix \<longleftrightarrow> HasPrefix suffix ''sha256:'' \<or> HasPrefix suffix ''sha512:''"

text \<open>The rewriting of \<^verbatim>\<open>@version\<close> to \<^verbatim>\<open>:tag\<close>, and whether it happened.\<close>

definition convert_at :: "string \<Rightarrow> bool \<times> string" where
  "convert_at s = (case at_suffix s of
     Some (a, suffix) \<Rightarrow> if digest_suffix suffix then (False, s) else (True, a @ '':'' @ suffix)
   | None \<Rightarrow> (False, s))"

definition ParsePolicyRef :: "string \<Rightarrow> cfg_err + PolicyRef" where
  "ParsePolicyRef raw =
    (let s0 = TrimSpace raw;
         ref = \<lparr>prRaw = raw, prRegistry = [], prRepository = [], prTag = [], prDigest = []\<rparr> in
     if s0 = [] then Inl ERefEmpty
     else let (scheme, s) = split_scheme s0 in
       if \<not> ContainsByte s CHR ''/'' then
         (case at_suffix s of
            Some (a, suffix) \<Rightarrow>
              (case digest_Parse suffix of
                 Inr _ \<Rightarrow> Inr (ref\<lparr>prDigest := suffix, prRepository := a\<rparr>)
               | Inl _ \<Rightarrow> Inr (ref\<lparr>prTag := suffix, prRepository := a\<rparr>))
          | None \<Rightarrow> Inr (ref\<lparr>prRepository := s\<rparr>))
       else
         (case ParseReference (snd (convert_at s)) of
            Inl e \<Rightarrow> Inl (ERefInvalid raw e)
          | Inr orasRef \<Rightarrow>
             let ref1 = ref\<lparr>prRegistry := scheme @ rfRegistry orasRef, prRepository := rfRepository orasRef\<rparr> in
             if rfReference orasRef = [] then Inr ref1
             else (case digest_Parse (rfReference orasRef) of
                     Inr _ \<Rightarrow> Inr (ref1\<lparr>prDigest := rfReference orasRef\<rparr>)
                   | Inl _ \<Rightarrow> Inr (ref1\<lparr>prTag := rfReference orasRef\<rparr>))))"

text \<open>
  The process-wide \<^verbatim>\<open>deprecationWarned\<close> map: parsing a slash reference that needs the rewriting
  records the raw string and reports it for the warning on stderr, once.
\<close>

definition needs_warning :: "string \<Rightarrow> bool" where
  "needs_warning raw =
    (let s0 = TrimSpace raw; s = snd (split_scheme s0) in
     s0 \<noteq> [] \<and> ContainsByte s CHR ''/'' \<and> fst (convert_at s))"

definition ParsePolicyRef_io ::
    "(string, bool) gomap \<Rightarrow> string \<Rightarrow> (string, bool) gomap \<times> string list \<times> (cfg_err + PolicyRef)" where
  "ParsePolicyRef_io warned raw =
    (if needs_warning raw then
       (if go_get warned raw = Some True then (warned, [], ParsePolicyRef raw)
        else (go_put raw True warned, [raw], ParsePolicyRef raw))
     else (warned, [], ParsePolicyRef raw))"

definition EffectiveID :: "PolicyEntry \<Rightarrow> string" where
  "EffectiveID p =
    (if peID p \<noteq> [] then peID p
     else last (Split CHR ''/''
            (case ParsePolicyRef (peURL p) of Inr ref \<Rightarrow> prRepository ref | Inl _ \<Rightarrow> [])))"

definition FindPolicy :: "PolicyEntry list \<Rightarrow> string \<Rightarrow> PolicyEntry option" where
  "FindPolicy policies policyID = List.find (\<lambda>p. EffectiveID p = TrimSpace policyID) policies"

definition PolicyIDs :: "PolicyEntry list \<Rightarrow> (string, PolicyEntry) gomap" where
  "PolicyIDs policies = foldl (\<lambda>m p. go_put (EffectiveID p) p m) [] policies"

section \<open>Verification blocks\<close>

definition IsConfigured :: "VerificationConfig option \<Rightarrow> bool" where
  "IsConfigured v = (case v of None \<Rightarrow> False
     | Some c \<Rightarrow> vcKey c \<noteq> [] \<or> (vcIssuer c \<noteq> [] \<and> vcIdentity c \<noteq> []))"

definition ValidateVerificationConfig ::
    "osenv \<Rightarrow> VerificationConfig option \<Rightarrow> VerificationConfig option \<times> cfg_err option" where
  "ValidateVerificationConfig os v =
    (case v of None \<Rightarrow> (None, None)
     | Some c \<Rightarrow>
        let hasKeyless = (vcIssuer c \<noteq> [] \<or> vcIdentity c \<noteq> []);
            hasKeyed = (vcKey c \<noteq> []) in
        if vcTrustedRoot c \<noteq> [] \<and> hasKeyed then (v, Some ERootWithKey)
        else if hasKeyed \<and> hasKeyless then (v, Some EKeyAndKeyless)
        else if vcIssuer c \<noteq> [] \<and> vcIdentity c = [] then (v, Some EIssuerNeedsIdentity)
        else if vcIdentity c \<noteq> [] \<and> vcIssuer c = [] then (v, Some EIdentityNeedsIssuer)
        else if vcTrustedRoot c \<noteq> [] \<and> (vcIssuer c = [] \<or> vcIdentity c = []) then (v, Some ERootNeedsKeyless)
        else if vcTrustedRoot c \<noteq> [] then
          (let root = filepath_Clean (vcTrustedRoot c); c' = c\<lparr>vcTrustedRoot := root\<rparr> in
           if stat_ok os root then (Some c', None) else (Some c', Some (ERootNotFound root)))
        else (v, None))"

section \<open>Environment references\<close>

text \<open>
  \<^verbatim>\<open>envVarPattern.ReplaceAllStringFunc\<close>: the leftmost matches of \<^verbatim>\<open>\$\{([^}]+)\}\<close> are replaced, the
  replacement is not scanned again. The result is the replaced text with the missing names.
\<close>

definition env_match :: "string \<Rightarrow> (string \<times> string) option" where
  "env_match s = (case s of
     c # d # t \<Rightarrow>
       if c = CHR ''$'' \<and> d = CHR ''{'' then
         (case cut_first CHR ''}'' t of
            Some (name, rest) \<Rightarrow> if name \<noteq> [] then Some (name, rest) else None
          | None \<Rightarrow> None)
       else None
   | _ \<Rightarrow> None)"

lemma env_match_length: "env_match s = Some (name, rest) \<Longrightarrow> length rest < length s"
  by (auto simp: env_match_def dest!: cut_first_SomeD split: list.splits if_splits option.splits)

function expand_scan :: "(string, string) gomap \<Rightarrow> string \<Rightarrow> string \<times> string list" where
  "expand_scan env s =
    (case env_match s of
       Some (name, rest) \<Rightarrow>
         (let (out, missing) = expand_scan env rest in
          case go_get env name of
            Some v \<Rightarrow> (v @ out, missing)
          | None \<Rightarrow> (''${'' @ name @ ''}'' @ out, name # missing))
     | None \<Rightarrow>
         (case s of [] \<Rightarrow> ([], [])
          | c # t \<Rightarrow> (let (out, missing) = expand_scan env t in (c # out, missing))))"
  by auto
termination
  by (relation "measure (\<lambda>(env, s). length s)") (auto dest: env_match_length)

declare expand_scan.simps [simp del]

definition expandEnvRef :: "(string, string) gomap \<Rightarrow> string \<Rightarrow> cfg_err + string" where
  "expandEnvRef env s =
    (let (result, missing) = expand_scan env s in
     if missing \<noteq> [] then Inl (EUnsetEnv missing) else Inr result)"

definition resolve_var :: "osenv \<Rightarrow> string \<Rightarrow> string \<times> string \<Rightarrow> cfg_err + string \<times> string" where
  "resolve_var os tid kv = (case expandEnvRef (osLookupEnv os) (snd kv) of
     Inl e \<Rightarrow> Inl (ETargetVar tid (fst kv) e)
   | Inr v \<Rightarrow> Inr (fst kv, v))"

definition resolve_target :: "osenv \<Rightarrow> TargetConfig \<Rightarrow> cfg_err + TargetConfig" where
  "resolve_target os t = (case map_res (resolve_var os (tcID t)) (tcVariables t) of
     Inl e \<Rightarrow> Inl e
   | Inr vars \<Rightarrow> Inr (t\<lparr>tcVariables := vars\<rparr>))"

definition resolveEnvVars :: "osenv \<Rightarrow> WorkspaceConfig \<Rightarrow> cfg_err + WorkspaceConfig" where
  "resolveEnvVars os config = (case map_res (resolve_target os) (wcTargets config) of
     Inl e \<Rightarrow> Inl e
   | Inr ts \<Rightarrow> Inr (config\<lparr>wcTargets := ts\<rparr>))"

section \<open>Loading\<close>

definition parse_err :: "(string \<Rightarrow> cfg_err \<Rightarrow> cfg_err) \<Rightarrow> PolicyEntry \<Rightarrow> cfg_err option" where
  "parse_err wrap entry = (case ParsePolicyRef (peURL entry) of
     Inl e \<Rightarrow> Some (wrap (peURL entry) e) | Inr _ \<Rightarrow> None)"

definition validatePolicyRefs :: "WorkspaceConfig \<Rightarrow> cfg_err option" where
  "validatePolicyRefs config =
    err_seq (first_err (parse_err EPolicyURL) (wcPolicies config))
            (first_err (parse_err EComplypackURL) (wcComplypacks config))"

definition LoadFrom ::
    "(string \<Rightarrow> string + WorkspaceConfig) \<Rightarrow> osenv \<Rightarrow> string \<Rightarrow> cfg_err + WorkspaceConfig" where
  "LoadFrom yaml_Unmarshal os configPath =
    (case osReadFile os configPath of
       ReadMissing \<Rightarrow> Inl (EConfigNotFound configPath)
     | ReadErr \<Rightarrow> Inl (EConfigRead configPath)
     | ReadOK data \<Rightarrow>
        (case yaml_Unmarshal data of
           Inl e \<Rightarrow> Inl (EConfigYAML configPath e)
         | Inr config0 \<Rightarrow>
            (case resolveEnvVars os config0 of
               Inl e \<Rightarrow> Inl e
             | Inr config \<Rightarrow>
                (case validatePolicyRefs config of
                   Some e \<Rightarrow> Inl (EInvalidConfig configPath e)
                 | None \<Rightarrow>
                    (case ValidateVerificationConfig os (wcVerification config) of
                       (v, Some e) \<Rightarrow> Inl (EInvalidConfig configPath e)
                     | (v, None) \<Rightarrow> Inr (config\<lparr>wcVerification := v\<rparr>))))))"

section \<open>Validation\<close>

fun validateEntries_loop ::
    "osenv \<Rightarrow> string \<Rightarrow> string list \<Rightarrow> string list \<Rightarrow> PolicyEntry list \<Rightarrow> PolicyEntry list \<times> cfg_err option" where
  "validateEntries_loop os label seenURL seenID [] = ([], None)"
| "validateEntries_loop os label seenURL seenID (entry # rest) =
    (case ValidateOCIRef (peURL entry) of
       Some e \<Rightarrow> (entry # rest, Some (EEntry label e))
     | None \<Rightarrow>
        if peURL entry \<in> set seenURL then (entry # rest, Some (EDuplicateURL label (peURL entry)))
        else let eid = EffectiveID entry in
          if eid \<in> set seenID then (entry # rest, Some (EDuplicateID label eid))
          else if peSkipVerify entry \<and> IsConfigured (peVerification entry)
            then (entry # rest, Some (ESkipAndVerify label eid))
          else
            (case ValidateVerificationConfig os (peVerification entry) of
               (v, Some e) \<Rightarrow> (entry\<lparr>peVerification := v\<rparr> # rest, Some (EEntryVerification label eid e))
             | (v, None) \<Rightarrow>
                (let (rest', err) =
                   validateEntries_loop os label (peURL entry # seenURL) (eid # seenID) rest
                 in (entry\<lparr>peVerification := v\<rparr> # rest', err))))"

definition validateEntries ::
    "osenv \<Rightarrow> string \<Rightarrow> PolicyEntry list \<Rightarrow> PolicyEntry list \<times> cfg_err option" where
  "validateEntries os label entries = validateEntries_loop os label [] [] entries"

fun target_policies_loop ::
    "string \<Rightarrow> (string, PolicyEntry) gomap \<Rightarrow> string list \<Rightarrow> string list \<Rightarrow> cfg_err option" where
  "target_policies_loop tid lookup seen [] = None"
| "target_policies_loop tid lookup seen (pid # pids) =
    (if \<not> go_has lookup pid then Some (ETargetUnknownPolicy tid pid)
     else if pid \<in> set seen then Some (ETargetDuplicatePolicy tid pid)
     else target_policies_loop tid lookup (pid # seen) pids)"

fun targets_loop :: "(string, PolicyEntry) gomap \<Rightarrow> string list \<Rightarrow> TargetConfig list \<Rightarrow> cfg_err option" where
  "targets_loop lookup seen [] = None"
| "targets_loop lookup seen (t # ts) =
    (if tcID t = [] then Some ETargetIDEmpty
     else if tcID t \<in> set seen then Some (ETargetDuplicate (tcID t))
     else if tcPolicies t = [] then Some (ETargetNoPolicies (tcID t))
     else err_seq (target_policies_loop (tcID t) lookup [] (tcPolicies t))
                  (targets_loop lookup (tcID t # seen) ts))"

definition CurrentWorkspaceVersion :: int where
  "CurrentWorkspaceVersion = 1"

definition Validate :: "osenv \<Rightarrow> WorkspaceConfig \<Rightarrow> WorkspaceConfig \<times> cfg_err option" where
  "Validate os config =
    (if wcVersion config \<noteq> 0 \<and> wcVersion config \<noteq> CurrentWorkspaceVersion
     then (config, Some (EVersion (wcVersion config)))
     else if wcPolicies config = [] then (config, Some ENoPolicies)
     else case validateEntries os ''policies'' (wcPolicies config) of
       (ps, Some e) \<Rightarrow> (config\<lparr>wcPolicies := ps\<rparr>, Some e)
     | (ps, None) \<Rightarrow>
        (case validateEntries os ''complypacks'' (wcComplypacks config) of
           (cps, Some e) \<Rightarrow> (config\<lparr>wcPolicies := ps, wcComplypacks := cps\<rparr>, Some e)
         | (cps, None) \<Rightarrow>
            (case ValidateVerificationConfig os (wcVerification config) of
               (v, e) \<Rightarrow>
                let config' = config\<lparr>wcPolicies := ps, wcComplypacks := cps, wcVerification := v\<rparr> in
                (config', err_seq e (targets_loop (PolicyIDs ps) [] (wcTargets config'))))))"


section \<open>What validation accepts\<close>

text \<open>A consistent verification block: keyed, keyless or neither, and a root that exists.\<close>

definition verification_ok :: "osenv \<Rightarrow> VerificationConfig option \<Rightarrow> bool" where
  "verification_ok os v = (case v of None \<Rightarrow> True | Some c \<Rightarrow>
     (vcIssuer c = [] \<longleftrightarrow> vcIdentity c = []) \<and> (vcKey c \<noteq> [] \<longrightarrow> vcIssuer c = [] \<and> vcTrustedRoot c = []) \<and>
     (vcTrustedRoot c \<noteq> [] \<longrightarrow> vcIssuer c \<noteq> [] \<and> stat_ok os (filepath_Clean (vcTrustedRoot c))))"

definition entries_ok :: "osenv \<Rightarrow> PolicyEntry list \<Rightarrow> bool" where
  "entries_ok os es \<longleftrightarrow>
    distinct (map peURL es) \<and> distinct (map EffectiveID es) \<and>
    (\<forall>e \<in> set es. ValidateOCIRef (peURL e) = None \<and>
       \<not> (peSkipVerify e \<and> IsConfigured (peVerification e)) \<and> verification_ok os (peVerification e))"

definition config_ok :: "osenv \<Rightarrow> WorkspaceConfig \<Rightarrow> bool" where
  "config_ok os c \<longleftrightarrow>
    wcVersion c \<in> {0, CurrentWorkspaceVersion} \<and> wcPolicies c \<noteq> [] \<and>
    entries_ok os (wcPolicies c) \<and> entries_ok os (wcComplypacks c) \<and>
    verification_ok os (wcVerification c) \<and>
    distinct (map tcID (wcTargets c)) \<and>
    (\<forall>t \<in> set (wcTargets c). tcID t \<noteq> [] \<and> tcPolicies t \<noteq> [] \<and> distinct (tcPolicies t) \<and>
       set (tcPolicies t) \<subseteq> EffectiveID ` set (wcPolicies c))"

lemma ValidateVerificationConfig_ok [cfg_simps]:
  "snd (ValidateVerificationConfig os v) = None \<longleftrightarrow> verification_ok os v"
  by (cases v) (auto simp: ValidateVerificationConfig_def verification_ok_def Let_def)

lemma EffectiveID_verification [simp]: "EffectiveID (e\<lparr>peVerification := v\<rparr>) = EffectiveID e"
  by (simp add: EffectiveID_def)

lemma IsConfigured_clean [simp]:
  "IsConfigured (fst (ValidateVerificationConfig os v)) = IsConfigured v"
  by (cases v) (auto simp: ValidateVerificationConfig_def IsConfigured_def Let_def)

lemma ValidateVerificationConfig_cases:
  obtains (bad) v' e where "ValidateVerificationConfig os v = (v', Some e)" "\<not> verification_ok os v"
  | (good) v' where "ValidateVerificationConfig os v = (v', None)" "verification_ok os v"
  using ValidateVerificationConfig_ok[of os v]
  by (cases "ValidateVerificationConfig os v"; cases "snd (ValidateVerificationConfig os v)") auto

lemma validateEntries_loop_ok:
  "snd (validateEntries_loop os label su si es) = None \<longleftrightarrow>
     entries_ok os es \<and> set (map peURL es) \<inter> set su = {} \<and> set (map EffectiveID es) \<inter> set si = {}"
proof (induction es arbitrary: su si)
  case (Cons e es)
  show ?case
  proof (cases os "peVerification e" rule: ValidateVerificationConfig_cases)
    case (bad v' err)
    then show ?thesis
      by (auto simp: entries_ok_def Let_def split: option.splits)
  next
    case (good v')
    show ?thesis
      using good Cons.IH[of "peURL e # su" "EffectiveID e # si"]
      by (auto simp: entries_ok_def Let_def split: option.splits prod.splits)
  qed
qed (simp add: entries_ok_def)

lemma validateEntries_loop_map:
  "map EffectiveID (fst (validateEntries_loop os label su si es)) = map EffectiveID es \<and>
   map peURL (fst (validateEntries_loop os label su si es)) = map peURL es"
  by (induction es arbitrary: su si) (auto simp: Let_def case_prod_beta split: option.splits)

lemma target_policies_loop_ok:
  "target_policies_loop tid lookup seen pids = None \<longleftrightarrow>
     distinct pids \<and> set pids \<subseteq> set (go_keys lookup) \<and> set pids \<inter> set seen = {}"
  by (induction pids arbitrary: seen) auto

lemma targets_loop_ok:
  "targets_loop lookup seen ts = None \<longleftrightarrow>
     distinct (map tcID ts) \<and> set (map tcID ts) \<inter> set seen = {} \<and>
     (\<forall>t \<in> set ts. tcID t \<noteq> [] \<and> tcPolicies t \<noteq> [] \<and> distinct (tcPolicies t) \<and>
        set (tcPolicies t) \<subseteq> set (go_keys lookup))"
  by (induction ts arbitrary: seen) (auto simp: target_policies_loop_ok)

lemma PolicyIDs_keys [simp]: "set (go_keys (PolicyIDs ps)) = EffectiveID ` set ps"
proof -
  have "set (go_keys (foldl (\<lambda>m p. go_put (EffectiveID p) p m) m ps)) = set (go_keys m) \<union> EffectiveID ` set ps" for m
    by (induction ps arbitrary: m) auto
  from this[of "[]"] show ?thesis by (simp add: PolicyIDs_def go_keys_def)
qed

lemma EffectiveID_image: "map EffectiveID ps = map EffectiveID qs \<Longrightarrow> EffectiveID ` set ps = EffectiveID ` set qs"
  by (metis list.set_map)

lemma validateEntries_cases:
  obtains (bad) es' err where "validateEntries os label es = (es', Some err)" "\<not> entries_ok os es"
  | (good) es' where "validateEntries os label es = (es', None)" "entries_ok os es"
      "EffectiveID ` set es' = EffectiveID ` set es"
  using validateEntries_loop_ok[of os label "[]" "[]" es] validateEntries_loop_map[of os label "[]" "[]" es]
    EffectiveID_image[of "fst (validateEntries os label es)" es]
  by (cases "validateEntries os label es"; cases "snd (validateEntries os label es)")
     (auto simp: validateEntries_def)

lemma Validate_config_ok: "snd (Validate os c) = None \<longleftrightarrow> config_ok os c"
proof (cases "(wcVersion c \<noteq> 0 \<and> wcVersion c \<noteq> CurrentWorkspaceVersion) \<or> wcPolicies c = []")
  case True
  then show ?thesis by (auto simp: Validate_def config_ok_def)
next
  case ok: False
  show ?thesis
  proof (rule validateEntries_cases[where os = os and label = "''policies''" and es = "wcPolicies c"])
    fix es' err
    assume "validateEntries os ''policies'' (wcPolicies c) = (es', Some err)" "\<not> entries_ok os (wcPolicies c)"
    then show ?thesis using ok by (auto simp: Validate_def config_ok_def)
  next
    fix ps
    assume p: "validateEntries os ''policies'' (wcPolicies c) = (ps, None)" "entries_ok os (wcPolicies c)"
      "EffectiveID ` set ps = EffectiveID ` set (wcPolicies c)"
    show ?thesis
    proof (rule validateEntries_cases[where os = os and label = "''complypacks''" and es = "wcComplypacks c"])
      fix es' err
      assume "validateEntries os ''complypacks'' (wcComplypacks c) = (es', Some err)"
        "\<not> entries_ok os (wcComplypacks c)"
      then show ?thesis using ok p by (auto simp: Validate_def config_ok_def)
    next
      fix cps
      assume "validateEntries os ''complypacks'' (wcComplypacks c) = (cps, None)" "entries_ok os (wcComplypacks c)"
      then show ?thesis
        using ok p ValidateVerificationConfig_ok[of os "wcVerification c"]
        by (cases "ValidateVerificationConfig os (wcVerification c)")
           (auto simp: Validate_def config_ok_def Let_def targets_loop_ok)
    qed
  qed
qed


text \<open>
  Property C31. \<^verbatim>\<open>Validate\<close> returns no error exactly for the well-formed configurations: a known
  version, at least one policy, entry URLs that pass the reference check and are distinct, distinct
  effective IDs, no entry that both skips and configures verification, consistent verification
  blocks everywhere, and targets with distinct non-empty IDs that name distinct existing policies.
\<close>

theorem Validate_iff_config_ok: "snd (Validate os c) = None \<longleftrightarrow> config_ok os c"
  by (rule Validate_config_ok)

section \<open>What references mean\<close>

definition ref_scheme :: "string \<Rightarrow> bool" where
  "ref_scheme s \<longleftrightarrow> s \<in> {[], ''http://'', ''https://''}"

text \<open>The three spellings of a version after a repository.\<close>

datatype ref_version = NoVersion | TagVersion string | AtVersion string | DigestVersion string

fun ref_version_ok :: "ref_version \<Rightarrow> bool" where
  "ref_version_ok NoVersion = True"
| "ref_version_ok (TagVersion t) = tagRegexp t"
| "ref_version_ok (AtVersion t) = tagRegexp t"
| "ref_version_ok (DigestVersion d) = (valid_digest d \<and> digest_suffix d)"

fun print_version :: "ref_version \<Rightarrow> string" where
  "print_version NoVersion = []"
| "print_version (TagVersion t) = '':'' @ t"
| "print_version (AtVersion t) = ''@'' @ t"
| "print_version (DigestVersion d) = ''@'' @ d"

fun version_tag :: "ref_version \<Rightarrow> string" where
  "version_tag (TagVersion t) = t"
| "version_tag (AtVersion t) = t"
| "version_tag _ = []"

fun version_digest :: "ref_version \<Rightarrow> string" where
  "version_digest (DigestVersion d) = d"
| "version_digest _ = []"

definition print_ref :: "string \<Rightarrow> string \<Rightarrow> string \<Rightarrow> ref_version \<Rightarrow> string" where
  "print_ref scheme host repo v = scheme @ host @ ''/'' @ repo @ print_version v"

lemma is_space_chars: "is_space c \<Longrightarrow> \<not> host_char c \<and> \<not> is_lnum c \<and> \<not> is_word_char c \<and> \<not> is_lhex c \<and> c \<noteq> CHR ''.'' \<and> c \<noteq> CHR ''-''
    \<and> c \<noteq> CHR ''h''"
  by (auto simp: is_space_def host_char_def is_lower_def is_upper_def is_digit_def is_lnum_def is_word_char_def is_lhex_def)

lemma valid_digest_chars: "valid_digest d \<Longrightarrow> c \<in> set d \<Longrightarrow> is_lhex c \<or> c \<in> set ''sh:''"
  by (auto simp: valid_digest_iff list_all_iff is_lhex_def is_digit_def)

lemma is_lhex_not: "\<not> is_lhex CHR ''@''" "\<not> is_lhex CHR ''/''"
  by (simp_all add: is_lhex_def is_digit_def)

lemma valid_digest_no: "valid_digest d \<Longrightarrow> CHR ''@'' \<notin> set d" "valid_digest d \<Longrightarrow> CHR ''/'' \<notin> set d"
  using valid_digest_chars[of d "CHR ''@''"] valid_digest_chars[of d "CHR ''/''"] is_lhex_not by auto

lemma last_not_space:
  "repositoryRegexp r \<Longrightarrow> ref_version_ok v \<Longrightarrow> \<not> is_space (last (r @ print_version v))"
proof -
  assume r: "repositoryRegexp r" and v: "ref_version_ok v"
  have "\<not> is_space c" if "c \<in> set (r @ print_version v)" for c
  proof
    assume sp: "is_space c"
    note n = is_space_chars[OF sp]
    have "c \<notin> set r" using repositoryRegexp_chars[OF r] n sp by (auto simp: is_space_def)
    moreover have "c \<notin> set (print_version v)"
      using v n sp by (cases v) (auto dest: tagRegexp_chars valid_digest_chars simp: is_space_def)
    ultimately show False using that by simp
  qed
  moreover have "r @ print_version v \<noteq> []" using repositoryRegexp_nonempty[OF r] by simp
  ultimately show ?thesis using last_in_set by blast
qed

lemma valid_host_hd: "valid_host h \<Longrightarrow> h \<noteq> [] \<and> \<not> is_space (hd h)"
  using is_space_chars by (cases h) (auto simp: valid_host_def)

lemma TrimSpace_print_ref:
  assumes "ref_scheme sch" "valid_host h" "repositoryRegexp r" "ref_version_ok v"
  shows "TrimSpace (print_ref sch h r v) = print_ref sch h r v"
proof (rule TrimSpace_id)
  have "last (print_ref sch h r v) = last (r @ print_version v)"
    using repositoryRegexp_nonempty[OF assms(3)] by (simp add: print_ref_def)
  then have "\<not> is_space (last (print_ref sch h r v))" using last_not_space assms by simp
  moreover have "\<not> is_space (hd (print_ref sch h r v))"
    using assms(1) valid_host_hd[OF assms(2)]
    by (auto simp: print_ref_def ref_scheme_def is_space_def)
  ultimately show "print_ref sch h r v = [] \<or>
      \<not> is_space (hd (print_ref sch h r v)) \<and> \<not> is_space (last (print_ref sch h r v))" by simp
qed

text \<open>A host has no slash, and the repository does not start with one, so no scheme is invented.\<close>

lemma no_scheme:
  assumes "valid_host h" "repositoryRegexp r"
  shows "\<not> HasPrefix (h @ ''/'' @ r @ x) ''http://''" "\<not> HasPrefix (h @ ''/'' @ r @ x) ''https://''"
proof -
  obtain c r' where r: "r = c # r'" "c \<noteq> CHR ''/''"
    using assms(2) repositoryRegexp_nonempty[OF assms(2)]
    by (cases r) (auto simp: repositoryRegexp_def repo_component_def split: if_splits)
  have "cut_first CHR ''/'' (h @ CHR ''/'' # t) = Some (h, t)" for t
    using valid_host_no(2)[OF assms(1)] by simp
  note c = this[of "r @ x"]
  show "\<not> HasPrefix (h @ ''/'' @ r @ x) ''http://''"
  proof
    assume "HasPrefix (h @ ''/'' @ r @ x) ''http://''"
    then obtain t where t: "h @ ''/'' @ r @ x = ''http://'' @ t" by (auto simp only: HasPrefix_iff)
    have "cut_first CHR ''/'' (''http://'' @ t) = Some (''http:'', CHR ''/'' # t)" by simp
    then have "Some (h, r @ x) = Some (''http:'', CHR ''/'' # t)" unfolding t[symmetric] using c by simp
    then show False using r by simp
  qed
  show "\<not> HasPrefix (h @ ''/'' @ r @ x) ''https://''"
  proof
    assume "HasPrefix (h @ ''/'' @ r @ x) ''https://''"
    then obtain t where t: "h @ ''/'' @ r @ x = ''https://'' @ t" by (auto simp only: HasPrefix_iff)
    have "cut_first CHR ''/'' (''https://'' @ t) = Some (''https:'', CHR ''/'' # t)" by simp
    then have "Some (h, r @ x) = Some (''https:'', CHR ''/'' # t)" unfolding t[symmetric] using c by simp
    then show False using r by simp
  qed
qed

lemma split_scheme_print:
  assumes "ref_scheme sch" "valid_host h" "repositoryRegexp r"
  shows "split_scheme (sch @ h @ ''/'' @ r @ x) = (sch, h @ ''/'' @ r @ x)"
  using assms(1) no_scheme[OF assms(2,3), of x]
  by (auto simp: ref_scheme_def split_scheme_def TrimPrefix_def)

lemma tag_not_digest_suffix: "tagRegexp t \<Longrightarrow> \<not> digest_suffix t"
  using tagRegexp_no(2)[of t] by (auto simp: digest_suffix_def HasPrefix_iff)

lemma convert_at_no: "CHR ''@'' \<notin> set s \<Longrightarrow> convert_at s = (False, s)"
  by (simp add: convert_at_def at_suffix_def cut_last_None[THEN iffD2])

lemma convert_at_at:
  "CHR ''@'' \<notin> set b \<Longrightarrow> a \<noteq> [] \<Longrightarrow> b \<noteq> [] \<Longrightarrow> convert_at (a @ ''@'' @ b) =
    (if digest_suffix b then (False, a @ ''@'' @ b) else (True, a @ '':'' @ b))"
  by (simp add: convert_at_def at_suffix_def)

lemma convert_at_print:
  assumes "valid_host h" "repositoryRegexp r" "ref_version_ok v"
  shows "snd (convert_at (h @ ''/'' @ r @ print_version v)) =
     h @ ''/'' @ r @ (case v of AtVersion t \<Rightarrow> '':'' @ t | _ \<Rightarrow> print_version v)"
proof -
  note n = valid_host_no(1)[OF assms(1)] repositoryRegexp_no_at[OF assms(2)]
  show ?thesis
  proof (cases v)
    case NoVersion
    then show ?thesis using n by (simp add: convert_at_no)
  next
    case (TagVersion t)
    then show ?thesis using n assms(3) tagRegexp_no(1)[of t] by (simp add: convert_at_no)
  next
    case (AtVersion t)
    then have "tagRegexp t" using assms(3) by simp
    then show ?thesis using AtVersion n tagRegexp_no(1)[of t] tag_not_digest_suffix[of t]
        convert_at_at[of t "h @ ''/'' @ r"] by (cases "t = []") simp_all
  next
    case (DigestVersion d)
    then have "valid_digest d" "digest_suffix d" using assms(3) by simp_all
    then show ?thesis using DigestVersion valid_digest_no(1)[of d]
        convert_at_at[of d "h @ ''/'' @ r"] by (cases "d = []") simp_all
  qed
qed

text \<open>What a reference with a slash means, after the scheme is stripped.\<close>

lemma ParsePolicyRef_slash:
  assumes "TrimSpace raw = raw" "raw \<noteq> []" "split_scheme raw = (sch, s)" "CHR ''/'' \<in> set s"
  shows "ParsePolicyRef raw = (case ParseReference (snd (convert_at s)) of
      Inl e \<Rightarrow> Inl (ERefInvalid raw e)
    | Inr x \<Rightarrow> Inr \<lparr>prRaw = raw, prRegistry = sch @ rfRegistry x, prRepository = rfRepository x,
         prTag = (if valid_digest (rfReference x) then [] else rfReference x),
         prDigest = (if valid_digest (rfReference x) then rfReference x else [])\<rparr>)"
  using assms by (auto simp: ParsePolicyRef_def Let_def digest_Parse_def split: sum.splits option.splits)

lemma ParseReference_print:
  assumes "valid_host h" "repositoryRegexp r" "ref_version_ok v"
  shows "ParseReference (snd (convert_at (h @ ''/'' @ r @ print_version v))) =
      Inr \<lparr>rfRegistry = h, rfRepository = r,
        rfReference = (if version_tag v = [] then version_digest v else version_tag v)\<rparr>"
proof (cases v)
  case NoVersion
  then show ?thesis unfolding convert_at_print[OF assms] using ParseReference_plain[OF assms(1,2)] by simp
next
  case (TagVersion t)
  then show ?thesis unfolding convert_at_print[OF assms]
    using assms(3) ParseReference_tag[OF assms(1,2) tagRegexp_no(1), of t] by auto
next
  case (AtVersion t)
  then show ?thesis unfolding convert_at_print[OF assms]
    using assms(3) ParseReference_tag[OF assms(1,2) tagRegexp_no(1), of t] by auto
next
  case (DigestVersion d)
  then show ?thesis unfolding convert_at_print[OF assms]
    using assms(3) ParseReference_digest[OF assms(1,2), of d] by auto
qed

text \<open>
  Property C32. Printing and parsing a reference is a round trip: for a valid host and repository, an
  optional scheme and a version written as \<^verbatim>\<open>:tag\<close>, as the older \<^verbatim>\<open>@version\<close>, or as a
  \<^verbatim>\<open>@sha256:\<close>/\<^verbatim>\<open>@sha512:\<close> digest, \<^verbatim>\<open>ParsePolicyRef\<close> returns exactly the parts; \<^verbatim>\<open>@version\<close> and
  \<^verbatim>\<open>:tag\<close> give the same tag.
\<close>

theorem ParsePolicyRef_print_ref:
  assumes "ref_scheme sch" "valid_host h" "repositoryRegexp r" "ref_version_ok v"
  shows "ParsePolicyRef (print_ref sch h r v) =
    Inr \<lparr>prRaw = print_ref sch h r v, prRegistry = sch @ h, prRepository = r,
         prTag = version_tag v, prDigest = version_digest v\<rparr>"
proof -
  have ne: "print_ref sch h r v \<noteq> []" using valid_host_hd[OF assms(2)] by (simp add: print_ref_def)
  have sp: "split_scheme (print_ref sch h r v) = (sch, h @ ''/'' @ r @ print_version v)"
    using split_scheme_print[OF assms(1,2,3)] by (simp add: print_ref_def)
  have "CHR ''/'' \<in> set (h @ ''/'' @ r @ print_version v)" by simp
  note slash = ParsePolicyRef_slash[OF TrimSpace_print_ref[OF assms] ne sp this]
  show ?thesis
    unfolding slash ParseReference_print[OF assms(2,3,4)]
    using assms(4) by (cases v) (auto simp: tag_not_digest)
qed

theorem ParsePolicyRef_print_ref_witness:
  "ParsePolicyRef ''https://registry.com:5000/policies/nist-800@v1.0'' =
    Inr \<lparr>prRaw = ''https://registry.com:5000/policies/nist-800@v1.0'',
         prRegistry = ''https://registry.com:5000'', prRepository = ''policies/nist-800'',
         prTag = ''v1.0'', prDigest = []\<rparr>"
proof -
  have h: "ref_scheme ''https://''" "valid_host ''registry.com:5000''"
    "repositoryRegexp ''policies/nist-800''" "ref_version_ok (AtVersion ''v1.0'')"
    by code_simp+
  show ?thesis
    using ParsePolicyRef_print_ref[OF h] by (simp add: print_ref_def)
qed

text \<open>A digest of the third algorithm the digest package accepts.\<close>

lemma sha384_chars:
  assumes "valid_digest (''sha384:'' @ x)"
  shows "CHR ''@'' \<notin> set (''sha384:'' @ x)" "\<not> digest_suffix (''sha384:'' @ x)"
    "\<not> tagRegexp (''sha384:'' @ x)" "\<not> is_space (last (''sha384:'' @ x))"
proof -
  show "CHR ''@'' \<notin> set (''sha384:'' @ x)" by (rule valid_digest_no(1)[OF assms])
  show "\<not> digest_suffix (''sha384:'' @ x)" by (simp add: digest_suffix_def)
  show "\<not> tagRegexp (''sha384:'' @ x)" using tagRegexp_no(2)[of "''sha384:'' @ x"] by auto
  have "last (''sha384:'' @ x) \<in> set (''sha384:'' @ x)" by (rule last_in_set) simp
  from valid_digest_chars[OF assms this] show "\<not> is_space (last (''sha384:'' @ x))"
    using is_space_chars[of "last (''sha384:'' @ x)"] by (auto simp: is_space_def)
qed

text \<open>
  A valid \<^verbatim>\<open>sha384\<close> digest in a slash reference is not parsed as a digest: the
  reference is rewritten to \<^verbatim>\<open>repo:sha384:...\<close> and rejected as an invalid tag, although the
  digest package (and the handling of bare IDs in the same function) accepts it.
\<close>

theorem ParsePolicyRef_sha384:
  assumes "ref_scheme sch" "valid_host h" "repositoryRegexp r" "valid_digest (''sha384:'' @ x)"
  shows "ParsePolicyRef (sch @ h @ ''/'' @ r @ ''@sha384:'' @ x) =
     Inl (ERefInvalid (sch @ h @ ''/'' @ r @ ''@sha384:'' @ x) (OInvalidTag (''sha384:'' @ x)))"
proof -
  let ?d = "''sha384:'' @ x" and ?s = "h @ ''/'' @ r @ ''@'' @ ''sha384:'' @ x"
  note d = sha384_chars[OF assms(4)]
  have "TrimSpace (sch @ ?s) = sch @ ?s"
    using d(4) assms(1) valid_host_hd[OF assms(2)]
    by (intro TrimSpace_id) (auto simp: ref_scheme_def is_space_def)
  moreover have "sch @ ?s \<noteq> []" "CHR ''/'' \<in> set ?s" by simp_all
  moreover have "split_scheme (sch @ ?s) = (sch, ?s)" by (rule split_scheme_print[OF assms(1-3)])
  moreover have "snd (convert_at ?s) = h @ ''/'' @ r @ '':'' @ ?d"
    using convert_at_at[OF d(1), of "h @ ''/'' @ r"] d(2) by simp
  ultimately show ?thesis
    using ParsePolicyRef_slash[of "sch @ ?s" sch ?s] ParseReference_tag[OF assms(2,3) d(1)] d(3)
    by simp
qed


theorem ParsePolicyRef_sha384_witness:
  "ParsePolicyRef (''registry.com/policies/nist'' @ ''@sha384:'' @ replicate 96 CHR ''a'') =
     Inl (ERefInvalid (''registry.com/policies/nist'' @ ''@sha384:'' @ replicate 96 CHR ''a'')
            (OInvalidTag (''sha384:'' @ replicate 96 CHR ''a''))) \<and>
   Digest_Validate (''sha384:'' @ replicate 96 CHR ''a'') = None"
proof -
  have h: "ref_scheme []" "valid_host ''registry.com''" "repositoryRegexp ''policies/nist''"
    "valid_digest (''sha384:'' @ replicate 96 CHR ''a'')"
    by code_simp+
  show ?thesis
    using ParsePolicyRef_sha384[OF h(1-4)] h(4) by simp
qed

section \<open>Environment references\<close>

text \<open>The names of the references of a string, in order.\<close>

function env_names :: "string \<Rightarrow> string list" where
  "env_names s = (case env_match s of
     Some (name, rest) \<Rightarrow> name # env_names rest
   | None \<Rightarrow> (case s of [] \<Rightarrow> [] | c # t \<Rightarrow> env_names t))"
  by auto
termination
  by (relation "measure length") (auto dest: env_match_length)

declare env_names.simps [simp del]

lemma expand_scan_missing:
  "snd (expand_scan env s) = filter (\<lambda>n. go_get env n = None) (env_names s)"
proof (induction env s rule: expand_scan.induct)
  case (1 env s)
  then show ?case
    by (subst expand_scan.simps, subst env_names.simps)
       (auto simp: Let_def case_prod_beta split: option.splits list.splits)
qed

lemma expand_scan_no_match: "CHR ''$'' \<notin> set s \<Longrightarrow> expand_scan env s = (s, [])"
proof (induction s)
  case Nil
  then show ?case by (simp add: expand_scan.simps env_match_def)
next
  case (Cons c s)
  then have "env_match (c # s) = None" by (cases s) (auto simp: env_match_def)
  then show ?case using Cons by (subst expand_scan.simps) simp
qed

lemma expand_scan_lit:
  "CHR ''$'' \<notin> set a \<Longrightarrow> expand_scan env (a @ s) = apfst (\<lambda>x. a @ x) (expand_scan env s)"
proof (induction a)
  case Nil
  then show ?case by (cases "expand_scan env s") simp
next
  case (Cons c a)
  then have "env_match (c # a @ s) = None" by (cases "a @ s") (auto simp: env_match_def)
  with Cons show ?case
    by (cases "expand_scan env s") (simp add: expand_scan.simps[of env "c # a @ s"])
qed

lemma expand_scan_ref:
  "name \<noteq> [] \<Longrightarrow> CHR ''}'' \<notin> set name \<Longrightarrow> go_get env name = Some v \<Longrightarrow>
   expand_scan env (''${'' @ name @ ''}'' @ s) = apfst (\<lambda>x. v @ x) (expand_scan env s)"
  by (cases "expand_scan env s") (simp add: expand_scan.simps[of env "CHR ''$'' # _"] env_match_def)

text \<open>
  \<^verbatim>\<open>expandEnvRef\<close> fails exactly when some referenced variable is unset, and then
  reports all unset names in the order of the references.
\<close>

theorem expandEnvRef_spec:
  "case expandEnvRef env s of
     Inr r \<Rightarrow> filter (\<lambda>n. go_get env n = None) (env_names s) = []
   | Inl e \<Rightarrow> filter (\<lambda>n. go_get env n = None) (env_names s) \<noteq> [] \<and>
       e = EUnsetEnv (filter (\<lambda>n. go_get env n = None) (env_names s))"
  using expand_scan_missing[of env s] by (auto simp: expandEnvRef_def case_prod_beta Let_def)

text \<open>
  A reference \<^verbatim>\<open>${n}\<close> between literal text is replaced by the value of the
  variable, and nothing else changes.
\<close>

theorem expandEnvRef_subst:
  assumes "CHR ''$'' \<notin> set a" "CHR ''$'' \<notin> set b" "n \<noteq> []" "CHR ''}'' \<notin> set n"
  shows "expandEnvRef env (a @ ''${'' @ n @ ''}'' @ b) =
    (case go_get env n of Some v \<Rightarrow> Inr (a @ v @ b) | None \<Rightarrow> Inl (EUnsetEnv [n]))"
proof (cases "go_get env n")
  case None
  then have "expand_scan env (''${'' @ n @ ''}'' @ b) = (''${'' @ n @ ''}'' @ b, [n])"
    using assms by (simp add: expand_scan.simps[of env "CHR ''$'' # _"] env_match_def expand_scan_no_match)
  then show ?thesis using None assms(1) by (simp add: expandEnvRef_def expand_scan_lit)
next
  case (Some v)
  then show ?thesis
    using assms expand_scan_ref[of n env v b] by (simp add: expandEnvRef_def expand_scan_lit expand_scan_no_match)
qed

theorem expandEnvRef_subst_witness:
  "expandEnvRef [(''TOKEN'', ''a$b'')] ''Bearer ${TOKEN}!'' = Inr ''Bearer a$b!''"
  using expandEnvRef_subst[of "''Bearer ''" "''!''" "''TOKEN''" "[(''TOKEN'', ''a$b'')]"]
  by (simp add: go_get_def)

section \<open>Loading\<close>

lemma resolveEnvVars_keeps:
  assumes "resolveEnvVars os c = Inr c'"
  shows "wcPolicies c' = wcPolicies c" "wcComplypacks c' = wcComplypacks c"
    "wcVerification c' = wcVerification c" "map tcID (wcTargets c') = map tcID (wcTargets c)"
proof -
  from assms obtain ts where ts: "map_res (resolve_target os) (wcTargets c) = Inr ts" "c' = c\<lparr>wcTargets := ts\<rparr>"
    by (auto simp: resolveEnvVars_def split: sum.splits)
  then show "wcPolicies c' = wcPolicies c" "wcComplypacks c' = wcComplypacks c"
    "wcVerification c' = wcVerification c" by simp_all
  have "list_all2 (\<lambda>t t'. resolve_target os t = Inr t') (wcTargets c) ts"
    using ts(1) by (simp add: map_res_Inr_iff)
  then have "list_all2 (\<lambda>t t'. tcID t' = tcID t) (wcTargets c) ts"
    by (rule list_all2_mono) (auto simp: resolve_target_def split: sum.splits)
  then show "map tcID (wcTargets c') = map tcID (wcTargets c)"
    by (simp add: ts(2) list_all2_conv_all_nth list_eq_iff_nth_eq)
qed

lemma parse_err_None [simp]: "parse_err w e = None \<longleftrightarrow> (\<exists>ref. ParsePolicyRef (peURL e) = Inr ref)"
  by (auto simp: parse_err_def split: sum.splits)

lemma validatePolicyRefs_ok:
  "validatePolicyRefs c = None \<longleftrightarrow>
    (\<forall>e \<in> set (wcPolicies c @ wcComplypacks c). \<exists>ref. ParsePolicyRef (peURL e) = Inr ref)"
  by (simp only: validatePolicyRefs_def err_seq_None first_err_None parse_err_None set_append ball_Un)

lemma ValidateVerificationConfig_None:
  "ValidateVerificationConfig os v = (v', None) \<Longrightarrow> verification_ok os v \<and> verification_ok os v'"
  by (cases v) (auto simp: ValidateVerificationConfig_def verification_ok_def Let_def split: if_splits)

text \<open>
  A configuration that \<^verbatim>\<open>LoadFrom\<close> returns has only parseable policy and
  complypack URLs and a consistent workspace verification block, so callers may ignore the error of
  \<^verbatim>\<open>ParsePolicyRef\<close> on its entries.
\<close>

theorem LoadFrom_ok:
  assumes "LoadFrom yaml os p = Inr c"
  shows "(\<forall>e \<in> set (wcPolicies c @ wcComplypacks c). \<exists>ref. ParsePolicyRef (peURL e) = Inr ref) \<and>
    verification_ok os (wcVerification c)"
proof -
  from assms obtain data c0 c1 v where l: "yaml data = Inr c0" "resolveEnvVars os c0 = Inr c1"
      "validatePolicyRefs c1 = None" "ValidateVerificationConfig os (wcVerification c1) = (v, None)"
      "c = c1\<lparr>wcVerification := v\<rparr>"
    by (auto simp: LoadFrom_def split: read_res.splits sum.splits option.splits prod.splits)
  then show ?thesis
    using ValidateVerificationConfig_None[OF l(4)] by (simp add: validatePolicyRefs_ok)
qed

definition demo_config :: WorkspaceConfig where
  "demo_config = \<lparr>wcVersion = 1,
     wcPolicies = [\<lparr>peURL = ''registry.com/policies/nist:v1'', peID = [], peVerification = None, peSkipVerify = False\<rparr>],
     wcComplypacks = [],
     wcTargets = [\<lparr>tcID = ''prod'', tcPolicies = [''nist''], tcVariables = [(''token'', ''${TOKEN}'')]\<rparr>],
     wcVariables = [], wcVerification = None\<rparr>"

definition demo_os :: osenv where
  "demo_os = \<lparr>osLookupEnv = [(''TOKEN'', ''x'')], osStat = (\<lambda>_. StatMissing),
     osReadFile = (\<lambda>_. ReadOK ''config''), osHomeDir = Some ''/home/u'', osUserCacheDir = Some ''/home/u/.cache'',
     osGetwd = Some ''/work'', osGOOS = ''linux''\<rparr>"

theorem LoadFrom_ok_witness:
  "\<exists>c. LoadFrom (\<lambda>_. Inr demo_config) demo_os ''/work/complytime.yaml'' = Inr c \<and>
     wcPolicies c = wcPolicies demo_config \<and>
     list_all (\<lambda>e. \<not> isl (ParsePolicyRef (peURL e))) (wcPolicies c @ wcComplypacks c)"
proof -
  define c where "c = demo_config\<lparr>wcTargets :=
    [\<lparr>tcID = ''prod'', tcPolicies = [''nist''], tcVariables = [(''token'', ''x'')]\<rparr>]\<rparr>"
  have l: "LoadFrom (\<lambda>_. Inr demo_config) demo_os ''/work/complytime.yaml'' = Inr c"
    unfolding c_def by code_simp
  have "list_all (\<lambda>e. \<not> isl (ParsePolicyRef (peURL e))) (wcPolicies c @ wcComplypacks c)"
    unfolding list_all_iff using LoadFrom_ok[OF l] by (metis sum.disc(2))
  with l show ?thesis by (auto simp: c_def)
qed

section \<open>Looking up policies\<close>

lemma find_Some_ex: "List.find P xs = Some x \<Longrightarrow> x \<in> set xs \<and> P x"
  by (auto simp: find_Some_iff)

text \<open>
  After \<^verbatim>\<open>Validate\<close> succeeds, every policy a target names without surrounding white
  space is found by \<^verbatim>\<open>FindPolicy\<close>, and the entry found is the only one with that effective ID.
\<close>

theorem FindPolicy_target_policy:
  assumes "snd (Validate os c) = None" "t \<in> set (wcTargets c)" "pid \<in> set (tcPolicies t)"
    and "TrimSpace pid = pid"
  shows "\<exists>p. FindPolicy (wcPolicies c) pid = Some p \<and> EffectiveID p = pid \<and>
     (\<forall>q \<in> set (wcPolicies c). EffectiveID q = pid \<longrightarrow> q = p)"
proof -
  from assms(1) have ok: "config_ok os c" using Validate_config_ok by blast
  then obtain p where "p \<in> set (wcPolicies c)" "EffectiveID p = pid"
    using assms(2,3) by (fastforce simp: config_ok_def)
  then obtain q where q: "FindPolicy (wcPolicies c) pid = Some q"
    using assms(4) by (cases "FindPolicy (wcPolicies c) pid") (auto simp: FindPolicy_def find_None_iff)
  then have q': "q \<in> set (wcPolicies c)" "EffectiveID q = pid"
    using assms(4) by (auto simp: FindPolicy_def dest: find_Some_ex)
  have "distinct (map EffectiveID (wcPolicies c))" using ok by (simp add: config_ok_def entries_ok_def)
  then have "\<forall>r \<in> set (wcPolicies c). EffectiveID r = pid \<longrightarrow> r = q"
    using q' by (auto simp: distinct_map inj_on_def)
  with q q' show ?thesis by blast
qed

theorem FindPolicy_target_policy_witness:
  "\<exists>p. FindPolicy (wcPolicies demo_config) ''nist'' = Some p \<and> EffectiveID p = ''nist''"
proof -
  have v: "snd (Validate demo_os demo_config) = None" by code_simp
  have t: "\<lparr>tcID = ''prod'', tcPolicies = [''nist''], tcVariables = [(''token'', ''${TOKEN}'')]\<rparr>
      \<in> set (wcTargets demo_config)" by (simp add: demo_config_def)
  have "TrimSpace ''nist'' = ''nist''" by code_simp
  with FindPolicy_target_policy[OF v t, of "''nist''"] show ?thesis by auto
qed

text \<open>
  The trimming matters: an entry whose ID carries a blank passes \<^verbatim>\<open>Validate\<close> together
  with a target that names it, but \<^verbatim>\<open>FindPolicy\<close>, which trims the identifier it is given, does
  not find it.
\<close>

theorem FindPolicy_untrimmed_id:
  "\<exists>c t pid. snd (Validate demo_os c) = None \<and> t \<in> set (wcTargets c) \<and> pid \<in> set (tcPolicies t) \<and>
     FindPolicy (wcPolicies c) pid = None"
proof -
  define c where "c = demo_config\<lparr>
    wcPolicies := [\<lparr>peURL = ''registry.com/policies/nist:v1'', peID = '' nist'', peVerification = None, peSkipVerify = False\<rparr>],
    wcTargets := [\<lparr>tcID = ''prod'', tcPolicies = ['' nist''], tcVariables = []\<rparr>]\<rparr>"
  have "snd (Validate demo_os c) = None" "FindPolicy (wcPolicies c) '' nist'' = None"
    unfolding c_def by code_simp+
  then show ?thesis
    by (intro exI[of _ c] exI[of _ "hd (wcTargets c)"] exI[of _ "'' nist''"]) (simp add: c_def)
qed

section \<open>Deprecation warnings\<close>

fun parse_all :: "(string, bool) gomap \<Rightarrow> string list \<Rightarrow> (string, bool) gomap \<times> string list" where
  "parse_all w [] = (w, [])"
| "parse_all w (r # rs) =
    (let (w1, out, _) = ParsePolicyRef_io w r; (w2, outs) = parse_all w1 rs in (w2, out @ outs))"

text \<open>
  However often references are parsed in one process, the deprecation warning is
  printed exactly once for each distinct raw reference that uses the \<^verbatim>\<open>@version\<close> notation, and never
  for another.
\<close>

theorem deprecation_warned_once:
  "distinct (snd (parse_all [] raws)) \<and>
   set (snd (parse_all [] raws)) = {r \<in> set raws. needs_warning r}"
proof -
  have "distinct (snd (parse_all w raws)) \<and>
    set (snd (parse_all w raws)) = {r \<in> set raws. needs_warning r \<and> go_get w r \<noteq> Some True}" for w
    by (induction raws arbitrary: w) (auto simp: ParsePolicyRef_io_def case_prod_beta Let_def)
  from this[of "[]"] show ?thesis by simp
qed

end
