(* ===== verification/Workspace.thy ===== *)
theory Workspace
  imports Config
begin

text \<open>
  Directories and the workspace: where data, cache and providers live
  (\<^verbatim>\<open>internal/complytime/consts.go\<close>), the check for the legacy directory (\<^verbatim>\<open>legacy.go\<close>), the workspace
  with its configuration file (\<^verbatim>\<open>workspace.go\<close>) and the command that creates one
  (\<^verbatim>\<open>cmd/complyctl/cli/init.go\<close>). Writing changes the environment record; a call the fault oracle
  names fails. A line read from standard input is \<^const>\<open>Some\<close> token, or \<^const>\<open>None\<close> when
  \<^verbatim>\<open>fmt.Scanln\<close> reports an error (an empty line, more than one token, end of input).
\<close>

section \<open>Directories\<close>

definition WorkspaceDir :: string where "WorkspaceDir = ''.complytime''"
definition WorkspaceConfigFile :: string where "WorkspaceConfigFile = ''complytime.yaml''"
definition xdgAppName :: string where "xdgAppName = ''complytime''"
definition providerSubdir :: string where "providerSubdir = ''providers''"
definition WorkspaceVarKey :: string where "WorkspaceVarKey = ''workspace''"
definition SystemProviderDir :: string where "SystemProviderDir = ''/usr/libexec/complytime/providers''"

definition os_Getenv :: "osenv \<Rightarrow> string \<Rightarrow> string" where
  "os_Getenv os k = go_str (osLookupEnv os) k"

definition ResolveSystemProviderDir :: "osenv \<Rightarrow> string" where
  "ResolveSystemProviderDir os =
    (let dir = os_Getenv os ''COMPLYTIME_SYSTEM_PROVIDER_DIR'' in
     if dir \<noteq> [] \<and> IsAbs dir then dir else SystemProviderDir)"

definition WithWorkspaceVar :: "(string, string) gomap \<Rightarrow> string \<Rightarrow> (string, string) gomap" where
  "WithWorkspaceVar vars workspace =
    go_put WorkspaceVarKey workspace (foldl (\<lambda>m (k, v). go_put k v m) [] vars)"

definition FilenameSafe :: "string \<Rightarrow> string" where
  "FilenameSafe s = ReplaceByte CHR ''/'' CHR ''-'' s"

definition ExpandPath :: "osenv \<Rightarrow> string \<Rightarrow> string" where
  "ExpandPath os path =
    (if HasPrefix path ''~/'' then
       (case osHomeDir os of None \<Rightarrow> path | Some homeDir \<Rightarrow> filepath_Join [homeDir, drop 2 path])
     else path)"

definition ResolveDataDir :: "osenv \<Rightarrow> cfg_err + string" where
  "ResolveDataDir os =
    (let xdgData = os_Getenv os ''XDG_DATA_HOME'' in
     if xdgData \<noteq> [] \<and> IsAbs xdgData then Inr (filepath_Join [xdgData, xdgAppName])
     else if osGOOS os = ''darwin'' then
       (case osHomeDir os of None \<Rightarrow> Inl EDataDir
        | Some homeDir \<Rightarrow> Inr (filepath_Join [homeDir, ''Library'', ''Application Support'', xdgAppName]))
     else if osGOOS os = ''windows'' then
       (case osUserCacheDir os of None \<Rightarrow> Inl EDataDir | Some base \<Rightarrow> Inr (filepath_Join [base, xdgAppName]))
     else
       (case osHomeDir os of None \<Rightarrow> Inl EDataDir
        | Some homeDir \<Rightarrow> Inr (filepath_Join [homeDir, ''.local'', ''share'', xdgAppName])))"

definition ResolveCacheDir :: "osenv \<Rightarrow> cfg_err + string" where
  "ResolveCacheDir os = (case osUserCacheDir os of None \<Rightarrow> Inl ECacheDir
     | Some cacheBase \<Rightarrow> Inr (filepath_Join [cacheBase, xdgAppName]))"

definition ResolveProviderDir :: "osenv \<Rightarrow> cfg_err + string" where
  "ResolveProviderDir os = (case ResolveDataDir os of Inl e \<Rightarrow> Inl e
     | Inr dataDir \<Rightarrow> Inr (filepath_Join [dataDir, providerSubdir]))"

section \<open>The legacy directory\<close>

definition dirExists :: "osenv \<Rightarrow> string \<Rightarrow> bool" where
  "dirExists os path \<longleftrightarrow> osStat os path = StatDir"

text \<open>The warning as the three directories its text shows, if there is one.\<close>

definition checkLegacyDirWithHome :: "osenv \<Rightarrow> string \<Rightarrow> (string \<times> string \<times> string) option" where
  "checkLegacyDirWithHome os homeDir =
    (let legacyDir = filepath_Join [homeDir, ''.complytime''] in
     if \<not> dirExists os legacyDir then None
     else case ResolveCacheDir os of
       Inl _ \<Rightarrow> None
     | Inr cacheDir \<Rightarrow>
        (case ResolveDataDir os of
           Inl _ \<Rightarrow> None
         | Inr dataDir \<Rightarrow>
            if dirExists os cacheDir \<and> dirExists os dataDir then None
            else Some (legacyDir, cacheDir, dataDir)))"

definition CheckLegacyDir :: "osenv \<Rightarrow> (string \<times> string \<times> string) option" where
  "CheckLegacyDir os = (case osHomeDir os of None \<Rightarrow> None | Some h \<Rightarrow> checkLegacyDirWithHome os h)"

section \<open>Writing\<close>

type_synonym os_faults = "string \<Rightarrow> bool"

definition os_WriteFile :: "os_faults \<Rightarrow> string \<Rightarrow> string \<Rightarrow> osenv \<Rightarrow> osenv \<times> bool" where
  "os_WriteFile flt path data os =
    (if flt path \<or> osStat os path = StatDir \<or> osStat os (filepath_Dir path) \<noteq> StatDir then (os, False)
     else (os\<lparr>osStat := (osStat os)(path := StatFile), osReadFile := (osReadFile os)(path := ReadOK data)\<rparr>, True))"

definition dir_chain :: "string \<Rightarrow> string list" where
  "dir_chain dir = map (\<lambda>n. path_string (take n (path_of dir))) [1..<Suc (length (path_of dir))]"

definition os_MkdirAll :: "os_faults \<Rightarrow> string \<Rightarrow> osenv \<Rightarrow> osenv \<times> bool" where
  "os_MkdirAll flt dir os =
    (if flt dir \<or> list_ex (\<lambda>d. osStat os d = StatFile \<or> osStat os d = StatErr) (dir_chain dir) then (os, False)
     else (os\<lparr>osStat := (\<lambda>p. if p \<in> set (dir_chain dir) then StatDir else osStat os p)\<rparr>, True))"

section \<open>Workspaces\<close>

record Workspace =
  wsBaseDir :: string
  wsConfigPath :: string
  wsConfig :: "WorkspaceConfig option"

definition DetectConfigPath :: "osenv \<Rightarrow> string \<Rightarrow> cfg_err + string \<times> bool" where
  "DetectConfigPath os baseDir =
    (let newConfigPath = filepath_Join [baseDir, WorkspaceDir, WorkspaceConfigFile];
         legacyConfigPath = filepath_Join [baseDir, WorkspaceConfigFile] in
     if stat_ok os newConfigPath then Inr (newConfigPath, False)
     else if stat_ok os legacyConfigPath then Inr (legacyConfigPath, True)
     else Inl (EConfigDetect baseDir))"

definition NewWorkspace :: "osenv \<Rightarrow> string \<Rightarrow> Workspace" where
  "NewWorkspace os baseDir =
    \<lparr>wsBaseDir = baseDir,
     wsConfigPath = (case DetectConfigPath os baseDir of
        Inl _ \<Rightarrow> filepath_Join [baseDir, WorkspaceDir, WorkspaceConfigFile]
      | Inr (configPath, isLegacy) \<Rightarrow> configPath),
     wsConfig = None\<rparr>"

text \<open>Whether \<^verbatim>\<open>NewWorkspace\<close> prints the deprecation warning.\<close>

definition legacy_warning :: "osenv \<Rightarrow> string \<Rightarrow> bool" where
  "legacy_warning os baseDir = (case DetectConfigPath os baseDir of Inr (_, isLegacy) \<Rightarrow> isLegacy | Inl _ \<Rightarrow> False)"

definition Workspace_Load ::
    "(string \<Rightarrow> string + WorkspaceConfig) \<Rightarrow> osenv \<Rightarrow> Workspace \<Rightarrow> cfg_err + Workspace" where
  "Workspace_Load yaml_Unmarshal os w = (case LoadFrom yaml_Unmarshal os (wsConfigPath w) of
     Inl e \<Rightarrow> Inl e | Inr config \<Rightarrow> Inr (w\<lparr>wsConfig := Some config\<rparr>))"

definition LoadAndValidate ::
    "(string \<Rightarrow> string + WorkspaceConfig) \<Rightarrow> osenv \<Rightarrow> Workspace \<Rightarrow> cfg_err + Workspace" where
  "LoadAndValidate yaml_Unmarshal os w = (case LoadFrom yaml_Unmarshal os (wsConfigPath w) of
     Inl e \<Rightarrow> Inl e
   | Inr config \<Rightarrow> (case Validate os config of
        (config', None) \<Rightarrow> Inr (w\<lparr>wsConfig := Some config'\<rparr>)
      | (_, Some e) \<Rightarrow> Inl e))"

text \<open>\<^verbatim>\<open>SaveTo\<close> marshals and writes; marshalling is a parameter.\<close>

definition SaveTo ::
    "(WorkspaceConfig \<Rightarrow> string option) \<Rightarrow> os_faults \<Rightarrow> WorkspaceConfig \<Rightarrow> string \<Rightarrow> osenv \<Rightarrow> osenv \<times> cfg_err option" where
  "SaveTo yaml_Marshal flt config configPath os =
    (case yaml_Marshal config of
       None \<Rightarrow> (os, Some EMarshal)
     | Some data \<Rightarrow>
        (case os_WriteFile flt configPath data os of
           (os', True) \<Rightarrow> (os', None)
         | (os', False) \<Rightarrow> (os', Some (EWrite configPath))))"

definition Workspace_Save ::
    "(WorkspaceConfig \<Rightarrow> string option) \<Rightarrow> os_faults \<Rightarrow> Workspace \<Rightarrow> osenv \<Rightarrow> osenv \<times> cfg_err option" where
  "Workspace_Save yaml_Marshal flt w os = (case wsConfig w of
     None \<Rightarrow> (os, Some ENothingToSave)
   | Some config \<Rightarrow> SaveTo yaml_Marshal flt config (wsConfigPath w) os)"

definition Workspace_Exists :: "osenv \<Rightarrow> Workspace \<Rightarrow> bool" where
  "Workspace_Exists os w = stat_ok os (wsConfigPath w)"

definition EnsureDir :: "os_faults \<Rightarrow> Workspace \<Rightarrow> osenv \<Rightarrow> osenv \<times> bool" where
  "EnsureDir flt w os =
    (let dir = filepath_Dir (wsConfigPath w) in
     if dir = ''.'' then (os, True) else os_MkdirAll flt dir os)"

definition filepath_Abs :: "osenv \<Rightarrow> string \<Rightarrow> string option" where
  "filepath_Abs os path =
    (if IsAbs path then Some (filepath_Clean path)
     else map_option (\<lambda>wd. filepath_Join [wd, path]) (osGetwd os))"

definition expand_tilde :: "osenv \<Rightarrow> string \<Rightarrow> cfg_err + string" where
  "expand_tilde os path =
    (case path of
       c # rest \<Rightarrow>
         if c = CHR ''~'' then
           (case osHomeDir os of
              None \<Rightarrow> Inl EHome
            | Some home \<Rightarrow>
               (case rest of
                  [] \<Rightarrow> Inr home
                | d # rest' \<Rightarrow> if d = CHR ''/'' then Inr (filepath_Join [home, rest']) else Inr path))
         else Inr path
     | [] \<Rightarrow> Inr path)"

definition ResolveWorkspaceDir :: "osenv \<Rightarrow> string \<Rightarrow> cfg_err + string" where
  "ResolveWorkspaceDir os flag =
    (let path0 = (if flag = [] then os_Getenv os ''COMPLYTIME_WORKSPACE'' else flag);
         path1 = (if path0 = [] then ''.'' else path0) in
     case expand_tilde os path1 of
       Inl e \<Rightarrow> Inl e
     | Inr path \<Rightarrow>
        (case filepath_Abs os path of
           None \<Rightarrow> Inl EAbs
         | Some absPath \<Rightarrow>
            (case osStat os absPath of
               StatMissing \<Rightarrow> Inl (EWsMissing absPath)
             | StatErr \<Rightarrow> Inl (EWsStat absPath)
             | StatFile \<Rightarrow> Inl (EWsNotDir absPath)
             | StatDir \<Rightarrow> Inr absPath)))"

section \<open>The init command\<close>

datatype init_err =
    IWorkspace cfg_err
  | IExists string
  | IMkdir
  | IWrite "cfg_err option"

type_synonym stdin = "string option list"

fun promptPolicies_loop :: "stdin \<Rightarrow> string list \<Rightarrow> PolicyEntry list \<Rightarrow> PolicyEntry list \<times> stdin" where
  "promptPolicies_loop [] seenURLs policies = (policies, [])"
| "promptPolicies_loop (None # input) seenURLs policies = (policies, input)"
| "promptPolicies_loop (Some line # input) seenURLs policies =
    (let url = TrimSpace line in
     if url = [] then (policies, input)
     else if ValidateOCIRef url \<noteq> None then promptPolicies_loop input seenURLs policies
     else if url \<in> set seenURLs then promptPolicies_loop input seenURLs policies
     else (case input of
        [] \<Rightarrow> (policies @ [\<lparr>peURL = url, peID = [], peVerification = None, peSkipVerify = False\<rparr>], [])
      | idLine # input' \<Rightarrow>
          promptPolicies_loop input' (url # seenURLs)
            (policies @ [\<lparr>peURL = url, peID = TrimSpace (case idLine of Some i \<Rightarrow> i | None \<Rightarrow> []),
                          peVerification = None, peSkipVerify = False\<rparr>])))"

definition promptPolicies :: "stdin \<Rightarrow> PolicyEntry list \<times> stdin" where
  "promptPolicies input = promptPolicies_loop input [] []"

definition trimmed_parts :: "string \<Rightarrow> string list" where
  "trimmed_parts s = filter (\<lambda>p. p \<noteq> []) (map TrimSpace (Split CHR '','' s))"

fun promptTargets_loop :: "string list \<Rightarrow> string list \<Rightarrow> stdin \<Rightarrow> TargetConfig list" where
  "promptTargets_loop effectiveIDs [] input = []"
| "promptTargets_loop effectiveIDs (targetID # ids) input =
    (let policyInput = (case input of Some l # _ \<Rightarrow> l | _ \<Rightarrow> []);
         targetPolicies = (if policyInput = [] then effectiveIDs else trimmed_parts policyInput) in
     \<lparr>tcID = targetID, tcPolicies = targetPolicies, tcVariables = []\<rparr> #
       promptTargets_loop effectiveIDs ids (tl input))"

definition promptTargets :: "PolicyEntry list \<Rightarrow> stdin \<Rightarrow> TargetConfig list" where
  "promptTargets policies input =
    (case input of
       Some line # input' \<Rightarrow>
         if line = [] then []
         else promptTargets_loop (map EffectiveID policies) (trimmed_parts line) input'
     | _ \<Rightarrow> [])"

text \<open>The template holds two empty lists and comments; its text is a parameter.\<close>

definition writeEmptyConfigTemplate :: "os_faults \<Rightarrow> string \<Rightarrow> string \<Rightarrow> osenv \<Rightarrow> osenv \<times> bool" where
  "writeEmptyConfigTemplate flt emptyConfigTemplate path os = os_WriteFile flt path emptyConfigTemplate os"

definition init_run ::
    "(WorkspaceConfig \<Rightarrow> string option) \<Rightarrow> string \<Rightarrow> os_faults \<Rightarrow> string \<Rightarrow> stdin \<Rightarrow> osenv \<Rightarrow> osenv \<times> init_err option" where
  "init_run yaml_Marshal template flt flag input os =
    (case ResolveWorkspaceDir os flag of
       Inl e \<Rightarrow> (os, Some (IWorkspace e))
     | Inr baseDir \<Rightarrow>
        (let workspace = NewWorkspace os baseDir in
         if Workspace_Exists os workspace then (os, Some (IExists (wsConfigPath workspace)))
         else case EnsureDir flt workspace os of
           (os1, False) \<Rightarrow> (os1, Some IMkdir)
         | (os1, True) \<Rightarrow>
            (let (policies, input') = promptPolicies input in
             if policies = [] then
               (case writeEmptyConfigTemplate flt template (wsConfigPath workspace) os1 of
                  (os2, True) \<Rightarrow> (os2, None)
                | (os2, False) \<Rightarrow> (os2, Some (IWrite None)))
             else
               (let wsConfig' = \<lparr>wcVersion = 0, wcPolicies = policies, wcComplypacks = [],
                      wcTargets = promptTargets policies input', wcVariables = [], wcVerification = None\<rparr> in
                case Workspace_Save yaml_Marshal flt (workspace\<lparr>wsConfig := Some wsConfig'\<rparr>) os1 of
                  (os2, None) \<Rightarrow> (os2, None)
                | (os2, Some e) \<Rightarrow> (os2, Some (IWrite (Some e)))))))"

section \<open>Properties\<close>

lemma WithWorkspaceVar_get:
  assumes "go_wf vars"
  shows "go_get (WithWorkspaceVar vars ws) k = (if k = WorkspaceVarKey then Some ws else go_get vars k)"
proof -
  have "go_get (foldl (\<lambda>m (k, v). go_put k v m) m0 vars) k =
      (case go_get vars k of Some v \<Rightarrow> Some v | None \<Rightarrow> go_get m0 k)" for m0
    using assms
  proof (induction vars arbitrary: m0)
    case (Cons x vars)
    obtain k' v' where x: "x = (k', v')" by (cases x)
    have "go_wf vars" "go_get vars k' = None"
      using Cons.prems x by (auto simp: go_wf_def go_get_def map_of_eq_None_iff)
    then show ?case using Cons.IH[of "go_put k' v' m0"] x
      by (auto simp: go_get_def[of "(k', v') # vars"] go_get_def[of vars] split: option.splits)
  qed simp
  from this[of "[]"] show ?thesis
    by (auto simp: WithWorkspaceVar_def split: option.splits)
qed

lemma FilenameSafe_flat: "CHR ''/'' \<notin> set (FilenameSafe s)"
  by (auto simp: FilenameSafe_def ReplaceByte_def)

lemma ResolveWorkspaceDir_dir: "ResolveWorkspaceDir os flag = Inr d \<Longrightarrow> osStat os d = StatDir"
  by (auto simp: ResolveWorkspaceDir_def Let_def split: sum.splits option.splits stat_res.splits)

lemma os_WriteFile_reads:
  "osReadFile (fst (os_WriteFile flt path data os)) p =
    (if p = path \<and> snd (os_WriteFile flt path data os) then ReadOK data else osReadFile os p)"
  by (simp add: os_WriteFile_def)

lemma EnsureDir_reads: "osReadFile (fst (EnsureDir flt w os)) = osReadFile os"
  by (simp add: EnsureDir_def os_MkdirAll_def Let_def)

lemma Workspace_Save_reads: "p \<noteq> wsConfigPath w \<Longrightarrow> osReadFile (fst (Workspace_Save y flt w os)) p = osReadFile os p"
  by (auto simp: Workspace_Save_def SaveTo_def os_WriteFile_def split: option.splits)

lemma init_run_reads:
  assumes ok: "stat_ok os p"
  shows "osReadFile (fst (init_run yaml_Marshal template flt flag input os)) p = osReadFile os p"
proof (cases "ResolveWorkspaceDir os flag")
  case (Inr baseDir)
  let ?w = "NewWorkspace os baseDir"
  show ?thesis
  proof (cases "Workspace_Exists os ?w")
    case False
    then have ne: "p \<noteq> wsConfigPath ?w" using ok by (auto simp: Workspace_Exists_def)
    obtain os1 b where e: "EnsureDir flt ?w os = (os1, b)" by fastforce
    then have r1: "osReadFile os1 = osReadFile os" using EnsureDir_reads[of flt ?w os] by simp
    have wr: "osReadFile os2 p = osReadFile os p"
      if "writeEmptyConfigTemplate flt template (wsConfigPath ?w) os1 = (os2, r)" for os2 r
      using ne r1 that os_WriteFile_reads[of flt "wsConfigPath ?w" template os1 p]
      by (simp add: writeEmptyConfigTemplate_def)
    have sv: "osReadFile os2 p = osReadFile os p"
      if "Workspace_Save yaml_Marshal flt (?w\<lparr>wsConfig := c\<rparr>) os1 = (os2, r)" for c os2 r
      using ne r1 that Workspace_Save_reads[of p "?w\<lparr>wsConfig := c\<rparr>" yaml_Marshal flt os1] by simp
    show ?thesis using Inr False e r1
      by (auto simp: init_run_def Let_def wr split: prod.splits bool.splits option.splits dest: sv)
  qed (simp add: init_run_def Inr)
qed (simp add: init_run_def)

lemma init_run_exists:
  "ResolveWorkspaceDir os flag = Inr baseDir \<Longrightarrow>
   stat_ok os (filepath_Join [baseDir, WorkspaceDir, WorkspaceConfigFile]) \<or>
     stat_ok os (filepath_Join [baseDir, WorkspaceConfigFile]) \<Longrightarrow>
   \<exists>c. init_run yaml_Marshal template flt flag input os = (os, Some (IExists c))"
  by (auto simp: init_run_def Workspace_Exists_def NewWorkspace_def DetectConfigPath_def Let_def)


lemma promptPolicies_loop_sound:
  assumes "\<forall>e \<in> set ps. ValidateOCIRef (peURL e) = None" "distinct (map peURL ps)" "set seen = peURL ` set ps"
  shows "(\<forall>e \<in> set (fst (promptPolicies_loop input seen ps)). ValidateOCIRef (peURL e) = None) \<and>
    distinct (map peURL (fst (promptPolicies_loop input seen ps)))"
  using assms
  by (induction input seen ps rule: promptPolicies_loop.induct) (auto simp: Let_def split: list.splits)

lemma promptPolicies_sound:
  "(\<forall>e \<in> set (fst (promptPolicies input)). ValidateOCIRef (peURL e) = None) \<and>
   distinct (map peURL (fst (promptPolicies input)))"
  unfolding promptPolicies_def by (rule promptPolicies_loop_sound) simp_all

text \<open>A workspace \<^verbatim>\<open>/work\<close> with a legacy configuration file.\<close>

definition demo_legacy_os :: osenv where
  "demo_legacy_os = demo_os\<lparr>osStat := (\<lambda>p. if p = ''/work'' then StatDir
     else if p = ''/work/complytime.yaml'' then StatFile else StatMissing)\<rparr>"


text \<open>
  Nothing checks the answers against each other: the same target entered twice gives a
  configuration that validation rejects.
\<close>

definition demo_new_os :: osenv where
  "demo_new_os = demo_os\<lparr>osStat := (\<lambda>p. if p = ''/work'' then StatDir else StatMissing)\<rparr>"

definition demo_duplicate_config :: WorkspaceConfig where
  "demo_duplicate_config = \<lparr>wcVersion = 0,
     wcPolicies = [\<lparr>peURL = ''r.io/p:v1'', peID = [], peVerification = None, peSkipVerify = False\<rparr>], wcComplypacks = [],
     wcTargets = [\<lparr>tcID = ''a'', tcPolicies = [''p''], tcVariables = []\<rparr>, \<lparr>tcID = ''a'', tcPolicies = [''p''], tcVariables = []\<rparr>],
     wcVariables = [], wcVerification = None\<rparr>"

lemma init_writes_rejected_config:
  "snd (init_run (\<lambda>c. if c = demo_duplicate_config then Some ''y'' else None) ''t'' (\<lambda>_. False) []
     [Some ''r.io/p:v1'', None, None, Some ''a,a'', None, None] demo_new_os) = None"
  "snd (Validate demo_new_os demo_duplicate_config) = Some (ETargetDuplicate ''a'')"
  by code_simp+

end
