(* ===== verification/Filesystem.thy ===== *)
theory Filesystem
  imports OCI_Reference Filepath
begin

text \<open>
  The files the program keeps, and the operating system calls it makes on them.

  A file holds a document: JSON documents are typed values (marshalling and unmarshalling
  a value of the same Go type is the identity, every other content fails to parse), an OCI
  layout store is its index with the blobs it refers to, other files are raw bytes, and
  \<open>Torn\<close> is what an interrupted write leaves. A file system is an association list from
  absolute paths (component lists) to files and directories. Every call takes a fault
  oracle: an operation the oracle names fails. A failed write leaves a torn file, every
  other failed operation leaves the file system as it was.
\<close>

section \<open>Documents\<close>

text \<open>\<^verbatim>\<open>time.Time\<close> values are integers (the zero time is 0).\<close>

type_synonym gotime = int

record PolicyState =
  psVersion :: string
  psDigest :: string
  psEvaluatorID :: string
  psLastUpdated :: gotime
  psVerified :: bool
  psSignerIdentity :: string
  psIssuer :: string
  psVerifiedAt :: gotime
  psPolicyTitle :: string
  psPolicyEvaluator :: string
  psControlCount :: int
  psAssessmentCount :: int

record State =
  stLastSync :: gotime
  stPolicies :: "(string, PolicyState) gomap"
  stComplypacks :: "(string, PolicyState) gomap"

text \<open>The configuration embedded in a complypack (vendored package), without its provenance.\<close>

record PackConfig =
  pcID :: string
  pcEvaluatorID :: string
  pcVersion :: string

record GenerationState =
  gsPolicyID :: string
  gsPolicyDigest :: string
  gsComplypackDigests :: "(string, string) gomap"
  gsGeneratedAt :: string
  gsEvaluatorIDs :: "string list"

record Descriptor =
  dsMediaType :: string
  dsDigest :: string
  dsArtifactType :: string

record Manifest =
  mfConfigMediaType :: string
  mfLayers :: "Descriptor list"
  mfArtifactType :: string

datatype blob = BManifest Manifest | BBytes string

record OciStore =
  ocTags :: "(string, Descriptor) gomap"
  ocBlobs :: "(string, blob) gomap"

datatype fdata =
    Raw string
  | StateDoc State
  | PackDoc PackConfig
  | GenDoc GenerationState
  | OciDoc OciStore
  | Torn

section \<open>File systems\<close>

datatype node = File fdata | Dir

type_synonym fs = "(path, node) gomap"

datatype fsop =
    OpMkdirAll path
  | OpMkdirTemp path
  | OpCreateTemp path
  | OpOpen path
  | OpWrite path
  | OpChmod path
  | OpClose path
  | OpRead path
  | OpReadDir path
  | OpStat path
  | OpRemove path
  | OpRemoveAll path
  | OpRename path path

type_synonym faults = "fsop \<Rightarrow> bool"

abbreviation no_faults :: faults where
  "no_faults \<equiv> \<lambda>_. False"

text \<open>\<open>under p q\<close>: \<open>q\<close> is \<open>p\<close> or below it.\<close>

definition under :: "path \<Rightarrow> path \<Rightarrow> bool" where
  "under p q \<longleftrightarrow> take (length p) q = p"

fun is_file :: "node option \<Rightarrow> bool" where
  "is_file (Some (File _)) = True"
| "is_file _ = False"

fun is_dir :: "node option \<Rightarrow> bool" where
  "is_dir (Some Dir) = True"
| "is_dir _ = False"

definition path_prefixes :: "path \<Rightarrow> path list" where
  "path_prefixes p = map (\<lambda>n. take n p) [1..<Suc (length p)]"

definition fs_MkdirAll :: "faults \<Rightarrow> path \<Rightarrow> fs \<Rightarrow> fs \<times> bool" where
  "fs_MkdirAll flt p s =
    (if flt (OpMkdirAll p) \<or> list_ex (\<lambda>q. is_file (go_get s q)) (path_prefixes p) then (s, False)
     else (foldl (\<lambda>s q. if go_has s q then s else go_put q Dir s) s (path_prefixes p), True))"

text \<open>A temporary name is chosen by the caller's random source and must be free.\<close>

definition fs_MkdirTemp :: "faults \<Rightarrow> path \<Rightarrow> string \<Rightarrow> fs \<Rightarrow> fs \<times> path option" where
  "fs_MkdirTemp flt parent name s =
    (let p = parent @ [name] in
     if flt (OpMkdirTemp parent) \<or> go_has s p then (s, None) else (go_put p Dir s, Some p))"

definition fs_CreateTemp :: "faults \<Rightarrow> path \<Rightarrow> string \<Rightarrow> fs \<Rightarrow> fs \<times> path option" where
  "fs_CreateTemp flt parent name s =
    (let p = parent @ [name] in
     if flt (OpCreateTemp parent) \<or> go_has s p then (s, None) else (go_put p (File (Raw [])) s, Some p))"

text \<open>Creating a file that must not exist, and replacing or creating a file.\<close>

definition fs_OpenExcl :: "faults \<Rightarrow> path \<Rightarrow> fs \<Rightarrow> fs \<times> bool" where
  "fs_OpenExcl flt p s =
    (if flt (OpOpen p) \<or> go_has s p \<or> \<not> is_dir (go_get s (butlast p)) then (s, False)
     else (go_put p (File (Raw [])) s, True))"

definition fs_Write :: "faults \<Rightarrow> path \<Rightarrow> fdata \<Rightarrow> fs \<Rightarrow> fs \<times> bool" where
  "fs_Write flt p d s =
    (if flt (OpWrite p) then (go_put p (File Torn) s, False) else (go_put p (File d) s, True))"

definition fs_WriteFile :: "faults \<Rightarrow> path \<Rightarrow> fdata \<Rightarrow> fs \<Rightarrow> fs \<times> bool" where
  "fs_WriteFile flt p d s =
    (if flt (OpOpen p) \<or> is_dir (go_get s p) \<or> \<not> is_dir (go_get s (butlast p)) then (s, False)
     else fs_Write flt p d s)"

definition fs_RemoveAll :: "faults \<Rightarrow> path \<Rightarrow> fs \<Rightarrow> fs \<times> bool" where
  "fs_RemoveAll flt p s =
    (if flt (OpRemoveAll p) then (s, False) else (filter (\<lambda>(q, n). \<not> under p q) s, True))"

definition fs_Remove :: "faults \<Rightarrow> path \<Rightarrow> fs \<Rightarrow> fs \<times> bool" where
  "fs_Remove flt p s =
    (if flt (OpRemove p) \<or> \<not> is_file (go_get s p) then (s, False) else (go_del p s, True))"

definition move_path :: "path \<Rightarrow> path \<Rightarrow> path \<Rightarrow> path" where
  "move_path a b q = b @ drop (length a) q"

definition fs_empty_dir :: "path \<Rightarrow> fs \<Rightarrow> bool" where
  "fs_empty_dir p s \<longleftrightarrow> list_all (\<lambda>(q, n). under p q \<longrightarrow> q = p) s"

definition fs_Rename :: "faults \<Rightarrow> path \<Rightarrow> path \<Rightarrow> fs \<Rightarrow> fs \<times> bool" where
  "fs_Rename flt a b s =
    (if flt (OpRename a b) \<or> \<not> go_has s a \<or> \<not> is_dir (go_get s (butlast b)) \<or> under a b \<or>
        (case go_get s b of
           None \<Rightarrow> False
         | Some (File _) \<Rightarrow> is_dir (go_get s a)
         | Some Dir \<Rightarrow> is_file (go_get s a) \<or> \<not> fs_empty_dir b s)
     then (s, False)
     else (map (\<lambda>(q, n). if under a q then (move_path a b q, n) else (q, n))
             (filter (\<lambda>(q, n). \<not> under b q) s), True))"

definition fs_exists :: "faults \<Rightarrow> path \<Rightarrow> fs \<Rightarrow> bool" where
  "fs_exists flt p s \<longleftrightarrow> \<not> flt (OpStat p) \<and> go_has s p"

datatype read_doc = NoDoc | UnreadableDoc | Doc fdata

definition fs_ReadFile :: "faults \<Rightarrow> path \<Rightarrow> fs \<Rightarrow> read_doc" where
  "fs_ReadFile flt p s =
    (if flt (OpRead p) then UnreadableDoc
     else case go_get s p of
        None \<Rightarrow> NoDoc
      | Some Dir \<Rightarrow> UnreadableDoc
      | Some (File d) \<Rightarrow> Doc d)"

text \<open>\<^verbatim>\<open>os.ReadDir\<close>: the entries of a directory, sorted by name.\<close>

datatype dir_res = NoDir | UnreadableDir | Entries "(string \<times> node) list"

definition fs_children :: "path \<Rightarrow> fs \<Rightarrow> (string \<times> node) list" where
  "fs_children p s = map (\<lambda>(q, n). (last q, n))
     (filter (\<lambda>(q, n). q \<noteq> [] \<and> butlast q = p) s)"

definition fs_ReadDir :: "faults \<Rightarrow> path \<Rightarrow> fs \<Rightarrow> dir_res" where
  "fs_ReadDir flt p s =
    (if flt (OpReadDir p) then UnreadableDir
     else case go_get s p of
        None \<Rightarrow> NoDir
      | Some (File _) \<Rightarrow> UnreadableDir
      | Some Dir \<Rightarrow> Entries (sort_key fst (fs_children p s)))"

section \<open>Lemmas\<close>

lemma under_refl [simp]: "under p p"
  by (simp add: under_def)

lemma under_append [simp]: "under p (p @ q)"
  by (simp add: under_def)

lemma under_iff: "under p q \<longleftrightarrow> (\<exists>r. q = p @ r)"
  by (metis append_take_drop_id under_append under_def)

lemma under_trans: "under p q \<Longrightarrow> under q r \<Longrightarrow> under p r"
  by (auto simp: under_iff)

lemma not_under_sibling: "a \<noteq> b \<Longrightarrow> \<not> under (p @ [a]) (p @ b # q)"
  by (simp add: under_iff)

lemma under_snoc_iff [simp]: "under (p @ [a]) (p @ b # q) \<longleftrightarrow> a = b"
  by (auto simp: under_iff)

lemma not_under_parent [simp]: "\<not> under (p @ a # q) p"
  by (auto simp: under_iff)

lemma go_get_filter:
  "go_get (filter (\<lambda>(q, n). P q) s) k = (if P k then go_get s k else None)"
  unfolding go_get_def by (induction s) auto

lemma fs_RemoveAll_get [fs_simps]:
  "go_get (fst (fs_RemoveAll flt p s)) q =
    (if \<not> flt (OpRemoveAll p) \<and> under p q then None else go_get s q)"
  using go_get_filter[of "\<lambda>q. \<not> under p q" s q] by (simp add: fs_RemoveAll_def)

lemma go_get_move:
  assumes "\<forall>(q, n) \<in> set s. \<not> under b q" "\<not> under a b"
  shows "go_get (map (\<lambda>(q, n). if under a q then (move_path a b q, n) else (q, n)) s) k =
    (if under b k then go_get s (a @ drop (length b) k)
     else if under a k then None else go_get s k)"
  using assms(1)
proof (induction s)
  case (Cons x s)
  obtain q n where x: "x = (q, n)" by (cases x)
  have "move_path a b q = k \<longleftrightarrow> under b k \<and> q = a @ drop (length b) k" if "under a q"
    using that by (auto simp: move_path_def under_iff)
  moreover have "under a (a @ drop (length b) k)" by simp
  ultimately show ?case using Cons x by (auto simp: go_get_def)
qed (simp add: go_get_def)

lemma fs_Rename_get:
  assumes "snd (fs_Rename flt a b s)" "\<not> under b a"
  shows "go_get (fst (fs_Rename flt a b s)) k =
    (if under b k then go_get s (a @ drop (length b) k)
     else if under a k then None else go_get s k)"
proof -
  let ?s = "filter (\<lambda>(q, n). \<not> under b q) s"
  have r: "fst (fs_Rename flt a b s) = map (\<lambda>(q, n). if under a q then (move_path a b q, n) else (q, n)) ?s"
    and ab: "\<not> under a b"
    using assms(1) by (auto simp: fs_Rename_def split: if_splits)
  have "\<forall>(q, n) \<in> set ?s. \<not> under b q" by auto
  from go_get_move[OF this ab, of k]
  have g: "go_get (fst (fs_Rename flt a b s)) k =
      (if under b k then go_get ?s (a @ drop (length b) k) else if under a k then None else go_get ?s k)"
    unfolding r .
  show ?thesis
  proof (cases "under b (a @ drop (length b) k)")
    case False
    then show ?thesis using g by (simp add: go_get_filter)
  next
    case True
    then have "length b > length a \<longrightarrow> under a b" using ab
      by (auto simp: under_def) (metis append_eq_conv_conj nat_less_le take_all take_append under_def under_append)
    then have "length b \<le> length a" using ab by linarith
    with True have "under b a" by (auto simp: under_def)
    with assms(2) show ?thesis by blast
  qed
qed

lemma fs_Rename_fail: "\<not> snd (fs_Rename flt a b s) \<Longrightarrow> fst (fs_Rename flt a b s) = s"
  by (auto simp: fs_Rename_def split: if_splits)

lemma go_wf_filter [intro]: "go_wf s \<Longrightarrow> go_wf (filter P s)"
  unfolding go_wf_def by (induction s) auto

lemma fs_MkdirAll_fail: "\<not> snd (fs_MkdirAll flt p s) \<Longrightarrow> fst (fs_MkdirAll flt p s) = s"
  by (auto simp: fs_MkdirAll_def split: if_splits)

lemma foldl_mkdir_get:
  "go_get (foldl (\<lambda>s q. if go_has s q then s else go_put q Dir s) s ps) k =
    (if go_get s k = None \<and> k \<in> set ps then Some Dir else go_get s k)"
  by (induction ps arbitrary: s) (auto simp: go_has_def simp del: go_has_keys)

lemma path_prefixes_set: "q \<in> set (path_prefixes p) \<longleftrightarrow> q \<noteq> [] \<and> under q p"
proof
  assume "q \<in> set (path_prefixes p)"
  then obtain n where "q = take n p" "1 \<le> n" "n \<le> length p" by (auto simp: path_prefixes_def)
  then show "q \<noteq> [] \<and> under q p" by (auto simp: under_def min_def)
next
  assume "q \<noteq> [] \<and> under q p"
  then have q: "take (length q) p = q" "1 \<le> length q" "length q \<le> length p"
    by (auto simp: under_iff Suc_le_eq)
  from q(2,3) have "length q \<in> set [1..<Suc (length p)]"
    unfolding set_upt atLeastLessThan_iff by linarith
  then show "q \<in> set (path_prefixes p)"
    unfolding path_prefixes_def set_map using q(1) by (metis image_eqI)
qed

lemma fs_MkdirAll_get [fs_simps]:
  "go_get (fst (fs_MkdirAll flt p s)) k =
    (if snd (fs_MkdirAll flt p s) \<and> go_get s k = None \<and> k \<noteq> [] \<and> under k p then Some Dir else go_get s k)"
  by (auto simp: fs_MkdirAll_def foldl_mkdir_get path_prefixes_set simp del: go_has_keys)

end
