(* ===== verification/Cache_State.thy ===== *)
theory Cache_State
  imports Filesystem
begin

text \<open>
  The sync state (\<^verbatim>\<open>internal/cache/state.go\<close>, \<^verbatim>\<open>retention.go\<close>): digest validation, loading and the
  atomic save of \<^verbatim>\<open>state.json\<close>, the updates after a sync, and the reverse lookup from an
  evaluator to its active version. A locale states what the sync code relies on when it
  records a digest under a key; policies and complypacks are its two interpretations.
\<close>

section \<open>Errors and verification results\<close>

record VerificationResult =
  vrVerified :: bool
  vrSignerIdentity :: string
  vrIssuer :: string
  vrVerifiedAt :: gotime

datatype path_err =
    PEmpty | PNull string | PSeparator string | PParent string | PInvalidChars string

datatype cache_err =
    CInvalidDigest string digest_err
  | CPolicy string cache_err
  | CComplypack string cache_err
  | CStateRead path
  | CStateParse path
  | CStateMkdir
  | CStateTemp
  | CStateWrite path
  | CStateChmod
  | CStateClose
  | CStateRename path
  | CDuplicateEvaluator string
  | CInvalidEvaluator path_err
  | CInvalidVersion path_err
  | CPackMkdir path
  | CPackTemp
  | CPackContentCreate
  | CPackContentWrite
  | CPackContentClose
  | CPackConfigWrite
  | CPackRemove path
  | CPackRename path
  | CContentNotFound string string
  | CConfigRead string string
  | CConfigParse string string
  | CStateLookup string cache_err
  | CDirRead string
  | CStoreMkdir path
  | CStoreOpen string
  | CListWalk

section \<open>Digests of the state\<close>

definition ValidateDigest :: "string \<Rightarrow> cache_err option" where
  "ValidateDigest s =
    (if s = [] then None
     else case digest_Parse s of Inl e \<Rightarrow> Some (CInvalidDigest s e) | Inr _ \<Rightarrow> None)"

definition excludeMalformedDigests :: "State \<Rightarrow> State" where
  "excludeMalformedDigests s = s\<lparr>
     stPolicies := filter (\<lambda>(k, ps). ValidateDigest (psDigest ps) = None) (stPolicies s),
     stComplypacks := filter (\<lambda>(k, ps). ValidateDigest (psDigest ps) = None) (stComplypacks s)\<rparr>"

definition StateFileName :: string where
  "StateFileName = ''state.json''"

definition empty_state :: State where
  "empty_state = \<lparr>stLastSync = 0, stPolicies = [], stComplypacks = []\<rparr>"

definition LoadState :: "faults \<Rightarrow> path \<Rightarrow> fs \<Rightarrow> cache_err + State" where
  "LoadState flt baseDir s =
    (let statePath = fp_join baseDir [StateFileName] in
     case fs_ReadFile flt statePath s of
       NoDoc \<Rightarrow> Inr empty_state
     | UnreadableDoc \<Rightarrow> Inl (CStateRead statePath)
     | Doc (StateDoc st) \<Rightarrow> Inr (excludeMalformedDigests st)
     | Doc _ \<Rightarrow> Inl (CStateParse statePath))"

text \<open>
  \<^verbatim>\<open>SaveState\<close>: a temporary file beside \<^verbatim>\<open>state.json\<close>, then a rename. \<open>rnd\<close> is the random part of
  the temporary name; the temporary file is removed on every error path (best effort).
\<close>

definition SaveState :: "faults \<Rightarrow> string \<Rightarrow> State \<Rightarrow> path \<Rightarrow> fs \<Rightarrow> fs \<times> cache_err option" where
  "SaveState flt rnd st baseDir s0 =
    (let statePath = fp_join baseDir [StateFileName] in
     case fs_MkdirAll flt baseDir s0 of
       (s1, False) \<Rightarrow> (s1, Some CStateMkdir)
     | (s1, True) \<Rightarrow>
        (case fs_CreateTemp flt baseDir (''.state-'' @ rnd @ ''.json.tmp'') s1 of
           (s2, None) \<Rightarrow> (s2, Some CStateTemp)
         | (s2, Some tmpPath) \<Rightarrow>
            (case fs_Write flt tmpPath (StateDoc st) s2 of
               (s3, False) \<Rightarrow> (fst (fs_Remove flt tmpPath s3), Some (CStateWrite tmpPath))
             | (s3, True) \<Rightarrow>
                if flt (OpChmod tmpPath) then (fst (fs_Remove flt tmpPath s3), Some CStateChmod)
                else if flt (OpClose tmpPath) then (fst (fs_Remove flt tmpPath s3), Some CStateClose)
                else (case fs_Rename flt tmpPath statePath s3 of
                        (s4, False) \<Rightarrow> (fst (fs_Remove flt tmpPath s4), Some (CStateRename statePath))
                      | (s4, True) \<Rightarrow> (s4, None)))))"

section \<open>Updates\<close>

definition fresh_entry :: "gotime \<Rightarrow> string \<Rightarrow> string \<Rightarrow> string \<Rightarrow> VerificationResult option \<Rightarrow> PolicyState" where
  "fresh_entry now version dgst evaluatorID vr =
    \<lparr>psVersion = version, psDigest = dgst, psEvaluatorID = evaluatorID, psLastUpdated = now,
     psVerified = (case vr of None \<Rightarrow> False | Some r \<Rightarrow> vrVerified r),
     psSignerIdentity = (case vr of None \<Rightarrow> [] | Some r \<Rightarrow> vrSignerIdentity r),
     psIssuer = (case vr of None \<Rightarrow> [] | Some r \<Rightarrow> vrIssuer r),
     psVerifiedAt = (case vr of None \<Rightarrow> 0 | Some r \<Rightarrow> vrVerifiedAt r),
     psPolicyTitle = [], psPolicyEvaluator = [], psControlCount = 0, psAssessmentCount = 0\<rparr>"

definition UpdatePolicyStateWithVerification ::
    "gotime \<Rightarrow> string \<Rightarrow> string \<Rightarrow> string \<Rightarrow> VerificationResult option \<Rightarrow> State \<Rightarrow> cache_err + State" where
  "UpdatePolicyStateWithVerification now policyID version dgst vr s =
    (case ValidateDigest dgst of
       Some e \<Rightarrow> Inl (CPolicy policyID e)
     | None \<Rightarrow> Inr (s\<lparr>stPolicies := go_put policyID (fresh_entry now version dgst [] vr) (stPolicies s),
                     stLastSync := now\<rparr>))"

definition UpdateComplypackStateWithVerification ::
    "gotime \<Rightarrow> string \<Rightarrow> string \<Rightarrow> string \<Rightarrow> string \<Rightarrow> VerificationResult option \<Rightarrow> State \<Rightarrow> cache_err + State" where
  "UpdateComplypackStateWithVerification now repository version dgst evaluatorID vr s =
    (case ValidateDigest dgst of
       Some e \<Rightarrow> Inl (CComplypack repository e)
     | None \<Rightarrow> Inr (s\<lparr>stComplypacks := go_put repository (fresh_entry now version dgst evaluatorID vr) (stComplypacks s),
                     stLastSync := now\<rparr>))"

definition GetPolicyState :: "State \<Rightarrow> string \<Rightarrow> PolicyState option" where
  "GetPolicyState s policyID = go_get (stPolicies s) policyID"

definition GetComplypackState :: "State \<Rightarrow> string \<Rightarrow> PolicyState option" where
  "GetComplypackState s repository = go_get (stComplypacks s) repository"

definition SetPolicyMetadata :: "string \<Rightarrow> string \<Rightarrow> string \<Rightarrow> int \<Rightarrow> int \<Rightarrow> State \<Rightarrow> State" where
  "SetPolicyMetadata repository title evaluator controls assessments s =
    (case go_get (stPolicies s) repository of
       None \<Rightarrow> s
     | Some ps \<Rightarrow> s\<lparr>stPolicies := go_put repository
         (ps\<lparr>psPolicyTitle := title, psPolicyEvaluator := evaluator,
             psControlCount := controls, psAssessmentCount := assessments\<rparr>) (stPolicies s)\<rparr>)"

section \<open>Reverse lookup\<close>

fun ev_loop :: "string \<Rightarrow> string option \<Rightarrow> (string \<times> PolicyState) list \<Rightarrow> cache_err + string option" where
  "ev_loop ev found [] = Inr found"
| "ev_loop ev found ((k, ps) # rest) =
    (if psEvaluatorID ps = ev then
       (case found of
          Some _ \<Rightarrow> Inl (CDuplicateEvaluator ev)
        | None \<Rightarrow> ev_loop ev (Some (psVersion ps)) rest)
     else ev_loop ev found rest)"

text \<open>The pair \<^verbatim>\<open>(version, found)\<close> is an option.\<close>

definition EvaluatorIDToVersion :: "State option \<Rightarrow> string \<Rightarrow> cache_err + string option" where
  "EvaluatorIDToVersion s evaluatorID =
    (case s of None \<Rightarrow> Inr None
     | Some st \<Rightarrow> if stComplypacks st = [] then Inr None else ev_loop evaluatorID None (stComplypacks st))"

section \<open>Retention\<close>

definition defaultRetentionCount :: int where
  "defaultRetentionCount = 1"

definition CacheRetentionCount :: "string \<Rightarrow> int" where
  "CacheRetentionCount raw =
    (if raw = [] then defaultRetentionCount
     else case Atoi raw of
       None \<Rightarrow> defaultRetentionCount
     | Some n \<Rightarrow> if n < 1 then 1 else n)"

section \<open>The interface of the sync code\<close>

text \<open>
  What the sync operations rely on: recording a version under a key succeeds exactly for an
  acceptable digest, then reads back with that digest and leaves every other key alone.
\<close>

locale digest_store =
  fixes get :: "'s \<Rightarrow> string \<Rightarrow> PolicyState option"
    and upd :: "'a \<Rightarrow> 's \<Rightarrow> 'e + 's"
    and key :: "'a \<Rightarrow> string"
    and entry :: "'a \<Rightarrow> PolicyState"
    and ok :: "string \<Rightarrow> bool"
  assumes upd_ok: "ok (psDigest (entry a)) \<Longrightarrow> \<exists>s'. upd a s = Inr s' \<and> get s' = (get s)(key a \<mapsto> entry a)"
    and upd_bad: "\<not> ok (psDigest (entry a)) \<Longrightarrow> \<exists>err. upd a s = Inl err"
begin

definition sound :: "'s \<Rightarrow> bool" where
  "sound s \<longleftrightarrow> (\<forall>k e. get s k = Some e \<longrightarrow> ok (psDigest e))"

lemma upd_InrD: "upd a s = Inr s' \<Longrightarrow> ok (psDigest (entry a)) \<and> get s' = (get s)(key a \<mapsto> entry a)"
proof (cases "ok (psDigest (entry a))")
  case True
  assume "upd a s = Inr s'"
  with upd_ok[OF True, of s] True show ?thesis by auto
next
  case False
  assume "upd a s = Inr s'"
  with upd_bad[OF False, of s] show ?thesis by auto
qed

lemma sound_upd:
  assumes "sound s" "upd a s = Inr s'"
  shows "sound s'"
proof -
  from upd_InrD[OF assms(2)] have "ok (psDigest (entry a))" "get s' = (get s)(key a \<mapsto> entry a)" by blast+
  with assms(1) show ?thesis by (simp add: sound_def)
qed

text \<open>A sequence of updates that all succeed: the last one for a key is what is read.\<close>

fun upd_all :: "'a list \<Rightarrow> 's \<Rightarrow> 'e + 's" where
  "upd_all [] s = Inr s"
| "upd_all (a # as) s = (case upd a s of Inl err \<Rightarrow> Inl err | Inr s' \<Rightarrow> upd_all as s')"

lemma upd_all_sound: "sound s \<Longrightarrow> upd_all as s = Inr s' \<Longrightarrow> sound s'"
  by (induction as arbitrary: s) (auto split: sum.splits dest: sound_upd)

lemma upd_all_get:
  "upd_all as s = Inr s' \<Longrightarrow>
   get s' k = (case map_of (rev (map (\<lambda>a. (key a, entry a)) as)) k of Some e \<Rightarrow> Some e | None \<Rightarrow> get s k)"
proof (induction as arbitrary: s)
  case (Cons a as)
  then obtain s1 where s1: "upd a s = Inr s1" "upd_all as s1 = Inr s'" by (auto split: sum.splits)
  with Cons.IH[OF s1(2)] upd_InrD[OF s1(1)] show ?case
    by (auto simp: map_add_def split: option.splits)
qed simp

lemma upd_all_Inr_iff: "(\<exists>s'. upd_all as s = Inr s') \<longleftrightarrow> (\<forall>a \<in> set as. ok (psDigest (entry a)))"
proof (induction as arbitrary: s)
  case (Cons a as)
  show ?case
  proof (cases "ok (psDigest (entry a))")
    case True
    then obtain s1 where "upd a s = Inr s1" using upd_ok[OF True, of s] by blast
    with True Cons.IH[of s1] show ?thesis by simp
  next
    case False
    with upd_bad[OF False, of s] show ?thesis by auto
  qed
qed simp

end

section \<open>Both maps of the state provide it\<close>

definition digest_ok :: "string \<Rightarrow> bool" where
  "digest_ok d \<longleftrightarrow> d = [] \<or> valid_digest d"

lemma ValidateDigest_None [simp]: "ValidateDigest d = None \<longleftrightarrow> digest_ok d"
  by (auto simp: ValidateDigest_def digest_ok_def digest_Parse_def split: option.splits)

text \<open>The arguments of the two update functions.\<close>

record update_args =
  uaNow :: gotime
  uaKey :: string
  uaVersion :: string
  uaDigest :: string
  uaEvaluatorID :: string
  uaResult :: "VerificationResult option"

definition policy_upd :: "update_args \<Rightarrow> State \<Rightarrow> cache_err + State" where
  "policy_upd a s = UpdatePolicyStateWithVerification (uaNow a) (uaKey a) (uaVersion a) (uaDigest a) (uaResult a) s"

definition pack_upd :: "update_args \<Rightarrow> State \<Rightarrow> cache_err + State" where
  "pack_upd a s = UpdateComplypackStateWithVerification (uaNow a) (uaKey a) (uaVersion a) (uaDigest a)
     (uaEvaluatorID a) (uaResult a) s"

lemma psDigest_fresh_entry [simp]: "psDigest (fresh_entry now v d ev vr) = d"
  by (simp add: fresh_entry_def)

interpretation pol: digest_store GetPolicyState policy_upd uaKey
  "\<lambda>a. fresh_entry (uaNow a) (uaVersion a) (uaDigest a) [] (uaResult a)" digest_ok
proof unfold_locales
  fix a :: update_args and s :: State
  let ?e = "fresh_entry (uaNow a) (uaVersion a) (uaDigest a) [] (uaResult a)"
  show "digest_ok (psDigest ?e) \<Longrightarrow>
      \<exists>s'. policy_upd a s = Inr s' \<and> GetPolicyState s' = (GetPolicyState s)(uaKey a \<mapsto> ?e)"
    by (auto simp: policy_upd_def UpdatePolicyStateWithVerification_def GetPolicyState_def fun_eq_iff
        ValidateDigest_None[THEN iffD2])
  show "\<not> digest_ok (psDigest ?e) \<Longrightarrow> \<exists>err. policy_upd a s = Inl err"
    by (cases "ValidateDigest (uaDigest a)")
       (auto simp: policy_upd_def UpdatePolicyStateWithVerification_def)
qed

interpretation pak: digest_store GetComplypackState pack_upd uaKey
  "\<lambda>a. fresh_entry (uaNow a) (uaVersion a) (uaDigest a) (uaEvaluatorID a) (uaResult a)" digest_ok
proof unfold_locales
  fix a :: update_args and s :: State
  let ?e = "fresh_entry (uaNow a) (uaVersion a) (uaDigest a) (uaEvaluatorID a) (uaResult a)"
  show "digest_ok (psDigest ?e) \<Longrightarrow>
      \<exists>s'. pack_upd a s = Inr s' \<and> GetComplypackState s' = (GetComplypackState s)(uaKey a \<mapsto> ?e)"
    by (auto simp: pack_upd_def UpdateComplypackStateWithVerification_def GetComplypackState_def fun_eq_iff
        ValidateDigest_None[THEN iffD2])
  show "\<not> digest_ok (psDigest ?e) \<Longrightarrow> \<exists>err. pack_upd a s = Inl err"
    by (cases "ValidateDigest (uaDigest a)")
       (auto simp: pack_upd_def UpdateComplypackStateWithVerification_def)
qed

section \<open>Every state of the program is sound\<close>

definition state_sound :: "State \<Rightarrow> bool" where
  "state_sound s \<longleftrightarrow> pol.sound s \<and> pak.sound s \<and> go_wf (stPolicies s) \<and> go_wf (stComplypacks s)"

text \<open>
  The states of a process: loaded from some file system, then changed by the operations of
  the package in any order.
\<close>

inductive reachable_state :: "State \<Rightarrow> bool" where
  loaded: "LoadState flt dir s = Inr st \<Longrightarrow>
    (\<forall>p doc. go_get s p = Some (File (StateDoc doc)) \<longrightarrow> go_wf (stPolicies doc) \<and> go_wf (stComplypacks doc)) \<Longrightarrow>
    reachable_state st"
| policy: "reachable_state st \<Longrightarrow> policy_upd a st = Inr st' \<Longrightarrow> reachable_state st'"
| pack: "reachable_state st \<Longrightarrow> pack_upd a st = Inr st' \<Longrightarrow> reachable_state st'"
| metadata: "reachable_state st \<Longrightarrow> reachable_state (SetPolicyMetadata r t e c n st)"

lemma excludeMalformedDigests_sound:
  assumes "go_wf (stPolicies s)" "go_wf (stComplypacks s)"
  shows "state_sound (excludeMalformedDigests s)"
proof -
  have g: "digest_ok (psDigest e)"
    if "go_get (filter (\<lambda>(k, ps). ValidateDigest (psDigest ps) = None) m) k = Some e"
    for m :: "(string, PolicyState) gomap" and k e
    using map_of_SomeD[OF that[unfolded go_get_def]] by simp
  have "pol.sound (excludeMalformedDigests s)"
    unfolding pol.sound_def GetPolicyState_def excludeMalformedDigests_def
    by (intro allI impI, rule g) simp
  moreover have "pak.sound (excludeMalformedDigests s)"
    unfolding pak.sound_def GetComplypackState_def excludeMalformedDigests_def
    by (intro allI impI, rule g) simp
  ultimately show ?thesis
    using assms by (simp add: state_sound_def excludeMalformedDigests_def go_wf_filter)
qed

lemma policy_upd_frame:
  "policy_upd a s = Inr s' \<Longrightarrow> stComplypacks s' = stComplypacks s \<and> (go_wf (stPolicies s) \<longrightarrow> go_wf (stPolicies s'))"
  by (auto simp: policy_upd_def UpdatePolicyStateWithVerification_def gm.wf_put split: option.splits)

lemma pack_upd_frame:
  "pack_upd a s = Inr s' \<Longrightarrow> stPolicies s' = stPolicies s \<and> (go_wf (stComplypacks s) \<longrightarrow> go_wf (stComplypacks s'))"
  by (auto simp: pack_upd_def UpdateComplypackStateWithVerification_def gm.wf_put split: option.splits)

lemma SetPolicyMetadata_sound: "state_sound s \<Longrightarrow> state_sound (SetPolicyMetadata r t e c n s)"
  by (auto simp: state_sound_def SetPolicyMetadata_def pol.sound_def pak.sound_def GetPolicyState_def
      GetComplypackState_def gm.wf_put split: option.splits if_splits)

lemma reachable_state_sound: "reachable_state st \<Longrightarrow> state_sound st"
proof (induction rule: reachable_state.induct)
  case (loaded flt dir s st)
  then consider "st = empty_state"
    | doc where "go_get s (fp_join dir [StateFileName]) = Some (File (StateDoc doc))" "st = excludeMalformedDigests doc"
    by (auto simp: LoadState_def fs_ReadFile_def Let_def split: read_doc.splits fdata.splits if_splits option.splits node.splits)
  then show ?case
  proof cases
    case 1
    then show ?thesis
      by (simp add: state_sound_def empty_state_def pol.sound_def pak.sound_def GetPolicyState_def GetComplypackState_def)
  next
    case 2
    with loaded show ?thesis using excludeMalformedDigests_sound by blast
  qed
next
  case (policy st a st')
  then show ?case
    using pol.sound_upd[of st a st'] policy_upd_frame[of a st st']
    by (auto simp: state_sound_def pak.sound_def GetComplypackState_def)
next
  case (pack st a st')
  then show ?case
    using pak.sound_upd[of st a st'] pack_upd_frame[of a st st']
    by (auto simp: state_sound_def pol.sound_def GetPolicyState_def)
next
  case (metadata st r t e c n)
  then show ?case using SetPolicyMetadata_sound by blast
qed

section \<open>Saving is atomic\<close>

lemma plain_StateFileName [simp]: "plain_comp StateFileName"
  by (simp add: plain_comp_def StateFileName_def)

lemma StateFileName_neq_tmp [simp]: "StateFileName \<noteq> CHR ''.'' # r" "CHR ''.'' # r \<noteq> StateFileName"
  by (simp_all add: StateFileName_def)

lemma fs_Remove_get: "go_get (fst (fs_Remove flt p s)) q =
    (if snd (fs_Remove flt p s) \<and> q = p then None else go_get s q)"
  by (auto simp: fs_Remove_def)

lemma fs_Write_get: "go_get (fst (fs_Write flt p d s)) q =
    (if q = p then Some (File (if snd (fs_Write flt p d s) then d else Torn)) else go_get s q)"
  by (auto simp: fs_Write_def)

lemma fs_CreateTemp_get:
  "fs_CreateTemp flt dir n s = (s', Some p) \<Longrightarrow>
     p = dir @ [n] \<and> go_get s p = None \<and> go_get s' = (go_get s)(p \<mapsto> File (Raw []))"
  by (auto simp: fs_CreateTemp_def Let_def go_has_def fun_eq_iff split: if_splits simp del: go_has_keys)

lemma fs_CreateTemp_None: "fs_CreateTemp flt dir n s = (s', None) \<Longrightarrow> s' = s"
  by (auto simp: fs_CreateTemp_def Let_def split: if_splits)

text \<open>The last step of a save: the rename of the complete temporary file.\<close>

lemma rename_state_file:
  assumes "fs_Rename flt (b @ [t]) (b @ [StateFileName]) s = (s', True)" "t \<noteq> StateFileName"
    "go_get s (b @ [t]) = Some (File d)"
  shows "go_get s' (b @ [StateFileName]) = Some (File d)" "go_get s' (b @ [t]) = None"
proof -
  have ok: "snd (fs_Rename flt (b @ [t]) (b @ [StateFileName]) s)" using assms(1) by simp
  have nu: "\<not> under (b @ [StateFileName]) (b @ [t])" using assms(2) by simp
  note g = fs_Rename_get[OF ok nu, unfolded assms(1) fst_conv]
  show "go_get s' (b @ [StateFileName]) = Some (File d)" using g assms(3) by simp
  show "go_get s' (b @ [t]) = None" using g[of "b @ [t]"] assms(2) by simp
qed

lemma SaveState_atomic_lemma:
  assumes "abs_path base"
  shows "go_get (fst (SaveState flt rnd st base s)) (base @ [StateFileName]) =
    (if snd (SaveState flt rnd st base s) = None then Some (File (StateDoc st))
     else go_get s (base @ [StateFileName]))"
proof -
  let ?sp = "base @ [StateFileName]" and ?t = "''.state-'' @ rnd @ ''.json.tmp''"
  have sp: "fp_join base [StateFileName] = ?sp" using assms by simp
  obtain s1 ok1 where m: "fs_MkdirAll flt base s = (s1, ok1)" by fastforce
  have k1: "go_get s1 ?sp = go_get s ?sp"
    using fs_MkdirAll_get[of flt base s ?sp] m by simp
  obtain s2 tmp where c: "fs_CreateTemp flt base ?t s1 = (s2, tmp)" by fastforce
  show ?thesis
  proof (cases "ok1 \<and> tmp \<noteq> None")
    case False
    then show ?thesis
      using m c k1 fs_CreateTemp_None[of flt base ?t s1 s2] by (auto simp: SaveState_def Let_def sp split: bool.splits)
  next
    case True
    then obtain p where p: "tmp = Some p" "ok1" by auto
    have pp: "p = base @ [?t]" "go_get s2 = (go_get s1)(p \<mapsto> File (Raw []))"
      using fs_CreateTemp_get[of flt base ?t s1 s2 p] c p by auto
    obtain s3 ok3 where w: "fs_Write flt p (StateDoc st) s2 = (s3, ok3)" by fastforce
    have k3: "go_get s3 ?sp = go_get s ?sp" "ok3 \<Longrightarrow> go_get s3 p = Some (File (StateDoc st))"
      using fs_Write_get[of flt p "StateDoc st" s2] w pp k1 by auto
    obtain s4 ok4 where r: "fs_Rename flt p ?sp s3 = (s4, ok4)" by fastforce
    have k4: "\<not> ok4 \<Longrightarrow> s4 = s3" using fs_Rename_fail[of flt p ?sp s3] r by simp
    have k5: "ok3 \<Longrightarrow> ok4 \<Longrightarrow> go_get s4 ?sp = Some (File (StateDoc st))"
      using rename_state_file(1)[of flt base ?t s3 s4 "StateDoc st"] r pp k3(2) by simp
    have rm: "go_get (fst (fs_Remove flt p x)) ?sp = go_get x ?sp" for x
      using pp by (simp add: fs_Remove_get)
    show ?thesis
      using m c p w r k3 k4 k5 rm by (auto simp: SaveState_def Let_def sp split: bool.splits)
  qed
qed

lemma excludeMalformedDigests_id: "state_sound st \<Longrightarrow> excludeMalformedDigests st = st"
proof -
  assume s: "state_sound st"
  have "filter (\<lambda>(k, ps). ValidateDigest (psDigest ps) = None) m = m"
    if "go_wf m" "\<forall>k e. go_get m k = Some e \<longrightarrow> digest_ok (psDigest e)" for m :: "(string, PolicyState) gomap"
    using that gm.get_entries[OF that(1)] by (intro filter_True) auto
  with s show ?thesis
    by (simp add: state_sound_def pol.sound_def pak.sound_def GetPolicyState_def GetComplypackState_def
        excludeMalformedDigests_def)
qed

text \<open>
  Property C8. Saving the state is atomic under every fault: whatever operation of
  \<^verbatim>\<open>SaveState\<close> fails, \<^verbatim>\<open>state.json\<close> holds either exactly what it held before (and an error is
  reported) or the complete new document (and none is); a torn file is never visible there.
\<close>

theorem SaveState_atomic:
  assumes "abs_path base"
  shows "case SaveState flt rnd st base s of
      (s', None) \<Rightarrow> go_get s' (base @ [StateFileName]) = Some (File (StateDoc st))
    | (s', Some e) \<Rightarrow> go_get s' (base @ [StateFileName]) = go_get s (base @ [StateFileName])"
  using SaveState_atomic_lemma[OF assms, of flt rnd st s]
  by (auto split: option.splits prod.splits)

theorem SaveState_atomic_witness:
  "case SaveState (\<lambda>op. case op of OpRename _ _ \<Rightarrow> True | _ \<Rightarrow> False) ''1'' empty_state [''data'']
      [([''data''], Dir), ([''data'', ''state.json''], File (Raw ''old''))] of
      (s', None) \<Rightarrow> go_get s' ([''data''] @ [StateFileName]) = Some (File (StateDoc empty_state))
    | (s', Some e) \<Rightarrow> go_get s' ([''data''] @ [StateFileName]) =
        go_get [([''data''], Dir), ([''data'', ''state.json''], File (Raw ''old''))] ([''data''] @ [StateFileName])"
  by (rule SaveState_atomic) (simp add: plain_comp_def)



section \<open>Reachable states\<close>

text \<open>
  Property C17. Whatever \<^verbatim>\<open>state.json\<close> contained (corrupted or hand-edited digests included) and
  whatever sequence of updates follows, every digest in the state of the process is empty or a
  well-formed OCI digest.
\<close>

theorem reachable_states_have_valid_digests:
  assumes "reachable_state st"
  shows "(\<forall>k e. GetPolicyState st k = Some e \<longrightarrow> psDigest e = [] \<or> Digest_Validate (psDigest e) = None) \<and>
    (\<forall>k e. GetComplypackState st k = Some e \<longrightarrow> psDigest e = [] \<or> Digest_Validate (psDigest e) = None)"
  using reachable_state_sound[OF assms]
  by (simp add: state_sound_def pol.sound_def pak.sound_def digest_ok_def)

definition demo_bad_state :: State where
  "demo_bad_state = \<lparr>stLastSync = 0,
     stPolicies = [(''p'', fresh_entry 1 ''v1'' ''sha256:zz'' [] None), (''q'', fresh_entry 1 ''v1'' [] [] None)],
     stComplypacks = []\<rparr>"

theorem reachable_states_have_valid_digests_witness:
  "\<exists>st. reachable_state st \<and> stPolicies st = [(''q'', fresh_entry 1 ''v1'' [] [] None)] \<and>
     (\<forall>k e. GetPolicyState st k = Some e \<longrightarrow> psDigest e = [] \<or> Digest_Validate (psDigest e) = None)"
proof -
  let ?s = "[([''data'', ''state.json''], File (StateDoc demo_bad_state))]"
  let ?st = "demo_bad_state\<lparr>stPolicies := [(''q'', fresh_entry 1 ''v1'' [] [] None)]\<rparr>"
  have l: "LoadState (\<lambda>_. False) [''data''] ?s = Inr ?st" by code_simp
  have "\<forall>p doc. go_get ?s p = Some (File (StateDoc doc)) \<longrightarrow> go_wf (stPolicies doc) \<and> go_wf (stComplypacks doc)"
    by (auto simp: go_get_def go_wf_def demo_bad_state_def split: if_splits)
  from reachable_state.loaded[OF l this] have r: "reachable_state ?st" .
  show ?thesis using reachable_states_have_valid_digests[OF r] r by (intro exI[of _ ?st]) simp
qed

section \<open>Reverse lookup\<close>

lemma ev_loop_spec:
  "ev_loop ev found xs =
    (case (found, filter (\<lambda>(k, ps). psEvaluatorID ps = ev) xs) of
       (f, []) \<Rightarrow> Inr f
     | (None, [(k, ps)]) \<Rightarrow> Inr (Some (psVersion ps))
     | _ \<Rightarrow> Inl (CDuplicateEvaluator ev))"
  by (induction ev found xs rule: ev_loop.induct) (auto split: option.splits list.splits)

text \<open>
  The reverse lookup does not depend on the iteration order of the map: two states
  whose complypack maps hold the same entries in any order give the same answer, the error for
  a duplicated evaluator included.
\<close>

lemma EvaluatorIDToVersion_order:
  assumes "mset (stComplypacks st) = mset (stComplypacks st')"
  shows "EvaluatorIDToVersion (Some st) ev = EvaluatorIDToVersion (Some st') ev"
proof -
  let ?f = "filter (\<lambda>(k, ps). psEvaluatorID ps = ev)"
  have m: "mset (?f (stComplypacks st)) = mset (?f (stComplypacks st'))"
    using assms by (simp add: mset_filter)
  then have l: "length (?f (stComplypacks st)) = length (?f (stComplypacks st'))"
    by (metis size_mset)
  have e: "EvaluatorIDToVersion (Some x) ev = ev_loop ev None (stComplypacks x)" for x
    by (simp add: EvaluatorIDToVersion_def)
  consider "?f (stComplypacks st) = []" | p where "?f (stComplypacks st) = [p]"
    | p q r where "?f (stComplypacks st) = p # q # r" by (metis list.exhaust)
  then show ?thesis
  proof cases
    case 1
    then show ?thesis using l by (auto simp: e ev_loop_spec)
  next
    case 2
    then obtain q where q: "?f (stComplypacks st') = [q]"
      using l by (cases "?f (stComplypacks st')") auto
    then have "?f (stComplypacks st') = [p]" using m unfolding 2 q by simp
    with 2 show ?thesis by (simp add: e ev_loop_spec)
  next
    case 3
    then obtain p' q' r' where "?f (stComplypacks st') = p' # q' # r'"
      using l by (cases "?f (stComplypacks st')"; cases "tl (?f (stComplypacks st'))") auto
    with 3 show ?thesis by (simp add: e ev_loop_spec split: prod.splits)
  qed
qed

text \<open>The retention count is at least one, and the number set when that is one.\<close>

lemma CacheRetentionCount_pos: "1 \<le> CacheRetentionCount raw \<and>
   (\<forall>n. raw = show_nat n \<longrightarrow> 1 \<le> n \<longrightarrow> int n < 2 ^ 63 \<longrightarrow> CacheRetentionCount raw = int n)"
proof -
  have "Atoi (show_nat n) = (if int n < 2 ^ 63 then Some (int n) else None)" for n
  proof -
    obtain c t where s: "show_nat n = c # t" by (cases "show_nat n") simp_all
    then have "is_digit c" using show_nat_digits[of c n] by simp
    then have "c \<noteq> CHR ''-''" "c \<noteq> CHR ''+''" by (auto simp: is_digit_def)
    with s read_show_nat[of n] show ?thesis by (simp add: Atoi_def)
  qed
  then show ?thesis by (auto simp: CacheRetentionCount_def defaultRetentionCount_def split: option.splits)
qed

end
