(* ===== verification/Registry.thy ===== *)
theory Registry
  imports OCI_Reference
begin

text \<open>
  The registry client (\<^verbatim>\<open>internal/registry/client.go\<close>) and the lookup references of the sync code
  (\<^verbatim>\<open>BuildLookupRef\<close>, \<^verbatim>\<open>classifyVersion\<close> of \<^verbatim>\<open>internal/cache/sync.go\<close>). Resolving a reference
  against a live registry is a parameter: a function from repository name and reference.
\<close>

datatype reg_err =
    RModuleEmpty
  | RFetchVersion string reg_err
  | RVersionNotFound string string
  | RInvalidReference string oras_err
  | RRepository string oras_err
  | RCommunication string

datatype resolve_res = ResolveOK string | ResolveNotFound | ResolveFail

type_synonym remote = "string \<Rightarrow> string \<Rightarrow> resolve_res"

text \<open>\<^verbatim>\<open>errors.Is(err, ErrVersionNotFound)\<close>, through the wrapping of errors.\<close>

fun is_version_not_found :: "reg_err \<Rightarrow> bool" where
  "is_version_not_found (RVersionNotFound _ _) = True"
| "is_version_not_found (RFetchVersion _ e) = is_version_not_found e"
| "is_version_not_found _ = False"

record Client =
  clRegistryURL :: string
  clFetcher :: "(string \<Rightarrow> reg_err + string \<times> string) option"
  clPlainHTTP :: bool

definition NewClient :: "string \<Rightarrow> Client" where
  "NewClient registryURL =
    \<lparr>clRegistryURL = registryURL, clFetcher = None, clPlainHTTP = HasPrefix registryURL ''http://''\<rparr>"

definition NewClientWithFetcher :: "string \<Rightarrow> (string \<Rightarrow> reg_err + string \<times> string) \<Rightarrow> Client" where
  "NewClientWithFetcher registryURL fetcher =
    \<lparr>clRegistryURL = registryURL, clFetcher = Some fetcher, clPlainHTTP = HasPrefix registryURL ''http://''\<rparr>"

definition NormalizeHost :: "string \<Rightarrow> string" where
  "NormalizeHost host = TrimSuffix (TrimPrefix (TrimPrefix host ''http://'') ''https://'') ''/''"

definition SplitHostScheme :: "string \<Rightarrow> string \<times> bool" where
  "SplitHostScheme host = (NormalizeHost host, HasPrefix host ''http://'')"

definition buildRef :: "string \<Rightarrow> string \<Rightarrow> string" where
  "buildRef registryHost modulePath =
    (let ref = registryHost @ ''/'' @ modulePath in
     if \<not> ContainsByte modulePath CHR '':'' \<and> \<not> ContainsByte modulePath CHR ''@'' then ref @ '':latest'' else ref)"

definition newRepository :: "string \<Rightarrow> reg_err + Reference" where
  "newRepository repoName = (case ParseReference repoName of
     Inl e \<Rightarrow> Inl (RRepository repoName e) | Inr r \<Rightarrow> Inr r)"

definition NewRemoteRepository :: "Client \<Rightarrow> string \<Rightarrow> reg_err + Reference" where
  "NewRemoteRepository c policyID = newRepository (NormalizeHost (clRegistryURL c) @ ''/'' @ policyID)"

definition fetchVersion :: "remote \<Rightarrow> string \<Rightarrow> reg_err + string \<times> string" where
  "fetchVersion rm ref =
    (case ParseReference ref of
       Inl e \<Rightarrow> Inl (RInvalidReference ref e)
     | Inr parsedRef \<Rightarrow>
        (let repoName = rfRegistry parsedRef @ ''/'' @ rfRepository parsedRef in
         case newRepository repoName of
           Inl e \<Rightarrow> Inl e
         | Inr _ \<Rightarrow>
            (let tag = (if rfReference parsedRef = [] then ''latest'' else rfReference parsedRef) in
             case rm repoName tag of
               ResolveNotFound \<Rightarrow> Inl (RVersionNotFound ref tag)
             | ResolveFail \<Rightarrow> Inl (RCommunication ref)
             | ResolveOK digest \<Rightarrow> Inr (digest, tag))))"

definition DefinitionVersion :: "remote \<Rightarrow> Client \<Rightarrow> string \<Rightarrow> reg_err + string \<times> string" where
  "DefinitionVersion rm c modulePath =
    (if modulePath = [] then Inl RModuleEmpty
     else case clFetcher c of
       Some f \<Rightarrow> f modulePath
     | None \<Rightarrow>
        (case fetchVersion rm (buildRef (NormalizeHost (clRegistryURL c)) modulePath) of
           Inl e \<Rightarrow> if is_version_not_found e then Inl e else Inl (RFetchVersion modulePath e)
         | Inr r \<Rightarrow> Inr r))"

section \<open>Lookup references\<close>

definition BuildLookupRef :: "string \<Rightarrow> string \<Rightarrow> string \<Rightarrow> string \<Rightarrow> string" where
  "BuildLookupRef registryHost repository tag digest =
    (let ref = (if registryHost \<noteq> [] then TrimRightByte CHR ''/'' registryHost @ ''/'' @ repository else repository) in
     if digest \<noteq> [] then ref @ ''@'' @ digest
     else if tag = [] \<or> tag = ''latest'' then ref
     else ref @ '':'' @ tag)"

definition classifyVersion :: "string \<Rightarrow> string \<times> string" where
  "classifyVersion version = (case digest_Parse version of Inr _ \<Rightarrow> ([], version) | Inl _ \<Rightarrow> (version, []))"

section \<open>Lemmas\<close>

lemma TrimRight_id: "valid_host h \<Longrightarrow> TrimRightByte CHR ''/'' h = h"
proof -
  assume v: "valid_host h"
  have "dropWhile (\<lambda>d. d = CHR ''/'') (rev h) = rev h"
  proof (cases "rev h")
    case (Cons c t)
    then have "c \<in> set h" by (metis list.set_intros(1) set_rev)
    then have "c \<noteq> CHR ''/''" using valid_host_no(2)[OF v] by blast
    then show ?thesis unfolding Cons by simp
  qed simp
  then show ?thesis by (simp add: TrimRightByte_def)
qed

text \<open>What the version of a configuration asks a registry for.\<close>

definition wanted :: "string \<Rightarrow> string" where
  "wanted version = (if version = [] then ''latest'' else version)"

lemma classifyVersion_digest: "valid_digest v \<Longrightarrow> classifyVersion v = ([], v)"
  by (simp add: classifyVersion_def digest_Parse_def)

lemma classifyVersion_tag: "\<not> valid_digest v \<Longrightarrow> classifyVersion v = (v, [])"
  by (auto simp: classifyVersion_def digest_Parse_def split: option.splits)

lemma valid_digest_ne: "valid_digest d \<Longrightarrow> d \<noteq> []"
  by auto

lemma tag_latest: "tagRegexp ''latest''"
  by code_simp

lemma ParseReference_BuildLookupRef:
  assumes "valid_host h" "repositoryRegexp r" "v = [] \<or> tagRegexp v \<or> valid_digest v"
  shows "ParseReference (BuildLookupRef h r (fst (classifyVersion v)) (snd (classifyVersion v))) =
    Inr \<lparr>rfRegistry = h, rfRepository = r, rfReference = (if v = ''latest'' then [] else v)\<rparr>"
proof -
  have h: "h \<noteq> []" using assms(1) by auto
  consider "v = []" | "tagRegexp v" "\<not> valid_digest v" "v \<noteq> []" | "valid_digest v" "v \<noteq> []"
    using assms(3) tag_not_digest valid_digest_ne by (cases "v = []") auto
  then show ?thesis
  proof cases
    case 1
    then show ?thesis using h ParseReference_plain[OF assms(1,2)] TrimRight_id[OF assms(1)]
      by (simp add: BuildLookupRef_def classifyVersion_tag)
  next
    case 2
    then show ?thesis
      using h ParseReference_plain[OF assms(1,2)] ParseReference_tag[OF assms(1,2) tagRegexp_no(1)[OF 2(1)]] TrimRight_id[OF assms(1)]
      by (simp add: BuildLookupRef_def classifyVersion_tag)
  next
    case 3
    then have "v \<noteq> ''latest''" using tag_not_digest[OF tag_latest] by blast
    then show ?thesis
      using 3 h ParseReference_digest[OF assms(1,2) 3(1)] TrimRight_id[OF assms(1)]
      by (simp add: BuildLookupRef_def classifyVersion_digest)
  qed
qed

lemma fetchVersion_ok:
  assumes "valid_host h" "repositoryRegexp r" "ParseReference ref = Inr \<lparr>rfRegistry = h, rfRepository = r, rfReference = x\<rparr>"
  shows "fetchVersion rm ref =
    (let tag = (if x = [] then ''latest'' else x) in
     case rm (h @ ''/'' @ r) tag of
       ResolveNotFound \<Rightarrow> Inl (RVersionNotFound ref tag)
     | ResolveFail \<Rightarrow> Inl (RCommunication ref)
     | ResolveOK d \<Rightarrow> Inr (d, tag))"
  using assms ParseReference_plain[OF assms(1,2)]
  by (simp add: fetchVersion_def newRepository_def)

lemma buildRef_lookup:
  assumes "valid_host h" "repositoryRegexp r" "v = [] \<or> tagRegexp v \<or> valid_digest v"
  shows "ParseReference (buildRef h (BuildLookupRef [] r (fst (classifyVersion v)) (snd (classifyVersion v)))) =
    Inr \<lparr>rfRegistry = h, rfRepository = r, rfReference = wanted v\<rparr>"
proof -
  note n = repositoryRegexp_no_colon[OF assms(2)] repositoryRegexp_no_at[OF assms(2)]
  have latest: "ParseReference (h @ ''/'' @ r @ '':latest'') = Inr \<lparr>rfRegistry = h, rfRepository = r, rfReference = ''latest''\<rparr>"
    using ParseReference_tag[OF assms(1,2), of "''latest''"] tag_latest by simp
  consider "v = [] \<or> v = ''latest''" | "tagRegexp v" "\<not> valid_digest v" "v \<noteq> []" "v \<noteq> ''latest''" | "valid_digest v" "v \<noteq> []"
    using assms(3) tag_not_digest valid_digest_ne by (cases "v = []"; cases "v = ''latest''") auto
  then show ?thesis
  proof cases
    case 1
    then have "\<not> valid_digest v" using tag_not_digest[OF tag_latest] valid_digest_nonempty by metis
    with 1 n latest show ?thesis
      by (auto simp: BuildLookupRef_def classifyVersion_tag buildRef_def wanted_def)
  next
    case 2
    then show ?thesis
      using ParseReference_tag[OF assms(1,2) tagRegexp_no(1)[OF 2(1)]]
      by (simp add: BuildLookupRef_def classifyVersion_tag buildRef_def wanted_def)
  next
    case 3
    then show ?thesis
      using ParseReference_digest[OF assms(1,2) 3(1)]
      by (simp add: BuildLookupRef_def classifyVersion_digest buildRef_def wanted_def)
  qed
qed

lemma NormalizeHost_valid:
  assumes "valid_host h" "\<not> HasPrefix h ''http://''" "\<not> HasPrefix h ''https://''"
    and "sch \<in> {[], ''http://'', ''https://''}"
  shows "NormalizeHost (sch @ h) = h"
proof -
  have "\<not> HasSuffix h ''/''" using valid_host_no(2)[OF assms(1)] by (auto simp: HasSuffix_iff)
  then show ?thesis using assms(2-4)
    by (auto simp: NormalizeHost_def TrimPrefix_def TrimSuffix_def)
qed

lemma host_no_scheme: "valid_host h \<Longrightarrow> \<not> HasPrefix h ''http://''" "valid_host h \<Longrightarrow> \<not> HasPrefix h ''https://''"
  using valid_host_no(2) by (fastforce simp: HasPrefix_iff)+

text \<open>
  The registry is asked for exactly the configured version: for a valid host, repository
  and version (none, a tag or a digest), looking up the reference that the sync code builds resolves
  \<^verbatim>\<open><host>/<repository>\<close> at the tag or digest, \<^verbatim>\<open>latest\<close> when none is given, and returns the digest
  the registry answers; an unknown version is reported as such and nothing else is.
\<close>

theorem DefinitionVersion_asks_for_version:
  assumes "valid_host h" "repositoryRegexp r" "v = [] \<or> tagRegexp v \<or> valid_digest v"
    and "sch \<in> {[], ''http://'', ''https://''}"
  shows "case DefinitionVersion rm (NewClient (sch @ h))
      (BuildLookupRef [] r (fst (classifyVersion v)) (snd (classifyVersion v))) of
      Inr (d, t) \<Rightarrow> rm (h @ ''/'' @ r) (wanted v) = ResolveOK d \<and> t = wanted v
    | Inl e \<Rightarrow> is_version_not_found e \<longleftrightarrow> rm (h @ ''/'' @ r) (wanted v) = ResolveNotFound"
proof -
  let ?l = "BuildLookupRef [] r (fst (classifyVersion v)) (snd (classifyVersion v))"
  have ne: "?l \<noteq> []" using repositoryRegexp_nonempty[OF assms(2)] by (simp add: BuildLookupRef_def Let_def)
  have nh: "NormalizeHost (sch @ h) = h"
    using NormalizeHost_valid[OF assms(1) host_no_scheme[OF assms(1)] assms(4)] .
  have w: "(if wanted v = [] then ''latest'' else wanted v) = wanted v" by (auto simp: wanted_def)
  show ?thesis
    using fetchVersion_ok[OF assms(1,2) buildRef_lookup[OF assms(1-3)], of rm] ne nh
    by (auto simp: DefinitionVersion_def NewClient_def w Let_def split: resolve_res.splits)
qed

theorem DefinitionVersion_asks_for_version_witness:
  "DefinitionVersion (\<lambda>repo t. if repo = ''ghcr.io/org/pol'' \<and> t = ''v1'' then ResolveOK ''sha256:aa'' else ResolveNotFound)
     (NewClient ''https://ghcr.io'') ''org/pol:v1'' = Inr (''sha256:aa'', ''v1'')"
proof -
  have h: "valid_host ''ghcr.io''" "repositoryRegexp ''org/pol''" "tagRegexp ''v1''" by code_simp+
  have c: "classifyVersion ''v1'' = (''v1'', [])" by code_simp
  have "''https://'' \<in> {[], ''http://'', ''https://''}" by simp
  note t = DefinitionVersion_asks_for_version[OF h(1,2), of "''v1''" "''https://''"
      "\<lambda>repo t. if repo = ''ghcr.io/org/pol'' \<and> t = ''v1'' then ResolveOK ''sha256:aa'' else ResolveNotFound"]
  have "DefinitionVersion (\<lambda>repo t. if repo = ''ghcr.io/org/pol'' \<and> t = ''v1'' then ResolveOK ''sha256:aa'' else ResolveNotFound)
     (NewClient ''https://ghcr.io'') ''org/pol:v1'' \<noteq> Inl e" for e
    by code_simp
  with t h(3) show ?thesis
    by (auto simp: c BuildLookupRef_def wanted_def split: sum.splits)
qed

end
