(* ===== verification/Policy_Store.thy ===== *)
theory Policy_Store
  imports Cache_State Registry
begin

text \<open>
  Cached policies (\<^verbatim>\<open>internal/cache/cache.go\<close>) and the loader that reads them
  (\<^verbatim>\<open>internal/policy/loader.go\<close>). A policy store is an OCI layout directory: the marker
  \<^verbatim>\<open>oci-layout\<close> and the index \<^verbatim>\<open>index.json\<close>, here with the blobs it refers to. Opening a store
  creates what is missing, so the operations that open one return the file system. Unpacking a
  Gemara bundle (vendored library) is a parameter.
\<close>

section \<open>OCI layout stores\<close>

definition empty_oci :: OciStore where
  "empty_oci = \<lparr>ocTags = [], ocBlobs = []\<rparr>"

definition oci_layout_file :: string where "oci_layout_file = ''oci-layout''"
definition oci_index_file :: string where "oci_index_file = ''index.json''"

text \<open>\<^verbatim>\<open>oci.New\<close>: the layout marker and the index are written when missing.\<close>

definition oci_New :: "faults \<Rightarrow> path \<Rightarrow> fs \<Rightarrow> fs \<times> OciStore option" where
  "oci_New flt p s0 =
    (let marker = p @ [oci_layout_file]; index = p @ [oci_index_file] in
     case (case fs_ReadFile flt marker s0 of
             NoDoc \<Rightarrow> fs_WriteFile flt marker (Raw ''layout'') s0
           | UnreadableDoc \<Rightarrow> (s0, False)
           | Doc d \<Rightarrow> (s0, d = Raw ''layout'')) of
       (s1, False) \<Rightarrow> (s1, None)
     | (s1, True) \<Rightarrow>
        (case fs_ReadFile flt index s1 of
           NoDoc \<Rightarrow> (case fs_WriteFile flt index (OciDoc empty_oci) s1 of
                       (s2, True) \<Rightarrow> (s2, Some empty_oci)
                     | (s2, False) \<Rightarrow> (s2, None))
         | Doc (OciDoc st) \<Rightarrow> (s1, Some st)
         | _ \<Rightarrow> (s1, None)))"

text \<open>\<^verbatim>\<open>Store.Resolve\<close>: a tag, a digest of a manifest, or a digest of a blob.\<close>

definition oci_Resolve :: "OciStore \<Rightarrow> string \<Rightarrow> Descriptor option" where
  "oci_Resolve st reference =
    (if reference = [] then None
     else case go_get (ocTags st) reference of
       Some d \<Rightarrow> Some d
     | None \<Rightarrow>
        if valid_digest reference \<and> go_has (ocBlobs st) reference
        then Some \<lparr>dsMediaType = ''application/octet-stream'', dsDigest = reference, dsArtifactType = []\<rparr>
        else None)"

definition oci_Fetch :: "OciStore \<Rightarrow> Descriptor \<Rightarrow> blob option" where
  "oci_Fetch st d = go_get (ocBlobs st) (dsDigest d)"

text \<open>\<^verbatim>\<open>Store.Tags\<close>: the names of the index in order; an entry named by its own digest or not at all is no tag.\<close>

definition oci_Tags :: "OciStore \<Rightarrow> string list" where
  "oci_Tags st = sort (map fst (filter (\<lambda>(t, d). t \<noteq> [] \<and> t \<noteq> dsDigest d) (ocTags st)))"

section \<open>The policy cache\<close>

definition PoliciesSubdir :: string where "PoliciesSubdir = ''policies''"

definition PolicyStorePath :: "path \<Rightarrow> string \<Rightarrow> path" where
  "PolicyStorePath cacheDir policyID = fp_join cacheDir [PoliciesSubdir, policyID]"

definition NewPolicyStore :: "faults \<Rightarrow> path \<Rightarrow> string \<Rightarrow> fs \<Rightarrow> fs \<times> (cache_err + OciStore)" where
  "NewPolicyStore flt cacheDir policyID s0 =
    (let storePath = PolicyStorePath cacheDir policyID in
     case fs_MkdirAll flt storePath s0 of
       (s1, False) \<Rightarrow> (s1, Inl (CStoreMkdir storePath))
     | (s1, True) \<Rightarrow>
        (case oci_New flt storePath s1 of
           (s2, None) \<Rightarrow> (s2, Inl (CStoreOpen policyID))
         | (s2, Some st) \<Rightarrow> (s2, Inr st)))"

definition PolicyStoreExists :: "faults \<Rightarrow> path \<Rightarrow> string \<Rightarrow> fs \<Rightarrow> bool" where
  "PolicyStoreExists flt cacheDir policyID s =
    fs_exists flt (PolicyStorePath cacheDir policyID @ [oci_layout_file]) s"

text \<open>\<^verbatim>\<open>ListPolicies\<close>: the directories below \<^verbatim>\<open>policies\<close> that hold a marker file, in walking order.\<close>

definition ListPolicies :: "faults \<Rightarrow> path \<Rightarrow> fs \<Rightarrow> cache_err + string list" where
  "ListPolicies flt cacheDir s =
    (let policiesDir = fp_join cacheDir [PoliciesSubdir] in
     if go_get s policiesDir = None then Inr []
     else if flt (OpReadDir policiesDir) then Inl CListWalk
     else Inr (map (\<lambda>q. (let rel = drop (length policiesDir) (butlast q) in
                         if rel = [] then ''.'' else Join ''/'' rel))
            (sort (map fst (filter (\<lambda>(q, n). under policiesDir q \<and> q \<noteq> policiesDir \<and>
                      last q = oci_layout_file \<and> is_file (Some n)) s)))))"

section \<open>The loader\<close>

datatype load_err =
    LPolicyEmpty | LVersionEmpty | LMediaTypeEmpty
  | LNotInCache string cache_err
  | LVersionNotInCache string string
  | LManifestFetch string string
  | LManifestParse string string
  | LLayerFetch string
  | LLayerNotFound string string string
  | LUnpack string string
  | LVersionUnavailable string string "string list"
  | LListTags string cache_err
  | LList cache_err

definition PolicyExists :: "faults \<Rightarrow> path \<Rightarrow> string \<Rightarrow> string \<Rightarrow> fs \<Rightarrow> fs \<times> bool" where
  "PolicyExists flt cacheDir policyID version s =
    (if policyID = [] \<or> version = [] then (s, False)
     else case NewPolicyStore flt cacheDir policyID s of
       (s', Inl _) \<Rightarrow> (s', False)
     | (s', Inr st) \<Rightarrow> (s', oci_Resolve st version \<noteq> None))"

definition GetCachedVersions :: "faults \<Rightarrow> path \<Rightarrow> string \<Rightarrow> fs \<Rightarrow> fs \<times> (load_err + string list)" where
  "GetCachedVersions flt cacheDir policyID s =
    (if \<not> PolicyStoreExists flt cacheDir policyID s then (s, Inr [])
     else case NewPolicyStore flt cacheDir policyID s of
       (s', Inl e) \<Rightarrow> (s', Inl (LListTags policyID e))
     | (s', Inr st) \<Rightarrow> (s', Inr (oci_Tags st)))"

definition cached_or_nil :: "load_err + string list \<Rightarrow> string list" where
  "cached_or_nil r = (case r of Inl _ \<Rightarrow> [] | Inr vs \<Rightarrow> vs)"

definition ResolveVersion :: "faults \<Rightarrow> path \<Rightarrow> string \<Rightarrow> string \<Rightarrow> fs \<Rightarrow> fs \<times> (load_err + string)" where
  "ResolveVersion flt cacheDir policyID configVersion s0 =
    (let version = (if configVersion = [] then ''latest'' else configVersion) in
     case PolicyExists flt cacheDir policyID version s0 of
       (s1, True) \<Rightarrow> (s1, Inr version)
     | (s1, False) \<Rightarrow>
        (let (s2, cached1) = (if version = ''latest'' then GetCachedVersions flt cacheDir policyID s1 else (s1, Inr []));
             vs = cached_or_nil cached1 in
         if version = ''latest'' \<and> vs \<noteq> [] then (s2, Inr (last vs))
         else (let (s3, cached) = GetCachedVersions flt cacheDir policyID s2 in
               (s3, Inl (LVersionUnavailable policyID version (cached_or_nil cached))))))"

definition resolveManifest :: "OciStore \<Rightarrow> string \<Rightarrow> string \<Rightarrow> load_err + Manifest" where
  "resolveManifest st policyID version =
    (case oci_Resolve st version of
       None \<Rightarrow> Inl (LVersionNotInCache policyID version)
     | Some d \<Rightarrow>
        (case oci_Fetch st d of
           None \<Rightarrow> Inl (LManifestFetch policyID version)
         | Some (BManifest m) \<Rightarrow> Inr m
         | Some (BBytes _) \<Rightarrow> Inl (LManifestParse policyID version)))"

definition LoadLayerByMediaType ::
    "faults \<Rightarrow> path \<Rightarrow> string \<Rightarrow> string \<Rightarrow> string \<Rightarrow> fs \<Rightarrow> fs \<times> (load_err + string)" where
  "LoadLayerByMediaType flt cacheDir policyID version mediaType s =
    (if policyID = [] then (s, Inl LPolicyEmpty)
     else if version = [] then (s, Inl LVersionEmpty)
     else if mediaType = [] then (s, Inl LMediaTypeEmpty)
     else case NewPolicyStore flt cacheDir policyID s of
       (s', Inl e) \<Rightarrow> (s', Inl (LNotInCache policyID e))
     | (s', Inr st) \<Rightarrow>
        (s', case resolveManifest st policyID version of
               Inl e \<Rightarrow> Inl e
             | Inr m \<Rightarrow>
                (case List.find (\<lambda>l. dsMediaType l = mediaType) (mfLayers m) of
                   None \<Rightarrow> Inl (LLayerNotFound mediaType policyID version)
                 | Some l \<Rightarrow>
                    (case oci_Fetch st l of
                       Some (BBytes data) \<Rightarrow> Inr data
                     | _ \<Rightarrow> Inl (LLayerFetch mediaType)))))"

definition bundle_MediaTypeManifest :: string where
  "bundle_MediaTypeManifest = ''application/vnd.gemara.manifest.v1+json''"

definition isBundleManifest :: "Manifest \<Rightarrow> bool" where
  "isBundleManifest m \<longleftrightarrow> mfConfigMediaType m = bundle_MediaTypeManifest"

definition DetectManifestShape :: "faults \<Rightarrow> path \<Rightarrow> string \<Rightarrow> string \<Rightarrow> fs \<Rightarrow> fs \<times> (load_err + bool)" where
  "DetectManifestShape flt cacheDir policyID version s =
    (if policyID = [] \<or> version = [] then (s, Inl LVersionEmpty)
     else case NewPolicyStore flt cacheDir policyID s of
       (s', Inl e) \<Rightarrow> (s', Inl (LNotInCache policyID e))
     | (s', Inr st) \<Rightarrow>
        (s', case resolveManifest st policyID version of Inl e \<Rightarrow> Inl e | Inr m \<Rightarrow> Inr (isBundleManifest m)))"

text \<open>A bundle: named artifacts with types, the source file and the imports.\<close>

record bundle_file =
  bfName :: string
  bfType :: string
  bfData :: string

record Bundle =
  buArtifacts :: "(string \<times> string) list"
  buSource :: bundle_file
  buImports :: "bundle_file list"

definition bundle_fileType :: "Bundle \<Rightarrow> bundle_file \<Rightarrow> string" where
  "bundle_fileType b f =
    (if bfType f \<noteq> [] then bfType f
     else go_str (foldl (\<lambda>m (n, t). go_put n t m) [] (buArtifacts b)) (bfName f))"

definition bundle_files :: "Bundle \<Rightarrow> (string, string) gomap" where
  "bundle_files b =
    (let files0 = (let t = bundle_fileType b (buSource b) in
                   if t \<noteq> [] then go_put t (bfData (buSource b)) [] else []) in
     foldl (\<lambda>files f. let t = bundle_fileType b f in
              if t \<noteq> [] \<and> \<not> go_has files t then go_put t (bfData f) files else files)
       files0 (buImports b))"

definition LoadBundleFiles ::
    "(OciStore \<Rightarrow> string \<Rightarrow> Bundle option) \<Rightarrow> faults \<Rightarrow> path \<Rightarrow> string \<Rightarrow> string \<Rightarrow> fs \<Rightarrow>
      fs \<times> (load_err + (string, string) gomap)" where
  "LoadBundleFiles bundle_Unpack flt cacheDir policyID version s =
    (if policyID = [] then (s, Inl LPolicyEmpty)
     else if version = [] then (s, Inl LVersionEmpty)
     else case NewPolicyStore flt cacheDir policyID s of
       (s', Inl e) \<Rightarrow> (s', Inl (LNotInCache policyID e))
     | (s', Inr st) \<Rightarrow>
        (s', case bundle_Unpack st version of
               None \<Rightarrow> Inl (LUnpack policyID version)
             | Some b \<Rightarrow> Inr (bundle_files b)))"

fun list_cached_loop ::
    "faults \<Rightarrow> path \<Rightarrow> string list \<Rightarrow> (string, string list) gomap \<Rightarrow> fs \<Rightarrow>
      fs \<times> (load_err + (string, string list) gomap)" where
  "list_cached_loop flt cacheDir [] acc s = (s, Inr acc)"
| "list_cached_loop flt cacheDir (pid # pids) acc s =
    (case GetCachedVersions flt cacheDir pid s of
       (s', Inl e) \<Rightarrow> (s', Inl e)
     | (s', Inr vs) \<Rightarrow>
        list_cached_loop flt cacheDir pids (if vs \<noteq> [] then go_put pid vs acc else acc) s')"

definition ListCachedPolicies ::
    "faults \<Rightarrow> path \<Rightarrow> fs \<Rightarrow> fs \<times> (load_err + (string, string list) gomap)" where
  "ListCachedPolicies flt cacheDir s =
    (case ListPolicies flt cacheDir s of
       Inl e \<Rightarrow> (s, Inl (LList e))
     | Inr pids \<Rightarrow> list_cached_loop flt cacheDir pids [] s)"

section \<open>Lemmas\<close>

text \<open>A usable store and what opening it gives.\<close>

definition store_at :: "path \<Rightarrow> fs \<Rightarrow> OciStore \<Rightarrow> bool" where
  "store_at p s st \<longleftrightarrow> go_get s p = Some Dir \<and> go_get s (p @ [oci_layout_file]) = Some (File (Raw ''layout'')) \<and>
     go_get s (p @ [oci_index_file]) = Some (File (OciDoc st))"

lemma path_prefixes_dirs:
  "snd (fs_MkdirAll flt p s) \<Longrightarrow> q \<noteq> [] \<Longrightarrow> under q p \<Longrightarrow> go_get (fst (fs_MkdirAll flt p s)) q = Some Dir"
proof -
  assume a: "snd (fs_MkdirAll flt p s)" "q \<noteq> []" "under q p"
  then have "\<not> is_file (go_get s q)"
    using path_prefixes_set[of q p] by (auto simp: fs_MkdirAll_def list_ex_iff split: if_splits)
  then show ?thesis using a fs_MkdirAll_get[of flt p s q]
    by (cases "go_get s q" rule: is_file.cases) auto
qed

lemma oci_New_open: "store_at p s st \<Longrightarrow> oci_New no_faults p s = (s, Some st)"
  by (simp add: oci_New_def store_at_def fs_ReadFile_def Let_def)

lemma NewPolicyStore_open:
  assumes "snd (fs_MkdirAll no_faults (PolicyStorePath d pid) s)"
    and "store_at (PolicyStorePath d pid) s st"
  shows "snd (NewPolicyStore no_faults d pid s) = Inr st"
    "go_get (fst (NewPolicyStore no_faults d pid s)) = go_get (fst (fs_MkdirAll no_faults (PolicyStorePath d pid) s))"
proof -
  let ?p = "PolicyStorePath d pid"
  obtain s1 where m: "fs_MkdirAll no_faults ?p s = (s1, True)" using assms(1) by (metis prod.collapse)
  have "store_at ?p s1 st"
    using assms(2) fs_MkdirAll_get[of no_faults ?p s] m by (auto simp: store_at_def)
  then have "oci_New no_faults ?p s1 = (s1, Some st)" by (rule oci_New_open)
  with m show "snd (NewPolicyStore no_faults d pid s) = Inr st"
    "go_get (fst (NewPolicyStore no_faults d pid s)) = go_get (fst (fs_MkdirAll no_faults (PolicyStorePath d pid) s))"
    by (simp_all add: NewPolicyStore_def)
qed

text \<open>The bundle files: the source wins, then the first import of each type.\<close>

lemma bundle_import_fold_get:
  "go_get (foldl (\<lambda>files f. let t = bundle_fileType b f in
              if t \<noteq> [] \<and> \<not> go_has files t then go_put t (bfData f) files else files) files fs') t =
    (case go_get files t of
       Some d \<Rightarrow> Some d
     | None \<Rightarrow> if t = [] then None
               else map_option bfData (List.find (\<lambda>f. bundle_fileType b f = t) fs'))"
  by (induction fs' arbitrary: files) (auto simp: Let_def go_has_get split: option.splits simp del: go_has_keys)

lemma bundle_files_get:
  assumes "t \<noteq> []"
  shows "go_get (bundle_files b) t =
    map_option bfData (List.find (\<lambda>f. bundle_fileType b f = t) (buSource b # buImports b))"
  using assms unfolding bundle_files_def Let_def
  by (subst bundle_import_fold_get[unfolded Let_def]) auto

text \<open>Opening a store a second time finds what the first time found.\<close>

lemma fs_MkdirAll_done:
  assumes "\<And>q. q \<noteq> [] \<Longrightarrow> under q p \<Longrightarrow> go_get s q = Some Dir"
  shows "fs_MkdirAll no_faults p s = (s, True)"
proof -
  have d: "go_get s q = Some Dir" if "q \<in> set (path_prefixes p)" for q
    using that assms by (simp add: path_prefixes_set)
  have "foldl (\<lambda>s q. if go_has s q then s else go_put q Dir s) s qs = s" if "set qs \<subseteq> set (path_prefixes p)" for qs
    using that by (induction qs) (auto simp: go_has_get d simp del: go_has_keys)
  then show ?thesis using d by (auto simp: fs_MkdirAll_def list_ex_iff)
qed

lemma fs_WriteFile_ok:
  "fs_WriteFile no_faults f d s =
    (if is_dir (go_get s f) \<or> \<not> is_dir (go_get s (butlast f)) then (s, False) else (go_put f (File d) s, True))"
  by (simp add: fs_WriteFile_def fs_Write_def)

lemma oci_files_distinct [simp]: "oci_layout_file \<noteq> oci_index_file" "oci_index_file \<noteq> oci_layout_file"
  by (simp_all add: oci_layout_file_def oci_index_file_def)

lemma oci_New_effect:
  assumes "oci_New no_faults p s = (s', r)"
  shows "oci_New no_faults p s' = (s', r)"
    and "\<And>q. q \<noteq> p @ [oci_layout_file] \<Longrightarrow> q \<noteq> p @ [oci_index_file] \<Longrightarrow> go_get s' q = go_get s q"
proof -
  let ?m = "p @ [oci_layout_file]" and ?i = "p @ [oci_index_file]"
  note o = oci_New_def Let_def fs_ReadFile_def fs_WriteFile_ok
  have pm: "p \<noteq> ?m" "p \<noteq> ?i" by simp_all
  have m: "go_get s ?m = Some Dir \<or> (\<exists>d. go_get s ?m = Some (File d)) \<or> go_get s ?m = None"
    by (metis node.exhaust option.exhaust)
  have i: "go_get s ?i = Some Dir \<or> (\<exists>st. go_get s ?i = Some (File (OciDoc st))) \<or>
      (\<exists>d. go_get s ?i = Some (File d) \<and> (\<forall>st. d \<noteq> OciDoc st)) \<or> go_get s ?i = None"
    by (metis node.exhaust option.exhaust)
  have "oci_New no_faults p s' = (s', r) \<and>
    (\<forall>q. q \<noteq> ?m \<longrightarrow> q \<noteq> ?i \<longrightarrow> go_get s' q = go_get s q)"
    using m
  proof (elim disjE exE)
    assume "go_get s ?m = Some Dir"
    then show ?thesis using assms by (auto simp: o)
  next
    fix d assume f: "go_get s ?m = Some (File d)"
    show ?thesis
    proof (cases "d = Raw ''layout''")
      case True
      show ?thesis using i
      proof (elim disjE exE conjE)
        fix d' assume "go_get s ?i = Some (File d')" "\<forall>st. d' \<noteq> OciDoc st"
        then show ?thesis using assms f True by (cases d') (auto simp: o)
      next
        assume "go_get s ?i = None"
        then show ?thesis using assms f True pm by (cases "is_dir (go_get s p)") (auto simp: o)
      qed (use assms f True in \<open>auto simp: o\<close>)
    next
      case False
      then show ?thesis using assms f by (auto simp: o)
    qed
  next
    assume n: "go_get s ?m = None"
    show ?thesis
    proof (cases "is_dir (go_get s p)")
      case False
      then show ?thesis using assms n by (auto simp: o)
    next
      case True
      show ?thesis using i
      proof (elim disjE exE conjE)
        fix d' assume "go_get s ?i = Some (File d')" "\<forall>st. d' \<noteq> OciDoc st"
        then show ?thesis using assms n True by (cases d') (auto simp: o)
      qed (use assms n True pm in \<open>auto simp: o\<close>)
    qed
  qed
  then show "oci_New no_faults p s' = (s', r)"
    "\<And>q. q \<noteq> ?m \<Longrightarrow> q \<noteq> ?i \<Longrightarrow> go_get s' q = go_get s q" by blast+
qed

lemma NewPolicyStore_again:
  assumes "NewPolicyStore no_faults d pid s = (s', r)"
  shows "NewPolicyStore no_faults d pid s' = (s', r)"
proof (cases "fs_MkdirAll no_faults (PolicyStorePath d pid) s")
  case (Pair s1 ok)
  let ?p = "PolicyStorePath d pid"
  show ?thesis
  proof (cases ok)
    case False
    then have "s1 = s" using fs_MkdirAll_fail[of no_faults ?p s] Pair by simp
    then show ?thesis using assms Pair False by (auto simp: NewPolicyStore_def)
  next
    case True
    obtain s2 o2 where o: "oci_New no_faults ?p s1 = (s2, o2)" by (cases "oci_New no_faults ?p s1")
    have dirs: "go_get s1 q = Some Dir" if "q \<noteq> []" "under q ?p" for q
      using path_prefixes_dirs[of no_faults ?p s q] that Pair True by simp
    have again: "oci_New no_faults ?p s2 = (s2, o2)"
      and keep: "\<And>q. q \<noteq> ?p @ [oci_layout_file] \<Longrightarrow> q \<noteq> ?p @ [oci_index_file] \<Longrightarrow> go_get s2 q = go_get s1 q"
      using oci_New_effect[OF o] by auto
    have "go_get s2 q = Some Dir" if "q \<noteq> []" "under q ?p" for q
    proof -
      have "length q \<le> length ?p" using that(2) by (auto simp: under_iff)
      then have "q \<noteq> ?p @ [oci_layout_file]" "q \<noteq> ?p @ [oci_index_file]" by auto
      then show ?thesis using keep dirs that by simp
    qed
    then have "fs_MkdirAll no_faults ?p s2 = (s2, True)" by (rule fs_MkdirAll_done)
    then show ?thesis using assms Pair True o again by (auto simp: NewPolicyStore_def split: option.splits)
  qed
qed

end
