(* ===== verification/Provider.thy ===== *)
theory Provider
  imports Config
begin

text \<open>
  Scanning providers (\<^verbatim>\<open>pkg/provider\<close>): the messages of the plugin API, the two sides of the gRPC
  adapter (\<^verbatim>\<open>client.go\<close>, \<^verbatim>\<open>server.go\<close>), discovery of executables (\<^verbatim>\<open>discovery.go\<close>) and the manager
  that routes requests (\<^verbatim>\<open>manager.go\<close>). A locale states what a wire codec promises; the codecs of
  the two adapters are its interpretations. Starting a provider process is a parameter, and the
  transport delivers a message unchanged.
\<close>

section \<open>Messages\<close>

text \<open>Enumerations are 32-bit numbers on both sides; an unknown number has no meaning of its own.\<close>

definition ResultUnspecified :: int where "ResultUnspecified = 0"
definition ResultPassed :: int where "ResultPassed = 1"
definition ResultFailed :: int where "ResultFailed = 2"
definition ResultSkipped :: int where "ResultSkipped = 3"
definition ResultError :: int where "ResultError = 4"

lemmas result_codes = ResultUnspecified_def ResultPassed_def ResultFailed_def ResultSkipped_def ResultError_def

record AssessmentConfiguration =
  acPlanID :: string
  acRequirementID :: string
  acParameters :: "(string, string) gomap"
  acEvaluatorID :: string

definition MatchID :: "AssessmentConfiguration \<Rightarrow> string" where
  "MatchID c = (if acPlanID c \<noteq> [] then acPlanID c else acRequirementID c)"

record GenerateRequest =
  grGlobalVariables :: "(string, string) gomap"
  grConfiguration :: "AssessmentConfiguration list"
  grTargetVariables :: "(string, string) gomap"
  grComplypackContentPath :: string

record GenerateResponse =
  gpSuccess :: bool
  gpErrorMessage :: string

record Target =
  tgTargetID :: string
  tgVariables :: "(string, string) gomap"

record Step =
  stpName :: string
  stpResult :: int
  stpMessage :: string

record EvidenceSource =
  esReferenceID :: string
  esCoordinate :: string
  esEntryID :: string
  esDigest :: string
  esRemarks :: string

record Evidence =
  evID :: string
  evType :: string
  evDescription :: string
  evPayload :: string
  evCollectedAt :: string
  evSource :: "EvidenceSource option"

record AssessmentLog =
  alPlanID :: string
  alRequirementID :: string
  alSteps :: "Step list"
  alMessage :: string
  alConfidence :: int
  alEvidence :: "Evidence list"
  alRecommendation :: string

record MappingReference =
  mrID :: string
  mrTitle :: string
  mrVersion :: string
  mrDescription :: string
  mrURL :: string

record ScanResponse =
  srAssessments :: "AssessmentLog list"
  srErrors :: "string list"
  srMappingReferences :: "MappingReference list"

record DescribeResponse =
  drHealthy :: bool
  drVersion :: string
  drErrorMessage :: string
  drRequiredGlobalVariables :: "string list"
  drRequiredTargetVariables :: "string list"
  drOptionalTargetVariableGroups :: "string list"

text \<open>The protobuf messages that differ in shape from the domain types.\<close>

record pbConfiguration =
  pbPlanId :: string
  pbReqId :: string
  pbParameters :: "(string, string) gomap"

record pbGenerateRequest =
  pbGlobalVariables :: "(string, string) gomap"
  pbConfigurations :: "pbConfiguration list"
  pbTargetVariables :: "(string, string) gomap"
  pbContentPath :: string

record pbStep =
  pbStepName :: string
  pbStepResult :: int
  pbStepMessage :: string

record pbAssessmentLog =
  pbRequirementId :: string
  pbSteps :: "pbStep list"
  pbMessage :: string
  pbConfidence :: int
  pbEvidence :: "Evidence list"
  pbRecommendation :: string

record pbScanResponse =
  pbAssessments :: "pbAssessmentLog list"
  pbErrors :: "string list"
  pbMappingReferences :: "MappingReference list"

section \<open>The server side\<close>

definition internalResultToProto :: "int \<Rightarrow> int" where
  "internalResultToProto r =
    (if r = ResultPassed then 1 else if r = ResultFailed then 2
     else if r = ResultSkipped then 3 else if r = ResultError then 4 else 0)"

definition internalConfidenceToProto :: "int \<Rightarrow> int" where
  "internalConfidenceToProto c = (if c = 1 then 1 else if c = 2 then 2 else if c = 3 then 3 else if c = 4 then 4 else 0)"

definition step_to_pb :: "Step \<Rightarrow> pbStep" where
  "step_to_pb s = \<lparr>pbStepName = stpName s, pbStepResult = internalResultToProto (stpResult s), pbStepMessage = stpMessage s\<rparr>"

definition internalEvidenceSourceToProto :: "EvidenceSource option \<Rightarrow> EvidenceSource option" where
  "internalEvidenceSourceToProto s = (case s of None \<Rightarrow> None
     | Some e \<Rightarrow> Some \<lparr>esReferenceID = esReferenceID e, esCoordinate = esCoordinate e, esEntryID = esEntryID e,
                      esDigest = esDigest e, esRemarks = esRemarks e\<rparr>)"

definition internalEvidenceToProto :: "Evidence list \<Rightarrow> Evidence list" where
  "internalEvidenceToProto es = map (\<lambda>e. \<lparr>evID = evID e, evType = evType e, evDescription = evDescription e,
     evPayload = evPayload e, evCollectedAt = evCollectedAt e, evSource = internalEvidenceSourceToProto (evSource e)\<rparr>) es"

definition internalMappingRefsToProto :: "MappingReference list \<Rightarrow> MappingReference list" where
  "internalMappingRefsToProto rs = map (\<lambda>r. \<lparr>mrID = mrID r, mrTitle = mrTitle r, mrVersion = mrVersion r,
     mrDescription = mrDescription r, mrURL = mrURL r\<rparr>) rs"

definition log_to_pb :: "AssessmentLog \<Rightarrow> pbAssessmentLog" where
  "log_to_pb a = \<lparr>pbRequirementId = (if alPlanID a = [] then alRequirementID a else alPlanID a),
     pbSteps = map step_to_pb (alSteps a), pbMessage = alMessage a,
     pbConfidence = internalConfidenceToProto (alConfidence a),
     pbEvidence = internalEvidenceToProto (alEvidence a), pbRecommendation = alRecommendation a\<rparr>"

record Provider =
  pvDescribe :: "string + DescribeResponse"
  pvGenerate :: "GenerateRequest \<Rightarrow> string + GenerateResponse"
  pvScan :: "Target list \<Rightarrow> string + ScanResponse"

definition server_Describe :: "Provider \<Rightarrow> string + DescribeResponse" where
  "server_Describe impl = (case pvDescribe impl of Inl e \<Rightarrow> Inl e
     | Inr r \<Rightarrow> Inr \<lparr>drHealthy = drHealthy r, drVersion = drVersion r, drErrorMessage = drErrorMessage r,
         drRequiredGlobalVariables = drRequiredGlobalVariables r, drRequiredTargetVariables = drRequiredTargetVariables r,
         drOptionalTargetVariableGroups = drOptionalTargetVariableGroups r\<rparr>)"

definition server_Generate :: "Provider \<Rightarrow> pbGenerateRequest \<Rightarrow> string + GenerateResponse" where
  "server_Generate impl req =
    (case pvGenerate impl \<lparr>grGlobalVariables = pbGlobalVariables req,
        grConfiguration = map (\<lambda>c. \<lparr>acPlanID = pbPlanId c, acRequirementID = pbReqId c,
           acParameters = pbParameters c, acEvaluatorID = []\<rparr>) (pbConfigurations req),
        grTargetVariables = pbTargetVariables req, grComplypackContentPath = pbContentPath req\<rparr> of
       Inl e \<Rightarrow> Inl e
     | Inr r \<Rightarrow> Inr \<lparr>gpSuccess = gpSuccess r, gpErrorMessage = gpErrorMessage r\<rparr>)"

definition server_Scan :: "Provider \<Rightarrow> Target list \<Rightarrow> string + pbScanResponse" where
  "server_Scan impl targets =
    (case pvScan impl (map (\<lambda>t. \<lparr>tgTargetID = tgTargetID t, tgVariables = tgVariables t\<rparr>) targets) of
       Inl e \<Rightarrow> Inl e
     | Inr r \<Rightarrow> Inr \<lparr>pbAssessments = map log_to_pb (srAssessments r), pbErrors = srErrors r,
                    pbMappingReferences = internalMappingRefsToProto (srMappingReferences r)\<rparr>)"

section \<open>The client side\<close>

definition protoResultToInternal :: "int \<Rightarrow> int" where
  "protoResultToInternal r =
    (if r = 1 then ResultPassed else if r = 2 then ResultFailed else if r = 3 then ResultSkipped
     else if r = 4 then ResultError else ResultUnspecified)"

definition protoConfidenceToInternal :: "int \<Rightarrow> int" where
  "protoConfidenceToInternal c = (if c = 1 then 1 else if c = 2 then 2 else if c = 3 then 3 else if c = 4 then 4 else 0)"

definition protoEvidenceMappingToInternal :: "EvidenceSource option \<Rightarrow> EvidenceSource option" where
  "protoEvidenceMappingToInternal s = (case s of None \<Rightarrow> None
     | Some e \<Rightarrow> Some \<lparr>esReferenceID = esReferenceID e, esCoordinate = esCoordinate e, esEntryID = esEntryID e,
                      esDigest = esDigest e, esRemarks = esRemarks e\<rparr>)"

definition protoEvidenceToInternal :: "Evidence list \<Rightarrow> Evidence list" where
  "protoEvidenceToInternal es = map (\<lambda>e. \<lparr>evID = evID e, evType = evType e, evDescription = evDescription e,
     evPayload = evPayload e, evCollectedAt = evCollectedAt e, evSource = protoEvidenceMappingToInternal (evSource e)\<rparr>) es"

definition protoMappingRefsToInternal :: "MappingReference list \<Rightarrow> MappingReference list" where
  "protoMappingRefsToInternal rs = map (\<lambda>r. \<lparr>mrID = mrID r, mrTitle = mrTitle r, mrVersion = mrVersion r,
     mrDescription = mrDescription r, mrURL = mrURL r\<rparr>) rs"

definition step_of_pb :: "pbStep \<Rightarrow> Step" where
  "step_of_pb s = \<lparr>stpName = pbStepName s, stpResult = protoResultToInternal (pbStepResult s), stpMessage = pbStepMessage s\<rparr>"

definition log_of_pb :: "pbAssessmentLog \<Rightarrow> AssessmentLog" where
  "log_of_pb a = \<lparr>alPlanID = pbRequirementId a, alRequirementID = [], alSteps = map step_of_pb (pbSteps a),
     alMessage = pbMessage a, alConfidence = protoConfidenceToInternal (pbConfidence a),
     alEvidence = protoEvidenceToInternal (pbEvidence a), alRecommendation = pbRecommendation a\<rparr>"

text \<open>The three calls of a client over a transport; an RPC error keeps its cause.\<close>

definition client_Describe :: "(string + DescribeResponse) \<Rightarrow> string + DescribeResponse" where
  "client_Describe rpc = (case rpc of
     Inl e \<Rightarrow> Inl (''Describe RPC failed: '' @ e)
   | Inr r \<Rightarrow> Inr \<lparr>drHealthy = drHealthy r, drVersion = drVersion r, drErrorMessage = drErrorMessage r,
         drRequiredGlobalVariables = drRequiredGlobalVariables r, drRequiredTargetVariables = drRequiredTargetVariables r,
         drOptionalTargetVariableGroups = drOptionalTargetVariableGroups r\<rparr>)"

definition client_Generate :: "(pbGenerateRequest \<Rightarrow> string + GenerateResponse) \<Rightarrow> GenerateRequest \<Rightarrow> string + GenerateResponse" where
  "client_Generate rpc req =
    (case rpc \<lparr>pbGlobalVariables = grGlobalVariables req,
        pbConfigurations = map (\<lambda>c. \<lparr>pbPlanId = acPlanID c, pbReqId = acRequirementID c, pbParameters = acParameters c\<rparr>) (grConfiguration req),
        pbTargetVariables = grTargetVariables req, pbContentPath = grComplypackContentPath req\<rparr> of
       Inl e \<Rightarrow> Inl (''Generate RPC failed: '' @ e)
     | Inr r \<Rightarrow> Inr \<lparr>gpSuccess = gpSuccess r, gpErrorMessage = gpErrorMessage r\<rparr>)"

definition client_Scan :: "(Target list \<Rightarrow> string + pbScanResponse) \<Rightarrow> Target list \<Rightarrow> string + ScanResponse" where
  "client_Scan rpc targets =
    (case rpc (map (\<lambda>t. \<lparr>tgTargetID = tgTargetID t, tgVariables = tgVariables t\<rparr>) targets) of
       Inl e \<Rightarrow> Inl (''Scan RPC failed: '' @ e)
     | Inr r \<Rightarrow> Inr \<lparr>srAssessments = map log_of_pb (pbAssessments r), srErrors = pbErrors r,
                    srMappingReferences = protoMappingRefsToInternal (pbMappingReferences r)\<rparr>)"

section \<open>Wire codecs\<close>

text \<open>
  A codec transports a value up to a normal form: decoding what was encoded gives the normal form,
  which is all the encoding depends on.
\<close>

locale wire_codec =
  fixes enc :: "'a \<Rightarrow> 'p" and dec :: "'p \<Rightarrow> 'a" and nf :: "'a \<Rightarrow> 'a"
  assumes dec_enc: "dec (enc x) = nf x"
    and enc_nf: "enc (nf x) = enc x"
begin

lemma nf_idem: "nf (nf x) = nf x"
  using dec_enc[of "nf x"] enc_nf dec_enc by simp

lemma second_trip: "dec (enc (dec (enc x))) = dec (enc x)"
  by (simp add: dec_enc nf_idem)

lemma list_trip: "map dec (map enc xs) = map nf xs"
  by (simp add: dec_enc)

lemma exact: "nf x = x \<Longrightarrow> dec (enc x) = x"
  by (simp add: dec_enc)

end

definition nf_enum :: "int \<Rightarrow> int" where
  "nf_enum r = (if r \<in> {1, 2, 3, 4} then r else 0)"

interpretation cr: wire_codec internalResultToProto protoResultToInternal nf_enum
  by unfold_locales (auto simp: internalResultToProto_def protoResultToInternal_def nf_enum_def result_codes)

interpretation cc: wire_codec internalConfidenceToProto protoConfidenceToInternal nf_enum
  by unfold_locales (auto simp: internalConfidenceToProto_def protoConfidenceToInternal_def nf_enum_def)

interpretation ce: wire_codec internalEvidenceToProto protoEvidenceToInternal "\<lambda>es. es"
proof unfold_locales
  fix es
  show "protoEvidenceToInternal (internalEvidenceToProto es) = es"
    unfolding protoEvidenceToInternal_def internalEvidenceToProto_def map_map comp_def
    by (rule map_idI) (auto simp: protoEvidenceMappingToInternal_def internalEvidenceSourceToProto_def split: option.splits)
qed simp

interpretation cm: wire_codec internalMappingRefsToProto protoMappingRefsToInternal "\<lambda>rs. rs"
proof unfold_locales
  fix rs
  show "protoMappingRefsToInternal (internalMappingRefsToProto rs) = rs"
    unfolding protoMappingRefsToInternal_def internalMappingRefsToProto_def map_map comp_def
    by (rule map_idI) simp
qed simp

definition nf_step :: "Step \<Rightarrow> Step" where
  "nf_step s = s\<lparr>stpResult := nf_enum (stpResult s)\<rparr>"

interpretation cs: wire_codec step_to_pb step_of_pb nf_step
  by unfold_locales (simp_all add: step_to_pb_def step_of_pb_def nf_step_def cr.dec_enc cr.enc_nf)

definition nf_log :: "AssessmentLog \<Rightarrow> AssessmentLog" where
  "nf_log a = a\<lparr>alPlanID := (if alPlanID a = [] then alRequirementID a else alPlanID a), alRequirementID := [],
     alSteps := map nf_step (alSteps a), alConfidence := nf_enum (alConfidence a)\<rparr>"

interpretation cl: wire_codec log_to_pb log_of_pb nf_log
  by unfold_locales
     (simp_all add: log_to_pb_def log_of_pb_def nf_log_def cs.dec_enc cs.enc_nf cc.dec_enc cc.enc_nf ce.dec_enc comp_def)

section \<open>Discovery\<close>

record ProviderInfo =
  piProviderID :: string
  piEvaluatorID :: string
  piExecutablePath :: string

record dir_entry =
  deName :: string
  deIsDir :: bool
  deMode :: "nat option"

datatype listing = NoListing | ListingErr | Listing "dir_entry list"

datatype prov_err =
    VReadDir string
  | VClient string string
  | VNotFound string
  | VNoProvider string prov_err
  | VGenerateRPC string string
  | VGenerateFailed string string string
  | VDiscover prov_err

definition ProviderExecutablePrefix :: string where
  "ProviderExecutablePrefix = ''complyctl-provider-''"

definition executable_mode :: "nat \<Rightarrow> bool" where
  "executable_mode mode \<longleftrightarrow> odd mode \<or> odd (mode div 8) \<or> odd (mode div 64)"

definition entry_info :: "string \<Rightarrow> dir_entry \<Rightarrow> ProviderInfo option" where
  "entry_info dir e =
    (if deIsDir e \<or> \<not> HasPrefix (deName e) ProviderExecutablePrefix then None
     else case deMode e of
       None \<Rightarrow> None
     | Some mode \<Rightarrow>
        if \<not> executable_mode mode then None
        else let providerID = TrimPrefix (deName e) ProviderExecutablePrefix in
          Some \<lparr>piProviderID = providerID, piEvaluatorID = providerID,
                piExecutablePath = filepath_Join [dir, deName e]\<rparr>)"

definition scanDir :: "(string \<Rightarrow> listing) \<Rightarrow> string \<Rightarrow> prov_err + ProviderInfo list" where
  "scanDir readDir dir = (case readDir dir of
     NoListing \<Rightarrow> Inr []
   | ListingErr \<Rightarrow> Inl (VReadDir dir)
   | Listing es \<Rightarrow> Inr (List.map_filter (entry_info dir) es))"

definition provider_expandPath :: "string option \<Rightarrow> string \<Rightarrow> string" where
  "provider_expandPath home path =
    (if HasPrefix path ''~/'' then (case home of None \<Rightarrow> path | Some h \<Rightarrow> filepath_Join [h, drop 2 path]) else path)"

definition DiscoverProviders ::
    "(string \<Rightarrow> listing) \<Rightarrow> string option \<Rightarrow> string \<Rightarrow> string \<Rightarrow> prov_err + ProviderInfo list" where
  "DiscoverProviders readDir home providerDir systemDir =
    (case scanDir readDir (provider_expandPath home providerDir) of
       Inl e \<Rightarrow> Inl e
     | Inr user \<Rightarrow>
        (case scanDir readDir systemDir of
           Inl e \<Rightarrow> Inl e
         | Inr sys \<Rightarrow> Inr (user @ filter (\<lambda>p. piEvaluatorID p \<notin> piEvaluatorID ` set user) sys)))"

section \<open>The manager\<close>

record LoadedProvider =
  lpInfo :: ProviderInfo
  lpClient :: Provider

type_synonym manager = "(string, LoadedProvider) gomap"

text \<open>
  Loading stops at the first provider that cannot be started, keeping those registered before it;
  a provider that does not describe itself or is unhealthy is skipped.
\<close>

fun load_loop :: "(string \<Rightarrow> string + Provider) \<Rightarrow> ProviderInfo list \<Rightarrow> manager \<Rightarrow> manager \<times> prov_err option" where
  "load_loop connect [] m = (m, None)"
| "load_loop connect (info # infos) m =
    (case connect (piExecutablePath info) of
       Inl e \<Rightarrow> (m, Some (VClient (piProviderID info) e))
     | Inr client \<Rightarrow>
        (case pvDescribe client of
           Inl _ \<Rightarrow> load_loop connect infos m
         | Inr d \<Rightarrow>
            if \<not> drHealthy d then load_loop connect infos m
            else load_loop connect infos
                   (go_put (piEvaluatorID info) \<lparr>lpInfo = info, lpClient = client\<rparr> m)))"

definition LoadProviders ::
    "(string \<Rightarrow> string + Provider) \<Rightarrow> (prov_err + ProviderInfo list) \<Rightarrow> manager \<Rightarrow> manager \<times> prov_err option" where
  "LoadProviders connect discovered m = (case discovered of
     Inl e \<Rightarrow> (m, Some (VDiscover e))
   | Inr infos \<Rightarrow> load_loop connect infos m)"

definition GetProvider :: "manager \<Rightarrow> string \<Rightarrow> prov_err + LoadedProvider" where
  "GetProvider m evaluatorID = (case go_get m evaluatorID of
     None \<Rightarrow> Inl (VNotFound evaluatorID) | Some lp \<Rightarrow> Inr lp)"

fun list_loop :: "string list \<Rightarrow> (string \<times> LoadedProvider) list \<Rightarrow> LoadedProvider list" where
  "list_loop seen [] = []"
| "list_loop seen ((k, lp) # rest) =
    (if piProviderID (lpInfo lp) \<in> set seen then list_loop seen rest
     else lp # list_loop (piProviderID (lpInfo lp) # seen) rest)"

definition ListProviders :: "manager \<Rightarrow> LoadedProvider list" where
  "ListProviders m = list_loop [] m"

definition generate_one :: "GenerateRequest \<Rightarrow> string \<Rightarrow> LoadedProvider \<Rightarrow> prov_err option" where
  "generate_one req evaluatorID p =
    (case pvGenerate (lpClient p) req of
       Inl e \<Rightarrow> Some (VGenerateRPC (piProviderID (lpInfo p)) e)
     | Inr r \<Rightarrow> if gpSuccess r then None
               else Some (VGenerateFailed (piProviderID (lpInfo p)) evaluatorID (gpErrorMessage r)))"

definition RouteGenerate ::
    "manager \<Rightarrow> string \<Rightarrow> (string, string) gomap \<Rightarrow> (string, string) gomap \<Rightarrow> AssessmentConfiguration list \<Rightarrow>
      string \<Rightarrow> prov_err option" where
  "RouteGenerate m evaluatorID globalVars targetVars configs contentPath =
    (let req = \<lparr>grGlobalVariables = globalVars, grConfiguration = configs, grTargetVariables = targetVars,
                grComplypackContentPath = contentPath\<rparr> in
     if evaluatorID \<noteq> [] then
       (case GetProvider m evaluatorID of
          Inl e \<Rightarrow> Some (VNoProvider evaluatorID e)
        | Inr p \<Rightarrow> generate_one req evaluatorID p)
     else first_err (\<lambda>p. generate_one req (piEvaluatorID (lpInfo p)) p) (ListProviders m))"

record ScanResult =
  rsAssessments :: "AssessmentLog list"
  rsErrors :: "string list"
  rsMappingReferences :: "MappingReference list"
  rsRpcFailures :: "(string \<times> string) list"

definition HasErrors :: "ScanResult \<Rightarrow> bool" where
  "HasErrors r \<longleftrightarrow> rsErrors r \<noteq> []"

definition nl :: char where "nl = CHR 0x0A"

definition scanErrorMessage :: "bool \<Rightarrow> string \<Rightarrow> string \<Rightarrow> string" where
  "scanErrorMessage deadline providerID scanErr =
    ''provider '' @ providerID @ '' failed: '' @ scanErr @
    (if deadline then
       nl # nl # ''The scan exceeded the deadline.'' @
       nl # ''  - Increase the timeout: complyctl scan --timeout 15m ...'' @
       nl # ''  - Check .complytime/complyctl.log''
     else [])"

text \<open>One provider of a broadcast; a failed RPC is recorded and the loop goes on.\<close>

definition scan_one :: "bool \<Rightarrow> Target list \<Rightarrow> ScanResult \<Rightarrow> LoadedProvider \<Rightarrow> ScanResult" where
  "scan_one deadline targets acc p =
    (case pvScan (lpClient p) targets of
       Inl e \<Rightarrow>
         (let msg = scanErrorMessage deadline (piProviderID (lpInfo p)) e in
          acc\<lparr>rsErrors := rsErrors acc @ [msg],
              rsRpcFailures := rsRpcFailures acc @ [(piEvaluatorID (lpInfo p), msg)]\<rparr>)
     | Inr r \<Rightarrow>
         acc\<lparr>rsAssessments := rsAssessments acc @ srAssessments r, rsErrors := rsErrors acc @ srErrors r,
             rsMappingReferences := rsMappingReferences acc @ srMappingReferences r\<rparr>)"

definition empty_scan :: ScanResult where
  "empty_scan = \<lparr>rsAssessments = [], rsErrors = [], rsMappingReferences = [], rsRpcFailures = []\<rparr>"

definition RouteScanResult :: "bool \<Rightarrow> manager \<Rightarrow> string \<Rightarrow> Target list \<Rightarrow> prov_err + ScanResult" where
  "RouteScanResult deadline m evaluatorID targets =
    (if evaluatorID \<noteq> [] then
       (case GetProvider m evaluatorID of
          Inl e \<Rightarrow> Inl (VNoProvider evaluatorID e)
        | Inr p \<Rightarrow>
           (case pvScan (lpClient p) targets of
              Inl e \<Rightarrow>
                (let msg = scanErrorMessage deadline (piProviderID (lpInfo p)) e in
                 Inr (empty_scan\<lparr>rsErrors := [msg], rsRpcFailures := [(evaluatorID, msg)]\<rparr>))
            | Inr r \<Rightarrow> Inr (empty_scan\<lparr>rsAssessments := srAssessments r, rsErrors := srErrors r,
                              rsMappingReferences := srMappingReferences r\<rparr>)))
     else Inr (foldl (scan_one deadline targets) empty_scan (ListProviders m)))"

definition errorAssessments :: "string \<Rightarrow> string \<Rightarrow> AssessmentLog list" where
  "errorAssessments evaluatorID message =
    [\<lparr>alPlanID = [], alRequirementID = evaluatorID @ ''-error'',
      alSteps = [\<lparr>stpName = ''provider-error'', stpResult = ResultError, stpMessage = message\<rparr>],
      alMessage = message, alConfidence = 0, alEvidence = [], alRecommendation = []\<rparr>]"

definition RouteScan :: "bool \<Rightarrow> manager \<Rightarrow> string \<Rightarrow> Target list \<Rightarrow> prov_err + AssessmentLog list" where
  "RouteScan deadline m evaluatorID targets = (case RouteScanResult deadline m evaluatorID targets of
     Inl e \<Rightarrow> Inl e
   | Inr r \<Rightarrow> Inr (rsAssessments r @ concat (map (\<lambda>(ev, msg). errorAssessments ev msg) (rsRpcFailures r))))"

section \<open>Properties of the wire and of discovery\<close>

lemma target_copies: "map (\<lambda>t. \<lparr>tgTargetID = tgTargetID t, tgVariables = tgVariables t\<rparr>) ts = ts"
  by (rule map_idI) simp

lemma request_over_wire:
  "\<lparr>grGlobalVariables = grGlobalVariables req,
     grConfiguration = map (\<lambda>c. \<lparr>acPlanID = acPlanID c, acRequirementID = acRequirementID c, acParameters = acParameters c,
        acEvaluatorID = []\<rparr>) (grConfiguration req),
     grTargetVariables = grTargetVariables req, grComplypackContentPath = grComplypackContentPath req\<rparr> =
   req\<lparr>grConfiguration := map (\<lambda>c. c\<lparr>acEvaluatorID := []\<rparr>) (grConfiguration req)\<rparr>"
  by (cases req) simp

text \<open>
  Property C24. A scan over the wire is the provider's own scan: the targets arrive as they were
  sent, errors and mapping references come back unchanged, and every assessment comes back in its
  normal form (the plan ID, or the requirement ID when there is none, as the plan ID; unknown
  results and confidence levels as unspecified). A provider error comes back with a prefix.
\<close>

theorem scan_over_wire:
  "client_Scan (server_Scan impl) targets =
    (case pvScan impl targets of
       Inl e \<Rightarrow> Inl (''Scan RPC failed: '' @ e)
     | Inr r \<Rightarrow> Inr (r\<lparr>srAssessments := map nf_log (srAssessments r)\<rparr>))"
  by (simp add: client_Scan_def server_Scan_def target_copies cl.dec_enc cm.dec_enc split: sum.splits)

text \<open>
  A generate request over the wire reaches the provider with all its variables,
  parameters, plan and requirement IDs and the content path; only the evaluator ID of each
  configuration is not transported. The response comes back unchanged.
\<close>

theorem generate_over_wire:
  "client_Generate (server_Generate impl) req =
    (case pvGenerate impl (req\<lparr>grConfiguration := map (\<lambda>c. c\<lparr>acEvaluatorID := []\<rparr>) (grConfiguration req)\<rparr>) of
       Inl e \<Rightarrow> Inl (''Generate RPC failed: '' @ e)
     | Inr r \<Rightarrow> Inr r)"
  by (simp add: client_Generate_def server_Generate_def comp_def request_over_wire split: sum.splits)

subsection \<open>Discovery\<close>

lemma entry_info_name:
  "entry_info dir e = Some p \<Longrightarrow> deName e = ProviderExecutablePrefix @ piEvaluatorID p \<and>
     piProviderID p = piEvaluatorID p \<and> piExecutablePath p = filepath_Join [dir, deName e] \<and> \<not> deIsDir e"
  by (auto simp: entry_info_def Let_def TrimPrefix_def HasPrefix_def split: if_splits option.splits)
     (metis append_take_drop_id)+

lemma map_filter_distinct:
  assumes "distinct (map f xs)" "\<And>x y. x \<in> set xs \<Longrightarrow> g x = Some y \<Longrightarrow> f x = h (k y)"
  shows "distinct (map k (List.map_filter g xs))"
  using assms
proof (induction xs)
  case (Cons x xs)
  have IH: "distinct (map k (List.map_filter g xs))" using Cons by auto
  show ?case
  proof (cases "g x")
    case None
    then show ?thesis using IH by (simp add: List.map_filter_simps)
  next
    case (Some y)
    have "k y \<noteq> k z" if "z \<in> set (List.map_filter g xs)" for z
    proof
      assume eq: "k y = k z"
      from that obtain w where w: "w \<in> set xs" "g w = Some z" by (auto simp: List.map_filter_def)
      then have "f w = h (k z)" using Cons.prems(2) by auto
      moreover have "f x = h (k y)" using Cons.prems(2) Some by auto
      ultimately have "f x = f w" using eq by simp
      then show False using Cons.prems(1) w(1) by auto
    qed
    then show ?thesis using IH Some by (auto simp: List.map_filter_simps)
  qed
qed (simp add: List.map_filter_simps)

text \<open>A listing of a directory names each entry once.\<close>

definition good_listing :: "listing \<Rightarrow> bool" where
  "good_listing l = (case l of Listing es \<Rightarrow> distinct (map deName es) | _ \<Rightarrow> True)"

lemma scanDir_distinct:
  "scanDir readDir dir = Inr ps \<Longrightarrow> good_listing (readDir dir) \<Longrightarrow> distinct (map piEvaluatorID ps)"
  unfolding scanDir_def good_listing_def
  by (auto split: listing.splits intro!: map_filter_distinct[where h = "append ProviderExecutablePrefix"]
           dest: entry_info_name)

lemma scanDir_ids: "scanDir readDir dir = Inr ps \<Longrightarrow> p \<in> set ps \<Longrightarrow> piProviderID p = piEvaluatorID p"
  using entry_info_name by (fastforce simp: scanDir_def List.map_filter_def split: listing.splits)

lemma DiscoverProviders_cases:
  assumes "DiscoverProviders readDir home u s = Inr ps"
  obtains us ss where "scanDir readDir (provider_expandPath home u) = Inr us" "scanDir readDir s = Inr ss"
    "ps = us @ filter (\<lambda>p. piEvaluatorID p \<notin> piEvaluatorID ` set us) ss"
  using assms by (auto simp: DiscoverProviders_def split: sum.splits)

lemma DiscoverProviders_ids: "DiscoverProviders readDir home u s = Inr ps \<Longrightarrow> p \<in> set ps \<Longrightarrow> piProviderID p = piEvaluatorID p"
  by (erule DiscoverProviders_cases) (auto dest: scanDir_ids)

definition find_info :: "string \<Rightarrow> ProviderInfo list \<Rightarrow> ProviderInfo option" where
  "find_info ev ps = List.find (\<lambda>p. piEvaluatorID p = ev) ps"

lemma find_info_None: "find_info ev ps = None \<longleftrightarrow> ev \<notin> piEvaluatorID ` set ps"
  by (auto simp: find_info_def find_None_iff)

lemma find_info_append: "find_info ev (xs @ ys) = (case find_info ev xs of None \<Rightarrow> find_info ev ys | Some p \<Rightarrow> Some p)"
  unfolding find_info_def by (induction xs) auto

lemma find_info_filter: "ev \<notin> S \<Longrightarrow> find_info ev (filter (\<lambda>p. piEvaluatorID p \<notin> S) ys) = find_info ev ys"
  unfolding find_info_def by (induction ys) auto

text \<open>
  Discovery over two directories, each listing its entries once: no evaluator is
  discovered twice, and the provider discovered for an evaluator is the user directory's one if
  it has one and the system directory's one otherwise.
\<close>

theorem DiscoverProviders_precedence:
  assumes "DiscoverProviders readDir home userDir systemDir = Inr ps"
    and "good_listing (readDir (provider_expandPath home userDir))" "good_listing (readDir systemDir)"
  shows "distinct (map piEvaluatorID ps) \<and> (\<exists>us ss. scanDir readDir (provider_expandPath home userDir) = Inr us \<and> scanDir readDir systemDir = Inr ss \<and>
      (\<forall>ev. find_info ev ps = (case find_info ev us of Some p \<Rightarrow> Some p | None \<Rightarrow> find_info ev ss)))"
proof -
  obtain us ss where d: "scanDir readDir (provider_expandPath home userDir) = Inr us" "scanDir readDir systemDir = Inr ss"
    "ps = us @ filter (\<lambda>p. piEvaluatorID p \<notin> piEvaluatorID ` set us) ss"
    using assms(1) by (rule DiscoverProviders_cases)
  have "distinct (map piEvaluatorID us)" "distinct (map piEvaluatorID ss)"
    using d(1,2) assms(2,3) by (auto dest: scanDir_distinct)
  then have "distinct (map piEvaluatorID ps)"
    unfolding d(3) by (auto simp: distinct_map intro: inj_on_subset) (metis imageI)
  moreover have "find_info ev ps = (case find_info ev us of Some p \<Rightarrow> Some p | None \<Rightarrow> find_info ev ss)" for ev
  proof (cases "find_info ev us")
    case None
    then have "ev \<notin> piEvaluatorID ` set us" by (simp add: find_info_None)
    with None show ?thesis by (simp add: d(3) find_info_append find_info_filter)
  qed (simp add: d(3) find_info_append)
  ultimately show ?thesis using d(1,2) by blast
qed

text \<open>A machine with one provider of the user, overriding a system one, and another system one.\<close>

definition demo_listing :: "string \<Rightarrow> listing" where
  "demo_listing d =
    (if d = ''/home/u/p'' then Listing [\<lparr>deName = ''complyctl-provider-a'', deIsDir = False, deMode = Some 493\<rparr>]
     else if d = ''/usr/p'' then Listing
       [\<lparr>deName = ''README'', deIsDir = False, deMode = Some 420\<rparr>,
        \<lparr>deName = ''complyctl-provider-a'', deIsDir = False, deMode = Some 493\<rparr>,
        \<lparr>deName = ''complyctl-provider-b'', deIsDir = False, deMode = Some 493\<rparr>]
     else NoListing)"

definition demo_infos :: "ProviderInfo list" where
  "demo_infos = [\<lparr>piProviderID = ''a'', piEvaluatorID = ''a'', piExecutablePath = ''/home/u/p/complyctl-provider-a''\<rparr>,
     \<lparr>piProviderID = ''b'', piEvaluatorID = ''b'', piExecutablePath = ''/usr/p/complyctl-provider-b''\<rparr>]"

lemma demo_discovery: "DiscoverProviders demo_listing (Some ''/home/u'') ''~/p'' ''/usr/p'' = Inr demo_infos"
  by code_simp

lemma demo_good: "good_listing (demo_listing (provider_expandPath (Some ''/home/u'') ''~/p''))"
    "good_listing (demo_listing ''/usr/p'')"
  by code_simp+

theorem DiscoverProviders_precedence_witness:
  "distinct (map piEvaluatorID demo_infos)"
  using DiscoverProviders_precedence[OF demo_discovery demo_good] by blast

subsection \<open>Loading and routing\<close>

text \<open>
  What loading keeps: a provider is registered once, under its evaluator ID, which is its provider
  ID as well.
\<close>

definition manager_ok :: "manager \<Rightarrow> bool" where
  "manager_ok m \<longleftrightarrow> go_wf m \<and> gm.all_vals (\<lambda>k lp. piEvaluatorID (lpInfo lp) = k \<and> piProviderID (lpInfo lp) = k) m"

lemma load_loop_ok:
  "\<forall>p \<in> set infos. piProviderID p = piEvaluatorID p \<Longrightarrow> manager_ok m \<Longrightarrow> manager_ok (fst (load_loop connect infos m))"
proof (induction connect infos m rule: load_loop.induct)
  case (2 connect info infos m)
  have "manager_ok (go_put (piEvaluatorID info) \<lparr>lpInfo = info, lpClient = c\<rparr> m)" for c
    using "2.prems" by (auto simp: manager_ok_def intro!: gm.wf_put gm.all_vals_put)
  then show ?case using 2 by (auto split: sum.splits)
qed simp

lemma LoadProviders_ok:
  "manager_ok m \<Longrightarrow> manager_ok (fst (LoadProviders connect (DiscoverProviders readDir home u s) m))"
  unfolding LoadProviders_def by (auto split: sum.splits intro: load_loop_ok dest: DiscoverProviders_ids)

lemma list_loop_all:
  "distinct (map (\<lambda>(k, lp). piProviderID (lpInfo lp)) m) \<Longrightarrow> (\<forall>(k, lp) \<in> set m. piProviderID (lpInfo lp) \<notin> set seen) \<Longrightarrow>
   list_loop seen m = map snd m"
proof (induction seen m rule: list_loop.induct)
  case (2 seen k lp rest)
  have "\<forall>(k, x) \<in> set rest. piProviderID (lpInfo x) \<notin> set (piProviderID (lpInfo lp) # seen)"
    using "2.prems" by (force simp: case_prod_unfold)
  moreover have "piProviderID (lpInfo lp) \<notin> set seen" "distinct (map (\<lambda>(k, lp). piProviderID (lpInfo lp)) rest)"
    using "2.prems" by simp_all
  ultimately show ?case using "2.IH"(2) by simp
qed simp

lemma ListProviders_all: "manager_ok m \<Longrightarrow> ListProviders m = map snd m"
proof -
  assume ok: "manager_ok m"
  then have "map (\<lambda>(k, lp). piProviderID (lpInfo lp)) m = map fst m"
    by (auto simp: manager_ok_def gm.all_vals_entries)
  moreover have "distinct (map fst m)" using ok by (simp add: manager_ok_def go_wf_def)
  ultimately have "distinct (map (\<lambda>(k, lp). piProviderID (lpInfo lp)) m)" by (simp only:)
  then show ?thesis unfolding ListProviders_def by (rule list_loop_all) simp
qed

lemma scan_fold:
  "foldl (scan_one deadline targets) acc ps =
    \<lparr>rsAssessments = rsAssessments acc @ concat (map (\<lambda>p. case pvScan (lpClient p) targets of Inl _ \<Rightarrow> [] | Inr r \<Rightarrow> srAssessments r) ps),
     rsErrors = rsErrors acc @ concat (map (\<lambda>p. case pvScan (lpClient p) targets of
        Inl e \<Rightarrow> [scanErrorMessage deadline (piProviderID (lpInfo p)) e] | Inr r \<Rightarrow> srErrors r) ps),
     rsMappingReferences = rsMappingReferences acc @ concat (map (\<lambda>p. case pvScan (lpClient p) targets of
        Inl _ \<Rightarrow> [] | Inr r \<Rightarrow> srMappingReferences r) ps),
     rsRpcFailures = rsRpcFailures acc @ concat (map (\<lambda>p. case pvScan (lpClient p) targets of
        Inl e \<Rightarrow> [(piEvaluatorID (lpInfo p), scanErrorMessage deadline (piProviderID (lpInfo p)) e)] | Inr r \<Rightarrow> []) ps)\<rparr>"
  by (induction ps arbitrary: acc) (auto simp: scan_one_def Let_def split: sum.splits)

text \<open>The response of one provider as the manager reports it, and the answer to a request sent to it alone.\<close>

definition provider_report :: "bool \<Rightarrow> Target list \<Rightarrow> LoadedProvider \<Rightarrow> ScanResult" where
  "provider_report deadline targets p = scan_one deadline targets empty_scan p"

lemma RouteScanResult_single:
  "manager_ok m \<Longrightarrow> (ev, p) \<in> set m \<Longrightarrow> ev \<noteq> [] \<Longrightarrow>
   RouteScanResult deadline m ev targets = Inr (provider_report deadline targets p)"
proof -
  assume "manager_ok m" "(ev, p) \<in> set m" "ev \<noteq> []"
  then have "go_get m ev = Some p" "piEvaluatorID (lpInfo p) = ev"
    by (auto simp: manager_ok_def gm.get_entries gm.all_vals_entries)
  with \<open>ev \<noteq> []\<close> show ?thesis
    by (simp add: RouteScanResult_def GetProvider_def provider_report_def scan_one_def Let_def empty_scan_def split: sum.splits)
qed

text \<open>
  A broadcast scan loses nothing: after loading the discovered providers, a request
  with no evaluator ID asks every registered provider once and its result is, field by field, the
  concatenation of what asking each of them alone gives, so a failed provider adds its error and
  its failure record and takes no other provider's results away.
\<close>

theorem broadcast_scan_is_union:
  assumes "LoadProviders connect (DiscoverProviders readDir home userDir systemDir) [] = (m, e)"
    and "\<forall>p \<in> set m. fst p \<noteq> []"
  shows "\<exists>rs r. list_all2 (\<lambda>(ev, p) x. RouteScanResult deadline m ev targets = Inr x) m rs \<and>
    RouteScanResult deadline m [] targets = Inr r \<and>
    rsAssessments r = concat (map rsAssessments rs) \<and> rsErrors r = concat (map rsErrors rs) \<and>
    rsMappingReferences r = concat (map rsMappingReferences rs) \<and> rsRpcFailures r = concat (map rsRpcFailures rs)"
proof -
  have ok: "manager_ok m"
    using LoadProviders_ok[of "[]" connect readDir home userDir systemDir] assms(1)
    by (simp add: manager_ok_def gm.all_vals_def)
  let ?rs = "map (\<lambda>(ev, p). provider_report deadline targets p) m"
  have 1: "list_all2 (\<lambda>(ev, p) x. RouteScanResult deadline m ev targets = Inr x) m ?rs"
    using ok assms(2) by (auto simp: list_all2_map2 intro!: list.rel_refl_strong RouteScanResult_single)
  have f: "rsAssessments (provider_report deadline targets p) = (case pvScan (lpClient p) targets of Inl _ \<Rightarrow> [] | Inr r \<Rightarrow> srAssessments r)"
    "rsErrors (provider_report deadline targets p) = (case pvScan (lpClient p) targets of
        Inl e \<Rightarrow> [scanErrorMessage deadline (piProviderID (lpInfo p)) e] | Inr r \<Rightarrow> srErrors r)"
    "rsMappingReferences (provider_report deadline targets p) = (case pvScan (lpClient p) targets of Inl _ \<Rightarrow> [] | Inr r \<Rightarrow> srMappingReferences r)"
    "rsRpcFailures (provider_report deadline targets p) = (case pvScan (lpClient p) targets of
        Inl e \<Rightarrow> [(piEvaluatorID (lpInfo p), scanErrorMessage deadline (piProviderID (lpInfo p)) e)] | Inr r \<Rightarrow> [])" for p
    by (auto simp: provider_report_def scan_one_def empty_scan_def Let_def split: sum.splits)
  show ?thesis
    by (rule exI[of _ ?rs], rule exI[of _ "foldl (scan_one deadline targets) empty_scan (ListProviders m)"])
       (intro conjI, rule 1, simp_all add: RouteScanResult_def[of _ _ "[]"] scan_fold ListProviders_all[OF ok] f comp_def case_prod_unfold
          empty_scan_def)
qed

definition demo_provider :: "string \<Rightarrow> string + Provider" where
  "demo_provider exe = Inr \<lparr>pvDescribe = Inr \<lparr>drHealthy = True, drVersion = ''1'', drErrorMessage = [],
       drRequiredGlobalVariables = [], drRequiredTargetVariables = [], drOptionalTargetVariableGroups = []\<rparr>,
     pvGenerate = (\<lambda>_. Inr \<lparr>gpSuccess = True, gpErrorMessage = []\<rparr>),
     pvScan = (\<lambda>_. if exe = ''/home/u/p/complyctl-provider-a'' then Inl ''down''
                   else Inr \<lparr>srAssessments = errorAssessments ''x'' ''y'', srErrors = [], srMappingReferences = []\<rparr>)\<rparr>"

definition demo_manager :: manager where
  "demo_manager = map (\<lambda>i. (piEvaluatorID i, \<lparr>lpInfo = i, lpClient = projr (demo_provider (piExecutablePath i))\<rparr>)) demo_infos"

lemma demo_load: "LoadProviders demo_provider (DiscoverProviders demo_listing (Some ''/home/u'') ''~/p'' ''/usr/p'') [] =
    (demo_manager, None)"
  unfolding demo_discovery by (simp add: LoadProviders_def demo_manager_def demo_infos_def demo_provider_def go_put_def)

lemma demo_manager_named: "\<forall>p \<in> set demo_manager. fst p \<noteq> []"
  by (simp add: demo_manager_def demo_infos_def)

theorem broadcast_scan_is_union_witness:
  "\<exists>rs r. list_all2 (\<lambda>(ev, p) x. RouteScanResult False demo_manager ev [] = Inr x) demo_manager rs \<and>
    RouteScanResult False demo_manager [] [] = Inr r \<and> rsErrors r = concat (map rsErrors rs)"
  using broadcast_scan_is_union[OF demo_load demo_manager_named, of False "[]"] by blast

end
