(* ===== verification/Policy_Resolver.thy ===== *)
theory Policy_Resolver
  imports Policy_Store Provider
begin

text \<open>
  The policy resolver (\<^verbatim>\<open>internal/policy/resolver.go\<close>) and the grouping of assessments by evaluator
  (\<^verbatim>\<open>internal/policy/assessment.go\<close>). The resolver talks to a policy loader through an interface; the
  locale \<open>policy_loader\<close> states what it relies on and the loader of the policy cache is its
  interpretation. Parsing YAML (vendored library) is a parameter.
\<close>

section \<open>Gemara documents\<close>

text \<open>The parts of the Gemara documents that the program reads.\<close>

record AcceptedMethod =
  amExecutorId :: string

record AssessmentPlan =
  apId :: string
  apRequirementId :: string
  apEvaluationMethods :: "AcceptedMethod list"

record Timeline =
  tlStart :: string
  tlEnd :: string
  tlNotes :: string

record GemaraPolicy =
  gpTitle :: string
  gpMappingReferences :: "MappingReference list"
  gpEvaluationTimeline :: Timeline
  gpEnforcementTimeline :: Timeline
  gpEvaluationMethods :: "AcceptedMethod list"
  gpAssessmentPlans :: "AssessmentPlan list"

record CatalogControl =
  ctId :: string
  ctRequirementIds :: "string list"

record ControlCatalog =
  ccControls :: "CatalogControl list"

record GuidanceCatalog =
  gdTitle :: string

record gemara_yaml =
  gyPolicy :: "string \<Rightarrow> GemaraPolicy option"
  gyControlCatalog :: "string \<Rightarrow> ControlCatalog option"
  gyGuidanceCatalog :: "string \<Rightarrow> GuidanceCatalog option"

section \<open>The dependency graph\<close>

record Control =
  coID :: string
  coContent :: string
  coParsed :: ControlCatalog

record Guideline =
  glID :: string
  glContent :: string
  glParsed :: GuidanceCatalog

record Assessment =
  asID :: string
  asRequirementID :: string
  asEvaluatorID :: string
  asParameters :: "(string, string) gomap"

record PolicyTimeline =
  ptEvaluationStart :: string
  ptEvaluationEnd :: string
  ptEvaluationNotes :: string
  ptEnforcementStart :: string
  ptEnforcementEnd :: string
  ptEnforcementNotes :: string

record DependencyGraph =
  dgPolicyID :: string
  dgControls :: "Control list"
  dgGuidelines :: "Guideline list"
  dgAssessments :: "Assessment list"
  dgEvaluatorID :: string
  dgTimeline :: "PolicyTimeline option"
  dgMappingReferences :: "MappingReference list"

record PolicyMetadata =
  pmTitle :: string
  pmEvaluatorID :: string
  pmControlCount :: nat
  pmAssessmentCount :: nat

text \<open>The loader interface over a state that its operations may change.\<close>

record 's PolicyLoader =
  ldLayer :: "string \<Rightarrow> string \<Rightarrow> string \<Rightarrow> 's \<Rightarrow> 's \<times> (load_err + string)"
  ldBundle :: "string \<Rightarrow> string \<Rightarrow> 's \<Rightarrow> 's \<times> (load_err + (string, string) gomap)"
  ldShape :: "string \<Rightarrow> string \<Rightarrow> 's \<Rightarrow> 's \<times> (load_err + bool)"
  ldExists :: "string \<Rightarrow> string \<Rightarrow> 's \<Rightarrow> 's \<times> bool"
  ldResolve :: "string \<Rightarrow> string \<Rightarrow> 's \<Rightarrow> 's \<times> (load_err + string)"

datatype resolve_err =
    RPolicyEmpty
  | RVersionEmpty
  | RNotFound string string
  | RShape string string load_err
  | RBundle string string load_err
  | RNoPolicyArtifact string string
  | RPolicyLoad string string load_err
  | RPolicyYaml string
  | RNoPlans string
  | RCatalog string
  | RGuidance string
  | RVersion load_err

section \<open>Parsing the policy layer\<close>

definition plan_evaluator :: "string \<Rightarrow> AssessmentPlan \<Rightarrow> string" where
  "plan_evaluator policyLevelEvalID plan =
    (case apEvaluationMethods plan of
       m # _ \<Rightarrow> if amExecutorId m \<noteq> [] then amExecutorId m else policyLevelEvalID
     | [] \<Rightarrow> policyLevelEvalID)"

record policyLayerResult =
  plTitle :: string
  plEvaluatorID :: string
  plAssessments :: "Assessment list"
  plTimeline :: "PolicyTimeline option"
  plMappingReferences :: "MappingReference list"

definition extractFromGemaraPolicy :: "GemaraPolicy \<Rightarrow> policyLayerResult" where
  "extractFromGemaraPolicy p =
    (let policyLevelEvalID = (case gpEvaluationMethods p of m # _ \<Rightarrow> amExecutorId m | [] \<Rightarrow> []);
         assessments = map (\<lambda>plan. \<lparr>asID = apId plan, asRequirementID = apRequirementId plan,
             asEvaluatorID = plan_evaluator policyLevelEvalID plan, asParameters = []\<rparr>) (gpAssessmentPlans p);
         evalIDSet = remdups (map asEvaluatorID assessments);
         ev = gpEvaluationTimeline p; en = gpEnforcementTimeline p in
     \<lparr>plTitle = gpTitle p,
      plEvaluatorID = (case evalIDSet of [ev1] \<Rightarrow> ev1 | _ \<Rightarrow> []),
      plAssessments = assessments,
      plTimeline = (if tlStart ev \<noteq> [] \<or> tlStart en \<noteq> []
                    then Some \<lparr>ptEvaluationStart = tlStart ev, ptEvaluationEnd = tlEnd ev, ptEvaluationNotes = tlNotes ev,
                               ptEnforcementStart = tlStart en, ptEnforcementEnd = tlEnd en, ptEnforcementNotes = tlNotes en\<rparr>
                    else None),
      plMappingReferences = gpMappingReferences p\<rparr>)"

definition parsePolicyLayer :: "gemara_yaml \<Rightarrow> string \<Rightarrow> string \<Rightarrow> resolve_err + policyLayerResult" where
  "parsePolicyLayer y policyID data =
    (case gyPolicy y data of
       None \<Rightarrow> Inl (RPolicyYaml policyID)
     | Some p \<Rightarrow>
        if gpAssessmentPlans p = [] then Inl (RNoPlans policyID)
        else Inr (extractFromGemaraPolicy p))"

section \<open>Resolving a graph\<close>

definition catalog_control :: "gemara_yaml \<Rightarrow> string \<Rightarrow> string option \<Rightarrow> resolve_err + Control list" where
  "catalog_control y policyID data =
    (case data of
       None \<Rightarrow> Inr []
     | Some d \<Rightarrow>
        (case gyControlCatalog y d of
           None \<Rightarrow> Inl (RCatalog policyID)
         | Some c \<Rightarrow> Inr [\<lparr>coID = policyID @ ''-catalog'', coContent = d, coParsed = c\<rparr>]))"

definition guidance_guideline :: "gemara_yaml \<Rightarrow> string \<Rightarrow> string option \<Rightarrow> resolve_err + Guideline list" where
  "guidance_guideline y policyID data =
    (case data of
       None \<Rightarrow> Inr []
     | Some d \<Rightarrow>
        (case gyGuidanceCatalog y d of
           None \<Rightarrow> Inl (RGuidance policyID)
         | Some c \<Rightarrow> Inr [\<lparr>glID = policyID @ ''-guidance'', glContent = d, glParsed = c\<rparr>]))"

definition graph_of :: "string \<Rightarrow> Control list \<Rightarrow> Guideline list \<Rightarrow> policyLayerResult \<Rightarrow> DependencyGraph" where
  "graph_of policyID cs gs r =
    \<lparr>dgPolicyID = policyID, dgControls = cs, dgGuidelines = gs, dgAssessments = plAssessments r,
     dgEvaluatorID = plEvaluatorID r, dgTimeline = plTimeline r, dgMappingReferences = plMappingReferences r\<rparr>"

definition resolveBundleGraph ::
    "gemara_yaml \<Rightarrow> 's PolicyLoader \<Rightarrow> string \<Rightarrow> string \<Rightarrow> 's \<Rightarrow> 's \<times> (resolve_err + DependencyGraph)" where
  "resolveBundleGraph y L policyID version s =
    (case ldBundle L policyID version s of
       (s', Inl e) \<Rightarrow> (s', Inl (RBundle policyID version e))
     | (s', Inr files) \<Rightarrow>
        (s', case catalog_control y policyID (go_get files ''ControlCatalog'') of
               Inl e \<Rightarrow> Inl e
             | Inr cs \<Rightarrow>
                (case guidance_guideline y policyID (go_get files ''GuidanceCatalog'') of
                   Inl e \<Rightarrow> Inl e
                 | Inr gs \<Rightarrow>
                    (case go_get files ''Policy'' of
                       None \<Rightarrow> Inl (RNoPolicyArtifact policyID version)
                     | Some d \<Rightarrow>
                        (case parsePolicyLayer y policyID d of
                           Inl e \<Rightarrow> Inl e
                         | Inr r \<Rightarrow> Inr (graph_of policyID cs gs r))))))"

definition MediaTypeCatalog :: string where "MediaTypeCatalog = ''application/vnd.gemara.catalog.v1+yaml''"
definition MediaTypeGuidance :: string where "MediaTypeGuidance = ''application/vnd.gemara.guidance.v1+yaml''"
definition MediaTypePolicy :: string where "MediaTypePolicy = ''application/vnd.gemara.policy.v1+yaml''"

definition opt_of :: "'e + 'a \<Rightarrow> 'a option" where
  "opt_of r = (case r of Inl _ \<Rightarrow> None | Inr x \<Rightarrow> Some x)"

definition resolveSplitGraph ::
    "gemara_yaml \<Rightarrow> 's PolicyLoader \<Rightarrow> string \<Rightarrow> string \<Rightarrow> 's \<Rightarrow> 's \<times> (resolve_err + DependencyGraph)" where
  "resolveSplitGraph y L policyID version s =
    (let (s1, controlsData) = ldLayer L policyID version MediaTypeCatalog s in
     case catalog_control y policyID (opt_of controlsData) of
       Inl e \<Rightarrow> (s1, Inl e)
     | Inr cs \<Rightarrow>
        (let (s2, guidelinesData) = ldLayer L policyID version MediaTypeGuidance s1 in
         case guidance_guideline y policyID (opt_of guidelinesData) of
           Inl e \<Rightarrow> (s2, Inl e)
         | Inr gs \<Rightarrow>
            (case ldLayer L policyID version MediaTypePolicy s2 of
               (s3, Inl e) \<Rightarrow> (s3, Inl (RPolicyLoad policyID version e))
             | (s3, Inr d) \<Rightarrow>
                (s3, case parsePolicyLayer y policyID d of
                       Inl e \<Rightarrow> Inl e
                     | Inr r \<Rightarrow> Inr (graph_of policyID cs gs r)))))"

definition ResolvePolicyGraph ::
    "gemara_yaml \<Rightarrow> 's PolicyLoader \<Rightarrow> string \<Rightarrow> string \<Rightarrow> 's \<Rightarrow> 's \<times> (resolve_err + DependencyGraph)" where
  "ResolvePolicyGraph y L policyID version s =
    (if policyID = [] then (s, Inl RPolicyEmpty)
     else if version = [] then (s, Inl RVersionEmpty)
     else case ldExists L policyID version s of
       (s1, False) \<Rightarrow> (s1, Inl (RNotFound policyID version))
     | (s1, True) \<Rightarrow>
        (case ldShape L policyID version s1 of
           (s2, Inl e) \<Rightarrow> (s2, Inl (RShape policyID version e))
         | (s2, Inr isBundle) \<Rightarrow>
            if isBundle then resolveBundleGraph y L policyID version s2
            else resolveSplitGraph y L policyID version s2))"

section \<open>Metadata for display\<close>

definition metadata_of :: "policyLayerResult \<Rightarrow> PolicyMetadata" where
  "metadata_of r = \<lparr>pmTitle = plTitle r, pmEvaluatorID = plEvaluatorID r, pmControlCount = 0,
     pmAssessmentCount = length (plAssessments r)\<rparr>"

definition with_controls :: "gemara_yaml \<Rightarrow> string \<Rightarrow> string option \<Rightarrow> PolicyMetadata \<Rightarrow> resolve_err + PolicyMetadata" where
  "with_controls y policyID data meta =
    (case data of
       None \<Rightarrow> Inr meta
     | Some d \<Rightarrow>
        (case gyControlCatalog y d of
           None \<Rightarrow> Inl (RCatalog policyID)
         | Some c \<Rightarrow> Inr (meta\<lparr>pmControlCount := length (ccControls c)\<rparr>)))"

definition extractBundleMetadata ::
    "gemara_yaml \<Rightarrow> 's PolicyLoader \<Rightarrow> string \<Rightarrow> string \<Rightarrow> 's \<Rightarrow> 's \<times> (resolve_err + PolicyMetadata)" where
  "extractBundleMetadata y L policyID version s =
    (case ldBundle L policyID version s of
       (s', Inl e) \<Rightarrow> (s', Inl (RBundle policyID version e))
     | (s', Inr files) \<Rightarrow>
        (s', case go_get files ''Policy'' of
               None \<Rightarrow> Inl (RNoPolicyArtifact policyID version)
             | Some d \<Rightarrow>
                (case parsePolicyLayer y policyID d of
                   Inl e \<Rightarrow> Inl e
                 | Inr r \<Rightarrow> with_controls y policyID (go_get files ''ControlCatalog'') (metadata_of r))))"

definition extractSplitMetadata ::
    "gemara_yaml \<Rightarrow> 's PolicyLoader \<Rightarrow> string \<Rightarrow> string \<Rightarrow> 's \<Rightarrow> 's \<times> (resolve_err + PolicyMetadata)" where
  "extractSplitMetadata y L policyID version s =
    (case ldLayer L policyID version MediaTypePolicy s of
       (s1, Inl e) \<Rightarrow> (s1, Inl (RPolicyLoad policyID version e))
     | (s1, Inr d) \<Rightarrow>
        (case parsePolicyLayer y policyID d of
           Inl e \<Rightarrow> (s1, Inl e)
         | Inr r \<Rightarrow>
            (let (s2, catalogData) = ldLayer L policyID version MediaTypeCatalog s1 in
             (s2, with_controls y policyID (opt_of catalogData) (metadata_of r)))))"

definition ExtractPolicyMetadata ::
    "gemara_yaml \<Rightarrow> 's PolicyLoader \<Rightarrow> string \<Rightarrow> string \<Rightarrow> 's \<Rightarrow> 's \<times> (resolve_err + PolicyMetadata)" where
  "ExtractPolicyMetadata y L policyID version s =
    (if policyID = [] then (s, Inl RPolicyEmpty)
     else if version = [] then (s, Inl RVersionEmpty)
     else case ldExists L policyID version s of
       (s1, False) \<Rightarrow> (s1, Inl (RNotFound policyID version))
     | (s1, True) \<Rightarrow>
        (case ldShape L policyID version s1 of
           (s2, Inl e) \<Rightarrow> (s2, Inl (RShape policyID version e))
         | (s2, Inr isBundle) \<Rightarrow>
            if isBundle then extractBundleMetadata y L policyID version s2
            else extractSplitMetadata y L policyID version s2))"

section \<open>Assessments by evaluator\<close>

record EvaluatorGroup =
  egEvaluatorID :: string
  egConfigs :: "AssessmentConfiguration list"

definition ExtractAssessmentConfigs :: "DependencyGraph \<Rightarrow> AssessmentConfiguration list" where
  "ExtractAssessmentConfigs graph =
    map (\<lambda>a. \<lparr>acPlanID = asID a, acRequirementID = asRequirementID a, acParameters = asParameters a,
              acEvaluatorID = asEvaluatorID a\<rparr>) (dgAssessments graph)"

definition group_step :: "(string, EvaluatorGroup) gomap \<Rightarrow> AssessmentConfiguration \<Rightarrow> (string, EvaluatorGroup) gomap" where
  "group_step groups cfg =
    (let evalID = acEvaluatorID cfg;
         old = (case go_get groups evalID of Some g \<Rightarrow> egConfigs g | None \<Rightarrow> []) in
     go_put evalID \<lparr>egEvaluatorID = evalID, egConfigs = old @ [cfg]\<rparr> groups)"

definition GroupByEvaluator :: "AssessmentConfiguration list \<Rightarrow> DependencyGraph \<Rightarrow> (string, EvaluatorGroup) gomap" where
  "GroupByEvaluator configs graph =
    (if dgEvaluatorID graph \<noteq> []
     then go_put (dgEvaluatorID graph) \<lparr>egEvaluatorID = dgEvaluatorID graph, egConfigs = configs\<rparr> []
     else foldl group_step [] configs)"

section \<open>From a policy reference to its graph\<close>

text \<open>\<^verbatim>\<open>resolveVersionAndGraph\<close> of the scan command.\<close>

definition resolveVersionAndGraph ::
    "gemara_yaml \<Rightarrow> 's PolicyLoader \<Rightarrow> string \<Rightarrow> string \<Rightarrow> 's \<Rightarrow> 's \<times> (resolve_err + string \<times> DependencyGraph)" where
  "resolveVersionAndGraph y L repository versionString s =
    (case ldResolve L repository versionString s of
       (s1, Inl e) \<Rightarrow> (s1, Inl (RVersion e))
     | (s1, Inr version) \<Rightarrow>
        (case ResolvePolicyGraph y L repository version s1 of
           (s2, Inl e) \<Rightarrow> (s2, Inl e)
         | (s2, Inr g) \<Rightarrow> (s2, Inr (version, g))))"

text \<open>The loader of the policy cache.\<close>

definition cache_loader :: "(OciStore \<Rightarrow> string \<Rightarrow> Bundle option) \<Rightarrow> faults \<Rightarrow> path \<Rightarrow> fs PolicyLoader" where
  "cache_loader unpack flt cacheDir =
    \<lparr>ldLayer = LoadLayerByMediaType flt cacheDir, ldBundle = LoadBundleFiles unpack flt cacheDir,
     ldShape = DetectManifestShape flt cacheDir, ldExists = PolicyExists flt cacheDir,
     ldResolve = ResolveVersion flt cacheDir\<rparr>"

section \<open>The loader interface\<close>

text \<open>
  What the resolver relies on, for one policy: the answers of the loader depend only on what its
  state shows of that policy (its view), no operation changes the view, and a version that was
  resolved exists.
\<close>

locale policy_loader =
  fixes L :: "'s PolicyLoader" and p :: string and view :: "'s \<Rightarrow> 'v"
  assumes layer_view: "view (fst (ldLayer L p v m s)) = view s"
    and bundle_view: "view (fst (ldBundle L p v s)) = view s"
    and shape_view: "view (fst (ldShape L p v s)) = view s"
    and exists_view: "view (fst (ldExists L p v s)) = view s"
    and layer_det: "view s = view t \<Longrightarrow> snd (ldLayer L p v m s) = snd (ldLayer L p v m t)"
    and bundle_det: "view s = view t \<Longrightarrow> snd (ldBundle L p v s) = snd (ldBundle L p v t)"
    and shape_det: "view s = view t \<Longrightarrow> snd (ldShape L p v s) = snd (ldShape L p v t)"
    and exists_det: "view s = view t \<Longrightarrow> snd (ldExists L p v s) = snd (ldExists L p v t)"
    and resolve_exists: "p \<noteq> [] \<Longrightarrow> ldResolve L p c s = (t, Inr v) \<Longrightarrow> v \<noteq> [] \<and> snd (ldExists L p v t)"
begin

text \<open>The error of a resolution is never that the resolved policy or version is missing.\<close>

lemma resolve_found:
  assumes "p \<noteq> []" "resolveVersionAndGraph y L p c s = (s', Inl e)"
  shows "e \<noteq> RNotFound p' v' \<and> e \<noteq> RVersionEmpty \<and> e \<noteq> RPolicyEmpty"
proof (cases "ldResolve L p c s")
  case (Pair t r)
  show ?thesis
  proof (cases r)
    case (Inl x)
    then show ?thesis using assms(2) Pair by (auto simp: resolveVersionAndGraph_def)
  next
    case (Inr v)
    with Pair resolve_exists assms(1) have "v \<noteq> []" "snd (ldExists L p v t)" by auto
    then show ?thesis using assms Pair Inr
      by (auto simp: resolveVersionAndGraph_def ResolvePolicyGraph_def resolveBundleGraph_def resolveSplitGraph_def
          catalog_control_def guidance_guideline_def parsePolicyLayer_def Let_def
          split: prod.splits bool.splits sum.splits option.splits if_splits)
  qed
qed

text \<open>Results as functions of the view.\<close>

lemma split_graph_snd:
  assumes "view t = view s"
  shows "snd (resolveSplitGraph y L p v t) =
    (case catalog_control y p (opt_of (snd (ldLayer L p v MediaTypeCatalog s))) of Inl e \<Rightarrow> Inl e
     | Inr cs \<Rightarrow> (case guidance_guideline y p (opt_of (snd (ldLayer L p v MediaTypeGuidance s))) of Inl e \<Rightarrow> Inl e
     | Inr gs \<Rightarrow> (case snd (ldLayer L p v MediaTypePolicy s) of Inl e \<Rightarrow> Inl (RPolicyLoad p v e)
     | Inr d \<Rightarrow> (case parsePolicyLayer y p d of Inl e \<Rightarrow> Inl e | Inr r \<Rightarrow> Inr (graph_of p cs gs r)))))"
proof -
  obtain t1 c where 1: "ldLayer L p v MediaTypeCatalog t = (t1, c)" by fastforce
  obtain t2 g where 2: "ldLayer L p v MediaTypeGuidance t1 = (t2, g)" by fastforce
  obtain t3 q where 3: "ldLayer L p v MediaTypePolicy t2 = (t3, q)" by fastforce
  have v: "view t1 = view s" "view t2 = view s"
    using assms layer_view[of v MediaTypeCatalog t] layer_view[of v MediaTypeGuidance t1] 1 2 by simp_all
  have "c = snd (ldLayer L p v MediaTypeCatalog s)" "g = snd (ldLayer L p v MediaTypeGuidance s)"
    "q = snd (ldLayer L p v MediaTypePolicy s)"
    using layer_det[OF assms] layer_det[OF v(1)] layer_det[OF v(2)] 1 2 3 by (metis snd_conv)+
  then show ?thesis using 1 2 3 by (auto simp: resolveSplitGraph_def Let_def split: sum.splits)
qed

lemma split_metadata_snd:
  assumes "view t = view s"
  shows "snd (extractSplitMetadata y L p v t) =
    (case snd (ldLayer L p v MediaTypePolicy s) of Inl e \<Rightarrow> Inl (RPolicyLoad p v e)
     | Inr d \<Rightarrow> (case parsePolicyLayer y p d of Inl e \<Rightarrow> Inl e
     | Inr r \<Rightarrow> with_controls y p (opt_of (snd (ldLayer L p v MediaTypeCatalog s))) (metadata_of r)))"
proof -
  obtain t1 q where 1: "ldLayer L p v MediaTypePolicy t = (t1, q)" by fastforce
  obtain t2 c where 2: "ldLayer L p v MediaTypeCatalog t1 = (t2, c)" by fastforce
  have v: "view t1 = view s" using assms layer_view[of v MediaTypePolicy t] 1 by simp
  have "c = snd (ldLayer L p v MediaTypeCatalog s)" "q = snd (ldLayer L p v MediaTypePolicy s)"
    using layer_det[OF assms] layer_det[OF v] 1 2 by (metis snd_conv)+
  then show ?thesis using 1 2 by (auto simp: extractSplitMetadata_def Let_def split: sum.splits)
qed

lemma bundle_snd:
  assumes "view t = view s"
  shows "snd (resolveBundleGraph y L p v t) = snd (resolveBundleGraph y L p v s)"
    and "snd (extractBundleMetadata y L p v t) = snd (extractBundleMetadata y L p v s)"
  using bundle_det[OF assms, of v]
  by (auto simp: resolveBundleGraph_def extractBundleMetadata_def split: prod.splits sum.splits)

lemma view_graph: "view (fst (ResolvePolicyGraph y L p v s)) = view s"
proof -
  have b: "view (fst (resolveBundleGraph y L p v t)) = view t" for t
    using bundle_view[of v t] by (auto simp: resolveBundleGraph_def split: prod.splits sum.splits)
  have l: "view (fst (resolveSplitGraph y L p v t)) = view t" for t
  proof -
    obtain t1 c where 1: "ldLayer L p v MediaTypeCatalog t = (t1, c)" by fastforce
    obtain t2 g where 2: "ldLayer L p v MediaTypeGuidance t1 = (t2, g)" by fastforce
    obtain t3 q where 3: "ldLayer L p v MediaTypePolicy t2 = (t3, q)" by fastforce
    have "view t1 = view t" "view t2 = view t" "view t3 = view t"
      using layer_view[of v MediaTypeCatalog t] layer_view[of v MediaTypeGuidance t1]
        layer_view[of v MediaTypePolicy t2] 1 2 3 by simp_all
    then show ?thesis using 1 2 3 by (auto simp: resolveSplitGraph_def Let_def split: sum.splits)
  qed
  show ?thesis
    using exists_view[of v s] shape_view[of v "fst (ldExists L p v s)"]
    by (auto simp: ResolvePolicyGraph_def b l split: prod.splits sum.splits bool.splits)
qed

text \<open>The two front doors, as functions of the view.\<close>

lemma front_snd:
  assumes "view t = view s"
  shows "snd (ResolvePolicyGraph y L p v t) =
    (if p = [] then Inl RPolicyEmpty else if v = [] then Inl RVersionEmpty
     else if \<not> snd (ldExists L p v s) then Inl (RNotFound p v)
     else case snd (ldShape L p v s) of Inl e \<Rightarrow> Inl (RShape p v e)
       | Inr b \<Rightarrow> if b then snd (resolveBundleGraph y L p v s) else snd (resolveSplitGraph y L p v s))" (is ?G)
    and "snd (ExtractPolicyMetadata y L p v t) =
    (if p = [] then Inl RPolicyEmpty else if v = [] then Inl RVersionEmpty
     else if \<not> snd (ldExists L p v s) then Inl (RNotFound p v)
     else case snd (ldShape L p v s) of Inl e \<Rightarrow> Inl (RShape p v e)
       | Inr b \<Rightarrow> if b then snd (extractBundleMetadata y L p v s) else snd (extractSplitMetadata y L p v s))" (is ?M)
proof -
  obtain t1 b where 1: "ldExists L p v t = (t1, b)" by fastforce
  obtain t2 sh where 2: "ldShape L p v t1 = (t2, sh)" by fastforce
  have v1: "view t1 = view s" using assms exists_view[of v t] 1 by simp
  then have v2: "view t2 = view s" using shape_view[of v t1] 2 by simp
  have b: "b = snd (ldExists L p v s)" and sh: "sh = snd (ldShape L p v s)"
    using exists_det[OF assms] shape_det[OF v1] 1 2 by (metis snd_conv)+
  have sp: "snd (resolveSplitGraph y L p v t2) = snd (resolveSplitGraph y L p v s)"
    "snd (extractSplitMetadata y L p v t2) = snd (extractSplitMetadata y L p v s)"
    using split_graph_snd[OF v2] split_graph_snd[OF refl] split_metadata_snd[OF v2] split_metadata_snd[OF refl] by metis+
  show ?G using 1 2 by (cases b) (auto simp: ResolvePolicyGraph_def bundle_snd[OF v2] sp b[symmetric] sh[symmetric] split: sum.splits)
  show ?M using 1 2 by (cases b) (auto simp: ExtractPolicyMetadata_def bundle_snd[OF v2] sp b[symmetric] sh[symmetric] split: sum.splits)
qed

lemma metadata_agrees:
  assumes "ResolvePolicyGraph y L p v s = (s', Inr g)"
  shows "\<exists>m. snd (ExtractPolicyMetadata y L p v s') = Inr m \<and> pmEvaluatorID m = dgEvaluatorID g \<and>
    pmAssessmentCount m = length (dgAssessments g) \<and>
    pmControlCount m = sum_list (map (\<lambda>c. length (ccControls (coParsed c))) (dgControls g))"
proof -
  have v: "view s' = view s" using view_graph[of y v s] assms by simp
  have g: "snd (ResolvePolicyGraph y L p v s) = Inr g" using assms by simp
  show ?thesis
    using g unfolding front_snd(1)[OF refl] front_snd(2)[OF v] split_graph_snd[OF refl] split_metadata_snd[OF refl]
    by (auto simp: resolveBundleGraph_def extractBundleMetadata_def catalog_control_def with_controls_def metadata_of_def
        graph_of_def split: if_splits sum.splits option.splits prod.splits)
qed

end

section \<open>The loader of the cache provides the interface\<close>

lemma NewPolicyStore_view:
  "snd (NewPolicyStore no_faults d p (fst (NewPolicyStore no_faults d p s))) = snd (NewPolicyStore no_faults d p s)"
  using NewPolicyStore_again[of d p s] by (metis prod.collapse snd_conv)

lemma oci_Tags_resolve: "v \<in> set (oci_Tags st) \<Longrightarrow> v \<noteq> [] \<and> oci_Resolve st v \<noteq> None"
  using weak_map_of_SomeI by (fastforce simp: oci_Tags_def oci_Resolve_def go_get_def split: option.splits)

lemma GetCachedVersions_open:
  assumes "GetCachedVersions no_faults d p s = (t, Inr vs)" "vs \<noteq> []"
  obtains st where "NewPolicyStore no_faults d p t = (t, Inr st)" "vs = oci_Tags st"
proof (cases "NewPolicyStore no_faults d p s")
  case (Pair t' r)
  with assms obtain st where "r = Inr st" "t' = t" "vs = oci_Tags st"
    by (cases r) (auto simp: GetCachedVersions_def split: if_splits)
  with NewPolicyStore_again[OF Pair] that show ?thesis by simp
qed

lemma ResolveVersion_cases:
  assumes "ResolveVersion flt d p c s = (t, Inr v)"
  obtains "PolicyExists flt d p v s = (t, True)" "v = (if c = [] then ''latest'' else c)"
  | s1 vs where "PolicyExists flt d p ''latest'' s = (s1, False)" "c = [] \<or> c = ''latest''"
      "GetCachedVersions flt d p s1 = (t, Inr vs)" "vs \<noteq> []" "v = last vs"
  using assms
  by (auto simp: ResolveVersion_def Let_def cached_or_nil_def split: prod.splits bool.splits if_splits sum.splits)

lemma cache_resolve_exists:
  assumes "p \<noteq> []" "ResolveVersion no_faults d p c s = (t, Inr v)"
  shows "v \<noteq> [] \<and> snd (PolicyExists no_faults d p v t)"
  using assms(2)
proof (cases rule: ResolveVersion_cases)
  case 1
  then have "v \<noteq> []" by (auto split: if_splits)
  obtain t' r where n: "NewPolicyStore no_faults d p s = (t', r)" by fastforce
  with 1(1) assms(1) \<open>v \<noteq> []\<close> obtain st where "r = Inr st" "t' = t" "oci_Resolve st v \<noteq> None"
    by (cases r) (auto simp: PolicyExists_def)
  with NewPolicyStore_again[OF n] assms(1) \<open>v \<noteq> []\<close> show ?thesis by (simp add: PolicyExists_def)
next
  case (2 s1 vs)
  from 2(3,4) obtain st where st: "NewPolicyStore no_faults d p t = (t, Inr st)" "vs = oci_Tags st"
    by (rule GetCachedVersions_open)
  with 2 oci_Tags_resolve[of v st] have "v \<noteq> []" "oci_Resolve st v \<noteq> None" by simp_all
  with st assms(1) show ?thesis by (simp add: PolicyExists_def)
qed

interpretation pc: policy_loader "cache_loader unpack no_faults d" p "\<lambda>s. snd (NewPolicyStore no_faults d p s)" for unpack d p
proof unfold_locales
  note o = NewPolicyStore_view[of d p] cache_loader_def
  fix v m s
  show "snd (NewPolicyStore no_faults d p (fst (ldLayer (cache_loader unpack no_faults d) p v m s))) = snd (NewPolicyStore no_faults d p s)"
    using o(1)[of s] by (auto simp: o(2) LoadLayerByMediaType_def split: prod.splits sum.splits)
  show "snd (NewPolicyStore no_faults d p (fst (ldBundle (cache_loader unpack no_faults d) p v s))) = snd (NewPolicyStore no_faults d p s)"
    using o(1)[of s] by (auto simp: o(2) LoadBundleFiles_def split: prod.splits sum.splits)
  show "snd (NewPolicyStore no_faults d p (fst (ldShape (cache_loader unpack no_faults d) p v s))) = snd (NewPolicyStore no_faults d p s)"
    using o(1)[of s] by (auto simp: o(2) DetectManifestShape_def split: prod.splits sum.splits)
  show "snd (NewPolicyStore no_faults d p (fst (ldExists (cache_loader unpack no_faults d) p v s))) = snd (NewPolicyStore no_faults d p s)"
    using o(1)[of s] by (auto simp: o(2) PolicyExists_def split: prod.splits sum.splits)
  fix t
  assume e: "snd (NewPolicyStore no_faults d p s) = snd (NewPolicyStore no_faults d p t)"
  obtain s1 r t1 where "NewPolicyStore no_faults d p s = (s1, r)" "NewPolicyStore no_faults d p t = (t1, r)"
    using e by (metis prod.collapse)
  then show "snd (ldLayer (cache_loader unpack no_faults d) p v m s) = snd (ldLayer (cache_loader unpack no_faults d) p v m t)"
    "snd (ldBundle (cache_loader unpack no_faults d) p v s) = snd (ldBundle (cache_loader unpack no_faults d) p v t)"
    "snd (ldShape (cache_loader unpack no_faults d) p v s) = snd (ldShape (cache_loader unpack no_faults d) p v t)"
    "snd (ldExists (cache_loader unpack no_faults d) p v s) = snd (ldExists (cache_loader unpack no_faults d) p v t)"
    by (auto simp: o(2) LoadLayerByMediaType_def LoadBundleFiles_def DetectManifestShape_def PolicyExists_def split: sum.splits)
next
  fix c s t v
  assume "p \<noteq> []" "ldResolve (cache_loader unpack no_faults d) p c s = (t, Inr v)"
  then show "v \<noteq> [] \<and> snd (ldExists (cache_loader unpack no_faults d) p v t)"
    using cache_resolve_exists[of p d c s t v] by (simp add: cache_loader_def)
qed

section \<open>Properties of resolution and grouping\<close>

lemma last_sorted_Max: "sorted xs \<Longrightarrow> xs \<noteq> [] \<Longrightarrow> last xs = Max (set xs)"
proof (induction xs)
  case (Cons x xs)
  then show ?case by (cases "xs = []") (auto simp: max_def)
qed simp

text \<open>A demonstration cache: one policy, cached under two tags, as split layers.\<close>

definition demo_plan :: "string \<Rightarrow> string \<Rightarrow> AssessmentPlan" where
  "demo_plan i ev = \<lparr>apId = i, apRequirementId = ''r'' @ i, apEvaluationMethods = (if ev = [] then [] else [\<lparr>amExecutorId = ev\<rparr>])\<rparr>"

definition demo_gemara :: GemaraPolicy where
  "demo_gemara = \<lparr>gpTitle = ''T'', gpMappingReferences = [],
     gpEvaluationTimeline = \<lparr>tlStart = [], tlEnd = [], tlNotes = []\<rparr>,
     gpEnforcementTimeline = \<lparr>tlStart = [], tlEnd = [], tlNotes = []\<rparr>,
     gpEvaluationMethods = [\<lparr>amExecutorId = ''oscap''\<rparr>],
     gpAssessmentPlans = [demo_plan ''1'' [], demo_plan ''2'' ''opa'', demo_plan ''3'' []]\<rparr>"

definition demo_yaml :: gemara_yaml where
  "demo_yaml = \<lparr>gyPolicy = (\<lambda>d. if d = ''policy'' then Some demo_gemara else None),
     gyControlCatalog = (\<lambda>d. if d = ''catalog'' then Some \<lparr>ccControls = [\<lparr>ctId = ''c'', ctRequirementIds = [''r1'', ''r2'']\<rparr>]\<rparr> else None),
     gyGuidanceCatalog = (\<lambda>d. None)\<rparr>"

definition demo_manifest :: Manifest where
  "demo_manifest = \<lparr>mfConfigMediaType = ''x'', mfLayers =
     [\<lparr>dsMediaType = MediaTypePolicy, dsDigest = ''dp'', dsArtifactType = []\<rparr>,
      \<lparr>dsMediaType = MediaTypeCatalog, dsDigest = ''dc'', dsArtifactType = []\<rparr>], mfArtifactType = []\<rparr>"

definition demo_store :: OciStore where
  "demo_store = \<lparr>ocTags = [(''v1.9.0'', \<lparr>dsMediaType = ''m'', dsDigest = ''dm'', dsArtifactType = []\<rparr>),
       (''v1.10.0'', \<lparr>dsMediaType = ''m'', dsDigest = ''dm'', dsArtifactType = []\<rparr>)],
     ocBlobs = [(''dm'', BManifest demo_manifest), (''dp'', BBytes ''policy''), (''dc'', BBytes ''catalog'')]\<rparr>"

definition demo_cache_fs :: fs where
  "demo_cache_fs = [([''c''], Dir), ([''c'', ''policies''], Dir), ([''c'', ''policies'', ''p''], Dir),
     ([''c'', ''policies'', ''p'', oci_layout_file], File (Raw ''layout'')),
     ([''c'', ''policies'', ''p'', oci_index_file], File (OciDoc demo_store))]"

abbreviation demo_loader :: "fs PolicyLoader" where
  "demo_loader \<equiv> cache_loader (\<lambda>_ _. None) no_faults [''c'']"

definition demo_graph :: DependencyGraph where
  "demo_graph = projr (snd (ResolvePolicyGraph demo_yaml demo_loader ''p'' ''v1.9.0'' demo_cache_fs))"

lemma demo_resolves:
  "ResolvePolicyGraph demo_yaml demo_loader ''p'' ''v1.9.0'' demo_cache_fs = (demo_cache_fs, Inr demo_graph)"
  unfolding demo_graph_def by code_simp

lemma demo_latest: "ResolveVersion no_faults [''c''] ''p'' [] demo_cache_fs = (demo_cache_fs, Inr ''v1.9.0'')"
  by code_simp

text \<open>
  A version that the loader resolves is one the resolver finds: for any cache
  content, resolving a reference to its graph never ends with a missing policy or an empty
  version.
\<close>

theorem resolved_version_is_found:
  assumes "repository \<noteq> []"
    and "resolveVersionAndGraph y (cache_loader unpack no_faults cacheDir) repository version s = (s', Inl e)"
  shows "e \<noteq> RNotFound p v \<and> e \<noteq> RVersionEmpty \<and> e \<noteq> RPolicyEmpty"
  using assms by (rule pc.resolve_found)

definition demo_bad_yaml :: gemara_yaml where
  "demo_bad_yaml = demo_yaml\<lparr>gyPolicy := (\<lambda>_. None)\<rparr>"

lemma demo_unresolved: "resolveVersionAndGraph demo_bad_yaml demo_loader ''p'' [] demo_cache_fs = (demo_cache_fs, Inl (RPolicyYaml ''p''))"
  by code_simp

theorem resolved_version_is_found_witness:
  "resolveVersionAndGraph demo_bad_yaml demo_loader ''p'' [] demo_cache_fs = (demo_cache_fs, Inl (RPolicyYaml ''p'')) \<and>
   RPolicyYaml ''p'' \<noteq> RNotFound ''p'' ''v1.9.0''"
  using resolved_version_is_found[OF _ demo_unresolved] demo_unresolved by blast

text \<open>
  The display metadata agree with the graph: whenever a cached policy resolves to a
  graph, extracting its metadata afterwards succeeds, with the evaluator of the graph and the
  numbers of its assessments and controls.
\<close>

theorem metadata_agrees_with_graph:
  assumes "ResolvePolicyGraph y (cache_loader unpack no_faults cacheDir) policyID version s = (s', Inr g)"
  shows "\<exists>m. snd (ExtractPolicyMetadata y (cache_loader unpack no_faults cacheDir) policyID version s') = Inr m \<and>
    pmEvaluatorID m = dgEvaluatorID g \<and> pmAssessmentCount m = length (dgAssessments g) \<and>
    pmControlCount m = sum_list (map (\<lambda>c. length (ccControls (coParsed c))) (dgControls g))"
  using assms by (rule pc.metadata_agrees)

theorem metadata_agrees_with_graph_witness:
  "\<exists>m. snd (ExtractPolicyMetadata demo_yaml demo_loader ''p'' ''v1.9.0'' demo_cache_fs) = Inr m \<and>
    pmAssessmentCount m = length (dgAssessments demo_graph)"
  using metadata_agrees_with_graph[OF demo_resolves] by blast

text \<open>
  Without a configured version and without a tag named latest, the version resolved
  from the cache is the greatest cached tag in the order of strings.
\<close>

theorem latest_is_greatest_tag:
  assumes "ResolveVersion no_faults cacheDir policyID [] s = (s', Inr v)"
    and "\<not> snd (PolicyExists no_faults cacheDir policyID ''latest'' s)"
  shows "\<exists>st. NewPolicyStore no_faults cacheDir policyID s' = (s', Inr st) \<and> v = Max (set (oci_Tags st))"
  using assms(1)
proof (cases rule: ResolveVersion_cases)
  case 1
  then show ?thesis using assms(2) by simp
next
  case (2 s1 vs)
  from 2(3,4) obtain st where st: "NewPolicyStore no_faults cacheDir policyID s' = (s', Inr st)" "vs = oci_Tags st"
    by (rule GetCachedVersions_open)
  have "last (oci_Tags st) = Max (set (oci_Tags st))"
    using 2(4) st(2) by (intro last_sorted_Max) (simp_all add: oci_Tags_def)
  with 2 st show ?thesis by blast
qed

lemma demo_no_latest: "\<not> snd (PolicyExists no_faults [''c''] ''p'' ''latest'' demo_cache_fs)"
  by code_simp

theorem latest_is_greatest_tag_witness:
  "\<exists>st. NewPolicyStore no_faults [''c''] ''p'' demo_cache_fs = (demo_cache_fs, Inr st) \<and> ''v1.9.0'' = Max (set (oci_Tags st))"
  using latest_is_greatest_tag[OF demo_latest demo_no_latest] .

subsection \<open>Grouping\<close>

lemma group_fold:
  "go_get (foldl group_step G cs) ev =
    (let l = filter (\<lambda>c. acEvaluatorID c = ev) cs in
     if l = [] then go_get G ev
     else Some \<lparr>egEvaluatorID = ev, egConfigs = (case go_get G ev of Some g \<Rightarrow> egConfigs g | None \<Rightarrow> []) @ l\<rparr>)"
  by (induction cs arbitrary: G) (auto simp: Let_def group_step_def split: option.splits)

lemma resolved_graph_source:
  assumes "ResolvePolicyGraph y L p v s = (s', Inr g)"
  shows "\<exists>gp. gpAssessmentPlans gp \<noteq> [] \<and> dgAssessments g = plAssessments (extractFromGemaraPolicy gp) \<and>
    dgEvaluatorID g = plEvaluatorID (extractFromGemaraPolicy gp)"
  using assms
  by (auto simp: ResolvePolicyGraph_def resolveBundleGraph_def resolveSplitGraph_def parsePolicyLayer_def graph_of_def Let_def
      split: if_splits prod.splits bool.splits sum.splits option.splits)

lemma single_evaluator:
  assumes "plEvaluatorID (extractFromGemaraPolicy gp) \<noteq> []" "a \<in> set (plAssessments (extractFromGemaraPolicy gp))"
  shows "asEvaluatorID a = plEvaluatorID (extractFromGemaraPolicy gp)"
proof -
  let ?as = "plAssessments (extractFromGemaraPolicy gp)"
  have "plEvaluatorID (extractFromGemaraPolicy gp) = (case remdups (map asEvaluatorID ?as) of [e] \<Rightarrow> e | _ \<Rightarrow> [])"
    by (simp add: extractFromGemaraPolicy_def Let_def)
  with assms(1) have "remdups (map asEvaluatorID ?as) = [plEvaluatorID (extractFromGemaraPolicy gp)]"
    by (auto split: list.splits)
  then have "set (map asEvaluatorID ?as) = {plEvaluatorID (extractFromGemaraPolicy gp)}"
    by (metis list.set(1) list.set(2) set_remdups)
  then show ?thesis using assms(2) by auto
qed

text \<open>
  Property C25. Grouping is a partition of the assessments of a resolved policy by their evaluator:
  an evaluator has a group exactly when some assessment is routed to it, and the group holds
  precisely its assessments in the order of the policy. The shortcut for a policy with a single
  evaluator gives the same groups as the general loop.
\<close>

theorem GroupByEvaluator_partition:
  assumes "ResolvePolicyGraph y L policyID version s = (s', Inr g)"
  shows "go_get (GroupByEvaluator (ExtractAssessmentConfigs g) g) ev =
    (let own = filter (\<lambda>c. acEvaluatorID c = ev) (ExtractAssessmentConfigs g) in
     if own = [] then None else Some \<lparr>egEvaluatorID = ev, egConfigs = own\<rparr>)"
proof (cases "dgEvaluatorID g = []")
  case True
  then show ?thesis by (simp add: GroupByEvaluator_def group_fold Let_def)
next
  case False
  obtain gp where gp: "gpAssessmentPlans gp \<noteq> []" "dgAssessments g = plAssessments (extractFromGemaraPolicy gp)"
    "dgEvaluatorID g = plEvaluatorID (extractFromGemaraPolicy gp)"
    using resolved_graph_source[OF assms] by blast
  have all: "acEvaluatorID c = dgEvaluatorID g" if "c \<in> set (ExtractAssessmentConfigs g)" for c
    using that single_evaluator[of gp] False gp by (auto simp: ExtractAssessmentConfigs_def)
  have ne: "ExtractAssessmentConfigs g \<noteq> []"
    using gp(1,2) by (simp add: ExtractAssessmentConfigs_def extractFromGemaraPolicy_def Let_def)
  show ?thesis
  proof (cases "ev = dgEvaluatorID g")
    case True
    with all have "filter (\<lambda>c. acEvaluatorID c = ev) (ExtractAssessmentConfigs g) = ExtractAssessmentConfigs g" by simp
    with False ne True show ?thesis by (simp add: GroupByEvaluator_def)
  next
    case other: False
    with all have "filter (\<lambda>c. acEvaluatorID c = ev) (ExtractAssessmentConfigs g) = []"
      by (auto simp: filter_empty_conv)
    with False other show ?thesis by (simp add: GroupByEvaluator_def)
  qed
qed

theorem GroupByEvaluator_partition_witness:
  "go_get (GroupByEvaluator (ExtractAssessmentConfigs demo_graph) demo_graph) ''opa'' =
    (let own = filter (\<lambda>c. acEvaluatorID c = ''opa'') (ExtractAssessmentConfigs demo_graph) in
     if own = [] then None else Some \<lparr>egEvaluatorID = ''opa'', egConfigs = own\<rparr>)"
  using GroupByEvaluator_partition[OF demo_resolves] .

end
