(* ===== verification/Complypack_Cache.thy ===== *)
theory Complypack_Cache
  imports Cache_State
begin

text \<open>
  The complypack cache (\<^verbatim>\<open>internal/cache/complypack.go\<close>): directories
  \<^verbatim>\<open>{cacheDir}/complypacks/{evaluator-id}/{version}\<close> written by an atomic rename, evicted by the
  retention count and the sync state, and looked up by version, by the state or by a scan.
\<close>

section \<open>Path components\<close>

definition path_char :: "char \<Rightarrow> bool" where
  "path_char c \<longleftrightarrow> is_lower c \<or> is_upper c \<or> is_digit c \<or> c \<in> set ''._-''"

definition ValidatePathComponent :: "string \<Rightarrow> path_err option" where
  "ValidatePathComponent value =
    (if value = [] then Some PEmpty
     else if ContainsByte value CHR 0x00 then Some (PNull value)
     else if ContainsByte value CHR ''/'' \<or> ContainsByte value CHR 0x5C then Some (PSeparator value)
     else if Contains value ''..'' then Some (PParent value)
     else if \<not> list_all path_char value then Some (PInvalidChars value)
     else None)"

section \<open>The cache\<close>

record ComplypackCache =
  ccDir :: path
  ccState :: "State option"
  ccRetention :: int

definition NewComplypackCache :: "string \<Rightarrow> path \<Rightarrow> State option \<Rightarrow> ComplypackCache" where
  "NewComplypackCache envValue cacheDir st =
    \<lparr>ccDir = cacheDir, ccState = st, ccRetention = CacheRetentionCount envValue\<rparr>"

definition ComplypacksSubdir :: string where "ComplypacksSubdir = ''complypacks''"
definition complypackContentFile :: string where "complypackContentFile = ''content.tar.gz''"
definition complypackConfigFile :: string where "complypackConfigFile = ''config.json''"

definition complypackDir :: "ComplypackCache \<Rightarrow> string \<Rightarrow> string \<Rightarrow> path" where
  "complypackDir c evaluatorID version = fp_join (ccDir c) [ComplypacksSubdir, evaluatorID, version]"

subsection \<open>Eviction\<close>

definition buildTrackedVersionSet :: "State \<Rightarrow> string \<Rightarrow> string list" where
  "buildTrackedVersionSet st evaluatorID =
    map (\<lambda>(k, ps). psVersion ps)
      (filter (\<lambda>(k, ps). psEvaluatorID ps = evaluatorID \<and> psVersion ps \<noteq> []) (stComplypacks st))"

definition version_timestamps :: "State \<Rightarrow> string \<Rightarrow> (string, gotime) gomap" where
  "version_timestamps st evaluatorID =
    foldl (\<lambda>m (k, ps). if psEvaluatorID ps = evaluatorID \<and> psVersion ps \<noteq> []
                       then go_put (psVersion ps) (psLastUpdated ps) m else m) [] (stComplypacks st)"

definition sortByLastUpdated :: "string list \<Rightarrow> State \<Rightarrow> string \<Rightarrow> string list" where
  "sortByLastUpdated versions st evaluatorID =
    sort_key (\<lambda>v. case go_get (version_timestamps st evaluatorID) v of Some t \<Rightarrow> t | None \<Rightarrow> 0) versions"

text \<open>Removal failures are logged and ignored.\<close>

definition evict_all :: "faults \<Rightarrow> path \<Rightarrow> string list \<Rightarrow> fs \<Rightarrow> fs" where
  "evict_all flt dir names s = foldl (\<lambda>s name. fst (fs_RemoveAll flt (fp_join dir [name]) s)) s names"

definition evict_candidates :: "string \<Rightarrow> (string \<times> node) list \<Rightarrow> string list" where
  "evict_candidates targetVersion entries =
    map fst (filter (\<lambda>(name, n). n = Dir \<and> \<not> HasPrefix name ''.'' \<and> name \<noteq> targetVersion) entries)"

definition evictOldVersions ::
    "faults \<Rightarrow> path \<Rightarrow> string \<Rightarrow> int \<Rightarrow> State option \<Rightarrow> fs \<Rightarrow> fs" where
  "evictOldVersions flt evaluatorDir targetVersion retentionCount state s =
    (case fs_ReadDir flt evaluatorDir s of
       Entries entries \<Rightarrow>
         (let candidates = evict_candidates targetVersion entries in
          case state of
            None \<Rightarrow> evict_all flt evaluatorDir candidates s
          | Some st \<Rightarrow>
             (let evaluatorID = last evaluatorDir;
                  trackedVersions = buildTrackedVersionSet st evaluatorID;
                  tracked = filter (\<lambda>name. name \<in> set trackedVersions) candidates;
                  orphaned = filter (\<lambda>name. name \<notin> set trackedVersions) candidates;
                  s1 = evict_all flt evaluatorDir orphaned s;
                  slotsForOld = max 0 (retentionCount - 1)
              in if int (length tracked) \<le> slotsForOld then s1
                 else evict_all flt evaluatorDir
                        (take (nat (int (length tracked) - slotsForOld))
                           (sortByLastUpdated tracked st evaluatorID)) s1))
     | _ \<Rightarrow> s)"

subsection \<open>Store\<close>

text \<open>
  The temporary directory is removed on every error after its creation. \<open>rnd\<close> is the random
  part of its name. Reading the content cannot be told apart from writing it: both fail the copy.
\<close>

definition Store ::
    "faults \<Rightarrow> string \<Rightarrow> ComplypackCache \<Rightarrow> PackConfig \<Rightarrow> string \<Rightarrow> fs \<Rightarrow> fs \<times> (cache_err + path)" where
  "Store flt rnd c config content s0 =
    (case ValidatePathComponent (pcEvaluatorID config) of
       Some e \<Rightarrow> (s0, Inl (CInvalidEvaluator e))
     | None \<Rightarrow>
    (case ValidatePathComponent (pcVersion config) of
       Some e \<Rightarrow> (s0, Inl (CInvalidVersion e))
     | None \<Rightarrow>
     (let finalDir = complypackDir c (pcEvaluatorID config) (pcVersion config);
          parentDir = butlast finalDir in
      case fs_MkdirAll flt parentDir s0 of
        (s1, False) \<Rightarrow> (s1, Inl (CPackMkdir parentDir))
      | (s1, True) \<Rightarrow>
      (case fs_MkdirTemp flt parentDir (''.complypack-tmp-'' @ rnd) s1 of
        (s2, None) \<Rightarrow> (s2, Inl CPackTemp)
      | (s2, Some tmpDir) \<Rightarrow>
       (let cleanup = (\<lambda>s e. (fst (fs_RemoveAll flt tmpDir s), Inl e));
            contentPath = fp_join tmpDir [complypackContentFile];
            configPath = fp_join tmpDir [complypackConfigFile] in
        case fs_OpenExcl flt contentPath s2 of
          (s3, False) \<Rightarrow> cleanup s3 CPackContentCreate
        | (s3, True) \<Rightarrow>
        (case fs_Write flt contentPath (Raw content) s3 of
          (s4, False) \<Rightarrow> cleanup s4 CPackContentWrite
        | (s4, True) \<Rightarrow>
          if flt (OpClose contentPath) then cleanup s4 CPackContentClose
          else
          (case fs_WriteFile flt configPath (PackDoc config) s4 of
             (s5, False) \<Rightarrow> cleanup s5 CPackConfigWrite
           | (s5, True) \<Rightarrow>
           (case fs_RemoveAll flt finalDir s5 of
             (s6, False) \<Rightarrow> cleanup s6 (CPackRemove finalDir)
           | (s6, True) \<Rightarrow>
           (case fs_Rename flt tmpDir finalDir s6 of
             (s7, False) \<Rightarrow> cleanup s7 (CPackRename finalDir)
           | (s7, True) \<Rightarrow>
              (evictOldVersions flt parentDir (pcVersion config) (ccRetention c) (ccState c) s7,
               Inr (fp_join finalDir [complypackContentFile])))))))))))"

subsection \<open>Lookup\<close>

definition Lookup ::
    "faults \<Rightarrow> ComplypackCache \<Rightarrow> string \<Rightarrow> string \<Rightarrow> fs \<Rightarrow> cache_err + path \<times> PackConfig" where
  "Lookup flt c evaluatorID version s =
    (case ValidatePathComponent evaluatorID of
       Some e \<Rightarrow> Inl (CInvalidEvaluator e)
     | None \<Rightarrow>
    (case ValidatePathComponent version of
       Some e \<Rightarrow> Inl (CInvalidVersion e)
     | None \<Rightarrow>
     (let dir = complypackDir c evaluatorID version;
          contentPath = fp_join dir [complypackContentFile];
          configPath = fp_join dir [complypackConfigFile] in
      if \<not> fs_exists flt contentPath s then Inl (CContentNotFound evaluatorID version)
      else case fs_ReadFile flt configPath s of
          Doc (PackDoc cfg) \<Rightarrow> Inr (contentPath, cfg)
        | Doc _ \<Rightarrow> Inl (CConfigParse evaluatorID version)
        | _ \<Rightarrow> Inl (CConfigRead evaluatorID version))))"

fun scan_entries ::
    "faults \<Rightarrow> path \<Rightarrow> string \<Rightarrow> fs \<Rightarrow> (string \<times> node) list \<Rightarrow> cache_err + (path \<times> PackConfig) option" where
  "scan_entries flt evalDir evaluatorID s [] = Inr None"
| "scan_entries flt evalDir evaluatorID s ((name, n) # rest) =
    (if n \<noteq> Dir \<or> HasPrefix name ''.'' then scan_entries flt evalDir evaluatorID s rest
     else let contentPath = fp_join evalDir [name, complypackContentFile] in
       if fs_exists flt contentPath s then
         (case fs_ReadFile flt (fp_join evalDir [name, complypackConfigFile]) s of
            Doc (PackDoc cfg) \<Rightarrow> Inr (Some (contentPath, cfg))
          | Doc _ \<Rightarrow> Inl (CConfigParse evaluatorID [])
          | _ \<Rightarrow> Inl (CConfigRead evaluatorID []))
       else scan_entries flt evalDir evaluatorID s rest)"

definition lookupByDirScan ::
    "faults \<Rightarrow> ComplypackCache \<Rightarrow> string \<Rightarrow> fs \<Rightarrow> cache_err + (path \<times> PackConfig) option" where
  "lookupByDirScan flt c evaluatorID s =
    (let evalDir = fp_join (ccDir c) [ComplypacksSubdir, evaluatorID] in
     case fs_ReadDir flt evalDir s of
       NoDir \<Rightarrow> Inr None
     | UnreadableDir \<Rightarrow> Inl (CDirRead evaluatorID)
     | Entries entries \<Rightarrow> scan_entries flt evalDir evaluatorID s entries)"

definition LookupByEvaluatorID ::
    "faults \<Rightarrow> ComplypackCache \<Rightarrow> string \<Rightarrow> fs \<Rightarrow> cache_err + (path \<times> PackConfig) option" where
  "LookupByEvaluatorID flt c evaluatorID s =
    (case ValidatePathComponent evaluatorID of
       Some e \<Rightarrow> Inl (CInvalidEvaluator e)
     | None \<Rightarrow>
       (case (case ccState c of None \<Rightarrow> Inr None | Some st \<Rightarrow> EvaluatorIDToVersion (Some st) evaluatorID) of
          Inl e \<Rightarrow> Inl (CStateLookup evaluatorID e)
        | Inr (Some version) \<Rightarrow>
            (case Lookup flt c evaluatorID version s of
               Inr r \<Rightarrow> Inr (Some r)
             | Inl _ \<Rightarrow> lookupByDirScan flt c evaluatorID s)
        | Inr None \<Rightarrow> lookupByDirScan flt c evaluatorID s))"

section \<open>Safe path components\<close>

lemma path_char_not: "\<not> path_char CHR 0x00" "\<not> path_char CHR ''/''" "\<not> path_char CHR 0x5C"
  by (simp_all add: path_char_def is_lower_def is_upper_def is_digit_def)

lemma ValidatePathComponent_None:
  "ValidatePathComponent v = None \<longleftrightarrow> v \<noteq> [] \<and> list_all path_char v \<and> \<not> Contains v ''..''"
  using path_char_not by (auto simp: ValidatePathComponent_def list_all_iff)

lemma ValidatePathComponent_plain:
  assumes "ValidatePathComponent v = None" "v \<noteq> ''.''"
  shows "plain_comp v"
proof -
  have "v \<noteq> ''..''" using assms(1) by (auto simp: ValidatePathComponent_None)
  moreover have "CHR ''/'' \<notin> set v"
    using assms(1) path_char_not(2) by (auto simp: ValidatePathComponent_None list_all_iff)
  ultimately show ?thesis using assms by (auto simp: plain_comp_def ValidatePathComponent_None)
qed

lemma fp_join_valid:
  assumes "abs_path base" "ValidatePathComponent v = None"
  shows "fp_join base [v] = (if v = ''.'' then base else base @ [v])"
  using assms ValidatePathComponent_plain[OF assms(2)] fp_join_dot[OF assms(1)] by simp

section \<open>Eviction\<close>

lemma evict_all_get:
  "go_get (evict_all flt dir names s) q =
    (if \<exists>n \<in> set names. \<not> flt (OpRemoveAll (fp_join dir [n])) \<and> under (fp_join dir [n]) q then None
     else go_get s q)"
  unfolding evict_all_def
  by (induction names arbitrary: s) (auto simp: fs_simps)

lemma evict_all_filter:
  assumes "abs_path dir" "list_all plain_comp names"
  shows "evict_all no_faults dir names s = filter (\<lambda>(q, n). \<not> (\<exists>x \<in> set names. under (dir @ [x]) q)) s"
  using assms(2) unfolding evict_all_def
proof (induction names arbitrary: s)
  case (Cons x names)
  then show ?case using assms(1)
    by (auto simp: fs_RemoveAll_def filter_filter intro!: filter_cong)
qed simp

definition fs_abs :: "fs \<Rightarrow> bool" where
  "fs_abs s \<longleftrightarrow> list_all abs_path (go_keys s)"

definition fs_ok :: "fs \<Rightarrow> bool" where
  "fs_ok s \<longleftrightarrow> go_wf s \<and> fs_abs s"

lemma fs_children_plain:
  assumes "fs_abs s"
  shows "list_all (\<lambda>(x, n). plain_comp x) (fs_children p s)"
proof -
  have "plain_comp x" if "(x, n) \<in> set (fs_children p s)" for x n
  proof -
    from that obtain q where q: "(q, n) \<in> set s" "q \<noteq> []" "last q = x" by (auto simp: fs_children_def)
    then have "q \<in> set (go_keys s)" by (force simp: go_keys_def)
    then have "abs_path q" using assms by (auto simp: fs_abs_def list_all_iff)
    with q show ?thesis using last_in_set[of q] by (auto simp: list_all_iff)
  qed
  then show ?thesis by (auto simp: list_all_iff)
qed

lemma fs_children_distinct:
  assumes "go_wf s"
  shows "distinct (map fst (fs_children p s))"
proof -
  let ?c = "filter (\<lambda>(q, n). q \<noteq> [] \<and> butlast q = p) s"
  have d: "distinct (map fst ?c)" using assms unfolding go_wf_def
    by (meson distinct_map_filter)
  have b: "q \<noteq> [] \<and> butlast q = p" if "q \<in> set (map fst ?c)" for q using that by auto
  have "inj_on last (set (map fst ?c))"
  proof (rule inj_onI)
    fix q r assume "q \<in> set (map fst ?c)" "r \<in> set (map fst ?c)" and l: "last q = last r"
    then have "butlast q @ [last q] = q" "butlast r @ [last r] = r" "butlast q = p" "butlast r = p"
      using b[of q] b[of r] append_butlast_last_id[of q] append_butlast_last_id[of r] by blast+
    with l show "q = r" by metis
  qed
  then have "distinct (map last (map fst ?c))" using d by (metis (no_types) distinct_map)
  moreover have "map fst (fs_children p s) = map last (map fst ?c)"
    by (simp add: fs_children_def case_prod_beta comp_def)
  ultimately show "distinct (map fst (fs_children p s))" by (simp only:)
qed

lemma fs_children_mem: "go_wf s \<Longrightarrow> (x, n) \<in> set (fs_children p s) \<longleftrightarrow> go_get s (p @ [x]) = Some n"
proof -
  assume w: "go_wf s"
  have "(x, n) \<in> set (fs_children p s) \<longleftrightarrow> (p @ [x], n) \<in> set s"
  proof
    assume "(x, n) \<in> set (fs_children p s)"
    then obtain q where "(q, n) \<in> set s" "q \<noteq> []" "butlast q = p" "last q = x"
      by (auto simp: fs_children_def)
    then show "(p @ [x], n) \<in> set s" by (metis append_butlast_last_id)
  next
    assume "(p @ [x], n) \<in> set s"
    then show "(x, n) \<in> set (fs_children p s)" by (force simp: fs_children_def)
  qed
  then show ?thesis using gm.get_entries[OF w] by simp
qed

lemma fs_children_evict:
  assumes "abs_path dir" "list_all plain_comp names"
  shows "fs_children dir (evict_all no_faults dir names s) =
    filter (\<lambda>(x, n). x \<notin> set names) (fs_children dir s)"
proof -
  have "(\<exists>x \<in> set names. under (dir @ [x]) q) \<longleftrightarrow> last q \<in> set names" if "q \<noteq> []" "butlast q = dir" for q
  proof -
    have "q = dir @ [last q]" using that by (metis append_butlast_last_id)
    then obtain z where "q = dir @ [z]" by blast
    then show ?thesis by auto
  qed
  then show ?thesis
    unfolding evict_all_filter[OF assms] fs_children_def
    by (auto simp: filter_map filter_filter comp_def case_prod_beta intro!: arg_cong[of _ _ "map _"] filter_cong)
qed

lemma evict_candidates_plain:
  "list_all (\<lambda>(x, n). plain_comp x) es \<Longrightarrow> list_all plain_comp (evict_candidates t es)"
  by (auto simp: evict_candidates_def list_all_iff)

lemma evict_candidates_filter:
  "evict_candidates t (filter (\<lambda>(x, n). x \<notin> A) es) = filter (\<lambda>x. x \<notin> A) (evict_candidates t es)"
  by (auto simp: evict_candidates_def filter_map filter_filter comp_def case_prod_beta intro!: arg_cong[of _ _ "map _"] filter_cong)

lemma fs_ReadDir_Dir:
  "go_get s dir = Some Dir \<Longrightarrow> fs_ReadDir no_faults dir s = Entries (sort_key fst (fs_children dir s))"
  by (simp add: fs_ReadDir_def)

text \<open>The version directories that compete with the target, and what eviction keeps of them.\<close>

definition old_versions :: "path \<Rightarrow> string \<Rightarrow> fs \<Rightarrow> string list" where
  "old_versions dir target s = evict_candidates target (sort_key fst (fs_children dir s))"

definition evicted :: "path \<Rightarrow> string \<Rightarrow> int \<Rightarrow> State option \<Rightarrow> fs \<Rightarrow> string list" where
  "evicted dir target n state s =
    (case state of
       None \<Rightarrow> old_versions dir target s
     | Some st \<Rightarrow>
        (let vs = buildTrackedVersionSet st (last dir);
             tracked = filter (\<lambda>x. x \<in> set vs) (old_versions dir target s);
             slots = max 0 (n - 1)
         in filter (\<lambda>x. x \<notin> set vs) (old_versions dir target s) @
            (if int (length tracked) \<le> slots then []
             else take (nat (int (length tracked) - slots)) (sortByLastUpdated tracked st (last dir)))))"

lemma evict_all_append: "evict_all flt d (xs @ ys) s = evict_all flt d ys (evict_all flt d xs s)"
  by (simp add: evict_all_def)

lemma evictOldVersions_eq:
  assumes "go_get s dir = Some Dir"
  shows "evictOldVersions no_faults dir target n state s =
    evict_all no_faults dir (evicted dir target n state s) s"
  using fs_ReadDir_Dir[OF assms]
  by (auto simp: evictOldVersions_def evicted_def old_versions_def Let_def evict_all_append evict_all_def[of _ _ "[]"]
      split: option.splits)

lemma evicted_subset: "set (evicted dir target n state s) \<subseteq> set (old_versions dir target s)"
  by (auto simp: evicted_def Let_def sortByLastUpdated_def split: option.splits if_splits dest!: in_set_takeD)

lemma set_old_versions:
  "go_wf s \<Longrightarrow> x \<in> set (old_versions dir target s) \<longleftrightarrow>
     go_get s (dir @ [x]) = Some Dir \<and> \<not> HasPrefix x ''.'' \<and> x \<noteq> target"
  using fs_children_mem[of s x Dir dir] by (force simp: old_versions_def evict_candidates_def)

lemma old_versions_plain: "fs_abs s \<Longrightarrow> list_all plain_comp (old_versions dir target s)"
  unfolding old_versions_def using fs_children_plain[of s dir]
  by (intro evict_candidates_plain) (simp add: list_all_iff)

lemma old_versions_distinct:
  assumes "go_wf s"
  shows "distinct (old_versions dir target s)"
proof -
  have "distinct (map fst (sort_key fst (fs_children dir s)))"
    using fs_children_distinct[OF assms, of dir] by (metis distinct_sort distinct_map set_sort)
  then show ?thesis unfolding old_versions_def evict_candidates_def by (meson distinct_map_filter)
qed

lemma evicted_plain: "fs_abs s \<Longrightarrow> list_all plain_comp (evicted dir target n state s)"
  using evicted_subset[of dir target n state s] old_versions_plain[of s dir target]
  by (auto simp: list_all_iff)

lemma old_versions_after:
  assumes "fs_abs s" "abs_path dir" "go_get s dir = Some Dir"
  shows "old_versions dir target (evictOldVersions no_faults dir target n state s) =
    filter (\<lambda>x. x \<notin> set (evicted dir target n state s)) (old_versions dir target s)"
  unfolding evictOldVersions_eq[OF assms(3)] old_versions_def
    fs_children_evict[OF assms(2) evicted_plain[OF assms(1)]]
  by (simp add: filter_sort[symmetric] evict_candidates_filter)

lemma filter_take_length:
  assumes "distinct xs" "mset ys = mset xs" "k \<le> length xs"
  shows "length (filter (\<lambda>x. x \<notin> set (take k ys)) xs) = length xs - k"
proof -
  have d: "distinct ys" using assms by (metis mset_eq_imp_distinct_iff)
  have "mset (filter (\<lambda>x. x \<notin> set (take k ys)) xs) = mset (filter (\<lambda>x. x \<notin> set (take k ys)) ys)"
    using assms(2) by (simp add: mset_filter)
  also have "filter (\<lambda>x. x \<notin> set (take k ys)) ys =
      filter (\<lambda>x. x \<notin> set (take k ys)) (take k ys) @ filter (\<lambda>x. x \<notin> set (take k ys)) (drop k ys)"
    by (metis append_take_drop_id filter_append)
  also have "filter (\<lambda>x. x \<notin> set (take k ys)) (take k ys) = []" by (simp add: filter_empty_conv)
  also have "filter (\<lambda>x. x \<notin> set (take k ys)) (drop k ys) = drop k ys"
    using set_take_disj_set_drop_if_distinct[OF d, of k k] by (intro filter_True) auto
  finally have "size (mset (filter (\<lambda>x. x \<notin> set (take k ys)) xs)) = size (mset ([] @ drop k ys))" by simp
  moreover have "length ys = length xs" using assms(2) by (metis size_mset)
  ultimately show ?thesis by (metis append_Nil length_drop size_mset)
qed

lemma evict_bound:
  assumes "fs_ok s" "abs_path dir" "go_get s dir = Some Dir" "1 \<le> n"
  shows "int (length (old_versions dir target (evictOldVersions no_faults dir target n state s))) \<le> n - 1"
proof -
  have a: "fs_abs s" and w: "go_wf s" using assms(1) by (simp_all add: fs_ok_def)
  show ?thesis
proof (cases state)
  case None
  then show ?thesis
    using assms(1,4) unfolding old_versions_after[OF a assms(2,3)] by (simp add: evicted_def)
next
  case (Some st)
  define vs where "vs = buildTrackedVersionSet st (last dir)"
  define tr where "tr = filter (\<lambda>x. x \<in> set vs) (old_versions dir target s)"
  define srt where "srt = sortByLastUpdated tr st (last dir)"
  define k where "k = (if int (length tr) \<le> n - 1 then 0 else nat (int (length tr) - (n - 1)))"
  have ev: "evicted dir target n state s =
      filter (\<lambda>x. x \<notin> set vs) (old_versions dir target s) @ take k srt"
    using Some assms(4) by (auto simp: evicted_def vs_def tr_def srt_def k_def Let_def)
  have "filter (\<lambda>x. x \<notin> set (evicted dir target n state s)) (old_versions dir target s) =
      filter (\<lambda>x. x \<notin> set (take k srt)) tr"
    unfolding ev tr_def by (auto simp: filter_filter intro!: filter_cong)
  moreover have "length (filter (\<lambda>x. x \<notin> set (take k srt)) tr) = length tr - k"
    using old_versions_distinct[OF w, of dir target]
    by (intro filter_take_length) (use assms(4) in \<open>auto simp: tr_def srt_def sortByLastUpdated_def k_def\<close>)
  ultimately show ?thesis
    unfolding old_versions_after[OF a assms(2,3)] using assms(4) by (auto simp: k_def)
qed
qed

lemma evict_keeps_tracked:
  assumes "fs_abs s" "abs_path dir" "go_get s dir = Some Dir"
  shows "set (old_versions dir target (evictOldVersions no_faults dir target n (Some st) s)) \<subseteq>
    set (buildTrackedVersionSet st (last dir))"
  unfolding old_versions_after[OF assms] by (auto simp: evicted_def Let_def)

text \<open>Eviction touches only competing version directories.\<close>

lemma evict_all_keeps:
  assumes "abs_path dir" "\<forall>n \<in> set names. plain_comp n \<and> \<not> under (dir @ [n]) q"
  shows "go_get (evict_all flt dir names s) q = go_get s q"
  using assms by (auto simp: evict_all_get)

lemma evictOldVersions_keeps:
  assumes "fs_abs s" "abs_path dir"
    and "\<forall>x. x \<in> set (old_versions dir target s) \<longrightarrow> \<not> under (dir @ [x]) q"
  shows "go_get (evictOldVersions flt dir target n state s) q = go_get s q"
proof (cases "fs_ReadDir flt dir s")
  case (Entries es)
  then have es: "es = sort_key fst (fs_children dir s)"
    by (auto simp: fs_ReadDir_def split: if_splits option.splits node.splits)
  have c: "evict_candidates target es = old_versions dir target s" by (simp add: es old_versions_def)
  have p: "\<forall>x \<in> set (old_versions dir target s). plain_comp x \<and> \<not> under (dir @ [x]) q"
    using assms(3) old_versions_plain[OF assms(1), of dir target] by (auto simp: list_all_iff)
  have k: "go_get (evict_all flt dir xs s') q = go_get s' q" if "set xs \<subseteq> set (old_versions dir target s)" for xs s'
    using evict_all_keeps[OF assms(2)] p that by blast
  have srt: "set (take m (sortByLastUpdated xs st ev)) \<subseteq> set xs" for m xs st ev
    by (auto simp: sortByLastUpdated_def dest!: in_set_takeD)
  show ?thesis
  proof (cases state)
    case None
    then show ?thesis using k by (simp add: evictOldVersions_def Entries c)
  next
    case (Some st)
    define vs where "vs = buildTrackedVersionSet st (last dir)"
    define tr where "tr = filter (\<lambda>x. x \<in> set vs) (old_versions dir target s)"
    define orp where "orp = filter (\<lambda>x. x \<notin> set vs) (old_versions dir target s)"
    have "evictOldVersions flt dir target n state s =
      (if int (length tr) \<le> max 0 (n - 1) then evict_all flt dir orp s
       else evict_all flt dir (take (nat (int (length tr) - max 0 (n - 1))) (sortByLastUpdated tr st (last dir)))
              (evict_all flt dir orp s))"
      by (simp add: evictOldVersions_def Entries c Some Let_def vs_def tr_def orp_def)
    moreover have "set orp \<subseteq> set (old_versions dir target s)" by (auto simp: orp_def)
    moreover have "set (take m (sortByLastUpdated tr st (last dir))) \<subseteq> set (old_versions dir target s)" for m
      using srt[of m tr st "last dir"] by (auto simp: tr_def)
    ultimately show ?thesis using k by simp
  qed
qed (simp_all add: evictOldVersions_def)

section \<open>Storing and looking up\<close>

lemma plain_names [simp]: "plain_comp ComplypacksSubdir" "plain_comp complypackContentFile"
  "plain_comp complypackConfigFile" "complypackContentFile \<noteq> complypackConfigFile"
  "complypackConfigFile \<noteq> complypackContentFile"
  by (simp_all add: plain_comp_def ComplypacksSubdir_def complypackContentFile_def complypackConfigFile_def)

lemma complypackDir_plain:
  "abs_path (ccDir c) \<Longrightarrow> plain_comp ev \<Longrightarrow> plain_comp ver \<Longrightarrow>
   complypackDir c ev ver = ccDir c @ [ComplypacksSubdir, ev] @ [ver]"
  by (simp add: complypackDir_def)

lemma fs_abs_put [simp]: "abs_path k \<Longrightarrow> fs_abs s \<Longrightarrow> fs_abs (go_put k v s)"
  by (simp add: fs_abs_def list_all_iff)

lemma fs_abs_filter [intro]: "fs_abs s \<Longrightarrow> fs_abs (filter P s)"
  by (auto simp: fs_abs_def list_all_iff go_keys_def)

lemma fs_abs_MkdirAll:
  assumes "abs_path p" "fs_abs s"
  shows "fs_abs (fst (fs_MkdirAll flt p s))"
proof -
  have "fs_abs (foldl (\<lambda>s q. if go_has s q then s else go_put q Dir s) s ps)"
    if "\<forall>q \<in> set ps. abs_path q" "fs_abs s" for ps s
    using that by (induction ps arbitrary: s) auto
  moreover have "\<forall>q \<in> set (path_prefixes p). abs_path q"
    using assms(1) by (auto simp: path_prefixes_def list_all_iff dest: in_set_takeD)
  ultimately show ?thesis using assms(2) by (auto simp: fs_MkdirAll_def)
qed

lemma fs_abs_Rename:
  assumes "abs_path b" "fs_abs s"
  shows "fs_abs (fst (fs_Rename flt a b s))"
proof -
  have "abs_path (move_path a b q)" if "abs_path q" for q
    using that assms(1) by (auto simp: move_path_def list_all_iff dest: in_set_dropD)
  then show ?thesis using assms(2)
    by (auto simp: fs_Rename_def fs_abs_def list_all_iff go_keys_def split: if_splits)
qed

definition pack_tmp :: "string \<Rightarrow> string" where
  "pack_tmp rnd = ''.complypack-tmp-'' @ rnd"

text \<open>A cache directory ready for a store: plain names, a usable parent and a free temporary name.\<close>

definition store_ready :: "string \<Rightarrow> ComplypackCache \<Rightarrow> PackConfig \<Rightarrow> fs \<Rightarrow> bool" where
  "store_ready rnd c cfg s \<longleftrightarrow>
    (let parent = ccDir c @ [ComplypacksSubdir, pcEvaluatorID cfg] in
     abs_path (ccDir c) \<and> fs_abs s \<and> CHR ''/'' \<notin> set rnd \<and>
     ValidatePathComponent (pcEvaluatorID cfg) = None \<and> pcEvaluatorID cfg \<noteq> ''.'' \<and>
     ValidatePathComponent (pcVersion cfg) = None \<and> pcVersion cfg \<noteq> ''.'' \<and> pcVersion cfg \<noteq> pack_tmp rnd \<and>
     list_all (\<lambda>q. \<not> is_file (go_get s q)) (path_prefixes parent) \<and>
     list_all (\<lambda>q. \<not> under (parent @ [pack_tmp rnd]) q) (go_keys s))"

lemma fresh_get:
  "list_all (\<lambda>q. \<not> under t q) (go_keys s) \<Longrightarrow> under t q \<Longrightarrow> go_get s q = None"
  by (auto simp: list_all_iff go_keys_def go_get_def map_of_eq_None_iff)

text \<open>The file system just before the final rename, and the rename itself.\<close>

definition staged :: "path \<Rightarrow> path \<Rightarrow> path \<Rightarrow> PackConfig \<Rightarrow> string \<Rightarrow> fs \<Rightarrow> fs" where
  "staged parent tmp final cfg content s =
    (let s1 = fst (fs_MkdirAll no_faults parent s);
         s2 = go_put tmp Dir s1;
         s3 = go_put (tmp @ [complypackContentFile]) (File (Raw [])) s2;
         s4 = go_put (tmp @ [complypackContentFile]) (File (Raw content)) s3;
         s5 = go_put (tmp @ [complypackConfigFile]) (File (PackDoc cfg)) s4
     in fst (fs_RemoveAll no_faults final s5))"

lemma staged_get:
  assumes "t \<noteq> v" "snd (fs_MkdirAll no_faults p s)"
  shows "go_get (staged p (p @ [t]) (p @ [v]) cfg content s) q =
    (if under (p @ [v]) q then None
     else if q = p @ [t, complypackConfigFile] then Some (File (PackDoc cfg))
     else if q = p @ [t, complypackContentFile] then Some (File (Raw content))
     else if q = p @ [t] then Some Dir
     else if go_get s q = None \<and> q \<noteq> [] \<and> under q p then Some Dir else go_get s q)"
  using assms by (auto simp: staged_def Let_def fs_simps)

lemma Store_staged:
  fixes content :: string
  assumes "store_ready rnd c cfg s"
  defines "p \<equiv> ccDir c @ [ComplypacksSubdir, pcEvaluatorID cfg]" and "t \<equiv> pack_tmp rnd" and "v \<equiv> pcVersion cfg"
  defines "s6 \<equiv> staged p (p @ [t]) (p @ [v]) cfg content s"
  shows "Store no_faults rnd c cfg content s =
      (evictOldVersions no_faults p v (ccRetention c) (ccState c) (fst (fs_Rename no_faults (p @ [t]) (p @ [v]) s6)),
       Inr (p @ [v, complypackContentFile]))"
    "snd (fs_Rename no_faults (p @ [t]) (p @ [v]) s6)" "snd (fs_MkdirAll no_faults p s)"
proof -
  have pl: "plain_comp (pcEvaluatorID cfg)" "plain_comp v" and abs: "abs_path (ccDir c)"
    and ne: "v \<noteq> t" "t \<noteq> v" and val: "ValidatePathComponent (pcEvaluatorID cfg) = None" "ValidatePathComponent v = None"
    using assms(1) ValidatePathComponent_plain unfolding store_ready_def Let_def v_def t_def by auto
  have plt: "plain_comp t" using assms(1) by (auto simp: store_ready_def Let_def t_def pack_tmp_def plain_comp_def)
  have absp: "abs_path p" using abs pl by (simp add: p_def)
  have fresh: "under (p @ [t]) q \<Longrightarrow> go_get s q = None" for q
    using assms(1) fresh_get unfolding store_ready_def Let_def p_def t_def by blast
  show mk: "snd (fs_MkdirAll no_faults p s)"
    using assms(1) by (auto simp: store_ready_def Let_def fs_MkdirAll_def p_def list_ex_iff list_all_iff)
  obtain s1 where s1: "fs_MkdirAll no_faults p s = (s1, True)" using mk by (metis prod.collapse)
  have g1: "go_get s1 q = (if go_get s q = None \<and> q \<noteq> [] \<and> under q p then Some Dir else go_get s q)" for q
    using fs_MkdirAll_get[of no_faults p s q] s1 by simp
  have nf: "\<not> is_file (go_get s p)"
    using assms(1) path_prefixes_set[of p p] by (auto simp: store_ready_def Let_def list_all_iff p_def)
  have n1: "go_get s1 (p @ t # r) = None" for r using g1[of "p @ t # r"] fresh[of "p @ t # r"] by simp
  have pne: "p \<noteq> []" by (simp add: p_def)
  show rn: "snd (fs_Rename no_faults (p @ [t]) (p @ [v]) s6)"
    using staged_get[OF ne(2) mk, of cfg content] nf pne
    by (cases "go_get s p" rule: is_file.cases)
       (auto simp: fs_Rename_def go_has_get s6_def p_def[symmetric] ne simp del: go_has_keys)
  show "Store no_faults rnd c cfg content s =
      (evictOldVersions no_faults p v (ccRetention c) (ccState c) (fst (fs_Rename no_faults (p @ [t]) (p @ [v]) s6)),
       Inr (p @ [v, complypackContentFile]))"
  proof -
    let ?T = "p @ [t]"
    have dir: "complypackDir c (pcEvaluatorID cfg) (pcVersion cfg) = p @ [v]"
      using abs pl by (simp add: complypackDir_plain p_def v_def)
    have jT: "fp_join ?T [complypackContentFile] = p @ [t, complypackContentFile]"
      "fp_join ?T [complypackConfigFile] = p @ [t, complypackConfigFile]"
      "fp_join (p @ [v]) [complypackContentFile] = p @ [v, complypackContentFile]"
      using absp plt pl by simp_all
    have o2: "fs_MkdirTemp no_faults p (''.complypack-tmp-'' @ rnd) s1 = (go_put ?T Dir s1, Some ?T)"
      using n1[of "[]"] by (simp add: fs_MkdirTemp_def Let_def go_has_get t_def pack_tmp_def del: go_has_keys)
    let ?s2 = "go_put ?T Dir s1"
    have o3: "fs_OpenExcl no_faults (p @ [t, complypackContentFile]) ?s2 =
        (go_put (p @ [t, complypackContentFile]) (File (Raw [])) ?s2, True)"
      using n1[of "[complypackContentFile]"]
      by (simp add: fs_OpenExcl_def go_has_get butlast_append del: go_has_keys)
    let ?s4 = "go_put (p @ [t, complypackContentFile]) (File (Raw content))
        (go_put (p @ [t, complypackContentFile]) (File (Raw [])) ?s2)"
    have o5: "fs_WriteFile no_faults (p @ [t, complypackConfigFile]) (PackDoc cfg) ?s4 =
        (go_put (p @ [t, complypackConfigFile]) (File (PackDoc cfg)) ?s4, True)"
      using n1[of "[complypackConfigFile]"]
      by (simp add: fs_WriteFile_def fs_Write_def butlast_append)
    have o6: "fs_RemoveAll no_faults (p @ [v]) (go_put (p @ [t, complypackConfigFile]) (File (PackDoc cfg)) ?s4) = (s6, True)"
      by (simp add: s6_def staged_def s1 Let_def fs_RemoveAll_def)
    obtain s7 where o7: "fs_Rename no_faults ?T (p @ [v]) s6 = (s7, True)"
      using rn by (metis prod.collapse)
    show ?thesis
      unfolding Store_def val[unfolded v_def] option.case Let_def dir
      by (simp add: s1 o2[simplified] o3 o5 o6 o7 jT fs_Write_def v_def[symmetric] butlast_append)
  qed
qed

lemma Store_result:
  fixes content :: string
  assumes "store_ready rnd c cfg s"
  defines "p \<equiv> ccDir c @ [ComplypacksSubdir, pcEvaluatorID cfg]"
  shows "go_get (fst (Store no_faults rnd c cfg content s)) (p @ [pcVersion cfg, complypackContentFile]) = Some (File (Raw content))"
    "go_get (fst (Store no_faults rnd c cfg content s)) (p @ [pcVersion cfg, complypackConfigFile]) = Some (File (PackDoc cfg))"
    "snd (Store no_faults rnd c cfg content s) = Inr (p @ [pcVersion cfg, complypackContentFile])"
proof -
  let ?t = "pack_tmp rnd" and ?v = "pcVersion cfg"
  let ?s6 = "staged p (p @ [?t]) (p @ [?v]) cfg content s"
  let ?s7 = "fst (fs_Rename no_faults (p @ [?t]) (p @ [?v]) ?s6)"
  note st = Store_staged(1,2)[OF assms(1), where content = content, folded p_def] Store_staged(3)[OF assms(1), folded p_def]
  have pl: "plain_comp (pcEvaluatorID cfg)" "plain_comp ?v" and abs: "abs_path (ccDir c)" "fs_abs s"
    and ne: "?v \<noteq> ?t" "?t \<noteq> ?v"
    using assms(1) ValidatePathComponent_plain unfolding store_ready_def Let_def by auto
  have plt: "plain_comp ?t" using assms(1) by (auto simp: store_ready_def Let_def pack_tmp_def plain_comp_def)
  have absp: "abs_path p" using abs pl by (simp add: p_def)
  have a7: "fs_abs ?s7"
    using fs_abs_MkdirAll[OF absp abs(2), of no_faults] absp pl plt
    by (intro fs_abs_Rename) (auto simp: staged_def Let_def fs_RemoveAll_def intro!: fs_abs_filter fs_abs_put)
  have g7: "go_get ?s7 (p @ [?v, f]) = go_get ?s6 (p @ [?t, f])" for f
    using fs_Rename_get[OF st(2), of "p @ [?v, f]"] ne by (simp add: under_iff)
  have keep: "go_get (fst (Store no_faults rnd c cfg content s)) (p @ [?v, f]) = go_get ?s7 (p @ [?v, f])" for f
    unfolding st(1) fst_conv
    by (rule evictOldVersions_keeps[OF a7 absp]) (auto simp: old_versions_def evict_candidates_def)
  show "go_get (fst (Store no_faults rnd c cfg content s)) (p @ [?v, complypackContentFile]) = Some (File (Raw content))"
    "go_get (fst (Store no_faults rnd c cfg content s)) (p @ [?v, complypackConfigFile]) = Some (File (PackDoc cfg))"
    using keep g7 staged_get[OF ne(2) st(3), of cfg content] ne by simp_all
  show "snd (Store no_faults rnd c cfg content s) = Inr (p @ [?v, complypackContentFile])"
    by (simp add: st(1))
qed

text \<open>
  Property C12. Storing a complypack and looking it up again is a round trip: from any prepared
  file system (whatever versions it holds) a fault-free \<^verbatim>\<open>Store\<close> returns the path of the content,
  the file there is the content, and \<^verbatim>\<open>Lookup\<close> of the evaluator and version of the configuration
  returns that path with that configuration; eviction never removes the version just stored.
\<close>

theorem Store_Lookup:
  assumes "store_ready rnd c cfg s"
  shows "case Store no_faults rnd c cfg content s of (s', r) \<Rightarrow>
    \<exists>path. r = Inr path \<and> go_get s' path = Some (File (Raw content)) \<and>
      Lookup no_faults c (pcEvaluatorID cfg) (pcVersion cfg) s' = Inr (path, cfg)"
proof -
  let ?s = "fst (Store no_faults rnd c cfg content s)"
  let ?p = "ccDir c @ [ComplypacksSubdir, pcEvaluatorID cfg]"
  note r = Store_result[OF assms, of content]
  have pl: "plain_comp (pcEvaluatorID cfg)" "plain_comp (pcVersion cfg)" and abs: "abs_path (ccDir c)"
    and v: "ValidatePathComponent (pcEvaluatorID cfg) = None" "ValidatePathComponent (pcVersion cfg) = None"
    using assms ValidatePathComponent_plain unfolding store_ready_def Let_def by auto
  have "Lookup no_faults c (pcEvaluatorID cfg) (pcVersion cfg) ?s =
      Inr (?p @ [pcVersion cfg, complypackContentFile], cfg)"
    using abs pl v r(1,2)
    by (simp add: Lookup_def Let_def complypackDir_plain fs_exists_def fs_ReadFile_def go_has_get del: go_has_keys)
  with r show ?thesis by (cases "Store no_faults rnd c cfg content s") auto
qed

definition demo_cache :: ComplypackCache where
  "demo_cache = \<lparr>ccDir = [''c''], ccState = None, ccRetention = 1\<rparr>"

definition demo_pack :: PackConfig where
  "demo_pack = \<lparr>pcID = ''io.x'', pcEvaluatorID = ''opa'', pcVersion = ''1.0''\<rparr>"

definition demo_fs :: fs where
  "demo_fs = [([''c''], Dir), ([''c'', ''complypacks''], Dir), ([''c'', ''complypacks'', ''opa''], Dir),
     ([''c'', ''complypacks'', ''opa'', ''0.9''], Dir),
     ([''c'', ''complypacks'', ''opa'', ''0.9'', ''content.tar.gz''], File (Raw ''old'')),
     ([''c'', ''complypacks'', ''xccdf''], Dir), ([''c'', ''complypacks'', ''xccdf'', ''2.0''], Dir)]"

theorem Store_Lookup_witness:
  "case Store no_faults ''1'' demo_cache demo_pack ''tgz'' demo_fs of (s', r) \<Rightarrow>
    \<exists>path. r = Inr path \<and> go_get s' path = Some (File (Raw ''tgz'')) \<and>
      Lookup no_faults demo_cache (pcEvaluatorID demo_pack) (pcVersion demo_pack) s' = Inr (path, demo_pack)"
proof -
  have "store_ready ''1'' demo_cache demo_pack demo_fs" by code_simp
  then show ?thesis by (rule Store_Lookup)
qed

text \<open>The version directory a state points to wins over any other version on disk.\<close>

lemma LookupByEvaluatorID_uses_state:
  assumes "ccState c = Some st" "EvaluatorIDToVersion (Some st) ev = Inr (Some v)"
    and "Lookup flt c ev v s = Inr r"
  shows "LookupByEvaluatorID flt c ev s = Inr (Some r)"
proof -
  have "ValidatePathComponent ev = None" using assms(3) by (auto simp: Lookup_def split: option.splits)
  then show ?thesis using assms by (simp add: LookupByEvaluatorID_def)
qed

section \<open>Failures of a store\<close>

lemma fs_OpenExcl_get: "q \<noteq> p \<Longrightarrow> go_get (fst (fs_OpenExcl flt p s)) q = go_get s q"
  by (auto simp: fs_OpenExcl_def)

lemma fs_WriteFile_get: "q \<noteq> p \<Longrightarrow> go_get (fst (fs_WriteFile flt p d s)) q = go_get s q"
  by (auto simp: fs_WriteFile_def fs_Write_def)

text \<open>
  Two file systems agree outside a set of paths. Every operation of a store keeps what is outside
  the temporary directory, the target directory and the chain of parent directories.
\<close>

definition agree_outside :: "(path \<Rightarrow> bool) \<Rightarrow> fs \<Rightarrow> fs \<Rightarrow> bool" where
  "agree_outside A s s' \<longleftrightarrow> (\<forall>q. \<not> A q \<longrightarrow> go_get s' q = go_get s q)"

lemma agree_refl [simp]: "agree_outside A s s"
  by (simp add: agree_outside_def)

lemma agree_trans: "agree_outside A s s' \<Longrightarrow> agree_outside A s' s'' \<Longrightarrow> agree_outside A s s''"
  by (simp add: agree_outside_def)

lemma agree_ops:
  "(\<And>q. under q p \<Longrightarrow> A q) \<Longrightarrow> agree_outside A s (fst (fs_MkdirAll flt p s))"
  "A (p @ [n]) \<Longrightarrow> agree_outside A s (fst (fs_MkdirTemp flt p n s))"
  "A p \<Longrightarrow> agree_outside A s (fst (fs_OpenExcl flt p s))"
  "A p \<Longrightarrow> agree_outside A s (fst (fs_Write flt p d s))"
  "A p \<Longrightarrow> agree_outside A s (fst (fs_WriteFile flt p d s))"
  "(\<And>q. under p q \<Longrightarrow> A q) \<Longrightarrow> agree_outside A s (fst (fs_RemoveAll flt p s))"
  "\<not> snd (fs_Rename flt a b s) \<Longrightarrow> agree_outside A s (fst (fs_Rename flt a b s))"
  by (auto simp: agree_outside_def fs_simps fs_MkdirTemp_def fs_OpenExcl_def fs_WriteFile_def fs_Write_def
      fs_Rename_fail Let_def)

lemma agree_RemoveAll_fail: "\<not> snd (fs_RemoveAll flt p s) \<Longrightarrow> agree_outside A s (fst (fs_RemoveAll flt p s))"
  by (auto simp: fs_RemoveAll_def split: if_splits)

lemma MkdirTemp_Some: "fs_MkdirTemp flt p n s = (s', Some t) \<Longrightarrow> t = p @ [n]"
  by (auto simp: fs_MkdirTemp_def Let_def split: if_splits)

lemma Store_failure_frame:
  assumes ab: "abs_path (ccDir c)" "plain_comp (pcEvaluatorID cfg)" "plain_comp (pcVersion cfg)" "CHR ''/'' \<notin> set rnd"
    and err: "Store flt rnd c cfg content s = (s', Inl e)"
  defines "p \<equiv> ccDir c @ [ComplypacksSubdir, pcEvaluatorID cfg]"
  shows "agree_outside (\<lambda>q. under (p @ [pack_tmp rnd]) q \<or> under q p \<or>
      (e = CPackRename (p @ [pcVersion cfg]) \<and> under (p @ [pcVersion cfg]) q)) s s'"
    (is "agree_outside ?A s s'")
proof -
  let ?F = "p @ [pcVersion cfg]" and ?T = "p @ [pack_tmp rnd]"
  have F: "complypackDir c (pcEvaluatorID cfg) (pcVersion cfg) = ?F"
    using ab by (simp add: complypackDir_plain p_def)
  have T: "fp_join ?T [f] = ?T @ [f]" if "plain_comp f" for f
    using ab that plain_names(1) by (intro fp_join_plain) (simp_all add: p_def pack_tmp_def plain_comp_def)
  obtain s1 b1 where m: "fs_MkdirAll flt p s = (s1, b1)" by fastforce
  have a1: "agree_outside ?A s s1" using agree_ops(1)[of p ?A s flt] m by auto
  obtain s2 t where mt: "fs_MkdirTemp flt p (pack_tmp rnd) s1 = (s2, t)" by fastforce
  have a2: "agree_outside ?A s s2"
    using agree_trans[OF a1] agree_ops(2)[of ?A p "pack_tmp rnd" s1 flt] mt by auto
  show ?thesis
  proof (cases "ValidatePathComponent (pcEvaluatorID cfg) = None \<and> ValidatePathComponent (pcVersion cfg) = None
      \<and> b1 \<and> t \<noteq> None")
    case False
    then show ?thesis
      using err a1 a2 m mt unfolding Store_def Let_def F pack_tmp_def[symmetric]
      by (auto simp: p_def[symmetric] split: option.splits bool.splits)
  next
    case True
    then have t: "t = Some ?T" using MkdirTemp_Some mt by fastforce
    let ?c = "?T @ [complypackContentFile]" and ?g = "?T @ [complypackConfigFile]"
    obtain s3 b3 where o3: "fs_OpenExcl flt ?c s2 = (s3, b3)" by fastforce
    obtain s4 b4 where o4: "fs_Write flt ?c (Raw content) s3 = (s4, b4)" by fastforce
    obtain s5 b5 where o5: "fs_WriteFile flt ?g (PackDoc cfg) s4 = (s5, b5)" by fastforce
    obtain s6 b6 where o6: "fs_RemoveAll flt ?F s5 = (s6, b6)" by fastforce
    obtain s7 b7 where o7: "fs_Rename flt ?T ?F s6 = (s7, b7)" by fastforce
    have uT: "?A (?T @ x)" for x by simp
    have a3: "agree_outside ?A s s3" using agree_trans[OF a2] agree_ops(3)[of ?A ?c s2 flt] o3 uT by simp
    have a4: "agree_outside ?A s s4" using agree_trans[OF a3] agree_ops(4)[where A = ?A and p = ?c and s = s3 and flt = flt and d = "Raw content"] o4 uT by simp
    have a5: "agree_outside ?A s s5" using agree_trans[OF a4] agree_ops(5)[where A = ?A and p = ?g and s = s4 and flt = flt and d = "PackDoc cfg"] o5 uT by simp
    have cl: "agree_outside ?A s x \<Longrightarrow> agree_outside ?A s (fst (fs_RemoveAll flt ?T x))" for x
      using agree_trans[of ?A s x] agree_ops(6)[of ?T ?A x flt] by blast
    have a6: "\<not> b6 \<Longrightarrow> agree_outside ?A s s6"
      using agree_trans[OF a5] agree_RemoveAll_fail[of flt ?F s5 ?A] o6 by simp
    have a6': "e = CPackRename ?F \<Longrightarrow> agree_outside ?A s s6"
      using agree_trans[OF a5] agree_ops(6)[of ?F ?A s5 flt] o6 by simp
    have a7: "\<not> b7 \<Longrightarrow> s7 = s6" using fs_Rename_fail[of flt ?T ?F s6] o7 by simp
    show ?thesis
      using err True m mt t o3 o4 o5 o6 o7 cl[OF a3] cl[OF a4] cl[OF a5] cl a6 a6' a7
      unfolding Store_def Let_def F pack_tmp_def[symmetric]
      by (auto simp: T p_def[symmetric] split: if_splits bool.splits)
  qed
qed

section \<open>Properties of the cache\<close>

text \<open>
  Property C19. An accepted evaluator ID or version never leads out of the directory it is joined
  to: the result is a direct child, or, for the single value \<^verbatim>\<open>.\<close>, the directory itself.
\<close>

theorem ValidatePathComponent_contained:
  assumes "abs_path base" "ValidatePathComponent v = None"
  shows "fp_join base [v] = (if v = ''.'' then base else base @ [v])"
  by (rule fp_join_valid[OF assms])

theorem ValidatePathComponent_contained_witness:
  "fp_join [''c''] [''1.0-rc.1''] = [''c'', ''1.0-rc.1'']"
proof -
  have a: "abs_path [''c'']" by (simp add: plain_comp_def)
  have v: "ValidatePathComponent ''1.0-rc.1'' = None" by code_simp
  show ?thesis using ValidatePathComponent_contained[OF a v] by simp
qed




text \<open>
  Eviction enforces the retention count: without faults at most \<^verbatim>\<open>retentionCount - 1\<close>
  version directories remain beside the target, whatever the directory held.
\<close>

theorem evictOldVersions_bound:
  assumes "fs_ok s" "abs_path dir" "go_get s dir = Some Dir" "1 \<le> n"
  shows "int (length (old_versions dir target (evictOldVersions no_faults dir target n state s))) \<le> n - 1"
  by (rule evict_bound[OF assms])

theorem evictOldVersions_bound_witness:
  "int (length (old_versions [''c'', ''complypacks'', ''opa''] ''1.0''
     (evictOldVersions no_faults [''c'', ''complypacks'', ''opa''] ''1.0'' 1 None demo_fs))) \<le> 1 - 1"
proof -
  have "fs_ok demo_fs" "abs_path [''c'', ''complypacks'', ''opa'']"
    "go_get demo_fs [''c'', ''complypacks'', ''opa''] = Some Dir" by code_simp+
  then show ?thesis using evictOldVersions_bound[of demo_fs "[''c'', ''complypacks'', ''opa'']" 1] by simp
qed

text \<open>
  Property C21. With a sync state the retention count is not what limits the cache: the state knows
  one version per repository, so for an evaluator with a single repository at most one version
  remains beside the target, however large \<^verbatim>\<open>COMPLYTIME_CACHE_VERSIONS\<close> is.
\<close>

theorem retention_capped_by_state:
  assumes "fs_ok s" "abs_path dir" "go_get s dir = Some Dir"
    and "EvaluatorIDToVersion (Some st) (last dir) = Inr x"
  shows "length (old_versions dir target (evictOldVersions no_faults dir target n (Some st) s)) \<le> 1"
proof -
  have fa: "fs_abs s" and w: "go_wf s" using assms(1) by (simp_all add: fs_ok_def)
  let ?after = "old_versions dir target (evictOldVersions no_faults dir target n (Some st) s)"
  have "distinct ?after"
    unfolding old_versions_after[OF fa assms(2,3)] using old_versions_distinct[OF w] by simp
  moreover have "set ?after \<subseteq> set (buildTrackedVersionSet st (last dir))"
    by (rule evict_keeps_tracked[OF fa assms(2,3)])
  moreover have "length (buildTrackedVersionSet st (last dir)) \<le> 1"
  proof -
    let ?f = "filter (\<lambda>(k, ps). psEvaluatorID ps = last dir) (stComplypacks st)"
    have "EvaluatorIDToVersion (Some st) (last dir) = ev_loop (last dir) None (stComplypacks st)"
      by (simp add: EvaluatorIDToVersion_def)
    then have "length ?f \<le> 1" using assms(4) by (auto simp: ev_loop_spec split: list.splits)
    moreover have "length (buildTrackedVersionSet st (last dir)) \<le> length ?f"
      unfolding buildTrackedVersionSet_def length_map
      by (rule order_trans[OF eq_refl length_filter_le[where P = "\<lambda>(k, ps). psVersion ps \<noteq> []"]])
         (auto simp: filter_filter case_prod_beta intro!: arg_cong[of _ _ length] filter_cong)
    ultimately show ?thesis by simp
  qed
  ultimately show ?thesis
    by (metis card_length card_mono distinct_card finite_set order_trans)
qed

definition demo_pack_state :: State where
  "demo_pack_state = empty_state\<lparr>stComplypacks := [(''r/opa'', fresh_entry 1 ''0.9'' [] ''opa'' None)]\<rparr>"

theorem retention_capped_by_state_witness:
  "length (old_versions [''c'', ''complypacks'', ''opa''] ''1.0''
     (evictOldVersions no_faults [''c'', ''complypacks'', ''opa''] ''1.0'' 10 (Some demo_pack_state) demo_fs)) \<le> 1"
proof -
  have "fs_ok demo_fs" "abs_path [''c'', ''complypacks'', ''opa'']"
    "go_get demo_fs [''c'', ''complypacks'', ''opa''] = Some Dir"
    "EvaluatorIDToVersion (Some demo_pack_state) (last [''c'', ''complypacks'', ''opa'']) = Inr (Some ''0.9'')"
    by code_simp+
  then show ?thesis by (rule retention_capped_by_state)
qed

end
