(* ===== verification/Sync.thy ===== *)
theory Sync
  imports Policy_Store Complypack_Cache
begin

text \<open>
  Incremental synchronisation of policies (\<^verbatim>\<open>internal/cache/sync.go\<close>) and of complypacks
  (\<^verbatim>\<open>complypack_sync.go\<close>, \<^verbatim>\<open>complypack_source.go\<close>). The world is the in-memory state with the file
  system. The registry (resolving a reference, copying an artifact), the signature verifier and
  the unpacking of a complypack are parameters; what the properties assume of a copy is stated
  with them.
\<close>

section \<open>Errors and parameters\<close>

datatype sync_err =
    YPolicyEmpty
  | YPackEmpty
  | YHostRequired string
  | YRegistry string reg_err
  | YUnreachable string reg_err
  | YVerify string string
  | YOpenStore string cache_err
  | YCopy string string string
  | YArtifactType string string
  | YState cache_err
  | YSave cache_err
  | YTmpDir
  | YTmpStore
  | YUnpack string string
  | YStore string string cache_err

type_synonym world = "State \<times> fs"

text \<open>\<^verbatim>\<open>VerifyFunc\<close>: the error or the result, from the reference and the plain-HTTP flag.\<close>

type_synonym verify_func = "string \<Rightarrow> bool \<Rightarrow> string + VerificationResult"

text \<open>\<^verbatim>\<open>PolicySource\<close>: a copy returns the destination store it leaves behind with its result.\<close>

record PolicySource =
  srDefinitionVersion :: "string \<Rightarrow> reg_err + string \<times> string"
  srCopy :: "string \<Rightarrow> string \<Rightarrow> OciStore \<Rightarrow> OciStore \<times> (string + Descriptor)"

record SyncCfg =
  syCacheDir :: path
  sySource :: PolicySource
  syVerifier :: "verify_func option"
  syRegistryHost :: string
  syInsecure :: bool
  syDataDir :: path

definition NewSync :: "path \<Rightarrow> PolicySource \<Rightarrow> path \<Rightarrow> string \<Rightarrow> verify_func option \<Rightarrow> SyncCfg" where
  "NewSync cacheDir source dataDir registryHost verifier =
    (let (host, insecure) = SplitHostScheme registryHost in
     \<lparr>syCacheDir = cacheDir, sySource = source, syVerifier = verifier, syRegistryHost = host,
      syInsecure = insecure, syDataDir = dataDir\<rparr>)"

text \<open>The shared pre-copy verification: nothing to do, a failure, or a result.\<close>

definition run_verifier :: "SyncCfg \<Rightarrow> string \<Rightarrow> string \<Rightarrow> string \<Rightarrow> string + VerificationResult option" where
  "run_verifier sy repository tag digest =
    (case syVerifier sy of
       None \<Rightarrow> Inr None
     | Some vf \<Rightarrow>
        (case vf (BuildLookupRef (syRegistryHost sy) repository tag digest) (syInsecure sy) of
           Inl e \<Rightarrow> Inl e
         | Inr vr \<Rightarrow> Inr (Some vr)))"

section \<open>Policies\<close>

definition write_store :: "path \<Rightarrow> OciStore \<Rightarrow> fs \<Rightarrow> fs" where
  "write_store p st s = go_put (p @ [oci_index_file]) (File (OciDoc st)) s"

definition SyncPolicy ::
    "faults \<Rightarrow> string \<Rightarrow> gotime \<Rightarrow> SyncCfg \<Rightarrow> string \<Rightarrow> string \<Rightarrow> world \<Rightarrow> world \<times> (sync_err + bool)" where
  "SyncPolicy flt rnd now sy policyID version0 w =
    (let (st, s0) = w in
     if policyID = [] then (w, Inl YPolicyEmpty)
     else if syVerifier sy \<noteq> None \<and> syRegistryHost sy = [] then (w, Inl (YHostRequired policyID))
     else let (tag, digest) = classifyVersion version0;
              lookupRef = BuildLookupRef [] policyID tag digest in
     case srDefinitionVersion (sySource sy) lookupRef of
       Inl e \<Rightarrow> (w, Inl (if is_version_not_found e then YRegistry policyID e else YUnreachable policyID e))
     | Inr (remoteDigest, remoteVersion) \<Rightarrow>
      (let version = (if version0 = [] \<or> version0 = ''latest'' then remoteVersion else version0) in
       if (case GetPolicyState st policyID of None \<Rightarrow> False | Some l \<Rightarrow> psDigest l = remoteDigest)
          \<and> PolicyStoreExists flt (syCacheDir sy) policyID s0
       then (w, Inr False)
       else case run_verifier sy policyID tag digest of
         Inl e \<Rightarrow> (w, Inl (YVerify policyID e))
       | Inr verifyResult \<Rightarrow>
         (case NewPolicyStore flt (syCacheDir sy) policyID s0 of
            (s1, Inl e) \<Rightarrow> ((st, s1), Inl (YOpenStore policyID e))
          | (s1, Inr localStore) \<Rightarrow>
            (case srCopy (sySource sy) policyID version localStore of
               (st', Inl e) \<Rightarrow>
                 ((st, write_store (PolicyStorePath (syCacheDir sy) policyID) st' s1), Inl (YCopy policyID version e))
             | (st', Inr _) \<Rightarrow>
               (let s2 = write_store (PolicyStorePath (syCacheDir sy) policyID) st' s1 in
                case UpdatePolicyStateWithVerification now policyID version remoteDigest verifyResult st of
                  Inl e \<Rightarrow> ((st, s2), Inl (YState e))
                | Inr st2 \<Rightarrow>
                  (case SaveState flt rnd st2 (syDataDir sy) s2 of
                     (s3, Some e) \<Rightarrow> ((st2, s3), Inl (YSave e))
                   | (s3, None) \<Rightarrow> ((st2, s3), Inr True)))))))"

section \<open>Complypacks\<close>

definition MediaTypeArtifact :: string where
  "MediaTypeArtifact = ''application/vnd.complypack.artifact.v1''"

definition VerifyComplypackArtifactType :: "OciStore \<Rightarrow> Descriptor \<Rightarrow> string + Descriptor" where
  "VerifyComplypackArtifactType store desc =
    (let artifactType =
       (if dsArtifactType desc \<noteq> [] then Inr (dsArtifactType desc)
        else case oci_Fetch store desc of
          None \<Rightarrow> Inl ''failed to read manifest from local store''
        | Some (BBytes _) \<Rightarrow> Inl ''failed to parse manifest''
        | Some (BManifest m) \<Rightarrow> Inr (mfArtifactType m)) in
     case artifactType of
       Inl e \<Rightarrow> Inl e
     | Inr t \<Rightarrow> if t \<noteq> MediaTypeArtifact then Inl ''artifact type mismatch'' else Inr (desc\<lparr>dsArtifactType := t\<rparr>))"

text \<open>\<^verbatim>\<open>CopyComplypack\<close>: a copy into an empty store followed by the type check.\<close>

definition CopyComplypack :: "PolicySource \<Rightarrow> string \<Rightarrow> string \<Rightarrow> OciStore \<times> (string + Descriptor)" where
  "CopyComplypack src repository tag =
    (case srCopy src repository tag empty_oci of
       (store, Inl e) \<Rightarrow> (store, Inl e)
     | (store, Inr desc) \<Rightarrow> (store, VerifyComplypackArtifactType store desc))"

type_synonym unpack_func = "OciStore \<Rightarrow> Descriptor \<Rightarrow> (PackConfig \<times> string) option"

text \<open>
  The cache and the sync share one state object: lookups and evictions see the state at that
  moment.
\<close>

definition cache_now :: "ComplypackCache \<Rightarrow> State \<Rightarrow> ComplypackCache" where
  "cache_now c st = c\<lparr>ccState := map_option (\<lambda>_. st) (ccState c)\<rparr>"

definition cacheExistsForState :: "faults \<Rightarrow> ComplypackCache \<Rightarrow> State \<Rightarrow> fs \<Rightarrow> PolicyState \<Rightarrow> bool" where
  "cacheExistsForState flt c st s ps =
    (if psEvaluatorID ps = [] then False
     else case LookupByEvaluatorID flt (cache_now c st) (psEvaluatorID ps) s of
       Inr (Some _) \<Rightarrow> True
     | _ \<Rightarrow> False)"

definition tryLocalCacheHit ::
    "faults \<Rightarrow> string \<Rightarrow> gotime \<Rightarrow> SyncCfg \<Rightarrow> ComplypackCache \<Rightarrow> string \<Rightarrow> string \<Rightarrow> string \<Rightarrow> PolicyState \<Rightarrow>
      string \<Rightarrow> string \<Rightarrow> world \<Rightarrow> world \<times> bool" where
  "tryLocalCacheHit flt rnd now sy c repository version remoteDigest localState tag digest w =
    (let (st, s) = w in
     case Lookup flt (cache_now c st) (psEvaluatorID localState) version s of
       Inl _ \<Rightarrow> (w, False)
     | Inr _ \<Rightarrow>
        (case run_verifier sy repository tag digest of
           Inl _ \<Rightarrow> (w, False)
         | Inr vr \<Rightarrow>
            (case UpdateComplypackStateWithVerification now repository version remoteDigest
                    (psEvaluatorID localState) vr st of
               Inl _ \<Rightarrow> (w, False)
             | Inr st2 \<Rightarrow>
                (case SaveState flt rnd st2 (syDataDir sy) s of
                   (s2, Some _) \<Rightarrow> ((st2, s2), False)
                 | (s2, None) \<Rightarrow> ((st2, s2), True)))))"

text \<open>The fetch path of \<^verbatim>\<open>SyncComplypack\<close>: verify, copy, unpack, store, record.\<close>

definition fetch_complypack ::
    "unpack_func \<Rightarrow> faults \<Rightarrow> string \<Rightarrow> gotime \<Rightarrow> SyncCfg \<Rightarrow> ComplypackCache \<Rightarrow> string \<Rightarrow> string \<Rightarrow> string \<Rightarrow>
      string \<Rightarrow> string \<Rightarrow> world \<Rightarrow> world \<times> (sync_err + bool)" where
  "fetch_complypack unpack flt rnd now sy c repository version remoteDigest tag digest w =
    (let (st, s0) = w in
     case run_verifier sy repository tag digest of
       Inl e \<Rightarrow> (w, Inl (YVerify repository e))
     | Inr verifyResult \<Rightarrow>
       if flt (OpMkdirTemp []) then (w, Inl YTmpDir)
       else if flt (OpOpen []) then (w, Inl YTmpStore)
       else case CopyComplypack (sySource sy) repository version of
         (store, Inl e) \<Rightarrow> (w, Inl (YCopy repository version e))
       | (store, Inr desc) \<Rightarrow>
         (case unpack store desc of
            None \<Rightarrow> (w, Inl (YUnpack repository version))
          | Some (config, content) \<Rightarrow>
            (case Store flt rnd (cache_now c st) config content s0 of
               (s1, Inl e) \<Rightarrow> ((st, s1), Inl (YStore repository version e))
             | (s1, Inr _) \<Rightarrow>
               (case UpdateComplypackStateWithVerification now repository (pcVersion config) remoteDigest
                       (pcEvaluatorID config) verifyResult st of
                  Inl e \<Rightarrow> ((st, s1), Inl (YState e))
                | Inr st2 \<Rightarrow>
                  (case SaveState flt rnd st2 (syDataDir sy) s1 of
                     (s2, Some e) \<Rightarrow> ((st2, s2), Inl (YSave e))
                   | (s2, None) \<Rightarrow> ((st2, s2), Inr True))))))"

definition SyncComplypack ::
    "unpack_func \<Rightarrow> faults \<Rightarrow> string \<Rightarrow> gotime \<Rightarrow> SyncCfg \<Rightarrow> ComplypackCache \<Rightarrow> string \<Rightarrow> string \<Rightarrow>
      world \<Rightarrow> world \<times> (sync_err + bool)" where
  "SyncComplypack unpack flt rnd now sy c repository version0 w =
    (let (st, s0) = w in
     if repository = [] then (w, Inl YPackEmpty)
     else if syVerifier sy \<noteq> None \<and> syRegistryHost sy = [] then (w, Inl (YHostRequired repository))
     else let (tag, digest) = classifyVersion version0;
              lookupRef = BuildLookupRef [] repository tag digest;
              local = GetComplypackState st repository in
     case srDefinitionVersion (sySource sy) lookupRef of
       Inl e \<Rightarrow>
         (w, if (case local of None \<Rightarrow> False | Some l \<Rightarrow> cacheExistsForState flt c st s0 l)
             then Inr False else Inl (YUnreachable repository e))
     | Inr (remoteDigest, remoteVersion) \<Rightarrow>
      (let version = (if version0 = [] \<or> version0 = ''latest'' then remoteVersion else version0) in
       if (case local of None \<Rightarrow> False
           | Some l \<Rightarrow> psDigest l = remoteDigest \<and> cacheExistsForState flt c st s0 l)
       then (w, Inr False)
       else case local of
         None \<Rightarrow> fetch_complypack unpack flt rnd now sy c repository version remoteDigest tag digest w
       | Some l \<Rightarrow>
          if psEvaluatorID l \<noteq> [] \<and> psVersion l \<noteq> version then
            (case tryLocalCacheHit flt rnd now sy c repository version remoteDigest l tag digest w of
               (w1, True) \<Rightarrow> (w1, Inr True)
             | (w1, False) \<Rightarrow>
                fetch_complypack unpack flt rnd now sy c repository version remoteDigest tag digest w1)
          else fetch_complypack unpack flt rnd now sy c repository version remoteDigest tag digest w))"

section \<open>Saving the state leaves the caches alone\<close>

lemma SaveState_frame:
  assumes "\<not> under dataDir q" "\<not> under q dataDir" "abs_path dataDir"
  shows "go_get (fst (SaveState flt rnd st dataDir s)) q = go_get s q"
proof -
  let ?sp = "dataDir @ [StateFileName]" and ?t = "''.state-'' @ rnd @ ''.json.tmp''"
  have sp: "fp_join dataDir [StateFileName] = ?sp" using assms(3) by simp
  have nu: "\<not> under (dataDir @ x) q" for x using assms(1) by (auto simp: under_iff)
  have nq: "q \<noteq> dataDir @ x" for x using assms(1) by auto
  obtain s1 ok1 where m: "fs_MkdirAll flt dataDir s = (s1, ok1)" by fastforce
  have k1: "go_get s1 q = go_get s q"
    using fs_MkdirAll_get[of flt dataDir s q] m assms(2) by simp
  obtain s2 tmp where c: "fs_CreateTemp flt dataDir ?t s1 = (s2, tmp)" by fastforce
  have rm: "go_get (fst (fs_Remove flt (dataDir @ x) y)) q = go_get y q" for x y
    using nq by (simp add: fs_Remove_get)
  show ?thesis
  proof (cases "ok1 \<and> tmp \<noteq> None")
    case False
    then show ?thesis
      using m c k1 fs_CreateTemp_None[of flt dataDir ?t s1 s2]
      by (auto simp: SaveState_def Let_def sp split: bool.splits)
  next
    case True
    then obtain p where p: "tmp = Some p" "ok1" by auto
    have pp: "p = dataDir @ [?t]" "go_get s2 = (go_get s1)(p \<mapsto> File (Raw []))"
      using fs_CreateTemp_get[of flt dataDir ?t s1 s2 p] c p by auto
    obtain s3 ok3 where w: "fs_Write flt p (StateDoc st) s2 = (s3, ok3)" by fastforce
    have k3: "go_get s3 q = go_get s q"
      using fs_Write_get[of flt p "StateDoc st" s2 q] w pp k1 nq by simp
    obtain s4 ok4 where r: "fs_Rename flt p ?sp s3 = (s4, ok4)" by fastforce
    have k4: "go_get s4 q = go_get s3 q"
    proof (cases ok4)
      case True
      have ok: "snd (fs_Rename flt p ?sp s3)" using r True by simp
      have "\<not> under ?sp p" unfolding pp(1) by simp
      from fs_Rename_get[OF ok this, of q] show ?thesis using r nu pp(1) by simp
    next
      case False
      then show ?thesis using fs_Rename_fail[of flt p ?sp s3] r by simp
    qed
    show ?thesis
      using m c p w r k3 k4 rm pp(1) by (auto simp: SaveState_def Let_def sp split: bool.splits)
  qed
qed

section \<open>Policies\<close>

lemma run_verifier_reject:
  assumes "syVerifier sy = Some vf"
    "vf (BuildLookupRef (syRegistryHost sy) r t d) (syInsecure sy) = Inl e"
  shows "run_verifier sy r t d = Inl e"
  using assms by (simp add: run_verifier_def)

lemma SyncPolicy_fail_closed_lemma:
  assumes "syVerifier sy = Some vf"
    and "vf (BuildLookupRef (syRegistryHost sy) pid (fst (classifyVersion v)) (snd (classifyVersion v))) (syInsecure sy) = Inl e"
    and "SyncPolicy flt rnd now sy pid v w = (w', r)"
  shows "w' = w \<and> r \<noteq> Inr True"
  using assms(3) run_verifier_reject[OF assms(1,2)]
  by (auto simp: SyncPolicy_def Let_def case_prod_beta split: if_splits sum.splits)

lemma UpdatePolicy_get:
  "UpdatePolicyStateWithVerification now k v d vr st = Inr st2 \<Longrightarrow>
     GetPolicyState st2 = (GetPolicyState st)(k \<mapsto> fresh_entry now v d [] vr) \<and> stComplypacks st2 = stComplypacks st"
  by (auto simp: UpdatePolicyStateWithVerification_def GetPolicyState_def fun_eq_iff split: option.splits)

text \<open>What a run that reports a fetch has done.\<close>

lemma SyncPolicy_True:
  assumes "SyncPolicy flt rnd now sy pid v (st, s) = ((st', s'), Inr True)"
  obtains d rv vr s1 store store' s2 where
    "srDefinitionVersion (sySource sy) (BuildLookupRef [] pid (fst (classifyVersion v)) (snd (classifyVersion v))) = Inr (d, rv)"
    "run_verifier sy pid (fst (classifyVersion v)) (snd (classifyVersion v)) = Inr vr"
    "NewPolicyStore flt (syCacheDir sy) pid s = (s1, Inr store)"
    "\<exists>desc. srCopy (sySource sy) pid (if v = [] \<or> v = ''latest'' then rv else v) store = (store', Inr desc)"
    "s2 = write_store (PolicyStorePath (syCacheDir sy) pid) store' s1"
    "UpdatePolicyStateWithVerification now pid (if v = [] \<or> v = ''latest'' then rv else v) d vr st = Inr st'"
    "SaveState flt rnd st' (syDataDir sy) s2 = (s', None)"
proof -
  obtain t g where c: "classifyVersion v = (t, g)" by fastforce
  define ver where "ver rv = (if v = [] \<or> v = ''latest'' then rv else v)" for rv
  from assms show ?thesis
    unfolding SyncPolicy_def Let_def prod.case c ver_def[symmetric]
    by (auto split: if_splits sum.splits prod.splits option.splits simp: c ver_def[symmetric] intro: that)
qed

lemma SyncPolicy_success_lemma:
  assumes "SyncPolicy flt rnd now sy pid v (st, s) = ((st', s'), Inr True)" "abs_path (syDataDir sy)"
  shows "\<exists>d rv e. srDefinitionVersion (sySource sy)
        (BuildLookupRef [] pid (fst (classifyVersion v)) (snd (classifyVersion v))) = Inr (d, rv) \<and>
      GetPolicyState st' = (GetPolicyState st)(pid \<mapsto> e) \<and> psDigest e = d \<and>
      psVersion e = (if v = [] \<or> v = ''latest'' then rv else v) \<and>
      (case syVerifier sy of None \<Rightarrow> \<not> psVerified e
       | Some vf \<Rightarrow> \<exists>vr. vf (BuildLookupRef (syRegistryHost sy) pid (fst (classifyVersion v)) (snd (classifyVersion v)))
                          (syInsecure sy) = Inr vr \<and> psVerified e = vrVerified vr) \<and>
      go_get s' (syDataDir sy @ [StateFileName]) = Some (File (StateDoc st'))"
  using assms(1)
proof (rule SyncPolicy_True)
  fix d rv vr s1 store store' s2
  let ?t = "fst (classifyVersion v)" and ?g = "snd (classifyVersion v)" and ?v = "if v = [] \<or> v = ''latest'' then rv else v"
  assume a: "srDefinitionVersion (sySource sy) (BuildLookupRef [] pid ?t ?g) = Inr (d, rv)"
    "run_verifier sy pid ?t ?g = Inr vr"
    "UpdatePolicyStateWithVerification now pid ?v d vr st = Inr st'"
    "SaveState flt rnd st' (syDataDir sy) s2 = (s', None)"
  let ?e = "fresh_entry now ?v d [] vr"
  have "GetPolicyState st' = (GetPolicyState st)(pid \<mapsto> ?e)" using UpdatePolicy_get[OF a(3)] by blast
  moreover have "psDigest ?e = d" "psVersion ?e = ?v" by (simp_all add: fresh_entry_def)
  moreover have "case syVerifier sy of None \<Rightarrow> \<not> psVerified ?e
       | Some vf \<Rightarrow> \<exists>vr. vf (BuildLookupRef (syRegistryHost sy) pid ?t ?g) (syInsecure sy) = Inr vr \<and> psVerified ?e = vrVerified vr"
    using a(2) by (auto simp: run_verifier_def fresh_entry_def split: option.splits sum.splits)
  moreover have "go_get s' (syDataDir sy @ [StateFileName]) = Some (File (StateDoc st'))"
    using SaveState_atomic_lemma[OF assms(2), of flt rnd st' s2] a(4) by simp
  ultimately show ?thesis using a(1) by blast
qed

lemma SyncPolicy_error_keeps_state:
  assumes "SyncPolicy flt rnd now sy pid v (st, s) = ((st', s'), Inl e)"
  shows "st' = st \<or> (\<exists>c. e = YSave c)"
  using assms
  by (auto simp: SyncPolicy_def Let_def case_prod_beta split: if_splits sum.splits prod.splits option.splits)

lemma oci_New_marker:
  assumes "oci_New no_faults p s = (s', Some st)"
  shows "go_get s' (p @ [oci_layout_file]) \<noteq> None"
proof -
  have ne: "p @ [oci_layout_file] \<noteq> p @ [oci_index_file]" by (simp add: oci_layout_file_def oci_index_file_def)
  show ?thesis using assms ne
    by (auto simp: oci_New_def Let_def fs_ReadFile_def fs_WriteFile_def fs_Write_def
        split: option.splits node.splits if_splits prod.splits bool.splits fdata.splits)
qed

lemma SyncPolicy_idempotent_lemma:
  assumes "SyncPolicy no_faults rnd now sy pid v (st, s) = ((st', s'), Inr True)"
    and "abs_path (syDataDir sy)" "\<not> under (syDataDir sy) (PolicyStorePath (syCacheDir sy) pid)"
      "\<not> under (PolicyStorePath (syCacheDir sy) pid) (syDataDir sy)"
  shows "SyncPolicy no_faults rnd' now' sy pid v (st', s') = ((st', s'), Inr False)"
  using assms(1)
proof (rule SyncPolicy_True)
  fix d rv vr s1 store store' s2
  let ?t = "fst (classifyVersion v)" and ?g = "snd (classifyVersion v)" and ?v = "if v = [] \<or> v = ''latest'' then rv else v"
  let ?p = "PolicyStorePath (syCacheDir sy) pid" and ?m = "PolicyStorePath (syCacheDir sy) pid @ [oci_layout_file]"
  assume a: "srDefinitionVersion (sySource sy) (BuildLookupRef [] pid ?t ?g) = Inr (d, rv)"
    "NewPolicyStore no_faults (syCacheDir sy) pid s = (s1, Inr store)"
    "s2 = write_store ?p store' s1"
    "UpdatePolicyStateWithVerification now pid ?v d vr st = Inr st'"
    "SaveState no_faults rnd st' (syDataDir sy) s2 = (s', None)"
  have "go_get s1 ?m \<noteq> None"
    using a(2) oci_New_marker by (auto simp: NewPolicyStore_def Let_def split: prod.splits bool.splits option.splits)
  then have "go_get s2 ?m \<noteq> None" by (simp add: a(3) write_store_def)
  moreover have "\<not> under (syDataDir sy) ?m"
  proof
    assume "under (syDataDir sy) ?m"
    then obtain x where x: "?m = syDataDir sy @ x" by (auto simp: under_iff)
    show False
    proof (cases x rule: rev_cases)
      case Nil
      then have "syDataDir sy = ?p @ [oci_layout_file]" using x by simp
      then show False using assms(4) by simp
    next
      case (snoc y z)
      then have "?p = syDataDir sy @ y" using x by simp
      then show False using assms(3) by simp
    qed
  qed
  moreover have "\<not> under ?m (syDataDir sy)" using assms(4) by (auto simp: under_iff)
  ultimately have m: "PolicyStoreExists no_faults (syCacheDir sy) pid s'"
    using SaveState_frame[of "syDataDir sy" ?m no_faults rnd st' s2] assms(2) a(5)
    by (simp add: PolicyStoreExists_def fs_exists_def go_has_get del: go_has_keys)
  have g: "GetPolicyState st' pid = Some (fresh_entry now ?v d [] vr)"
    using UpdatePolicy_get[OF a(4)] by simp
  have "pid \<noteq> []" "\<not> (syVerifier sy \<noteq> None \<and> syRegistryHost sy = [])"
    using assms(1) by (auto simp: SyncPolicy_def Let_def split: if_splits prod.splits)
  then show ?thesis using a(1) m g by (auto simp: SyncPolicy_def Let_def case_prod_beta)
qed

section \<open>Complypacks\<close>

lemma fetch_complypack_reject:
  "run_verifier sy r t d = Inl e \<Longrightarrow>
   fetch_complypack unpack flt rnd now sy c r v rd t d w = (w, Inl (YVerify r e))"
  by (cases w) (simp add: fetch_complypack_def)

lemma tryLocalCacheHit_reject:
  "run_verifier sy r t d = Inl e \<Longrightarrow> tryLocalCacheHit flt rnd now sy c r v rd l t d w = (w, False)"
  by (cases w) (auto simp: tryLocalCacheHit_def split: sum.splits)

lemma SyncComplypack_fail_closed_lemma:
  assumes "syVerifier sy = Some vf"
    and "vf (BuildLookupRef (syRegistryHost sy) repo (fst (classifyVersion v)) (snd (classifyVersion v))) (syInsecure sy) = Inl e"
    and "SyncComplypack unpack flt rnd now sy c repo v w = (w', r)"
  shows "w' = w \<and> r \<noteq> Inr True"
proof -
  obtain t g where c: "classifyVersion v = (t, g)" by fastforce
  have rv: "run_verifier sy repo t g = Inl e" using run_verifier_reject[OF assms(1,2)] c by simp
  obtain st s where w: "w = (st, s)" by fastforce
  from assms(3) show ?thesis
    unfolding SyncComplypack_def Let_def w prod.case c
    by (auto split: if_splits sum.splits prod.splits option.splits
        simp: fetch_complypack_reject[OF rv] tryLocalCacheHit_reject[OF rv])
qed

text \<open>Serving from the cache when the registry cannot answer.\<close>

lemma SyncComplypack_offline:
  assumes "repo \<noteq> []" "syVerifier sy = None \<or> syRegistryHost sy \<noteq> []"
    and "srDefinitionVersion (sySource sy) (BuildLookupRef [] repo (fst (classifyVersion v)) (snd (classifyVersion v))) = Inl err"
  shows "SyncComplypack unpack flt rnd now sy c repo v (st, s) =
    ((st, s), case GetComplypackState st repo of
       None \<Rightarrow> Inl (YUnreachable repo err)
     | Some l \<Rightarrow> if cacheExistsForState flt c st s l then Inr False else Inl (YUnreachable repo err))"
proof -
  obtain t g where c: "classifyVersion v = (t, g)" by fastforce
  show ?thesis using assms
    unfolding SyncComplypack_def Let_def prod.case c by (auto simp: c split: option.splits)
qed

lemma UpdatePack_get:
  "UpdateComplypackStateWithVerification now k v d ev vr st = Inr st2 \<Longrightarrow>
     GetComplypackState st2 = (GetComplypackState st)(k \<mapsto> fresh_entry now v d ev vr) \<and> stPolicies st2 = stPolicies st"
  by (auto simp: UpdateComplypackStateWithVerification_def GetComplypackState_def fun_eq_iff split: option.splits)

lemma fetch_True:
  assumes "fetch_complypack unpack flt rnd now sy c repo v d t g (st, s) = ((st', s'), Inr True)"
  obtains vr store desc cfg content s1 path where
    "run_verifier sy repo t g = Inr vr"
    "CopyComplypack (sySource sy) repo v = (store, Inr desc)"
    "unpack store desc = Some (cfg, content)"
    "Store flt rnd (cache_now c st) cfg content s = (s1, Inr path)"
    "UpdateComplypackStateWithVerification now repo (pcVersion cfg) d (pcEvaluatorID cfg) vr st = Inr st'"
    "SaveState flt rnd st' (syDataDir sy) s1 = (s', None)"
  using assms
  by (auto simp: fetch_complypack_def split: if_splits sum.splits prod.splits option.splits)

text \<open>After a fetch the state and the cache agree on the version.\<close>

lemma Lookup_files:
  assumes "abs_path (ccDir c)" "ValidatePathComponent ev = None" "ValidatePathComponent v = None" "ev \<noteq> ''.''" "v \<noteq> ''.''"
    and "go_get s (ccDir c @ [ComplypacksSubdir, ev, v, complypackContentFile]) \<noteq> None"
    and "go_get s (ccDir c @ [ComplypacksSubdir, ev, v, complypackConfigFile]) = Some (File (PackDoc cfg))"
  shows "Lookup no_faults c ev v s = Inr (ccDir c @ [ComplypacksSubdir, ev, v, complypackContentFile], cfg)"
proof -
  have "plain_comp ev" "plain_comp v" using assms ValidatePathComponent_plain by blast+
  then show ?thesis using assms
    by (simp add: Lookup_def Let_def complypackDir_plain fs_exists_def fs_ReadFile_def go_has_get del: go_has_keys)
qed

lemma not_under_data:
  assumes "\<not> under dataDir base" "\<not> under base dataDir"
  shows "\<not> under dataDir (base @ x)" "\<not> under (base @ x) dataDir"
proof -
  show "\<not> under (base @ x) dataDir" using assms(2) by (auto simp: under_iff)
  show "\<not> under dataDir (base @ x)"
  proof
    assume "under dataDir (base @ x)"
    then obtain y where y: "base @ x = dataDir @ y" by (auto simp: under_iff)
    then consider us where "base = dataDir @ us" | us where "dataDir = base @ us"
      by (auto simp: append_eq_append_conv2)
    then show False using assms by cases auto
  qed
qed

lemma fetch_complypack_consistent_lemma:
  assumes "fetch_complypack unpack no_faults rnd now sy c repo v d t g (st, s) = ((st', s'), Inr True)"
    and "\<forall>store desc cfg content. unpack store desc = Some (cfg, content) \<longrightarrow> store_ready rnd (cache_now c st) cfg s"
    and "abs_path (syDataDir sy)" "\<not> under (syDataDir sy) (ccDir c)" "\<not> under (ccDir c) (syDataDir sy)"
  shows "\<exists>e path cfg. GetComplypackState st' repo = Some e \<and> psDigest e = d \<and>
    Lookup no_faults c (psEvaluatorID e) (psVersion e) s' = Inr (path, cfg) \<and>
    pcVersion cfg = psVersion e \<and> pcEvaluatorID cfg = psEvaluatorID e"
  using assms(1)
proof (rule fetch_True)
  fix vr store desc cfg content s1 path
  assume a: "unpack store desc = Some (cfg, content)"
    "Store no_faults rnd (cache_now c st) cfg content s = (s1, Inr path)"
    "UpdateComplypackStateWithVerification now repo (pcVersion cfg) d (pcEvaluatorID cfg) vr st = Inr st'"
    "SaveState no_faults rnd st' (syDataDir sy) s1 = (s', None)"
  let ?e = "fresh_entry now (pcVersion cfg) d (pcEvaluatorID cfg) vr"
  have g: "GetComplypackState st' repo = Some ?e" using UpdatePack_get[OF a(3)] by simp
  have dir: "ccDir (cache_now c st) = ccDir c" by (simp add: cache_now_def)
  have rdy: "store_ready rnd (cache_now c st) cfg s" using assms(2) a(1) by blast
  note r = Store_result[OF rdy, of content, unfolded dir a(2) fst_conv]
  have f: "go_get s' (ccDir c @ x) = go_get s1 (ccDir c @ x)" for x
    using SaveState_frame[OF not_under_data[OF assms(4,5), of x] assms(3), of no_faults rnd st' s1] a(4) by simp
  have "Lookup no_faults c (pcEvaluatorID cfg) (pcVersion cfg) s' =
      Inr (ccDir c @ [ComplypacksSubdir, pcEvaluatorID cfg, pcVersion cfg, complypackContentFile], cfg)"
    using rdy r f by (intro Lookup_files) (auto simp: store_ready_def Let_def dir)
  with g show ?thesis by (auto simp: fresh_entry_def)
qed

section \<open>A version that is never fetched\<close>

definition demo_digest :: string where
  "demo_digest = ''sha256:'' @ replicate 64 CHR ''a''"

definition demo_store :: OciStore where
  "demo_store = \<lparr>ocTags = [(''v1'', \<lparr>dsMediaType = ''m'', dsDigest = demo_digest, dsArtifactType = []\<rparr>)], ocBlobs = []\<rparr>"

definition demo_source :: "string \<Rightarrow> PolicySource" where
  "demo_source t = \<lparr>srDefinitionVersion = (\<lambda>_. Inr (demo_digest, t)),
     srCopy = (\<lambda>pid tag st. (st\<lparr>ocTags := go_put tag \<lparr>dsMediaType = ''m'', dsDigest = demo_digest, dsArtifactType = []\<rparr> (ocTags st)\<rparr>,
        Inr \<lparr>dsMediaType = ''m'', dsDigest = demo_digest, dsArtifactType = []\<rparr>))\<rparr>"

definition demo_sync :: "string \<Rightarrow> verify_func option \<Rightarrow> SyncCfg" where
  "demo_sync t vf = \<lparr>syCacheDir = [''c''], sySource = demo_source t, syVerifier = vf,
     syRegistryHost = ''r.io'', syInsecure = False, syDataDir = [''d'']\<rparr>"



section \<open>Properties\<close>

text \<open>
  Property C5. Policy sync is fail-closed: when a verifier is configured and rejects the reference of
  the artifact, nothing is copied or recorded (state and file system are exactly as before) and the
  run does not report a fetch.
\<close>

theorem SyncPolicy_fail_closed:
  assumes "syVerifier sy = Some vf"
    and "vf (BuildLookupRef (syRegistryHost sy) pid (fst (classifyVersion v)) (snd (classifyVersion v))) (syInsecure sy) = Inl e"
    and "SyncPolicy flt rnd now sy pid v w = (w', r)"
  shows "w' = w \<and> r \<noteq> Inr True"
  by (rule SyncPolicy_fail_closed_lemma[OF assms])

theorem SyncPolicy_fail_closed_witness:
  "fst (SyncPolicy no_faults ''1'' 1 (demo_sync ''v1'' (Some (\<lambda>_ _. Inl ''bad signature''))) ''p'' ''v1'' (empty_state, [])) =
     (empty_state, [])"
  using SyncPolicy_fail_closed[of "demo_sync ''v1'' (Some (\<lambda>_ _. Inl ''bad signature''))" "\<lambda>_ _. Inl ''bad signature''"
      "''p''" "''v1''" "''bad signature''" no_faults "''1''" 1 "(empty_state, [])"
      "fst (SyncPolicy no_faults ''1'' 1 (demo_sync ''v1'' (Some (\<lambda>_ _. Inl ''bad signature''))) ''p'' ''v1'' (empty_state, []))"
      "snd (SyncPolicy no_faults ''1'' 1 (demo_sync ''v1'' (Some (\<lambda>_ _. Inl ''bad signature''))) ''p'' ''v1'' (empty_state, []))"]
  by (simp add: demo_sync_def)

text \<open>
  Property C11. A policy sync that reports a fetch has recorded what the registry resolved: the entry of
  the policy, and only it, has the remote digest and the resolved version, is marked verified exactly
  as the verifier said (and not verified when none is configured), and the new state is what
  \<^verbatim>\<open>state.json\<close> now holds.
\<close>

theorem SyncPolicy_success:
  assumes "SyncPolicy flt rnd now sy pid v (st, s) = ((st', s'), Inr True)" "abs_path (syDataDir sy)"
  shows "\<exists>d rv e. srDefinitionVersion (sySource sy)
        (BuildLookupRef [] pid (fst (classifyVersion v)) (snd (classifyVersion v))) = Inr (d, rv) \<and>
      GetPolicyState st' = (GetPolicyState st)(pid \<mapsto> e) \<and> psDigest e = d \<and>
      psVersion e = (if v = [] \<or> v = ''latest'' then rv else v) \<and>
      (case syVerifier sy of None \<Rightarrow> \<not> psVerified e
       | Some vf \<Rightarrow> \<exists>vr. vf (BuildLookupRef (syRegistryHost sy) pid (fst (classifyVersion v)) (snd (classifyVersion v)))
                          (syInsecure sy) = Inr vr \<and> psVerified e = vrVerified vr) \<and>
      go_get s' (syDataDir sy @ [StateFileName]) = Some (File (StateDoc st'))"
  by (rule SyncPolicy_success_lemma[OF assms])

lemma demo_sync_run:
  obtains st s where "SyncPolicy no_faults ''1'' 1 (demo_sync ''v1'' None) ''p'' [] (empty_state, []) = ((st, s), Inr True)"
proof -
  have "snd (SyncPolicy no_faults ''1'' 1 (demo_sync ''v1'' None) ''p'' [] (empty_state, [])) = Inr True"
    by code_simp
  then show ?thesis using that by (metis prod.collapse)
qed

theorem SyncPolicy_success_witness:
  "\<exists>st s e. SyncPolicy no_faults ''1'' 1 (demo_sync ''v1'' None) ''p'' [] (empty_state, []) = ((st, s), Inr True) \<and>
     GetPolicyState st ''p'' = Some e \<and> psDigest e = demo_digest \<and> psVersion e = ''v1'' \<and> \<not> psVerified e"
proof -
  obtain st s where r: "SyncPolicy no_faults ''1'' 1 (demo_sync ''v1'' None) ''p'' [] (empty_state, []) = ((st, s), Inr True)"
    by (rule demo_sync_run)
  have "abs_path (syDataDir (demo_sync ''v1'' None))" by (simp add: demo_sync_def plain_comp_def)
  from SyncPolicy_success[OF r this] r show ?thesis
    by (fastforce simp: demo_sync_def demo_source_def)
qed

text \<open>
  Policy sync is idempotent: after a run that fetched, the same run with the same answers
  of the registry skips, and changes nothing.
\<close>

theorem SyncPolicy_idempotent:
  assumes "SyncPolicy no_faults rnd now sy pid v (st, s) = ((st', s'), Inr True)"
    and "abs_path (syDataDir sy)" "\<not> under (syDataDir sy) (PolicyStorePath (syCacheDir sy) pid)"
      "\<not> under (PolicyStorePath (syCacheDir sy) pid) (syDataDir sy)"
  shows "SyncPolicy no_faults rnd' now' sy pid v (st', s') = ((st', s'), Inr False)"
  by (rule SyncPolicy_idempotent_lemma[OF assms])

theorem SyncPolicy_idempotent_witness:
  "\<exists>w. SyncPolicy no_faults ''1'' 1 (demo_sync ''v1'' None) ''p'' [] (empty_state, []) = (w, Inr True) \<and>
     SyncPolicy no_faults ''2'' 2 (demo_sync ''v1'' None) ''p'' [] w = (w, Inr False)"
proof -
  obtain st s where r: "SyncPolicy no_faults ''1'' 1 (demo_sync ''v1'' None) ''p'' [] (empty_state, []) = ((st, s), Inr True)"
    by (rule demo_sync_run)
  have h: "abs_path (syDataDir (demo_sync ''v1'' None))"
    "\<not> under (syDataDir (demo_sync ''v1'' None)) (PolicyStorePath (syCacheDir (demo_sync ''v1'' None)) ''p'')"
    "\<not> under (PolicyStorePath (syCacheDir (demo_sync ''v1'' None)) ''p'') (syDataDir (demo_sync ''v1'' None))"
    by code_simp+
  from SyncPolicy_idempotent[OF r h] r show ?thesis by blast
qed

text \<open>
  Property C6. Complypack sync is fail-closed too, on the fetch path and on the local cache hit: when the
  verifier rejects the reference, the state and the file system are unchanged and no fetch is reported.
\<close>

theorem SyncComplypack_fail_closed:
  assumes "syVerifier sy = Some vf"
    and "vf (BuildLookupRef (syRegistryHost sy) repo (fst (classifyVersion v)) (snd (classifyVersion v))) (syInsecure sy) = Inl e"
    and "SyncComplypack unpack flt rnd now sy c repo v w = (w', r)"
  shows "w' = w \<and> r \<noteq> Inr True"
  by (rule SyncComplypack_fail_closed_lemma[OF assms])

theorem SyncComplypack_fail_closed_witness:
  "fst (SyncComplypack (\<lambda>_ _. None) no_faults ''1'' 1 (demo_sync ''v1'' (Some (\<lambda>_ _. Inl ''bad signature'')))
     demo_cache ''p'' ''v1'' (empty_state, [])) = (empty_state, [])"
  using SyncComplypack_fail_closed[of "demo_sync ''v1'' (Some (\<lambda>_ _. Inl ''bad signature''))" "\<lambda>_ _. Inl ''bad signature''"
      "''p''" "''v1''" "''bad signature''" "\<lambda>_ _. None" no_faults "''1''" 1 demo_cache "(empty_state, [])"
      "fst (SyncComplypack (\<lambda>_ _. None) no_faults ''1'' 1 (demo_sync ''v1'' (Some (\<lambda>_ _. Inl ''bad signature''))) demo_cache ''p'' ''v1'' (empty_state, []))"
      "snd (SyncComplypack (\<lambda>_ _. None) no_faults ''1'' 1 (demo_sync ''v1'' (Some (\<lambda>_ _. Inl ''bad signature''))) demo_cache ''p'' ''v1'' (empty_state, []))"]
  by (simp add: demo_sync_def)

text \<open>
  Property C13. After a complypack was fetched the state and the cache agree: the entry of the repository
  has the remote digest, and looking up its evaluator and version finds a pack whose embedded
  configuration has that evaluator and version.
\<close>

theorem fetch_complypack_consistent:
  assumes "fetch_complypack unpack no_faults rnd now sy c repo v d t g (st, s) = ((st', s'), Inr True)"
    and "\<forall>store desc cfg content. unpack store desc = Some (cfg, content) \<longrightarrow> store_ready rnd (cache_now c st) cfg s"
    and "abs_path (syDataDir sy)" "\<not> under (syDataDir sy) (ccDir c)" "\<not> under (ccDir c) (syDataDir sy)"
  shows "\<exists>e path cfg. GetComplypackState st' repo = Some e \<and> psDigest e = d \<and>
    Lookup no_faults c (psEvaluatorID e) (psVersion e) s' = Inr (path, cfg) \<and>
    pcVersion cfg = psVersion e \<and> pcEvaluatorID cfg = psEvaluatorID e"
  by (rule fetch_complypack_consistent_lemma[OF assms])

definition demo_pack_source :: PolicySource where
  "demo_pack_source = (demo_source ''v1'')\<lparr>srCopy := (\<lambda>_ _ st. (st, Inr \<lparr>dsMediaType = ''m'', dsDigest = demo_digest,
     dsArtifactType = MediaTypeArtifact\<rparr>))\<rparr>"

theorem fetch_complypack_consistent_witness:
  "\<exists>st s e. fetch_complypack (\<lambda>_ _. Some (demo_pack, ''tgz'')) no_faults ''1'' 1
        ((demo_sync ''v1'' None)\<lparr>sySource := demo_pack_source\<rparr>) demo_cache ''p'' ''v1'' demo_digest ''v1'' [] (empty_state, demo_fs)
        = ((st, s), Inr True) \<and> GetComplypackState st ''p'' = Some e \<and> psDigest e = demo_digest"
proof -
  let ?sy = "(demo_sync ''v1'' None)\<lparr>sySource := demo_pack_source\<rparr>"
  let ?r = "fetch_complypack (\<lambda>_ _. Some (demo_pack, ''tgz'')) no_faults ''1'' 1 ?sy demo_cache ''p'' ''v1'' demo_digest ''v1'' []
     (empty_state, demo_fs)"
  have "snd ?r = Inr True" by code_simp
  then obtain st s where r: "?r = ((st, s), Inr True)" by (metis prod.collapse)
  have rd: "store_ready ''1'' (cache_now demo_cache empty_state) demo_pack demo_fs" by code_simp
  have h: "abs_path (syDataDir ?sy)" "\<not> under (syDataDir ?sy) (ccDir demo_cache)" "\<not> under (ccDir demo_cache) (syDataDir ?sy)"
    by code_simp+
  from fetch_complypack_consistent[OF r _ h] rd r show ?thesis by fastforce
qed

end
