(* ===== verification/Signature.thy ===== *)
theory Signature
  imports Sync
begin

text \<open>
  Signature verification (\<^verbatim>\<open>internal/cache/verify.go\<close>): from a registry reference to the cosign
  signature layer of its artifact, from the annotations of the layer to a sigstore bundle, and the
  two verifiers built on it. Byte slices are strings. The record \<^verbatim>\<open>sigstore\<close> holds what is called
  of other code: name parsing and remote access of go-containerregistry, sigstore-go, the decoders
  for PEM, X.509 and JSON, the files and the clock. Hexadecimal and base64 decoding are written out.
\<close>

section \<open>Decoders of the standard library\<close>

definition hex_val :: "char \<Rightarrow> nat option" where
  "hex_val c = (let n = of_char c in
    if 48 \<le> n \<and> n \<le> (57 :: nat) then Some (n - 48)
    else if 97 \<le> n \<and> n \<le> 102 then Some (n - 87)
    else if 65 \<le> n \<and> n \<le> 70 then Some (n - 55) else None)"

fun hex_DecodeString :: "string \<Rightarrow> string option" where
  "hex_DecodeString [] = Some []"
| "hex_DecodeString [_] = None"
| "hex_DecodeString (a # b # r) =
    (case (hex_val a, hex_val b, hex_DecodeString r) of
       (Some x, Some y, Some bs) \<Rightarrow> Some (char_of (16 * x + y) # bs)
     | _ \<Rightarrow> None)"

definition base64_val :: "char \<Rightarrow> nat option" where
  "base64_val c = (let n = of_char c in
    if 65 \<le> n \<and> n \<le> (90 :: nat) then Some (n - 65)
    else if 97 \<le> n \<and> n \<le> 122 then Some (n - 71)
    else if 48 \<le> n \<and> n \<le> 57 then Some (n + 4)
    else if n = 43 then Some 62 else if n = 47 then Some 63 else None)"

text \<open>Groups of four digits; only the last may end in one or two padding characters.\<close>

fun base64_quanta :: "string \<Rightarrow> string option" where
  "base64_quanta [] = Some []"
| "base64_quanta (a # b # c # d # r) =
    (case (base64_val a, base64_val b) of
       (Some x, Some y) \<Rightarrow>
        (case (base64_val c, base64_val d) of
           (Some z, Some w) \<Rightarrow>
             map_option (\<lambda>bs. [char_of (4 * x + y div 16), char_of (16 * (y mod 16) + z div 4), char_of (64 * (z mod 4) + w)] @ bs)
               (base64_quanta r)
         | (Some z, None) \<Rightarrow>
             if d = CHR ''='' \<and> r = [] then Some [char_of (4 * x + y div 16), char_of (16 * (y mod 16) + z div 4)] else None
         | (None, _) \<Rightarrow>
             if c = CHR ''='' \<and> d = CHR ''='' \<and> r = [] then Some [char_of (4 * x + y div 16)] else None)
     | _ \<Rightarrow> None)"
| "base64_quanta _ = None"

text \<open>\<^verbatim>\<open>base64.StdEncoding\<close> skips line breaks.\<close>

definition base64_DecodeString :: "string \<Rightarrow> string option" where
  "base64_DecodeString s = base64_quanta (filter (\<lambda>c. of_char c \<noteq> (10 :: nat) \<and> of_char c \<noteq> (13 :: nat)) s)"

section \<open>Data\<close>

record NameRef =
  nrContext :: string
  nrIdentifier :: string
  nrInsecure :: bool

record SigDescriptor =
  sdMediaType :: string
  sdDigestHex :: string
  sdAnnotations :: "(string, string) gomap option"

text \<open>A resolved reference: its digest, and what \<^verbatim>\<open>Image\<close> and then \<^verbatim>\<open>Manifest\<close> answer.\<close>

record RemoteDescriptor =
  rdDigestHex :: string
  rdImage :: "string + (string + SigDescriptor list)"

record rekorBundlePayload =
  rpSignedEntryTimestamp :: string
  rpBody :: string
  rpIntegratedTime :: int
  rpLogIndex :: int
  rpLogID :: string

record TransparencyLogEntry =
  teLogIndex :: int
  teLogIdKeyId :: string
  teKind :: string
  teVersion :: string
  teIntegratedTime :: int
  teSignedEntryTimestamp :: string
  teCanonicalizedBody :: string

datatype material_content = X509CertificateChain "string list" | PublicKeyIdentifier

record VerificationMaterial =
  vmContent :: "material_content option"
  vmTlogEntries :: "TransparencyLogEntry list"

datatype hash_algorithm = SHA2_256

record ProtoBundle =
  pbMediaType :: string
  pbVerificationMaterial :: VerificationMaterial
  pbDigestAlgorithm :: hash_algorithm
  pbMessageDigest :: string
  pbSignature :: string

datatype TrustedMaterial = TrustedRoot string | TrustedPublicKeyMaterial string

datatype VerifierOption =
    WithSignedCertificateTimestamps nat
  | WithTransparencyLog nat
  | WithObserverTimestamps nat
  | WithNoObserverTimestamps

datatype policy_identity = WithCertificateIdentity string | WithKey

record SigPolicy =
  spArtifactDigest :: "string \<times> string"
  spIdentity :: policy_identity

text \<open>sigstore's result: the verified identity and the certificate summary, each issuer and subject.\<close>

record SigstoreResult =
  ssVerifiedIdentity :: "(string \<times> string) option"
  ssCertificate :: "(string \<times> string) option"

record sigstore =
  sgParseReference :: "string \<Rightarrow> bool \<Rightarrow> string + NameRef"
  sgNewTag :: "string \<Rightarrow> bool \<Rightarrow> string + NameRef"
  sgRemoteGet :: "NameRef \<Rightarrow> string + RemoteDescriptor"
  sgPemDecode :: "string \<Rightarrow> ((string \<times> string) \<times> string) option"
  sgParseCertificate :: "string \<Rightarrow> string option"
  sgUnmarshalRekor :: "string \<Rightarrow> string + rekorBundlePayload"
  sgNewBundle :: "ProtoBundle \<Rightarrow> string option"
  sgNewVerifier :: "TrustedMaterial \<Rightarrow> VerifierOption list \<Rightarrow> string option"
  sgVerify :: "TrustedMaterial \<Rightarrow> VerifierOption list \<Rightarrow> ProtoBundle \<Rightarrow> SigPolicy \<Rightarrow> string + SigstoreResult"
  sgTrustedRootFromPath :: "string \<Rightarrow> string + string"
  sgFetchTrustedRoot :: "string + string"
  sgCertificateIdentity :: "string \<Rightarrow> string \<Rightarrow> string \<Rightarrow> string \<Rightarrow> string + string"
  sgReadFile :: "string \<Rightarrow> string + string"
  sgUnmarshalPublicKey :: "string \<Rightarrow> string + string"
  sgLoadVerifier :: "string \<Rightarrow> string + string"
  sgNow :: gotime

definition cosignAnnotationSignature :: string where
  "cosignAnnotationSignature = ''dev.cosignproject.cosign/signature''"

definition cosignAnnotationCert :: string where
  "cosignAnnotationCert = ''dev.sigstore.cosign/certificate''"

definition cosignAnnotationBundle :: string where
  "cosignAnnotationBundle = ''dev.sigstore.cosign/bundle''"

definition cosignSimpleSigningMediaType :: string where
  "cosignSimpleSigningMediaType = ''application/vnd.dev.cosign.simplesigning.v1+json''"

section \<open>From annotations to a bundle\<close>

text \<open>
  The loop over PEM blocks: each call of the decoder consumes input, so one round per byte and a
  last one are enough; the error for exhausted rounds stands for a loop that does not end.
\<close>

fun certificate_loop ::
    "(string \<Rightarrow> ((string \<times> string) \<times> string) option) \<Rightarrow> (string \<Rightarrow> string option) \<Rightarrow> nat \<Rightarrow> string list \<Rightarrow> string \<Rightarrow> string + string list" where
  "certificate_loop dec parse 0 certs remaining = Inl ''no progress in PEM data''"
| "certificate_loop dec parse (Suc n) certs remaining =
    (case dec remaining of
       None \<Rightarrow> if certs = [] then Inl ''no certificates found in PEM data'' else Inr certs
     | Some ((ty, bytes), rest) \<Rightarrow>
        if ty = ''CERTIFICATE''
        then (case parse bytes of
                Some e \<Rightarrow> Inl (''invalid certificate in chain: '' @ e)
              | None \<Rightarrow> certificate_loop dec parse n (certs @ [bytes]) rest)
        else certificate_loop dec parse n certs rest)"

definition parseCertificateChain :: "sigstore \<Rightarrow> string \<Rightarrow> string + string list" where
  "parseCertificateChain sg certPEM =
    certificate_loop (sgPemDecode sg) (sgParseCertificate sg) (Suc (length certPEM)) [] certPEM"

definition parseRekorBundle :: "sigstore \<Rightarrow> string \<Rightarrow> string + TransparencyLogEntry list" where
  "parseRekorBundle sg bundleJSON =
    (case sgUnmarshalRekor sg bundleJSON of
       Inl e \<Rightarrow> Inl (''failed to unmarshal Rekor bundle: '' @ e)
     | Inr payload \<Rightarrow>
        (case base64_DecodeString (rpSignedEntryTimestamp payload) of
           None \<Rightarrow> Inl ''failed to decode SignedEntryTimestamp''
         | Some setBytes \<Rightarrow>
            (case hex_DecodeString (rpLogID payload) of
               None \<Rightarrow> Inl ''failed to decode logID''
             | Some logIDBytes \<Rightarrow>
                (case base64_DecodeString (rpBody payload) of
                   None \<Rightarrow> Inl ''failed to decode body''
                 | Some canonicalBody \<Rightarrow>
                    Inr [\<lparr>teLogIndex = rpLogIndex payload, teLogIdKeyId = logIDBytes, teKind = ''hashedrekord'', teVersion = ''0.0.1'',
                          teIntegratedTime = rpIntegratedTime payload, teSignedEntryTimestamp = setBytes,
                          teCanonicalizedBody = canonicalBody\<rparr>]))))"

definition buildVerificationMaterial :: "sigstore \<Rightarrow> (string, string) gomap \<Rightarrow> string + VerificationMaterial" where
  "buildVerificationMaterial sg annotations =
    (case (case go_get annotations cosignAnnotationCert of
             None \<Rightarrow> Inr (Some PublicKeyIdentifier)
           | Some certPEM \<Rightarrow>
              (case parseCertificateChain sg certPEM of
                 Inl e \<Rightarrow> Inl (''failed to parse cosign certificate: '' @ e)
               | Inr certs \<Rightarrow> Inr (Some (X509CertificateChain certs)))) of
       Inl e \<Rightarrow> Inl e
     | Inr content \<Rightarrow>
        (case go_get annotations cosignAnnotationBundle of
           None \<Rightarrow> Inr \<lparr>vmContent = content, vmTlogEntries = []\<rparr>
         | Some bundleJSON \<Rightarrow>
            (case parseRekorBundle sg bundleJSON of
               Inl e \<Rightarrow> Inl (''failed to parse cosign Rekor bundle: '' @ e)
             | Inr entries \<Rightarrow> Inr \<lparr>vmContent = content, vmTlogEntries = entries\<rparr>)))"

definition buildProtobufBundle :: "sigstore \<Rightarrow> SigDescriptor \<Rightarrow> string \<Rightarrow> string + ProtoBundle" where
  "buildProtobufBundle sg layer artifactDigestHex =
    (case sdAnnotations layer of
       None \<Rightarrow> Inl ''cosign layer has no annotations''
     | Some annotations \<Rightarrow>
        (case buildVerificationMaterial sg annotations of
           Inl e \<Rightarrow> Inl e
         | Inr material \<Rightarrow>
            (case go_get annotations cosignAnnotationSignature of
               None \<Rightarrow> Inl ''cosign layer missing signature annotation''
             | Some sigB64 \<Rightarrow>
                (case base64_DecodeString sigB64 of
                   None \<Rightarrow> Inl ''failed to decode cosign signature''
                 | Some sigBytes \<Rightarrow>
                    (case hex_DecodeString artifactDigestHex of
                       None \<Rightarrow> Inl ''failed to decode artifact digest''
                     | Some digestBytes \<Rightarrow>
                        Inr \<lparr>pbMediaType = ''application/vnd.dev.sigstore.bundle+json;version=0.1'',
                             pbVerificationMaterial = material, pbDigestAlgorithm = SHA2_256,
                             pbMessageDigest = digestBytes, pbSignature = sigBytes\<rparr>)))))"

section \<open>From a reference to its signature\<close>

definition resolveArtifactDigest :: "sigstore \<Rightarrow> string \<Rightarrow> bool \<Rightarrow> string + NameRef \<times> string" where
  "resolveArtifactDigest sg registryRef insecure =
    (case sgParseReference sg registryRef insecure of
       Inl e \<Rightarrow> Inl (''invalid OCI reference '' @ registryRef @ '': '' @ e)
     | Inr ref \<Rightarrow>
        (case sgRemoteGet sg ref of
           Inl e \<Rightarrow> Inl (''failed to resolve '' @ registryRef @ '': '' @ e)
         | Inr desc \<Rightarrow> Inr (ref, rdDigestHex desc)))"

definition findSigningLayer :: "string + SigDescriptor list \<Rightarrow> string + SigDescriptor" where
  "findSigningLayer manifest =
    (case manifest of
       Inl e \<Rightarrow> Inl (''failed to read cosign signature manifest: '' @ e)
     | Inr layers \<Rightarrow>
        (case List.find (\<lambda>l. sdMediaType l = cosignSimpleSigningMediaType) layers of
           Some layer \<Rightarrow> Inr layer
         | None \<Rightarrow> Inl ''no cosign simple signing layer found in signature manifest''))"

definition sigTagStr :: "NameRef \<Rightarrow> string \<Rightarrow> string" where
  "sigTagStr ref digestHex = nrContext ref @ '':sha256-'' @ digestHex @ ''.sig''"

definition fetchCosignSignature :: "sigstore \<Rightarrow> NameRef \<Rightarrow> string \<Rightarrow> string \<Rightarrow> bool \<Rightarrow> string + SigDescriptor" where
  "fetchCosignSignature sg ref digestHex registryRef insecure =
    (case sgNewTag sg (sigTagStr ref digestHex) insecure of
       Inl e \<Rightarrow> Inl (''failed to construct cosign signature tag: '' @ e)
     | Inr sigTag \<Rightarrow>
        (case sgRemoteGet sg sigTag of
           Inl e \<Rightarrow> Inl (''no cosign signature found for '' @ registryRef @ '': '' @ e)
         | Inr sigDesc \<Rightarrow>
            (case rdImage sigDesc of
               Inl e \<Rightarrow> Inl (''failed to read cosign signature image: '' @ e)
             | Inr manifest \<Rightarrow> findSigningLayer manifest)))"

definition bundleFromCosignOCI :: "sigstore \<Rightarrow> string \<Rightarrow> bool \<Rightarrow> string + ProtoBundle \<times> string" where
  "bundleFromCosignOCI sg registryRef insecure =
    (case resolveArtifactDigest sg registryRef insecure of
       Inl e \<Rightarrow> Inl e
     | Inr (ref, digestHex) \<Rightarrow>
        (case fetchCosignSignature sg ref digestHex registryRef insecure of
           Inl e \<Rightarrow> Inl e
         | Inr sigLayer \<Rightarrow>
            (let signedDigestHex = sdDigestHex sigLayer in
             case buildProtobufBundle sg sigLayer signedDigestHex of
               Inl e \<Rightarrow> Inl (''failed to build sigstore bundle from cosign annotations: '' @ e)
             | Inr pb \<Rightarrow>
                (case sgNewBundle sg pb of
                   Some e \<Rightarrow> Inl (''failed to create sigstore bundle: '' @ e)
                 | None \<Rightarrow>
                    (case hex_DecodeString signedDigestHex of
                       None \<Rightarrow> Inl ''failed to decode artifact digest''
                     | Some artifactDigest \<Rightarrow> Inr (pb, artifactDigest))))))"

section \<open>The verifiers\<close>

definition extractVerificationResult :: "gotime \<Rightarrow> SigstoreResult \<Rightarrow> VerificationResult" where
  "extractVerificationResult now result =
    (let (issuer, signer) = (case ssVerifiedIdentity result of None \<Rightarrow> ([], []) | Some p \<Rightarrow> p);
         (issuer', signer') = (case ssCertificate result of
             None \<Rightarrow> (issuer, signer)
           | Some (ci, cs) \<Rightarrow> (if issuer = [] then ci else issuer, if signer = [] then cs else signer)) in
     \<lparr>vrVerified = True, vrSignerIdentity = signer', vrIssuer = issuer', vrVerifiedAt = now\<rparr>)"

definition keylessOptions :: "VerifierOption list" where
  "keylessOptions = [WithSignedCertificateTimestamps 1, WithTransparencyLog 1, WithObserverTimestamps 1]"

text \<open>The function \<^verbatim>\<open>NewKeylessVerifier\<close> returns.\<close>

definition verify_keyless :: "sigstore \<Rightarrow> string \<Rightarrow> string \<Rightarrow> verify_func" where
  "verify_keyless sg trustedRoot certID registryRef insecure =
    (case bundleFromCosignOCI sg registryRef insecure of
       Inl e \<Rightarrow> Inl (''failed to resolve cosign signature for '' @ registryRef @ '': '' @ e)
     | Inr (bun, artifactDigest) \<Rightarrow>
        (case sgVerify sg (TrustedRoot trustedRoot) keylessOptions bun
                \<lparr>spArtifactDigest = (''sha256'', artifactDigest), spIdentity = WithCertificateIdentity certID\<rparr> of
           Inl e \<Rightarrow> Inl (''signature verification failed for '' @ registryRef @ '': '' @ e)
         | Inr result \<Rightarrow> Inr (extractVerificationResult (sgNow sg) result)))"

definition NewKeylessVerifier :: "sigstore \<Rightarrow> string \<Rightarrow> string \<Rightarrow> string \<Rightarrow> string + verify_func" where
  "NewKeylessVerifier sg issuer identity trustedRootPath =
    (case (if trustedRootPath \<noteq> []
           then (case sgTrustedRootFromPath sg trustedRootPath of
                   Inl e \<Rightarrow> Inl (''failed to load trusted root from '' @ trustedRootPath @ '': '' @ e)
                 | Inr r \<Rightarrow> Inr r)
           else (case sgFetchTrustedRoot sg of
                   Inl e \<Rightarrow> Inl (''failed to fetch Sigstore trusted root: '' @ e)
                 | Inr r \<Rightarrow> Inr r)) of
       Inl e \<Rightarrow> Inl e
     | Inr trustedRoot \<Rightarrow>
        (case sgCertificateIdentity sg issuer [] identity [] of
           Inl e \<Rightarrow> Inl (''failed to create certificate identity: '' @ e)
         | Inr certID \<Rightarrow>
            (case sgNewVerifier sg (TrustedRoot trustedRoot) keylessOptions of
               Some e \<Rightarrow> Inl (''failed to create sigstore verifier: '' @ e)
             | None \<Rightarrow> Inr (verify_keyless sg trustedRoot certID))))"

text \<open>The function \<^verbatim>\<open>NewKeyedVerifier\<close> returns.\<close>

definition verify_keyed :: "sigstore \<Rightarrow> string \<Rightarrow> verify_func" where
  "verify_keyed sg key registryRef insecure =
    (case bundleFromCosignOCI sg registryRef insecure of
       Inl e \<Rightarrow> Inl (''failed to resolve cosign signature for '' @ registryRef @ '': '' @ e)
     | Inr (bun, artifactDigest) \<Rightarrow>
        (case sgVerify sg (TrustedPublicKeyMaterial key) [WithNoObserverTimestamps] bun
                \<lparr>spArtifactDigest = (''sha256'', artifactDigest), spIdentity = WithKey\<rparr> of
           Inl e \<Rightarrow> Inl (''signature verification failed for '' @ registryRef @ '': '' @ e)
         | Inr _ \<Rightarrow> Inr \<lparr>vrVerified = True, vrSignerIdentity = [], vrIssuer = [], vrVerifiedAt = sgNow sg\<rparr>))"

definition NewKeyedVerifier :: "sigstore \<Rightarrow> string \<Rightarrow> string + verify_func" where
  "NewKeyedVerifier sg keyPath0 =
    (let keyPath = filepath_Clean keyPath0 in
     case sgReadFile sg keyPath of
       Inl e \<Rightarrow> Inl (''failed to read public key '' @ keyPath @ '': '' @ e)
     | Inr keyBytes \<Rightarrow>
        (case sgUnmarshalPublicKey sg keyBytes of
           Inl e \<Rightarrow> Inl (''failed to parse public key '' @ keyPath @ '': '' @ e)
         | Inr pubKey \<Rightarrow>
            (case sgLoadVerifier sg pubKey of
               Inl e \<Rightarrow> Inl (''failed to create signature verifier from '' @ keyPath @ '': '' @ e)
             | Inr key \<Rightarrow>
                (case sgNewVerifier sg (TrustedPublicKeyMaterial key) [WithNoObserverTimestamps] of
                   Some e \<Rightarrow> Inl (''failed to create keyed verifier: '' @ e)
                 | None \<Rightarrow> Inr (verify_keyed sg key)))))"

section \<open>Certificate chains\<close>

text \<open>The blocks that repeated decoding yields, and the law every call of \<^verbatim>\<open>pem.Decode\<close> obeys: it consumes input.\<close>

inductive pem_blocks :: "(string \<Rightarrow> ((string \<times> string) \<times> string) option) \<Rightarrow> string \<Rightarrow> (string \<times> string) list \<Rightarrow> bool"
  for dec where
  pem_end: "dec data = None \<Longrightarrow> pem_blocks dec data []"
| pem_block: "dec data = Some (b, rest) \<Longrightarrow> pem_blocks dec rest bs \<Longrightarrow> pem_blocks dec data (b # bs)"

definition consumes :: "(string \<Rightarrow> ((string \<times> string) \<times> string) option) \<Rightarrow> bool" where
  "consumes dec \<longleftrightarrow> (\<forall>data b rest. dec data = Some (b, rest) \<longrightarrow> length rest < length data)"

lemma pem_blocks_exist:
  assumes "consumes dec"
  shows "\<exists>bs. pem_blocks dec data bs \<and> length bs \<le> length data"
proof (induction data rule: length_induct)
  case (1 data)
  show ?case
  proof (cases "dec data")
    case None
    then have "pem_blocks dec data []" by (rule pem_end)
    then show ?thesis by (intro exI[of _ "[]"]) simp
  next
    case (Some p)
    then obtain b rest where d: "dec data = Some (b, rest)" by (cases p) auto
    then have l: "length rest < length data" using assms unfolding consumes_def by blast
    then obtain bs where bs: "pem_blocks dec rest bs" "length bs \<le> length rest" using 1 by blast
    from pem_block[of dec, OF d bs(1)] bs(2) l show ?thesis by (intro exI[of _ "b # bs"]) simp
  qed
qed

lemma pem_blocks_unique: "pem_blocks dec data bs \<Longrightarrow> pem_blocks dec data cs \<Longrightarrow> bs = cs"
proof (induction arbitrary: cs rule: pem_blocks.induct)
  case (pem_end data)
  from pem_end(2,1) show ?case by cases auto
next
  case (pem_block data b rest bs)
  from pem_block.prems pem_block.hyps(1) pem_block.IH show ?case by cases auto
qed

definition certificates :: "(string \<times> string) list \<Rightarrow> string list" where
  "certificates bs = map snd (filter (\<lambda>b. fst b = ''CERTIFICATE'') bs)"

lemma certificate_loop_blocks:
  "pem_blocks dec data bs \<Longrightarrow> length bs < n \<Longrightarrow>
   certificate_loop dec parse n certs data =
    (case List.find (\<lambda>c. parse c \<noteq> None) (certificates bs) of
       Some c \<Rightarrow> Inl (''invalid certificate in chain: '' @ the (parse c))
     | None \<Rightarrow> if certs @ certificates bs = [] then Inl ''no certificates found in PEM data'' else Inr (certs @ certificates bs))"
proof (induction arbitrary: n certs rule: pem_blocks.induct)
  case (pem_end data)
  then show ?case by (cases n) (auto simp: certificates_def)
next
  case (pem_block data b rest bs)
  obtain m where n: "n = Suc m" "length bs < m" using pem_block.prems by (cases n) auto
  obtain ty bytes where b: "b = (ty, bytes)" by (cases b)
  show ?case
    using pem_block.hyps(1) pem_block.IH[OF n(2)] by (auto simp: n(1) b certificates_def split: option.split)
qed

text \<open>
  Property C23. Parsing a certificate chain ends: for any decoder that consumes input with every block,
  the blocks of the annotation are a finite list, and the result is the first certificate among them
  that does not parse as an error, an error when there is no certificate, and otherwise exactly the
  certificates in their order, blocks of other types left out.
\<close>

theorem parseCertificateChain_terminates:
  assumes "consumes (sgPemDecode sg)"
  shows "\<exists>bs. pem_blocks (sgPemDecode sg) certPEM bs \<and>
    parseCertificateChain sg certPEM =
      (case List.find (\<lambda>c. sgParseCertificate sg c \<noteq> None) (certificates bs) of
         Some c \<Rightarrow> Inl (''invalid certificate in chain: '' @ the (sgParseCertificate sg c))
       | None \<Rightarrow> if certificates bs = [] then Inl ''no certificates found in PEM data'' else Inr (certificates bs))"
proof -
  obtain bs where "pem_blocks (sgPemDecode sg) certPEM bs" "length bs < Suc (length certPEM)"
    using pem_blocks_exist[OF assms] by (metis less_Suc_eq_le)
  note bs = this
  show ?thesis
    unfolding parseCertificateChain_def certificate_loop_blocks[OF bs] append_Nil using bs(1) by (intro exI conjI) (assumption, rule refl)
qed

section \<open>What is accepted\<close>

text \<open>The layer whose annotations are verified for a reference.\<close>

definition signing_layer :: "sigstore \<Rightarrow> string \<Rightarrow> bool \<Rightarrow> string + SigDescriptor" where
  "signing_layer sg registryRef insecure =
    (case resolveArtifactDigest sg registryRef insecure of
       Inl e \<Rightarrow> Inl e
     | Inr (ref, digestHex) \<Rightarrow> fetchCosignSignature sg ref digestHex registryRef insecure)"

text \<open>A bundle that carries the signature of a layer over the digest of that layer.\<close>

definition bundle_of_layer :: "SigDescriptor \<Rightarrow> ProtoBundle \<Rightarrow> string \<Rightarrow> bool" where
  "bundle_of_layer layer bun dgst \<longleftrightarrow>
    sdMediaType layer = cosignSimpleSigningMediaType \<and> hex_DecodeString (sdDigestHex layer) = Some dgst \<and> pbMessageDigest bun = dgst \<and>
    (\<exists>ann s. sdAnnotations layer = Some ann \<and> go_get ann cosignAnnotationSignature = Some s \<and>
       base64_DecodeString s = Some (pbSignature bun))"

lemma findSigningLayer_type: "findSigningLayer m = Inr l \<Longrightarrow> sdMediaType l = cosignSimpleSigningMediaType"
  by (auto simp: findSigningLayer_def find_Some_iff split: sum.split_asm option.split_asm)

lemma buildProtobufBundle_layer:
  "buildProtobufBundle sg layer (sdDigestHex layer) = Inr bun \<Longrightarrow> sdMediaType layer = cosignSimpleSigningMediaType \<Longrightarrow>
   bundle_of_layer layer bun (pbMessageDigest bun)"
  by (auto simp: buildProtobufBundle_def bundle_of_layer_def split: option.split_asm sum.split_asm)

lemma bundleFromCosignOCI_layer:
  assumes "bundleFromCosignOCI sg ref insecure = Inr (bun, dgst)"
  obtains layer where "signing_layer sg ref insecure = Inr layer" "bundle_of_layer layer bun dgst"
proof -
  obtain nr h layer where l: "resolveArtifactDigest sg ref insecure = Inr (nr, h)"
      "fetchCosignSignature sg nr h ref insecure = Inr layer"
      "buildProtobufBundle sg layer (sdDigestHex layer) = Inr bun" "hex_DecodeString (sdDigestHex layer) = Some dgst"
    using assms by (auto simp: bundleFromCosignOCI_def Let_def split: sum.split_asm option.split_asm prod.split_asm)
  then have "sdMediaType layer = cosignSimpleSigningMediaType"
    by (auto simp: fetchCosignSignature_def findSigningLayer_type split: sum.split_asm)
  with buildProtobufBundle_layer[OF l(3)] have "bundle_of_layer layer bun dgst"
    using l(4) by (auto simp: bundle_of_layer_def)
  moreover have "signing_layer sg ref insecure = Inr layer" using l(1,2) by (simp add: signing_layer_def)
  ultimately show ?thesis using that by blast
qed

lemma extractVerificationResult_verified [simp]: "vrVerified (extractVerificationResult now r)"
  by (simp add: extractVerificationResult_def Let_def split_def)

lemma verify_keyless_accepts:
  assumes "verify_keyless sg tr cid ref insecure = Inr vr"
  obtains layer bun dgst res where "signing_layer sg ref insecure = Inr layer" "bundle_of_layer layer bun dgst"
    "sgVerify sg (TrustedRoot tr) keylessOptions bun \<lparr>spArtifactDigest = (''sha256'', dgst), spIdentity = WithCertificateIdentity cid\<rparr> = Inr res"
    "vr = extractVerificationResult (sgNow sg) res"
proof -
  obtain bun dgst where b: "bundleFromCosignOCI sg ref insecure = Inr (bun, dgst)"
    using assms by (auto simp: verify_keyless_def split: sum.split_asm)
  obtain layer where l: "signing_layer sg ref insecure = Inr layer" "bundle_of_layer layer bun dgst"
    by (rule bundleFromCosignOCI_layer[OF b])
  show ?thesis using assms that[OF l] by (auto simp: verify_keyless_def b split: sum.split_asm)
qed

lemma verify_keyed_accepts:
  assumes "verify_keyed sg key ref insecure = Inr vr"
  obtains layer bun dgst res where "signing_layer sg ref insecure = Inr layer" "bundle_of_layer layer bun dgst"
    "sgVerify sg (TrustedPublicKeyMaterial key) [WithNoObserverTimestamps] bun \<lparr>spArtifactDigest = (''sha256'', dgst), spIdentity = WithKey\<rparr> = Inr res"
    "vrVerified vr"
proof -
  obtain bun dgst where b: "bundleFromCosignOCI sg ref insecure = Inr (bun, dgst)"
    using assms by (auto simp: verify_keyed_def split: sum.split_asm)
  obtain layer where l: "signing_layer sg ref insecure = Inr layer" "bundle_of_layer layer bun dgst"
    by (rule bundleFromCosignOCI_layer[OF b])
  show ?thesis using assms that[OF l] by (auto simp: verify_keyed_def b split: sum.split_asm)
qed

lemma NewKeyedVerifier_cases:
  assumes "NewKeyedVerifier sg k = Inr vf"
  obtains key where "vf = verify_keyed sg key"
  using assms by (auto simp: NewKeyedVerifier_def Let_def split: sum.split_asm option.split_asm)

lemma NewKeylessVerifier_cases:
  assumes "NewKeylessVerifier sg i s r = Inr vf"
  obtains tr cid where "vf = verify_keyless sg tr cid" "sgCertificateIdentity sg i [] s [] = Inr cid"
  using assms by (auto simp: NewKeylessVerifier_def split: sum.split_asm option.split_asm if_split_asm)

section \<open>What the signature covers\<close>

text \<open>
  The registry after a copy of a signature: the reference now resolves to another artifact, and the
  signature tag of that artifact serves the signature image of the first. No key is needed for it.
\<close>

definition copy_signature :: "NameRef \<Rightarrow> RemoteDescriptor \<Rightarrow> NameRef \<Rightarrow> NameRef \<Rightarrow> sigstore \<Rightarrow> sigstore" where
  "copy_signature ref other sigTag otherTag sg =
    sg\<lparr>sgRemoteGet := (sgRemoteGet sg)(ref := Inr other, otherTag := sgRemoteGet sg sigTag)\<rparr>"

lemma copy_signature_simps [simp]:
  "sgParseReference (copy_signature r a t u sg) = sgParseReference sg"
  "sgNewTag (copy_signature r a t u sg) = sgNewTag sg"
  "sgNewBundle (copy_signature r a t u sg) = sgNewBundle sg"
  "sgVerify (copy_signature r a t u sg) = sgVerify sg"
  "sgNow (copy_signature r a t u sg) = sgNow sg"
  "sgReadFile (copy_signature r a t u sg) = sgReadFile sg"
  "sgUnmarshalPublicKey (copy_signature r a t u sg) = sgUnmarshalPublicKey sg"
  "sgLoadVerifier (copy_signature r a t u sg) = sgLoadVerifier sg"
  "sgNewVerifier (copy_signature r a t u sg) = sgNewVerifier sg"
  "sgTrustedRootFromPath (copy_signature r a t u sg) = sgTrustedRootFromPath sg"
  "sgFetchTrustedRoot (copy_signature r a t u sg) = sgFetchTrustedRoot sg"
  "sgCertificateIdentity (copy_signature r a t u sg) = sgCertificateIdentity sg"
  "buildProtobufBundle (copy_signature r a t u sg) = buildProtobufBundle sg"
  by (auto simp: copy_signature_def buildProtobufBundle_def buildVerificationMaterial_def parseCertificateChain_def
      parseRekorBundle_def fun_eq_iff cong: option.case_cong sum.case_cong)

lemma bundleFromCosignOCI_copied:
  assumes "sgParseReference sg registryRef insecure = Inr ref" "sgRemoteGet sg ref = Inr desc"
    and "sgNewTag sg (sigTagStr ref (rdDigestHex desc)) insecure = Inr sigTag"
    and "sgNewTag sg (sigTagStr ref (rdDigestHex other)) insecure = Inr otherTag" "otherTag \<noteq> ref"
  shows "bundleFromCosignOCI (copy_signature ref other sigTag otherTag sg) registryRef insecure = bundleFromCosignOCI sg registryRef insecure"
proof -
  let ?c = "copy_signature ref other sigTag otherTag sg"
  have "sgRemoteGet ?c ref = Inr other" "sgRemoteGet ?c otherTag = sgRemoteGet sg sigTag"
    using assms(5) by (simp_all add: copy_signature_def)
  then show ?thesis
    using assms(1-4) by (simp add: bundleFromCosignOCI_def resolveArtifactDigest_def fetchCosignSignature_def Let_def cong: sum.case_cong option.case_cong)
qed

lemma verify_keyed_copied:
  assumes "NewKeyedVerifier sg k = Inr vf" and "bundleFromCosignOCI (copy_signature r a t u sg) ref i = bundleFromCosignOCI sg ref i"
  shows "\<exists>vf'. NewKeyedVerifier (copy_signature r a t u sg) k = Inr vf' \<and> vf' ref i = vf ref i"
  using assms(1)
  by (auto simp: NewKeyedVerifier_def Let_def verify_keyed_def assms(2) cong: sum.case_cong split: sum.split_asm option.split_asm)

lemma verify_keyless_copied:
  assumes "NewKeylessVerifier sg is s tr = Inr vf" and "bundleFromCosignOCI (copy_signature r a t u sg) ref i = bundleFromCosignOCI sg ref i"
  shows "\<exists>vf'. NewKeylessVerifier (copy_signature r a t u sg) is s tr = Inr vf' \<and> vf' ref i = vf ref i"
  using assms(1)
  by (auto simp: NewKeylessVerifier_def verify_keyless_def assms(2) cong: sum.case_cong split: sum.split_asm option.split_asm if_split_asm)

section \<open>An instance\<close>

definition demo_name :: "string \<Rightarrow> bool \<Rightarrow> string + NameRef" where
  "demo_name s insecure =
    (case cut_last CHR '':'' s of
       None \<Rightarrow> Inl ''no tag''
     | Some (ctx, t) \<Rightarrow> Inr \<lparr>nrContext = ctx, nrIdentifier = t, nrInsecure = insecure\<rparr>)"

definition demo_layer :: SigDescriptor where
  "demo_layer = \<lparr>sdMediaType = cosignSimpleSigningMediaType, sdDigestHex = ''0b0C'',
     sdAnnotations = Some [(cosignAnnotationSignature, ''c2lnbg==''), (cosignAnnotationCert, ''x!'')]\<rparr>"

definition demo_remote :: "NameRef \<Rightarrow> string + RemoteDescriptor" where
  "demo_remote nr =
    (if nrIdentifier nr = ''v1'' then Inr \<lparr>rdDigestHex = ''aa'', rdImage = Inl ''none''\<rparr>
     else if nrIdentifier nr = ''sha256-aa.sig'' then Inr \<lparr>rdDigestHex = ''cc'', rdImage = Inr (Inr [demo_layer])\<rparr>
     else Inl ''not found'')"

definition demo_pem :: "string \<Rightarrow> ((string \<times> string) \<times> string) option" where
  "demo_pem s = (case s of [] \<Rightarrow> None | c # r \<Rightarrow> Some ((if c = CHR ''!'' then ''CERTIFICATE'' else ''NOTE'', [c]), r))"

text \<open>A verifier that accepts one signature, over one digest only.\<close>

definition demo_sigstore :: sigstore where
  "demo_sigstore = \<lparr>sgParseReference = demo_name, sgNewTag = demo_name, sgRemoteGet = demo_remote, sgPemDecode = demo_pem,
     sgParseCertificate = (\<lambda>_. None), sgUnmarshalRekor = (\<lambda>_. Inl ''json''), sgNewBundle = (\<lambda>_. None), sgNewVerifier = (\<lambda>_ _. None),
     sgVerify = (\<lambda>_ _ bun pol. if pbSignature bun = ''sign'' \<and> pbMessageDigest bun = [CHR 0x0B, CHR 0x0C] \<and>
         spArtifactDigest pol = (''sha256'', [CHR 0x0B, CHR 0x0C])
       then Inr \<lparr>ssVerifiedIdentity = None, ssCertificate = Some (''issuer'', ''signer'')\<rparr> else Inl ''bad signature''),
     sgTrustedRootFromPath = Inr, sgFetchTrustedRoot = Inr [], sgCertificateIdentity = (\<lambda>i _ s _. Inr (i @ s)),
     sgReadFile = Inr, sgUnmarshalPublicKey = Inr, sgLoadVerifier = Inr, sgNow = 7\<rparr>"

theorem parseCertificateChain_terminates_witness:
  "parseCertificateChain demo_sigstore ''x!'' = Inr [''!'']"
proof -
  have c: "consumes (sgPemDecode demo_sigstore)"
    by (auto simp: consumes_def demo_sigstore_def demo_pem_def split: list.splits)
  obtain bs where bs: "pem_blocks (sgPemDecode demo_sigstore) ''x!'' bs"
      "parseCertificateChain demo_sigstore ''x!'' =
        (case List.find (\<lambda>c. sgParseCertificate demo_sigstore c \<noteq> None) (certificates bs) of
           Some c \<Rightarrow> Inl (''invalid certificate in chain: '' @ the (sgParseCertificate demo_sigstore c))
         | None \<Rightarrow> if certificates bs = [] then Inl ''no certificates found in PEM data'' else Inr (certificates bs))"
    using parseCertificateChain_terminates[OF c] by blast
  have "pem_blocks (sgPemDecode demo_sigstore) ''x!'' [(''NOTE'', ''x''), (''CERTIFICATE'', ''!'')]"
    by (rule pem_block[where rest = "''!''"], simp add: demo_sigstore_def demo_pem_def,
        rule pem_block[where rest = "[]"], simp add: demo_sigstore_def demo_pem_def,
        rule pem_end, simp add: demo_sigstore_def demo_pem_def)
  then have "bs = [(''NOTE'', ''x''), (''CERTIFICATE'', ''!'')]" using bs(1) pem_blocks_unique by blast
  with bs(2) show ?thesis by (simp add: certificates_def demo_sigstore_def)
qed

end
