(* ===== verification/Generation.thy ===== *)
theory Generation
  imports Complypack_Cache Policy_Resolver Workspace
begin

text \<open>
  Generation: the persisted generation state of a policy (\<^verbatim>\<open>internal/policy/generation_state.go\<close>),
  when a scan regenerates, and the calls to the providers' Generate
  (\<^verbatim>\<open>cmd/complyctl/cli/scan.go\<close>, \<^verbatim>\<open>generate.go\<close>). What a provider writes while it generates is outside
  the model: providers are functions.
\<close>

datatype gen_err =
    GMkdir path
  | GWrite path
  | GRead path
  | GParse path
  | GRoot path
  | GWalk path
  | GRemoveState path
  | GInvalidEvaluator path_err
  | GRemoveArtifacts path
  | GCacheState cache_err
  | GLookup string cache_err
  | GProvider prov_err

section \<open>The generation state\<close>

definition generationDir :: "path \<Rightarrow> path" where
  "generationDir baseDir = fp_join baseDir [WorkspaceDir, ''generation'']"

definition generationPath :: "path \<Rightarrow> string \<Rightarrow> path" where
  "generationPath baseDir policyID = fp_join baseDir [WorkspaceDir, ''generation'', policyID @ ''.json'']"

definition SaveGenerationState :: "faults \<Rightarrow> path \<Rightarrow> string \<Rightarrow> GenerationState \<Rightarrow> fs \<Rightarrow> fs \<times> gen_err option" where
  "SaveGenerationState flt baseDir policyID state s =
    (let path = generationPath baseDir policyID; dir = butlast path in
     case fs_MkdirAll flt dir s of
       (s1, False) \<Rightarrow> (s1, Some (GMkdir dir))
     | (s1, True) \<Rightarrow>
        (case fs_WriteFile flt path (GenDoc state) s1 of
           (s2, False) \<Rightarrow> (s2, Some (GWrite path))
         | (s2, True) \<Rightarrow> (s2, None)))"

definition LoadGenerationState :: "faults \<Rightarrow> path \<Rightarrow> string \<Rightarrow> fs \<Rightarrow> gen_err + GenerationState option" where
  "LoadGenerationState flt baseDir policyID s =
    (let path = generationPath baseDir policyID in
     case fs_ReadFile flt path s of
       NoDoc \<Rightarrow> Inr None
     | UnreadableDoc \<Rightarrow> Inl (GRead path)
     | Doc (GenDoc g) \<Rightarrow> Inr (Some g)
     | Doc _ \<Rightarrow> Inl (GParse path))"

text \<open>\<^verbatim>\<open>maps.Equal\<close>.\<close>

definition maps_Equal :: "(string, string) gomap \<Rightarrow> (string, string) gomap \<Rightarrow> bool" where
  "maps_Equal m n \<longleftrightarrow> length m = length n \<and> list_all (\<lambda>(k, v). go_get n k = Some v) m"

definition IsFresh :: "GenerationState \<Rightarrow> string \<Rightarrow> (string, string) gomap \<Rightarrow> bool" where
  "IsFresh g currentDigest currentComplypackDigests =
    (if gsPolicyDigest g \<noteq> currentDigest then False
     else maps_Equal (gsComplypackDigests g) currentComplypackDigests)"

definition NewGenerationState ::
    "string \<Rightarrow> string \<Rightarrow> string \<Rightarrow> string list \<Rightarrow> (string, string) gomap \<Rightarrow> GenerationState" where
  "NewGenerationState now policyID digest evaluatorIDs complypackDigests =
    \<lparr>gsPolicyID = policyID, gsPolicyDigest = digest, gsComplypackDigests = complypackDigests,
     gsGeneratedAt = now, gsEvaluatorIDs = evaluatorIDs\<rparr>"

text \<open>The walk of \<^verbatim>\<open>InvalidateForEvaluator\<close>, in lexical order; a warning is the path that was skipped.\<close>

fun invalidate_loop ::
    "faults \<Rightarrow> string \<Rightarrow> (path \<times> node) list \<Rightarrow> path list \<Rightarrow> fs \<Rightarrow> fs \<times> path list \<times> gen_err option" where
  "invalidate_loop flt evaluatorID [] warnings s = (s, warnings, None)"
| "invalidate_loop flt evaluatorID ((q, Dir) # rest) warnings s =
    (if flt (OpReadDir q) then (s, warnings, Some (GWalk q)) else invalidate_loop flt evaluatorID rest warnings s)"
| "invalidate_loop flt evaluatorID ((q, File d) # rest) warnings s =
    (if \<not> HasSuffix (last q) ''.json'' then invalidate_loop flt evaluatorID rest warnings s
     else case fs_ReadFile flt q s of
       Doc (GenDoc g) \<Rightarrow>
         if evaluatorID \<in> set (gsEvaluatorIDs g) then
           (case fs_Remove flt q s of
              (s1, True) \<Rightarrow> invalidate_loop flt evaluatorID rest warnings s1
            | (s1, False) \<Rightarrow> (s1, warnings, Some (GRemoveState q)))
         else invalidate_loop flt evaluatorID rest warnings s
     | _ \<Rightarrow> invalidate_loop flt evaluatorID rest (warnings @ [q]) s)"

definition walk_entries :: "path \<Rightarrow> fs \<Rightarrow> (path \<times> node) list" where
  "walk_entries dir s = sort_key fst (filter (\<lambda>(q, n). under dir q) s)"

definition InvalidateForEvaluator :: "faults \<Rightarrow> path \<Rightarrow> string \<Rightarrow> fs \<Rightarrow> fs \<times> path list \<times> gen_err option" where
  "InvalidateForEvaluator flt baseDir evaluatorID s =
    (let genDir = generationDir baseDir in
     case go_get s genDir of
       None \<Rightarrow> (s, [], None)
     | Some (File _) \<Rightarrow> (s, [], Some (GRoot genDir))
     | Some Dir \<Rightarrow>
        if flt (OpOpen genDir) then (s, [], Some (GRoot genDir))
        else invalidate_loop flt evaluatorID (walk_entries genDir s) [] s)"

definition RemoveEvaluatorArtifacts :: "faults \<Rightarrow> path \<Rightarrow> string \<Rightarrow> fs \<Rightarrow> fs \<times> gen_err option" where
  "RemoveEvaluatorArtifacts flt baseDir evaluatorID s =
    (case ValidatePathComponent evaluatorID of
       Some e \<Rightarrow> (s, Some (GInvalidEvaluator e))
     | None \<Rightarrow>
        (let dir = fp_join baseDir [WorkspaceDir, evaluatorID] in
         case fs_RemoveAll flt dir s of
           (s1, True) \<Rightarrow> (s1, None)
         | (s1, False) \<Rightarrow> (s1, Some (GRemoveArtifacts dir))))"

section \<open>When to regenerate\<close>

definition complypackDigestsByEvaluator :: "State \<Rightarrow> (string, string) gomap" where
  "complypackDigestsByEvaluator cacheState =
    foldl (\<lambda>m (k, ps). if psEvaluatorID ps \<noteq> [] \<and> psDigest ps \<noteq> [] then go_put (psEvaluatorID ps) (psDigest ps) m else m)
      [] (stComplypacks cacheState)"

definition filterComplypackDigests :: "(string, string) gomap \<Rightarrow> string list \<Rightarrow> (string, string) gomap" where
  "filterComplypackDigests allDigests availableEvaluators =
    foldl (\<lambda>m e. case go_get allDigests e of Some d \<Rightarrow> go_put e d m | None \<Rightarrow> m) [] availableEvaluators"

definition evaluatorArtifactsExist :: "faults \<Rightarrow> path \<Rightarrow> string list \<Rightarrow> fs \<Rightarrow> bool" where
  "evaluatorArtifactsExist flt baseDir evaluatorIDs s =
    list_all (\<lambda>evalID.
      (let evalDir = fp_join baseDir [WorkspaceDir, evalID] in
       \<not> flt (OpStat evalDir) \<and> is_dir (go_get s evalDir) \<and>
       (case fs_ReadDir flt evalDir s of Entries (_ # _) \<Rightarrow> True | _ \<Rightarrow> False))) evaluatorIDs"

definition needsRegeneration ::
    "faults \<Rightarrow> path \<Rightarrow> GenerationState option \<Rightarrow> string \<Rightarrow> (string, string) gomap \<Rightarrow> fs \<Rightarrow> bool" where
  "needsRegeneration flt baseDir genState digest complypackDigests s =
    (case genState of
       None \<Rightarrow> True
     | Some g \<Rightarrow>
        if \<not> IsFresh g digest complypackDigests then True
        else \<not> evaluatorArtifactsExist flt baseDir (gsEvaluatorIDs g) s)"

definition state_digest :: "State \<Rightarrow> string \<Rightarrow> string" where
  "state_digest st repository = (case GetPolicyState st repository of Some ps \<Rightarrow> psDigest ps | None \<Rightarrow> [])"

definition checkGenerationFreshness ::
    "faults \<Rightarrow> path \<Rightarrow> path \<Rightarrow> string \<Rightarrow> fs \<Rightarrow> gen_err + bool \<times> string \<times> (string, string) gomap" where
  "checkGenerationFreshness flt dataDir baseDir repository s =
    (case LoadState flt dataDir s of
       Inl e \<Rightarrow> Inl (GCacheState e)
     | Inr cacheState \<Rightarrow>
        (let digest = state_digest cacheState repository;
             cpDigests = complypackDigestsByEvaluator cacheState in
         case LoadGenerationState flt baseDir repository s of
           Inl e \<Rightarrow> Inl e
         | Inr genState \<Rightarrow> Inr (needsRegeneration flt baseDir genState digest cpDigests s, digest, cpDigests)))"

section \<open>Generating\<close>

definition evaluatorIDList :: "(string, EvaluatorGroup) gomap \<Rightarrow> string list" where
  "evaluatorIDList groups = map fst groups"

definition targetIDList :: "TargetConfig list \<Rightarrow> string list" where
  "targetIDList targets = map tcID targets"

definition filterTargetsForPolicy :: "TargetConfig list \<Rightarrow> string \<Rightarrow> TargetConfig list" where
  "filterTargetsForPolicy targets policyID = filter (\<lambda>t. policyID \<in> set (tcPolicies t)) targets"

definition filterTargetByID :: "TargetConfig list \<Rightarrow> string \<Rightarrow> TargetConfig list" where
  "filterTargetByID targets targetID =
    (case List.find (\<lambda>t. tcID t = targetID) targets of Some t \<Rightarrow> [t] | None \<Rightarrow> targets)"

fun generate_loop ::
    "faults \<Rightarrow> ComplypackCache \<Rightarrow> manager \<Rightarrow> string \<Rightarrow> (string, EvaluatorGroup) gomap \<Rightarrow> TargetConfig list \<Rightarrow>
      (string, string) gomap \<Rightarrow> fs \<Rightarrow> string list \<Rightarrow> gen_err + string list" where
  "generate_loop flt cc mgr workspace [] policyTargets globalVars s available = Inr available"
| "generate_loop flt cc mgr workspace ((evalID, grp) # groups) policyTargets globalVars s available =
    (case LookupByEvaluatorID flt cc evalID s of
       Inl e \<Rightarrow> Inl (GLookup evalID e)
     | Inr found \<Rightarrow>
        (let contentPath = (case found of Some (p, cfg) \<Rightarrow> path_string p | None \<Rightarrow> []) in
         case first_err (\<lambda>target. RouteGenerate mgr evalID globalVars (WithWorkspaceVar (tcVariables target) workspace)
                           (egConfigs grp) contentPath) policyTargets of
           Some e \<Rightarrow> Inl (GProvider e)
         | None \<Rightarrow> generate_loop flt cc mgr workspace groups policyTargets globalVars s
                     (if contentPath \<noteq> [] then available @ [evalID] else available)))"

text \<open>\<open>env\<close> is the value of \<^verbatim>\<open>COMPLYTIME_CACHE_VERSIONS\<close>.\<close>

definition generateForAllTargets ::
    "faults \<Rightarrow> string \<Rightarrow> path \<Rightarrow> path \<Rightarrow> manager \<Rightarrow> (string, EvaluatorGroup) gomap \<Rightarrow> TargetConfig list \<Rightarrow>
      (string, string) gomap \<Rightarrow> fs \<Rightarrow> gen_err + string list" where
  "generateForAllTargets flt env cacheDir dataDir mgr groups policyTargets globalVars s =
    (let cacheState = (case LoadState flt dataDir s of Inl _ \<Rightarrow> None | Inr st \<Rightarrow> Some st) in
     generate_loop flt (NewComplypackCache env cacheDir cacheState) mgr (go_str globalVars WorkspaceVarKey)
       groups policyTargets globalVars s [])"

definition runGeneration ::
    "faults \<Rightarrow> string \<Rightarrow> string \<Rightarrow> path \<Rightarrow> path \<Rightarrow> path \<Rightarrow> manager \<Rightarrow> (string, EvaluatorGroup) gomap \<Rightarrow>
      TargetConfig list \<Rightarrow> (string, string) gomap \<Rightarrow> string \<Rightarrow> string \<Rightarrow> string list \<Rightarrow> (string, string) gomap \<Rightarrow>
      fs \<Rightarrow> fs \<times> gen_err option" where
  "runGeneration flt env now cacheDir dataDir baseDir mgr groups policyTargets globalVars repository policyDigest
     evaluatorIDs complypackDigests s =
    (case generateForAllTargets flt env cacheDir dataDir mgr groups policyTargets globalVars s of
       Inl e \<Rightarrow> (s, Some e)
     | Inr availableEvaluators \<Rightarrow>
        SaveGenerationState flt baseDir repository
          (NewGenerationState now repository policyDigest evaluatorIDs
             (filterComplypackDigests complypackDigests availableEvaluators)) s)"

definition ensureGenerated ::
    "faults \<Rightarrow> string \<Rightarrow> string \<Rightarrow> path \<Rightarrow> path \<Rightarrow> path \<Rightarrow> manager \<Rightarrow> (string, EvaluatorGroup) gomap \<Rightarrow>
      TargetConfig list \<Rightarrow> (string, string) gomap \<Rightarrow> string \<Rightarrow> string list \<Rightarrow> fs \<Rightarrow> fs \<times> gen_err option" where
  "ensureGenerated flt env now cacheDir dataDir baseDir mgr groups policyTargets configVars repository evaluatorIDs s =
    (case checkGenerationFreshness flt dataDir baseDir repository s of
       Inl e \<Rightarrow> (s, Some e)
     | Inr (needsGenerate, policyDigest, cpDigests) \<Rightarrow>
        if \<not> needsGenerate then (s, None)
        else runGeneration flt env now cacheDir dataDir baseDir mgr groups policyTargets
               (WithWorkspaceVar configVars (path_string baseDir)) repository policyDigest evaluatorIDs cpDigests s)"

section \<open>The generate command\<close>

record ExecutionPlanRow =
  xpTargetID :: string
  xpProviderID :: string
  xpRequirementCount :: nat
  xpStatus :: string

definition providerStatus :: "manager \<Rightarrow> string \<Rightarrow> string" where
  "providerStatus mgr evalID = (case GetProvider mgr evalID of Inl _ \<Rightarrow> ''ERROR'' | Inr _ \<Rightarrow> ''healthy'')"

definition buildExecutionPlan ::
    "manager \<Rightarrow> (string, EvaluatorGroup) gomap \<Rightarrow> TargetConfig list \<Rightarrow> string list \<times> ExecutionPlanRow list" where
  "buildExecutionPlan mgr groups policyTargets =
    (map fst groups,
     concat (map (\<lambda>(evalID, grp). map (\<lambda>target.
       \<lparr>xpTargetID = tcID target, xpProviderID = evalID, xpRequirementCount = length (egConfigs grp),
        xpStatus = providerStatus mgr evalID\<rparr>) policyTargets) groups))"

definition invokeGenerate ::
    "faults \<Rightarrow> string \<Rightarrow> path \<Rightarrow> path \<Rightarrow> path \<Rightarrow> manager \<Rightarrow> (string, EvaluatorGroup) gomap \<Rightarrow> TargetConfig list \<Rightarrow>
      (string, string) gomap \<Rightarrow> fs \<Rightarrow> gen_err + string list \<times> string list \<times> ExecutionPlanRow list" where
  "invokeGenerate flt env cacheDir dataDir baseDir mgr groups policyTargets configVars s =
    (case generateForAllTargets flt env cacheDir dataDir mgr groups policyTargets
            (WithWorkspaceVar configVars (path_string baseDir)) s of
       Inl e \<Rightarrow> Inl e
     | Inr availableEvaluators \<Rightarrow>
        (let (evaluatorIDs, planRows) = buildExecutionPlan mgr groups policyTargets in
         Inr (evaluatorIDs, availableEvaluators, planRows)))"

definition saveGenerationAndPrint ::
    "faults \<Rightarrow> string \<Rightarrow> path \<Rightarrow> path \<Rightarrow> string \<Rightarrow> string list \<Rightarrow> string list \<Rightarrow> fs \<Rightarrow> fs \<times> gen_err option" where
  "saveGenerationAndPrint flt now dataDir baseDir repository evaluatorIDs availableEvaluators s =
    (case LoadState flt dataDir s of
       Inl e \<Rightarrow> (s, Some (GCacheState e))
     | Inr cacheState \<Rightarrow>
        SaveGenerationState flt baseDir repository
          (NewGenerationState now repository (state_digest cacheState repository) evaluatorIDs
             (filterComplypackDigests (complypackDigestsByEvaluator cacheState) availableEvaluators)) s)"

text \<open>The status symbols as UTF-8 bytes.\<close>

definition StatusPassed :: string where "StatusPassed = [CHR 0xE2, CHR 0x9C, CHR 0x85]"
definition StatusFailed :: string where "StatusFailed = [CHR 0xE2, CHR 0x9D, CHR 0x8C]"
definition StatusSkipped :: string where "StatusSkipped = [CHR 0xE2, CHR 0x8F, CHR 0xAD, CHR 0xEF, CHR 0xB8, CHR 0x8F]"
definition StatusError :: string where "StatusError = [CHR 0xE2, CHR 0x9A, CHR 0xA0, CHR 0xEF, CHR 0xB8, CHR 0x8F]"

definition statusEmoji :: "string \<Rightarrow> string" where
  "statusEmoji status = (if status = ''healthy'' then StatusPassed else StatusFailed)"

definition FormatExecutionPlan :: "string \<Rightarrow> ExecutionPlanRow list \<Rightarrow> string" where
  "FormatExecutionPlan effectiveID rows =
    ''Execution Plan: '' @ effectiveID @ [nl] @
    concat (map (\<lambda>r. nl # ''  Target: '' @ xpTargetID r @ nl # ''    Provider: '' @ xpProviderID r @ '' ('' @
       statusEmoji (xpStatus r) @ '' '' @ xpStatus r @ '')'' @ nl # ''    Requirements: '' @
       show_nat (xpRequirementCount r) @ [nl]) rows) @
    nl # ''Generation completed.'' @ [nl]"

definition FormatPreScanSummary :: "nat \<Rightarrow> string list \<Rightarrow> string list \<Rightarrow> string" where
  "FormatPreScanSummary requirementCount providerIDs targetIDs =
    ''Scanning '' @ show_nat requirementCount @ '' requirements via '' @ Join '', '' providerIDs @
    '' for target(s): '' @ Join '', '' targetIDs @ ''...''"

section \<open>Properties of the generation state\<close>

lemma SaveGenerationState_Load:
  "SaveGenerationState no_faults baseDir p g s = (s', None) \<Longrightarrow> LoadGenerationState no_faults baseDir p s' = Inr (Some g)"
  by (auto simp: SaveGenerationState_def LoadGenerationState_def Let_def fs_WriteFile_def fs_Write_def fs_ReadFile_def
      split: prod.splits bool.splits if_splits)

text \<open>\<^verbatim>\<open>maps.Equal\<close> on well-formed maps is equality of what they read.\<close>

lemma maps_Equal_iff:
  assumes "go_wf m" "go_wf n"
  shows "maps_Equal m n \<longleftrightarrow> go_get m = go_get n"
proof
  assume eq: "maps_Equal m n"
  have "set m \<subseteq> set n"
    using eq assms(2) by (auto simp: maps_Equal_def list_all_iff gm.get_entries)
  moreover have "distinct m" "distinct n" using assms by (auto simp: go_wf_def distinct_map)
  moreover have "length m = length n" using eq by (simp add: maps_Equal_def)
  ultimately have "set m = set n" by (metis card_subset_eq distinct_card List.finite_set)
  then show "go_get m = go_get n"
    using assms by (auto simp: fun_eq_iff) (metis gm.get_entries option.exhaust)
next
  assume "go_get m = go_get n"
  moreover from this have "set m = set n" using assms by (metis gm.get_entries subrelI subset_antisym)
  moreover have "distinct m" "distinct n" using assms by (auto simp: go_wf_def distinct_map)
  ultimately show "maps_Equal m n"
    using assms by (auto simp: maps_Equal_def list_all_iff gm.get_entries distinct_card[symmetric])
qed

lemma filterComplypackDigests_fold:
  "go_wf m \<Longrightarrow> go_wf (foldl (\<lambda>m e. case go_get all e of Some d \<Rightarrow> go_put e d m | None \<Rightarrow> m) m es) \<and>
   go_get (foldl (\<lambda>m e. case go_get all e of Some d \<Rightarrow> go_put e d m | None \<Rightarrow> m) m es) k =
     (if k \<in> set es \<and> go_get all k \<noteq> None then go_get all k else go_get m k)"
  by (induction es arbitrary: m) (auto simp: gm.wf_put split: option.splits)

lemma filterComplypackDigests_wf: "go_wf (filterComplypackDigests all es)"
  unfolding filterComplypackDigests_def using filterComplypackDigests_fold[of "[]" all es] by auto

lemma filterComplypackDigests_get:
  "go_get (filterComplypackDigests all es) k = (if k \<in> set es then go_get all k else None)"
  unfolding filterComplypackDigests_def using filterComplypackDigests_fold[of "[]" all es k] by auto

lemma complypackDigestsByEvaluator_wf: "go_wf (complypackDigestsByEvaluator st)"
proof -
  have "go_wf m \<Longrightarrow> go_wf (foldl (\<lambda>m (k, ps). if psEvaluatorID ps \<noteq> [] \<and> psDigest ps \<noteq> []
      then go_put (psEvaluatorID ps) (psDigest ps) m else m) m xs)" for m xs
    by (induction xs arbitrary: m) (auto simp: gm.wf_put)
  from this[of "[]"] show ?thesis by (simp add: complypackDigestsByEvaluator_def)
qed

text \<open>A saved generation is fresh exactly when every cached complypack was used for it.\<close>

lemma IsFresh_filtered:
  assumes "go_wf cp"
  shows "IsFresh (NewGenerationState now p d evs (filterComplypackDigests cp available)) d cp \<longleftrightarrow>
    set (go_keys cp) \<subseteq> set available"
proof -
  have "go_get (filterComplypackDigests cp available) = go_get cp \<longleftrightarrow> (\<forall>k. k \<notin> set available \<longrightarrow> go_get cp k = None)"
    by (auto simp: fun_eq_iff filterComplypackDigests_get)
  also have "\<dots> \<longleftrightarrow> set (go_keys cp) \<subseteq> set available"
    by (auto simp flip: go_has_keys simp: go_has_get)
  finally show ?thesis
    by (simp add: IsFresh_def NewGenerationState_def maps_Equal_iff filterComplypackDigests_wf assms)
qed

lemma generate_loop_available:
  "generate_loop flt cc mgr ws groups ts vars s av = Inr available \<Longrightarrow> set available \<subseteq> set av \<union> fst ` set groups"
proof (induction groups arbitrary: av)
  case (Cons x groups)
  obtain ev grp where x: "x = (ev, grp)" by (cases x)
  with Cons.prems obtain av' where "generate_loop flt cc mgr ws groups ts vars s av' = Inr available"
    "set av' \<subseteq> insert ev (set av)"
    by (auto simp: Let_def split: sum.splits option.splits if_splits)
  with Cons.IH x show ?case by fastforce
qed simp

lemma runGeneration_saved:
  assumes "runGeneration no_faults env now cacheDir dataDir baseDir mgr groups ts vars repo digest evs cp s = (s', None)"
  obtains available where "generateForAllTargets no_faults env cacheDir dataDir mgr groups ts vars s = Inr available"
    "LoadGenerationState no_faults baseDir repo s' =
      Inr (Some (NewGenerationState now repo digest evs (filterComplypackDigests cp available)))"
    "set available \<subseteq> fst ` set groups"
  using assms SaveGenerationState_Load generate_loop_available
  by (fastforce simp: runGeneration_def generateForAllTargets_def Let_def split: sum.splits)

text \<open>
  Property C27. What a generation records decides whether the next scan reuses it: after a
  successful generation the saved state reads back, and it is fresh for the same policy digest and
  the same cached complypacks exactly when the content of every cached complypack was used.
\<close>

theorem generation_fresh_iff:
  assumes "runGeneration no_faults env now cacheDir dataDir baseDir mgr groups ts vars repo digest evs
      (complypackDigestsByEvaluator st) s = (s', None)"
  shows "\<exists>available g. generateForAllTargets no_faults env cacheDir dataDir mgr groups ts vars s = Inr available \<and>
    LoadGenerationState no_faults baseDir repo s' = Inr (Some g) \<and> gsEvaluatorIDs g = evs \<and>
    (IsFresh g digest (complypackDigestsByEvaluator st) \<longleftrightarrow>
      set (go_keys (complypackDigestsByEvaluator st)) \<subseteq> set available)"
proof -
  obtain available where a: "generateForAllTargets no_faults env cacheDir dataDir mgr groups ts vars s = Inr available"
    "LoadGenerationState no_faults baseDir repo s' =
      Inr (Some (NewGenerationState now repo digest evs (filterComplypackDigests (complypackDigestsByEvaluator st) available)))"
    using assms by (rule runGeneration_saved)
  then show ?thesis
    using IsFresh_filtered[OF complypackDigestsByEvaluator_wf, of now repo digest evs st available]
    by (auto simp: NewGenerationState_def)
qed

text \<open>
  A complypack cached for an evaluator the policy does not use makes every scan of
  the policy regenerate: the freshness check right after a successful generation, in the state
  that generation was made from, asks for generation again.
\<close>

theorem foreign_complypack_regenerates:
  assumes "runGeneration no_faults env now cacheDir dataDir baseDir mgr groups ts vars repo
      (state_digest st repo) evs (complypackDigestsByEvaluator st) s = (s', None)"
    and "LoadState no_faults dataDir s' = Inr st"
    and "go_has (complypackDigestsByEvaluator st) e" "e \<notin> fst ` set groups"
  shows "checkGenerationFreshness no_faults dataDir baseDir repo s' =
    Inr (True, state_digest st repo, complypackDigestsByEvaluator st)"
proof -
  obtain available where a: "LoadGenerationState no_faults baseDir repo s' =
      Inr (Some (NewGenerationState now repo (state_digest st repo) evs
        (filterComplypackDigests (complypackDigestsByEvaluator st) available)))"
    "set available \<subseteq> fst ` set groups"
    using assms(1) by (rule runGeneration_saved)
  with assms(3,4) have "\<not> set (go_keys (complypackDigestsByEvaluator st)) \<subseteq> set available" by auto
  then have "\<not> IsFresh (NewGenerationState now repo (state_digest st repo) evs
      (filterComplypackDigests (complypackDigestsByEvaluator st) available)) (state_digest st repo) (complypackDigestsByEvaluator st)"
    using IsFresh_filtered[OF complypackDigestsByEvaluator_wf] by blast
  with a assms(2) show ?thesis by (simp add: checkGenerationFreshness_def needsRegeneration_def Let_def)
qed

subsection \<open>Invalidation\<close>

definition mentions :: "string \<Rightarrow> path \<Rightarrow> node \<Rightarrow> bool" where
  "mentions ev q n \<longleftrightarrow> HasSuffix (last q) ''.json'' \<and>
     (case n of File (GenDoc g) \<Rightarrow> ev \<in> set (gsEvaluatorIDs g) | _ \<Rightarrow> False)"

lemma invalidate_skip:
  assumes "go_get s q = Some n" "\<not> mentions ev q n"
  shows "\<exists>ws'. invalidate_loop no_faults ev ((q, n) # es) ws s = invalidate_loop no_faults ev es ws' s"
proof (cases n)
  case (File d)
  then have "fs_ReadFile no_faults q s = Doc d" using assms(1) by (simp add: fs_ReadFile_def)
  then show ?thesis using File assms(2) by (cases d; cases "HasSuffix (last q) ''.json''") (auto simp: mentions_def)
qed auto

lemma invalidate_loop_get:
  assumes "distinct (map fst es)" "\<forall>(q, n) \<in> set es. go_get s q = Some n"
  shows "snd (snd (invalidate_loop no_faults ev es ws s)) = None \<and>
    go_get (fst (invalidate_loop no_faults ev es ws s)) q =
      (if \<exists>n. (q, n) \<in> set es \<and> mentions ev q n then None else go_get s q)"
  using assms
proof (induction es arbitrary: ws s)
  case (Cons x es)
  obtain q' n' where x: "x = (q', n')" by (cases x)
  have rest: "\<forall>(q, n) \<in> set es. go_get s q = Some n" "q' \<notin> fst ` set es" "distinct (map fst es)" "go_get s q' = Some n'"
    using Cons.prems x by auto
  then have rest': "\<forall>(q, n) \<in> set es. go_get (go_del q' s) q = Some n" by force
  show ?case
  proof (cases "mentions ev q' n'")
    case True
    then obtain g where g: "n' = File (GenDoc g)" "HasSuffix (last q') ''.json''" "ev \<in> set (gsEvaluatorIDs g)"
      by (auto simp: mentions_def split: node.split_asm fdata.split_asm)
    with rest(4) have "invalidate_loop no_faults ev (x # es) ws s = invalidate_loop no_faults ev es ws (go_del q' s)"
      by (simp add: x fs_ReadFile_def fs_Remove_def)
    with Cons.IH[OF rest(3) rest', of ws] True rest(2) x show ?thesis by auto
  next
    case False
    with rest(4) obtain ws' where "invalidate_loop no_faults ev (x # es) ws s = invalidate_loop no_faults ev es ws' s"
      unfolding x using invalidate_skip by blast
    with Cons.IH[OF rest(3,1), of ws'] False x show ?thesis by auto
  qed
qed simp

text \<open>
  Invalidating an evaluator removes exactly the generation states that mention it:
  on a file system without faults the walk ends without an error, every readable state file below
  the generation directory that names the evaluator is gone, and every other path is as before.
\<close>

theorem InvalidateForEvaluator_exact:
  assumes "go_wf s" "go_get s (generationDir baseDir) = Some Dir"
  shows "snd (snd (InvalidateForEvaluator no_faults baseDir ev s)) = None \<and>
    go_get (fst (InvalidateForEvaluator no_faults baseDir ev s)) q =
      (case go_get s q of
         Some n \<Rightarrow> if under (generationDir baseDir) q \<and> mentions ev q n then None else Some n
       | None \<Rightarrow> None)"
proof -
  let ?es = "walk_entries (generationDir baseDir) s"
  have set: "set ?es = {(q, n) \<in> set s. under (generationDir baseDir) q}" by (auto simp: walk_entries_def)
  have "distinct (map fst ?es)"
    using assms(1) by (auto simp: walk_entries_def go_wf_def distinct_map inj_on_def)
  moreover have "\<forall>(q, n) \<in> set ?es. go_get s q = Some n"
    using assms(1) by (auto simp: set gm.get_entries)
  ultimately have "snd (snd (invalidate_loop no_faults ev ?es [] s)) = None \<and>
    go_get (fst (invalidate_loop no_faults ev ?es [] s)) q =
      (if \<exists>n. (q, n) \<in> set ?es \<and> mentions ev q n then None else go_get s q)"
    by (rule invalidate_loop_get)
  then show ?thesis
    using assms by (auto simp: InvalidateForEvaluator_def Let_def set gm.get_entries[symmetric] split: option.splits)
qed

text \<open>
  The evaluator ID \<^verbatim>\<open>.\<close> passes the check of path components, and removing its artifacts removes
  the whole workspace directory, generation states and scan output included.
\<close>

lemma RemoveEvaluatorArtifacts_dot:
  assumes "abs_path baseDir"
  shows "RemoveEvaluatorArtifacts no_faults baseDir ''.'' s =
    (filter (\<lambda>(q, n). \<not> under (baseDir @ [WorkspaceDir]) q) s, None)"
proof -
  have "fp_join baseDir [WorkspaceDir, ''.''] = baseDir @ [WorkspaceDir]"
    using assms by (simp add: fp_join_def clean_comps_def foldl_clean_plain WorkspaceDir_def plain_comp_def clean_step.simps)
  moreover have "ValidatePathComponent ''.'' = None" by code_simp
  ultimately show ?thesis by (simp add: RemoveEvaluatorArtifacts_def fs_RemoveAll_def)
qed


subsection \<open>Witnesses\<close>

text \<open>A policy routed to one evaluator, and a cache that also holds a complypack of another one.\<close>

definition demo_groups :: "(string, EvaluatorGroup) gomap" where
  "demo_groups = [(''b'', \<lparr>egEvaluatorID = ''b'', egConfigs = []\<rparr>)]"

definition demo_gen_state :: State where
  "demo_gen_state = empty_state\<lparr>stComplypacks := [(''r/x'', fresh_entry 1 ''1.0'' (''sha256:'' @ replicate 64 CHR ''a'') ''x'' None)]\<rparr>"

definition demo_gen_fs :: fs where
  "demo_gen_fs = [([''c''], Dir), ([''d''], Dir), ([''d'', ''state.json''], File (StateDoc demo_gen_state)), ([''w''], Dir)]"

definition demo_gen_result :: fs where
  "demo_gen_result = fst (runGeneration no_faults [] ''t'' [''c''] [''d''] [''w''] demo_manager demo_groups [] [] ''p''
     (state_digest demo_gen_state ''p'') [''b''] (complypackDigestsByEvaluator demo_gen_state) demo_gen_fs)"

lemma demo_generation:
  "runGeneration no_faults [] ''t'' [''c''] [''d''] [''w''] demo_manager demo_groups [] [] ''p''
     (state_digest demo_gen_state ''p'') [''b''] (complypackDigestsByEvaluator demo_gen_state) demo_gen_fs = (demo_gen_result, None)"
  unfolding demo_gen_result_def by code_simp

lemma demo_gen_load: "LoadState no_faults [''d''] demo_gen_result = Inr demo_gen_state"
  by code_simp

lemma demo_gen_foreign: "go_has (complypackDigestsByEvaluator demo_gen_state) ''x''" "''x'' \<notin> fst ` set demo_groups"
  by code_simp+

theorem foreign_complypack_regenerates_witness:
  "checkGenerationFreshness no_faults [''d''] [''w''] ''p'' demo_gen_result =
    Inr (True, state_digest demo_gen_state ''p'', complypackDigestsByEvaluator demo_gen_state)"
  using foreign_complypack_regenerates[OF demo_generation demo_gen_load demo_gen_foreign] .

theorem generation_fresh_iff_witness:
  "\<exists>g. LoadGenerationState no_faults [''w''] ''p'' demo_gen_result = Inr (Some g) \<and> gsEvaluatorIDs g = [''b'']"
  using generation_fresh_iff[OF demo_generation] by blast

lemma demo_gen_wf: "go_wf demo_gen_result" "go_get demo_gen_result (generationDir [''w'']) = Some Dir"
  by code_simp+

theorem InvalidateForEvaluator_exact_witness:
  "go_get (fst (InvalidateForEvaluator no_faults [''w''] ''b'' demo_gen_result)) [''w'', ''.complytime'', ''generation'', ''p.json''] = None"
proof -
  let ?q = "[''w'', ''.complytime'', ''generation'', ''p.json'']"
  have "case go_get demo_gen_result ?q of Some n \<Rightarrow> under (generationDir [''w'']) ?q \<and> mentions ''b'' ?q n | None \<Rightarrow> False"
    by code_simp
  then obtain n where "go_get demo_gen_result ?q = Some n" "under (generationDir [''w'']) ?q \<and> mentions ''b'' ?q n"
    by (auto split: option.split_asm)
  then show ?thesis
    using InvalidateForEvaluator_exact[OF demo_gen_wf, of "''b''" ?q] by simp
qed

end
