(* ===== verification/Evaluation.thy ===== *)
theory Evaluation
  imports Generation
begin

text \<open>
  The evaluator (\<^verbatim>\<open>internal/output/evaluator.go\<close>, with the result mapping of \<^verbatim>\<open>sarif.go\<close> and the
  file names of \<^verbatim>\<open>filename.go\<close>): it accumulates the assessments of one target and assembles a
  Gemara evaluation log. The clock is a parameter (\<open>now\<close>, \<open>ts\<close>), as is the serialisation of the
  finished document. A step closure is represented by the triple it returns.
\<close>

section \<open>Results\<close>

datatype result = NotRun | Passed | Failed | NeedsReview | NotApplicable | Unknown

datatype confidence = Undetermined | Low | Medium | High

definition UpdateAggregateResult :: "result \<Rightarrow> result \<Rightarrow> result" where
  "UpdateAggregateResult previous new =
    (if new = NotRun then previous
     else if previous = Failed \<or> new = Failed then Failed
     else if previous = Unknown \<or> new = Unknown then Unknown
     else if previous = NeedsReview \<or> new = NeedsReview then NeedsReview
     else if previous = Passed \<or> new = Passed then Passed
     else NotApplicable)"

text \<open>Results are ordered by severity.\<close>

fun severity :: "result \<Rightarrow> nat" where
  "severity NotRun = 0"
| "severity NotApplicable = 1"
| "severity Passed = 2"
| "severity NeedsReview = 3"
| "severity Unknown = 4"
| "severity Failed = 5"

lemma severity_inj: "severity a = severity b \<longleftrightarrow> a = b"
  by (cases a; cases b) simp_all

instantiation result :: linorder
begin

definition less_eq_result :: "result \<Rightarrow> result \<Rightarrow> bool" where
  "less_eq_result a b \<longleftrightarrow> severity a \<le> severity b"

definition less_result :: "result \<Rightarrow> result \<Rightarrow> bool" where
  "less_result a b \<longleftrightarrow> severity a < severity b"

instance
  by standard (auto simp: less_eq_result_def less_result_def severity_inj)

end

definition result_string :: "result \<Rightarrow> string" where
  "result_string r = (case r of NotRun \<Rightarrow> ''Not Run'' | Passed \<Rightarrow> ''Passed'' | Failed \<Rightarrow> ''Failed''
     | NeedsReview \<Rightarrow> ''Needs Review'' | NotApplicable \<Rightarrow> ''Not Applicable'' | Unknown \<Rightarrow> ''Unknown'')"

definition confidence_string :: "confidence \<Rightarrow> string" where
  "confidence_string c = (case c of Undetermined \<Rightarrow> ''Undetermined'' | Low \<Rightarrow> ''Low'' | Medium \<Rightarrow> ''Medium'' | High \<Rightarrow> ''High'')"

definition providerResultToGemara :: "int \<Rightarrow> result" where
  "providerResultToGemara r =
    (if r = ResultPassed then Passed else if r = ResultFailed then Failed
     else if r = ResultSkipped then NotApplicable else if r = ResultError then Unknown else NotRun)"

definition aggregateResultFromSteps :: "Step list \<Rightarrow> result" where
  "aggregateResultFromSteps steps =
    foldl (\<lambda>agg s. UpdateAggregateResult agg (providerResultToGemara (stpResult s))) NotRun steps"

definition providerConfidenceToGemara :: "int \<Rightarrow> confidence" where
  "providerConfidenceToGemara c =
    (if c = 4 then High else if c = 3 then Medium else if c = 2 then Low else if c = 1 then Undetermined else Undetermined)"

definition matchingStepMessage :: "Step list \<Rightarrow> result \<Rightarrow> string" where
  "matchingStepMessage steps target =
    (case List.find (\<lambda>s. providerResultToGemara (stpResult s) = target) steps of
       Some s \<Rightarrow> stpMessage s
     | None \<Rightarrow> (case steps of s # _ \<Rightarrow> stpMessage s | [] \<Rightarrow> []))"

section \<open>Payloads\<close>

text \<open>\<^verbatim>\<open>utf8.Valid\<close> on bytes.\<close>

definition byte_in :: "nat \<Rightarrow> nat \<Rightarrow> char \<Rightarrow> bool" where
  "byte_in lo hi c \<longleftrightarrow> lo \<le> of_char c \<and> of_char c \<le> (hi :: nat)"

fun utf8_Valid :: "string \<Rightarrow> bool" where
  "utf8_Valid [] = True"
| "utf8_Valid (a # s) =
    (if byte_in 0 127 a then utf8_Valid s
     else if byte_in 194 223 a then
       (case s of b # s' \<Rightarrow> byte_in 128 191 b \<and> utf8_Valid s' | _ \<Rightarrow> False)
     else if byte_in 224 239 a then
       (case s of b # c # s' \<Rightarrow>
          byte_in (if of_char a = (224 :: nat) then 160 else 128) (if of_char a = (237 :: nat) then 159 else 191) b \<and>
          byte_in 128 191 c \<and> utf8_Valid s' | _ \<Rightarrow> False)
     else if byte_in 240 244 a then
       (case s of b # c # d # s' \<Rightarrow>
          byte_in (if of_char a = (240 :: nat) then 144 else 128) (if of_char a = (244 :: nat) then 143 else 191) b \<and>
          byte_in 128 191 c \<and> byte_in 128 191 d \<and> utf8_Valid s' | _ \<Rightarrow> False)
     else False)"

text \<open>\<^verbatim>\<open>base64.StdEncoding.EncodeToString\<close>.\<close>

definition base64_char :: "nat \<Rightarrow> char" where
  "base64_char n = ''ABCDEFGHIJKLMNOPQRSTUVWXYZabcdefghijklmnopqrstuvwxyz0123456789+/'' ! (n mod 64)"

fun base64 :: "string \<Rightarrow> string" where
  "base64 [] = []"
| "base64 [a] = (let x = of_char a * 16 in [base64_char (x div 64), base64_char x, CHR ''='', CHR ''=''])"
| "base64 [a, b] = (let x = (of_char a * 256 + of_char b) * 4 in
     [base64_char (x div 4096), base64_char (x div 64), base64_char x, CHR ''=''])"
| "base64 (a # b # c # s) = (let x = of_char a * 65536 + of_char b * 256 + of_char c in
     base64_char (x div 262144) # base64_char (x div 4096) # base64_char (x div 64) # base64_char x # base64 s)"

definition payloadToString :: "string \<Rightarrow> string" where
  "payloadToString b = (if b = [] then [] else if utf8_Valid b then b else base64 b)"

section \<open>The evaluation log\<close>

record EntryMapping =
  emReferenceId :: string
  emEntryId :: string

record EvidenceMapping =
  exReferenceId :: string
  exCoordinate :: string
  exEntryId :: string
  exDigest :: string
  exRemarks :: string

record GemaraEvidence =
  geId :: string
  geType :: string
  geDescription :: string
  gePayload :: string
  geCollectedAt :: string
  geSource :: EvidenceMapping

record GemaraAssessmentLog =
  gaRequirement :: EntryMapping
  gaPlan :: "EntryMapping option"
  gaDescription :: string
  gaResult :: result
  gaMessage :: string
  gaApplicability :: "string list"
  gaSteps :: "(result \<times> string \<times> confidence) list"
  gaStepsExecuted :: nat
  gaStart :: string
  gaRecommendation :: string
  gaConfidenceLevel :: confidence
  gaEvidence :: "GemaraEvidence list"

record ControlEvaluation =
  ceName :: string
  ceResult :: result
  ceMessage :: string
  ceControl :: EntryMapping
  ceAssessmentLogs :: "GemaraAssessmentLog list"

record LogMetadata =
  lmId :: string
  lmType :: string
  lmGemaraVersion :: string
  lmDescription :: string
  lmMappingReferences :: "MappingReference list"
  lmAuthorId :: string
  lmAuthorName :: string
  lmAuthorVersion :: string
  lmAuthorUri :: string

record LogTarget =
  ltId :: string
  ltName :: string

record EvaluationLog =
  elEvaluations :: "ControlEvaluation list"
  elResult :: result
  elMetadata :: LogMetadata
  elTarget :: LogTarget

section \<open>The evaluator\<close>

record Evaluator =
  erPolicyID :: string
  erTargetID :: string
  erReqToControl :: "(string, string) gomap"
  erReqToPlan :: "(string, string) gomap"
  erReqToComplypackRef :: "(string, string) gomap"
  erMappingReferences :: "MappingReference list"
  erControlEvals :: "(string, ControlEvaluation) gomap"
  erControlOrder :: "string list"
  erControlStepNames :: "(string, string list list) gomap"

definition NewEvaluator ::
    "string \<Rightarrow> string \<Rightarrow> (string, string) gomap \<Rightarrow> (string, string) gomap \<Rightarrow> (string, string) gomap \<Rightarrow>
      MappingReference list \<Rightarrow> Evaluator" where
  "NewEvaluator policyID targetID reqToControl reqToPlan reqToComplypackRef mappingReferences =
    \<lparr>erPolicyID = policyID, erTargetID = targetID, erReqToControl = reqToControl, erReqToPlan = reqToPlan,
     erReqToComplypackRef = reqToComplypackRef, erMappingReferences = mappingReferences,
     erControlEvals = [], erControlOrder = [], erControlStepNames = []\<rparr>"

definition resolveControl :: "Evaluator \<Rightarrow> string \<Rightarrow> string" where
  "resolveControl e requirementID =
    (case go_get (erReqToControl e) requirementID of Some ctrlID \<Rightarrow> ctrlID | None \<Rightarrow> requirementID)"

definition evidence_source :: "EvidenceSource option \<Rightarrow> EvidenceMapping" where
  "evidence_source s = (case s of
     None \<Rightarrow> \<lparr>exReferenceId = [], exCoordinate = [], exEntryId = [], exDigest = [], exRemarks = []\<rparr>
   | Some x \<Rightarrow> \<lparr>exReferenceId = esReferenceID x, exCoordinate = esCoordinate x, exEntryId = esEntryID x,
               exDigest = esDigest x, exRemarks = esRemarks x\<rparr>)"

definition evidence_to_gemara :: "Evidence \<Rightarrow> GemaraEvidence" where
  "evidence_to_gemara ev =
    \<lparr>geId = evID ev, geType = evType ev, geDescription = evDescription ev, gePayload = payloadToString (evPayload ev),
     geCollectedAt = evCollectedAt ev, geSource = evidence_source (evSource ev)\<rparr>"

definition providerStepToGemara :: "Step \<Rightarrow> int \<Rightarrow> result \<times> string \<times> confidence" where
  "providerStepToGemara step conf = (providerResultToGemara (stpResult step), stpMessage step, providerConfidenceToGemara conf)"

definition providerStepsToGemara :: "Step list \<Rightarrow> int \<Rightarrow> (result \<times> string \<times> confidence) list" where
  "providerStepsToGemara steps conf = map (\<lambda>s. providerStepToGemara s conf) steps"

definition providerToGemaraAssessment ::
    "string \<Rightarrow> Evaluator \<Rightarrow> AssessmentLog \<Rightarrow> GemaraAssessmentLog \<times> string list" where
  "providerToGemaraAssessment now e a =
    (let result = aggregateResultFromSteps (alSteps a);
         msg = (if result \<noteq> Passed \<and> matchingStepMessage (alSteps a) result \<noteq> []
                then matchingStepMessage (alSteps a) result else alMessage a);
         desc0 = (if msg = [] then (case alSteps a of s # _ \<Rightarrow> stpName s | [] \<Rightarrow> msg) else msg);
         desc = (if desc0 = [] then alRequirementID a else desc0) in
     (\<lparr>gaRequirement = \<lparr>emReferenceId = erPolicyID e, emEntryId = alRequirementID a\<rparr>,
       gaPlan = (case go_get (erReqToPlan e) (alRequirementID a) of
          Some planID \<Rightarrow> Some \<lparr>emReferenceId = erPolicyID e, emEntryId = planID\<rparr> | None \<Rightarrow> None),
       gaDescription = desc, gaResult = result, gaMessage = msg, gaApplicability = [''default''],
       gaSteps = providerStepsToGemara (alSteps a) (alConfidence a), gaStepsExecuted = length (alSteps a),
       gaStart = now, gaRecommendation = alRecommendation a,
       gaConfidenceLevel = providerConfidenceToGemara (alConfidence a),
       gaEvidence = map evidence_to_gemara (alEvidence a)\<rparr>,
      map stpName (alSteps a)))"

definition new_control :: "string \<Rightarrow> string \<Rightarrow> ControlEvaluation" where
  "new_control policyID controlID =
    \<lparr>ceName = controlID, ceResult = NotRun, ceMessage = [],
     ceControl = \<lparr>emReferenceId = policyID, emEntryId = controlID\<rparr>, ceAssessmentLogs = []\<rparr>"

definition add_assessment :: "string \<Rightarrow> Evaluator \<Rightarrow> AssessmentLog \<Rightarrow> Evaluator" where
  "add_assessment now e a =
    (let controlID = resolveControl e (alRequirementID a);
         (gemaraAssessment, stepNames) = providerToGemaraAssessment now e a;
         exists = go_has (erControlEvals e) controlID;
         ce = (case go_get (erControlEvals e) controlID of Some ce \<Rightarrow> ce | None \<Rightarrow> new_control (erPolicyID e) controlID);
         names = (case go_get (erControlStepNames e) controlID of Some ns \<Rightarrow> ns | None \<Rightarrow> []) in
     e\<lparr>erControlEvals := go_put controlID
          (ce\<lparr>ceAssessmentLogs := ceAssessmentLogs ce @ [gemaraAssessment],
              ceResult := UpdateAggregateResult (ceResult ce) (gaResult gemaraAssessment),
              ceMessage := gaMessage gemaraAssessment\<rparr>) (erControlEvals e),
       erControlOrder := (if exists then erControlOrder e else erControlOrder e @ [controlID]),
       erControlStepNames := go_put controlID (names @ [stepNames]) (erControlStepNames e)\<rparr>)"

definition AddTarget :: "string \<Rightarrow> Evaluator \<Rightarrow> AssessmentLog list \<Rightarrow> Evaluator" where
  "AddTarget now e assessments = foldl (add_assessment now) e assessments"

definition GemaraLog :: "Evaluator \<Rightarrow> EvaluationLog" where
  "GemaraLog e =
    (let evals = List.map_filter (go_get (erControlEvals e)) (erControlOrder e);
         result = foldl (\<lambda>r ce. UpdateAggregateResult r (ceResult ce)) NotRun evals in
     \<lparr>elEvaluations = evals,
      elResult = (if evals = [] then NotApplicable else result),
      elMetadata = \<lparr>lmId = erPolicyID e, lmType = ''EvaluationLog'', lmGemaraVersion = ''v1.5.0'',
         lmDescription = ''Compliance scan evaluation log'', lmMappingReferences = erMappingReferences e,
         lmAuthorId = ''complytime'', lmAuthorName = ''complytime'', lmAuthorVersion = [],
         lmAuthorUri = ''https://github.com/complytime/complyctl''\<rparr>,
      elTarget = \<lparr>ltId = erTargetID e, ltName = erTargetID e\<rparr>\<rparr>)"

section \<open>Serialisation\<close>

definition formatStepIdentity :: "string \<Rightarrow> string \<Rightarrow> string" where
  "formatStepIdentity complypackRef stepName =
    (if complypackRef \<noteq> [] \<and> stepName \<noteq> [] then complypackRef @ ''#'' @ stepName else stepName)"

definition resolveComplypackRef :: "Evaluator \<Rightarrow> string \<Rightarrow> string" where
  "resolveComplypackRef e requirementID = go_str (erReqToComplypackRef e) requirementID"

text \<open>A serialisable assessment log: the log with its steps replaced by identity strings.\<close>

record serializableAssessmentLog =
  saRequirement :: EntryMapping
  saPlan :: "EntryMapping option"
  saDescription :: string
  saResult :: result
  saMessage :: string
  saApplicability :: "string list"
  saSteps :: "string list"
  saStepsExecuted :: nat
  saStart :: string
  saRecommendation :: string
  saConfidenceLevel :: confidence
  saEvidence :: "GemaraEvidence list"

record serializableControlEvaluation =
  scName :: string
  scResult :: result
  scMessage :: string
  scControl :: EntryMapping
  scAssessmentLogs :: "serializableAssessmentLog list"

record serializableEvaluationLog =
  slMetadata :: LogMetadata
  slResult :: result
  slEvaluations :: "serializableControlEvaluation list"
  slTarget :: LogTarget

definition serialize_log :: "Evaluator \<Rightarrow> string list \<Rightarrow> GemaraAssessmentLog \<Rightarrow> serializableAssessmentLog" where
  "serialize_log e names al =
    \<lparr>saRequirement = gaRequirement al, saPlan = gaPlan al, saDescription = gaDescription al, saResult = gaResult al,
     saMessage = gaMessage al, saApplicability = gaApplicability al,
     saSteps = map (formatStepIdentity (resolveComplypackRef e (emEntryId (gaRequirement al)))) names,
     saStepsExecuted = gaStepsExecuted al, saStart = gaStart al, saRecommendation = gaRecommendation al,
     saConfidenceLevel = gaConfidenceLevel al, saEvidence = gaEvidence al\<rparr>"

definition serialize_control :: "Evaluator \<Rightarrow> ControlEvaluation \<Rightarrow> serializableControlEvaluation" where
  "serialize_control e ce =
    (let controlNames = (case go_get (erControlStepNames e) (emEntryId (ceControl ce)) of Some ns \<Rightarrow> ns | None \<Rightarrow> []);
         logs = ceAssessmentLogs ce in
     \<lparr>scName = ceName ce, scResult = ceResult ce, scMessage = ceMessage ce, scControl = ceControl ce,
      scAssessmentLogs = map (\<lambda>j. serialize_log e (if j < length controlNames then controlNames ! j else []) (logs ! j))
                           [0..<length logs]\<rparr>)"

definition toSerializable :: "Evaluator \<Rightarrow> EvaluationLog \<Rightarrow> serializableEvaluationLog" where
  "toSerializable e log =
    \<lparr>slMetadata = elMetadata log, slResult = elResult log,
     slEvaluations = map (serialize_control e) (elEvaluations log), slTarget = elTarget log\<rparr>"

definition BuildReportFilename :: "string \<Rightarrow> string \<Rightarrow> string \<Rightarrow> string \<Rightarrow> string \<Rightarrow> string" where
  "BuildReportFilename ts prefix policyID targetID ext =
    (let safePolicyID = FilenameSafe policyID in
     if targetID \<noteq> [] then prefix @ ''-'' @ safePolicyID @ ''-'' @ FilenameSafe targetID @ ''-'' @ ts @ ''.'' @ ext
     else prefix @ ''-'' @ safePolicyID @ ''-'' @ ts @ ''.'' @ ext)"

datatype out_err = OMarshal | OMkdir path | OWrite path | OConvert

definition write_report :: "faults \<Rightarrow> path \<Rightarrow> string \<Rightarrow> string \<Rightarrow> fs \<Rightarrow> fs \<times> (out_err + path)" where
  "write_report flt outDir filename data s =
    (case fs_MkdirAll flt outDir s of
       (s1, False) \<Rightarrow> (s1, Inl (OMkdir outDir))
     | (s1, True) \<Rightarrow>
        (let p = fp_join outDir [filename] in
         case fs_WriteFile flt p (Raw data) s1 of
           (s2, False) \<Rightarrow> (s2, Inl (OWrite p))
         | (s2, True) \<Rightarrow> (s2, Inr p)))"

text \<open>\<open>marshal\<close> takes whether JSON was asked for.\<close>

definition Evaluator_Write ::
    "(bool \<Rightarrow> serializableEvaluationLog \<Rightarrow> string option) \<Rightarrow> faults \<Rightarrow> string \<Rightarrow> Evaluator \<Rightarrow> path \<Rightarrow> string \<Rightarrow> fs \<Rightarrow>
      fs \<times> (out_err + path)" where
  "Evaluator_Write marshal flt ts e outDir logFormat s =
    (let json = (logFormat = ''json''); ext = (if json then ''json'' else ''yaml'') in
     case marshal json (toSerializable e (GemaraLog e)) of
       None \<Rightarrow> (s, Inl OMarshal)
     | Some data \<Rightarrow>
        write_report flt outDir (BuildReportFilename ts ''evaluation-log'' (erPolicyID e) (erTargetID e) ext) data s)"

text \<open>\<^verbatim>\<open>ToSARIF\<close>: the conversion is a function of the vendored library.\<close>

definition ToSARIF ::
    "(EvaluationLog \<Rightarrow> string \<Rightarrow> string option) \<Rightarrow> faults \<Rightarrow> string \<Rightarrow> EvaluationLog \<Rightarrow> string \<Rightarrow> path \<Rightarrow> fs \<Rightarrow>
      fs \<times> (out_err + path)" where
  "ToSARIF convert flt ts log artifactURI outDir s =
    (case convert log artifactURI of
       None \<Rightarrow> (s, Inl OConvert)
     | Some data \<Rightarrow>
        write_report flt outDir (BuildReportFilename ts ''scan'' (lmId (elMetadata log)) (ltId (elTarget log)) ''sarif.json'') data s)"

section \<open>Aggregation\<close>

text \<open>
  An aggregation by severity: combining two results keeps the worse one and the initial result is
  the least. Then a fold over any number of results is their maximum, whatever their order and
  however they are grouped.
\<close>

locale worst_of =
  fixes upd :: "'r::linorder \<Rightarrow> 'r \<Rightarrow> 'r" and zero :: 'r
  assumes upd_max: "upd a b = max a b" and zero_least: "zero \<le> a"
begin

lemma fold_worst: "foldl upd a xs = Max (insert a (set xs))"
proof (induction xs arbitrary: a)
  case (Cons x xs)
  have "Max (insert (max a x) (set xs)) = Max (insert a (insert x (set xs)))"
    by (cases "xs = []") (simp_all add: max.assoc)
  with Cons show ?case by (simp add: upd_max)
qed simp

lemma fold_zero: "xs \<noteq> [] \<Longrightarrow> foldl upd zero xs = Max (set xs)"
  by (simp add: fold_worst max_absorb2 zero_least)

lemma fold_perm: "mset xs = mset ys \<Longrightarrow> foldl upd a xs = foldl upd a ys"
  using mset_eq_setD[of xs ys] by (simp only: fold_worst)

lemma fold_append: "foldl upd zero (xs @ ys) = upd (foldl upd zero xs) (foldl upd zero ys)"
proof -
  have "insert zero (set (xs @ ys)) = insert zero (set xs) \<union> insert zero (set ys)" by auto
  then show ?thesis by (simp only: fold_worst upd_max) (simp add: Max_Un del: Max_insert Un_insert_left Un_insert_right)
qed

lemma fold_groups: "foldl upd zero (map (foldl upd zero) xss) = foldl upd zero (concat xss)"
proof (induction xss rule: rev_induct)
  case (snoc xs xss)
  then show ?case by (simp add: fold_append[of "concat xss" xs] del: foldl_append) simp
qed simp

lemma fold_eq_iff: "(\<And>b. b \<le> t) \<Longrightarrow> foldl upd zero xs = t \<longleftrightarrow> t = zero \<or> t \<in> set xs"
  by (cases "xs = []") (auto simp: fold_zero intro: antisym zero_least Max_eqI dest: Max_in)

end

lemma UpdateAggregateResult_max: "UpdateAggregateResult a b = max a b"
  by (cases a; cases b) (simp_all add: UpdateAggregateResult_def max_def less_eq_result_def)

interpretation wr: worst_of UpdateAggregateResult NotRun
  by unfold_locales (simp_all add: UpdateAggregateResult_max less_eq_result_def)

lemma Failed_greatest: "b \<le> Failed"
  by (cases b) (simp_all add: less_eq_result_def)

lemma aggregateResultFromSteps_fold:
  "aggregateResultFromSteps steps = foldl UpdateAggregateResult NotRun (map (\<lambda>s. providerResultToGemara (stpResult s)) steps)"
  by (simp add: aggregateResultFromSteps_def foldl_map)

lemma aggregate_Failed: "aggregateResultFromSteps steps = Failed \<longleftrightarrow> (\<exists>s \<in> set steps. stpResult s = ResultFailed)"
  unfolding aggregateResultFromSteps_fold
  by (subst wr.fold_eq_iff[OF Failed_greatest]) (auto simp: providerResultToGemara_def result_codes)

section \<open>The specification of an evaluation\<close>

definition firsts :: "'a list \<Rightarrow> 'a list" where
  "firsts xs = rev (remdups (rev xs))"

lemma firsts_snoc: "firsts (xs @ [x]) = (if x \<in> set xs then firsts xs else firsts xs @ [x])"
  by (simp add: firsts_def)

lemma set_firsts [simp]: "set (firsts xs) = set xs"
  by (simp add: firsts_def)

lemma distinct_firsts [simp]: "distinct (firsts xs)"
  by (simp add: firsts_def)

lemma firsts_Nil [simp]: "firsts xs = [] \<longleftrightarrow> xs = []"
  by (simp add: firsts_def)

abbreviation control_of :: "Evaluator \<Rightarrow> AssessmentLog \<Rightarrow> string" where
  "control_of e a \<equiv> resolveControl e (alRequirementID a)"

abbreviation gemara_of :: "string \<Rightarrow> Evaluator \<Rightarrow> AssessmentLog \<Rightarrow> GemaraAssessmentLog" where
  "gemara_of now e a \<equiv> fst (providerToGemaraAssessment now e a)"

definition own :: "Evaluator \<Rightarrow> AssessmentLog list \<Rightarrow> string \<Rightarrow> AssessmentLog list" where
  "own e as c = filter (\<lambda>a. control_of e a = c) as"

text \<open>
  What the log of a target should say of a control: its assessments in order, the worst of their
  results and the message of the last.
\<close>

definition spec_control :: "string \<Rightarrow> Evaluator \<Rightarrow> AssessmentLog list \<Rightarrow> string \<Rightarrow> ControlEvaluation" where
  "spec_control now e as c =
    (let logs = map (gemara_of now e) (own e as c) in
     \<lparr>ceName = c, ceResult = Max (insert NotRun (set (map gaResult logs))),
      ceMessage = (if logs = [] then [] else gaMessage (last logs)),
      ceControl = \<lparr>emReferenceId = erPolicyID e, emEntryId = c\<rparr>, ceAssessmentLogs = logs\<rparr>)"

definition spec_evaluations :: "string \<Rightarrow> Evaluator \<Rightarrow> AssessmentLog list \<Rightarrow> ControlEvaluation list" where
  "spec_evaluations now e as = map (spec_control now e as) (firsts (map (control_of e) as))"

text \<open>Two evaluators for the same policy, target and mappings.\<close>

definition same_setup :: "Evaluator \<Rightarrow> Evaluator \<Rightarrow> bool" where
  "same_setup e e' \<longleftrightarrow> erPolicyID e = erPolicyID e' \<and> erTargetID e = erTargetID e' \<and>
     erReqToControl e = erReqToControl e' \<and> erReqToPlan e = erReqToPlan e' \<and>
     erReqToComplypackRef e = erReqToComplypackRef e' \<and> erMappingReferences e = erMappingReferences e'"

lemma same_setup_conv:
  assumes "same_setup e e'"
  shows "providerToGemaraAssessment now e a = providerToGemaraAssessment now e' a"
    and "resolveControl e r = resolveControl e' r"
    and "serialize_log e ns l = serialize_log e' ns l"
  using assms by (simp_all add: same_setup_def providerToGemaraAssessment_def resolveControl_def serialize_log_def
      resolveComplypackRef_def Let_def split: option.splits)

lemma same_setup_add: "same_setup e e' \<Longrightarrow> same_setup (add_assessment now e a) e'"
  by (simp add: add_assessment_def Let_def same_setup_def split: prod.splits)

lemma snd_provider: "snd (providerToGemaraAssessment now e a) = map stpName (alSteps a)"
  by (simp add: providerToGemaraAssessment_def Let_def)

text \<open>The concrete state after some assessments represents the specification.\<close>

definition represents :: "string \<Rightarrow> Evaluator \<Rightarrow> AssessmentLog list \<Rightarrow> Evaluator \<Rightarrow> bool" where
  "represents now e0 as e \<longleftrightarrow> same_setup e e0 \<and> erControlOrder e = firsts (map (control_of e0) as) \<and>
     (\<forall>c. go_get (erControlEvals e) c = (if c \<in> control_of e0 ` set as then Some (spec_control now e0 as c) else None)) \<and>
     (\<forall>c. go_get (erControlStepNames e) c =
        (if c \<in> control_of e0 ` set as then Some (map (\<lambda>a. map stpName (alSteps a)) (own e0 as c)) else None))"

lemma own_snoc: "own e (as @ [a]) c = own e as c @ (if control_of e a = c then [a] else [])"
  by (simp add: own_def)

lemma own_empty: "own e as c = [] \<longleftrightarrow> c \<notin> control_of e ` set as"
  by (auto simp: own_def filter_empty_conv)

lemma spec_control_snoc:
  "spec_control now e (as @ [a]) c =
    (if control_of e a = c then
       (spec_control now e as c)\<lparr>ceAssessmentLogs := map (gemara_of now e) (own e as c) @ [gemara_of now e a],
          ceResult := UpdateAggregateResult (ceResult (spec_control now e as c)) (gaResult (gemara_of now e a)),
          ceMessage := gaMessage (gemara_of now e a)\<rparr>
     else spec_control now e as c)"
  by (simp add: spec_control_def own_snoc Let_def UpdateAggregateResult_max max.commute insert_commute[of NotRun])

lemma represents_add:
  assumes "represents now e0 as e"
  shows "represents now e0 (as @ [a]) (add_assessment now e a)"
proof -
  let ?c = "control_of e0 a"
  have st: "same_setup e e0" using assms by (simp add: represents_def)
  note conv = same_setup_conv[OF st]
  have pol: "erPolicyID e = erPolicyID e0" using st by (simp add: same_setup_def)
  have new: "spec_control now e0 as c = new_control (erPolicyID e0) c" if "c \<notin> control_of e0 ` set as" for c
    using that by (simp add: spec_control_def new_control_def own_empty[THEN iffD2] Let_def)
  have logs: "ceAssessmentLogs (spec_control now e0 as c) = map (gemara_of now e0) (own e0 as c)" for c
    by (simp add: spec_control_def Let_def)
  have has: "go_has (erControlEvals e) c \<longleftrightarrow> c \<in> control_of e0 ` set as" for c
    using assms by (simp add: represents_def go_has_get del: go_has_keys)
  have own0: "own e0 as c = []" if "c \<notin> control_of e0 ` set as" for c using that by (simp add: own_empty)
  show ?thesis
    unfolding represents_def
  proof (intro conjI allI)
    show "same_setup (add_assessment now e a) e0" using st by (rule same_setup_add)
    show "erControlOrder (add_assessment now e a) = firsts (map (control_of e0) (as @ [a]))"
      using assms has by (simp add: add_assessment_def Let_def conv firsts_snoc represents_def split: prod.splits del: go_has_keys)
    show "go_get (erControlEvals (add_assessment now e a)) c =
      (if c \<in> control_of e0 ` set (as @ [a]) then Some (spec_control now e0 (as @ [a]) c) else None)" for c
      using assms new[of ?c] logs[of ?c]
      by (auto simp: add_assessment_def Let_def conv pol spec_control_snoc represents_def split: prod.splits)
    show "go_get (erControlStepNames (add_assessment now e a)) c =
      (if c \<in> control_of e0 ` set (as @ [a]) then Some (map (\<lambda>a. map stpName (alSteps a)) (own e0 (as @ [a]) c)) else None)" for c
      using assms own0[of ?c] snd_provider[of now e0 a]
      by (auto simp: add_assessment_def Let_def conv own_snoc represents_def split: prod.splits)
  qed
qed

section \<open>Properties of the evaluator\<close>

lemma represents_NewEvaluator:
  "e0 = NewEvaluator p t rc rp rr mr \<Longrightarrow> represents now e0 [] e0"
  by (simp add: represents_def same_setup_def NewEvaluator_def firsts_def)

lemma represents_AddTarget: "represents now e0 as e \<Longrightarrow> represents now e0 (as @ bs) (AddTarget now e bs)"
proof (induction bs arbitrary: as e)
  case (Cons b bs)
  have "represents now e0 ((as @ [b]) @ bs) (AddTarget now (add_assessment now e b) bs)"
    by (rule Cons.IH[OF represents_add[OF Cons.prems]])
  then show ?case by (simp add: AddTarget_def)
qed (simp add: AddTarget_def)

lemma gaResult_gemara_of [simp]: "gaResult (gemara_of now e a) = aggregateResultFromSteps (alSteps a)"
  by (simp add: providerToGemaraAssessment_def Let_def)

lemma represents_evaluations:
  assumes "represents now e0 as e"
  shows "elEvaluations (GemaraLog e) = spec_evaluations now e0 as"
proof -
  have g: "go_get (erControlEvals e) c = Some (spec_control now e0 as c)" if "c \<in> set (firsts (map (control_of e0) as))" for c
    using assms that by (simp add: represents_def)
  have "List.map_filter (go_get (erControlEvals e)) cs = map (spec_control now e0 as) cs"
    if "set cs \<subseteq> set (firsts (map (control_of e0) as))" for cs
    using that g by (induction cs) (auto simp: List.map_filter_simps)
  then show ?thesis using assms by (simp add: GemaraLog_def Let_def spec_evaluations_def represents_def)
qed

lemma represents_result:
  assumes "represents now e0 as e"
  shows "elResult (GemaraLog e) =
    (if as = [] then NotApplicable else Max (insert NotRun (set (map (\<lambda>a. aggregateResultFromSteps (alSteps a)) as))))"
proof -
  let ?res = "\<lambda>a. aggregateResultFromSteps (alSteps a)"
  let ?gs = "map (\<lambda>c. map ?res (own e0 as c)) (firsts (map (control_of e0) as))"
  have c: "ceResult (spec_control now e0 as c) = foldl UpdateAggregateResult NotRun (map ?res (own e0 as c))" for c
    by (simp add: spec_control_def Let_def wr.fold_worst comp_def image_image)
  have "foldl (\<lambda>r ce. UpdateAggregateResult r (ceResult ce)) NotRun (spec_evaluations now e0 as) =
      foldl UpdateAggregateResult NotRun (map (foldl UpdateAggregateResult NotRun) ?gs)"
    by (simp add: spec_evaluations_def foldl_map c)
  also have "\<dots> = foldl UpdateAggregateResult NotRun (concat ?gs)" by (rule wr.fold_groups)
  also have "set (concat ?gs) = set (map ?res as)" by (auto simp: own_def)
  then have "foldl UpdateAggregateResult NotRun (concat ?gs) = Max (insert NotRun (set (map ?res as)))"
    by (simp only: wr.fold_worst)
  finally show ?thesis
    using represents_evaluations[OF assms] by (simp add: GemaraLog_def Let_def spec_evaluations_def)
qed

text \<open>
  Property C7. The evaluator implements its specification: however the assessments of a target
  are spread over calls, the log has one entry per control in the order the controls first occur,
  holding exactly its assessments in order, with the worst of their results; the overall result is
  the worst of all, or not applicable when there was nothing to assess.
\<close>

theorem evaluator_refines_spec:
  "let e0 = NewEvaluator p t rc rp rr mr in
    elEvaluations (GemaraLog (foldl (AddTarget now) e0 batches)) = spec_evaluations now e0 (concat batches) \<and>
    elResult (GemaraLog (foldl (AddTarget now) e0 batches)) =
      (if concat batches = [] then NotApplicable
       else Max (insert NotRun (set (map (\<lambda>a. aggregateResultFromSteps (alSteps a)) (concat batches)))))"
proof -
  define e0 where "e0 = NewEvaluator p t rc rp rr mr"
  have "represents now e0 (concat batches) (foldl (AddTarget now) e0 batches)"
  proof (induction batches rule: rev_induct)
    case Nil
    show ?case using represents_NewEvaluator[OF e0_def] by simp
  next
    case (snoc b bs)
    then show ?case by (simp add: represents_AddTarget)
  qed
  then show ?thesis unfolding e0_def[symmetric] Let_def using represents_evaluations represents_result by blast
qed

lemma AddTarget_represents: "represents now (NewEvaluator p t rc rp rr mr) as (AddTarget now (NewEvaluator p t rc rp rr mr) as)"
  using represents_AddTarget[OF represents_NewEvaluator[OF refl], of now p t rc rp rr mr as] by simp

text \<open>
  A target's log reports failure exactly when some step of some assessment failed.
\<close>

theorem log_failed_iff_step_failed:
  "elResult (GemaraLog (AddTarget now (NewEvaluator p t rc rp rr mr) as)) = Failed \<longleftrightarrow>
    (\<exists>a \<in> set as. \<exists>s \<in> set (alSteps a). stpResult s = ResultFailed)"
proof -
  let ?rs = "map (\<lambda>a. aggregateResultFromSteps (alSteps a)) as"
  have "Max (insert NotRun (set ?rs)) = Failed \<longleftrightarrow> Failed \<in> set ?rs"
    using wr.fold_eq_iff[OF Failed_greatest, of ?rs] by (simp only: wr.fold_worst) simp
  then have "elResult (GemaraLog (AddTarget now (NewEvaluator p t rc rp rr mr) as)) = Failed \<longleftrightarrow> Failed \<in> set ?rs"
    unfolding represents_result[OF AddTarget_represents] by (cases as) auto
  also have "\<dots> \<longleftrightarrow> (\<exists>a \<in> set as. aggregateResultFromSteps (alSteps a) = Failed)" by force
  finally show ?thesis by (simp only: aggregate_Failed)
qed

text \<open>
  Serialising a log attaches to every assessment the identities of its own steps:
  the step names kept beside the log stay aligned with it.
\<close>

theorem serialized_steps_aligned:
  "let e0 = NewEvaluator p t rc rp rr mr in
    map scAssessmentLogs (slEvaluations (toSerializable (AddTarget now e0 as) (GemaraLog (AddTarget now e0 as)))) =
    map (\<lambda>c. map (\<lambda>a. serialize_log e0 (map stpName (alSteps a)) (gemara_of now e0 a)) (own e0 as c))
      (firsts (map (control_of e0) as))"
proof -
  define e0 where "e0 = NewEvaluator p t rc rp rr mr"
  let ?e = "AddTarget now e0 as"
  have r: "represents now e0 as ?e" unfolding e0_def by (rule AddTarget_represents)
  then have same: "same_setup ?e e0" by (simp add: represents_def)
  have "scAssessmentLogs (serialize_control ?e (spec_control now e0 as c)) =
      map (\<lambda>a. serialize_log e0 (map stpName (alSteps a)) (gemara_of now e0 a)) (own e0 as c)"
    if "c \<in> control_of e0 ` set as" for c
  proof (rule nth_equalityI)
    have n: "go_get (erControlStepNames ?e) c = Some (map (\<lambda>a. map stpName (alSteps a)) (own e0 as c))"
      using r that by (simp add: represents_def)
    show "length (scAssessmentLogs (serialize_control ?e (spec_control now e0 as c))) =
        length (map (\<lambda>a. serialize_log e0 (map stpName (alSteps a)) (gemara_of now e0 a)) (own e0 as c))"
      by (simp add: serialize_control_def spec_control_def Let_def)
    fix i assume "i < length (scAssessmentLogs (serialize_control ?e (spec_control now e0 as c)))"
    then show "scAssessmentLogs (serialize_control ?e (spec_control now e0 as c)) ! i =
        map (\<lambda>a. serialize_log e0 (map stpName (alSteps a)) (gemara_of now e0 a)) (own e0 as c) ! i"
      using n by (simp add: serialize_control_def spec_control_def Let_def same_setup_conv(3)[OF same])
  qed
  then show ?thesis unfolding e0_def[symmetric] Let_def
    by (auto simp: toSerializable_def represents_evaluations[OF r] spec_evaluations_def)
qed

subsection \<open>File names\<close>

lemma BuildReportFilename_flat:
  "CHR ''/'' \<notin> set prefix \<Longrightarrow> CHR ''/'' \<notin> set ts \<Longrightarrow> CHR ''/'' \<notin> set ext \<Longrightarrow>
   CHR ''/'' \<notin> set (BuildReportFilename ts prefix p t ext)"
  using FilenameSafe_flat by (auto simp: BuildReportFilename_def Let_def)

text \<open>Two target IDs that differ only in slashes and dashes share their report files.\<close>

lemma report_filename_collision:
  "BuildReportFilename ts prefix p ''web/prod'' ext = BuildReportFilename ts prefix p ''web-prod'' ext"
  by (simp add: BuildReportFilename_def FilenameSafe_def ReplaceByte_def)

lemma FilenameSafe_id: "CHR ''/'' \<notin> set s \<Longrightarrow> FilenameSafe s = s"
  unfolding FilenameSafe_def ReplaceByte_def by (rule map_idI) auto

lemma report_filename_inj:
  "CHR ''/'' \<notin> set t \<Longrightarrow> CHR ''/'' \<notin> set t' \<Longrightarrow> t \<noteq> [] \<Longrightarrow> t' \<noteq> [] \<Longrightarrow>
   BuildReportFilename ts prefix p t ext = BuildReportFilename ts prefix p t' ext \<Longrightarrow> t = t'"
  by (simp add: BuildReportFilename_def FilenameSafe_id)

end
