(* ===== verification/Reports.thy ===== *)
theory Reports
  imports Evaluation
begin

text \<open>
  What a scan shows: the summary table (\<^verbatim>\<open>internal/output/scan_summary.go\<close>,
  \<^verbatim>\<open>internal/terminal/table.go\<close>), the merge of mapping references, the Markdown report
  (\<^verbatim>\<open>markdown.go\<close>) and the OSCAL assessment results (\<^verbatim>\<open>oscal.go\<close>).
\<close>

section \<open>Plain tables\<close>

definition column_width :: "string list \<Rightarrow> string list list \<Rightarrow> nat \<Rightarrow> nat" where
  "column_width headers rows i =
    foldl (\<lambda>w row. if i < length row \<and> length (row ! i) + 2 > w then length (row ! i) + 2 else w)
      (length (headers ! i) + 2) rows"

text \<open>
  \<^verbatim>\<open>%-*s\<close> pads on the right by runes, while the widths are computed in bytes; in valid UTF-8 a rune
  is a byte that is no continuation byte.
\<close>

definition rune_count :: "string \<Rightarrow> nat" where
  "rune_count s = length (filter (\<lambda>c. \<not> byte_in 128 191 c) s)"

definition pad_right :: "nat \<Rightarrow> string \<Rightarrow> string" where
  "pad_right w s = s @ replicate (w - rune_count s) CHR '' ''"

definition show_row :: "nat list \<Rightarrow> string list \<Rightarrow> string" where
  "show_row widths row = concat (map (\<lambda>(w, cell). pad_right w cell) (zip widths row)) @ [nl]"

definition ShowPlainTable :: "string list \<Rightarrow> string list list \<Rightarrow> string" where
  "ShowPlainTable headers rows =
    (let widths = map (column_width headers rows) [0..<length headers] in
     show_row widths headers @ concat (map (show_row widths) rows))"

section \<open>The scan summary\<close>

record summaryEntry =
  seTargetID :: string
  seRequirementID :: string
  seControlID :: string
  seResult :: result
  seEmoji :: string
  seMessage :: string

definition sortPriority :: "result \<Rightarrow> int" where
  "sortPriority r = (case r of Failed \<Rightarrow> 1 | Unknown \<Rightarrow> 2 | NeedsReview \<Rightarrow> 3 | NotApplicable \<Rightarrow> 4 | NotRun \<Rightarrow> 4 | Passed \<Rightarrow> 6)"

record summary_acc =
  suPass :: nat
  suFail :: nat
  suNotApplicable :: nat
  suSkip :: nat
  suErr :: nat
  suEntries :: "summaryEntry list"

definition empty_summary :: summary_acc where
  "empty_summary = \<lparr>suPass = 0, suFail = 0, suNotApplicable = 0, suSkip = 0, suErr = 0, suEntries = []\<rparr>"

definition summary_step ::
    "string list \<Rightarrow> (string, string) gomap \<Rightarrow> summary_acc \<Rightarrow> nat \<times> AssessmentLog \<Rightarrow> summary_acc" where
  "summary_step assessmentTargets reqToControl acc x =
    (let (i, a) = x;
         result = aggregateResultFromSteps (alSteps a);
         ctrl = go_str reqToControl (alRequirementID a);
         ctrlID = (if ctrl = [] then ''-'' else ctrl);
         targetID = (if i < length assessmentTargets then assessmentTargets ! i else ''-'');
         entry = (\<lambda>emoji. \<lparr>seTargetID = targetID, seRequirementID = alRequirementID a, seControlID = ctrlID,
            seResult = result, seEmoji = emoji, seMessage = matchingStepMessage (alSteps a) result\<rparr>) in
     case result of
       Passed \<Rightarrow> acc\<lparr>suPass := suPass acc + 1, suEntries := suEntries acc @ [entry StatusPassed]\<rparr>
     | Failed \<Rightarrow> acc\<lparr>suFail := suFail acc + 1, suEntries := suEntries acc @ [entry StatusFailed]\<rparr>
     | NotApplicable \<Rightarrow> acc\<lparr>suNotApplicable := suNotApplicable acc + 1, suEntries := suEntries acc @ [entry StatusSkipped]\<rparr>
     | NotRun \<Rightarrow> acc\<lparr>suSkip := suSkip acc + 1, suEntries := suEntries acc @ [entry StatusSkipped]\<rparr>
     | _ \<Rightarrow> acc\<lparr>suErr := suErr acc + 1, suEntries := suEntries acc @ [entry StatusError]\<rparr>)"

definition summary_of :: "AssessmentLog list \<Rightarrow> string list \<Rightarrow> (string, string) gomap \<Rightarrow> summary_acc" where
  "summary_of assessments assessmentTargets reqToControl =
    foldl (summary_step assessmentTargets reqToControl) empty_summary (enumerate 0 assessments)"

definition summary_rows :: "bool \<Rightarrow> summary_acc \<Rightarrow> summaryEntry list" where
  "summary_rows showPassing acc =
    sort_key (\<lambda>e. sortPriority (seResult e))
      (if showPassing then suEntries acc else filter (\<lambda>e. seResult e \<noteq> Passed) (suEntries acc))"

definition FormatScanSummary ::
    "AssessmentLog list \<Rightarrow> string list \<Rightarrow> (string, string) gomap \<Rightarrow> string \<Rightarrow> string list \<Rightarrow> bool \<Rightarrow> string" where
  "FormatScanSummary assessments assessmentTargets reqToControl policyID targetIDs showPassing =
    (let acc = summary_of assessments assessmentTargets reqToControl;
         total = length assessments;
         rows = map (\<lambda>e. [seTargetID e, seRequirementID e, seControlID e, seEmoji e @ '' '' @ result_string (seResult e), seMessage e])
                  (summary_rows showPassing acc);
         intro = ''Scan: '' @ policyID @ '' | Target: '' @ Join '', '' targetIDs @ '' | '' @ show_nat total @ '' requirements'';
         headers = [''TARGET ID'', ''REQUIREMENT ID'', ''CONTROL ID'', ''STATUS'', ''MESSAGE''];
         conclusion = show_nat total @ '' requirements: '' @ show_nat (suPass acc) @ '' passed, '' @ show_nat (suFail acc) @
           '' failed, '' @ show_nat (suNotApplicable acc) @ '' not applicable, '' @ show_nat (suSkip acc) @ '' skipped, '' @
           show_nat (suErr acc) @ '' errors'' in
     intro @ [nl] @
     (if rows \<noteq> [] then nl # ShowPlainTable headers rows @ [nl] else []) @
     conclusion @ [nl])"

definition NothingAssessed :: "AssessmentLog list \<Rightarrow> bool" where
  "NothingAssessed assessments \<longleftrightarrow>
    \<not> list_ex (\<lambda>a. aggregateResultFromSteps (alSteps a) = Passed \<or> aggregateResultFromSteps (alSteps a) = Failed) assessments"

definition FormatOperationalWarnings :: "string list \<Rightarrow> string" where
  "FormatOperationalWarnings errors =
    (if errors = [] then []
     else nl # ''WARNING: '' @ show_nat (length errors) @ '' operational '' @
       (if length errors = 1 then ''error'' else ''errors'') @ '' during scan:'' @ [nl] @
       concat (map (\<lambda>e. ''  - '' @ e @ [nl]) errors) @ [nl])"

section \<open>Mapping references\<close>

record MappingCollision =
  mcID :: string
  mcRetainedTitle :: string
  mcDiscardedTitle :: string
  mcPolicyWins :: bool

definition buildCollisionNote :: "string \<Rightarrow> string \<Rightarrow> string \<Rightarrow> string" where
  "buildCollisionNote refID title retainedBy =
    (let q = [CHR 0x27] in
     if title \<noteq> [] then ''collision: provider ref '' @ q @ title @ q @ '' (id: '' @ q @ refID @ q @ '') discarded in favor of '' @
       retainedBy @ ''; ''
     else ''collision: provider ref (id: '' @ q @ refID @ q @ '') discarded in favor of '' @ retainedBy @ ''; '')"

record merge_acc =
  maSeen :: "(string, nat) gomap"
  maPolicyOrigin :: "string list"
  maResult :: "MappingReference list"
  maCollisions :: "MappingCollision list"
  maDiscarded :: "string list"

definition merge_policy :: "merge_acc \<Rightarrow> MappingReference \<Rightarrow> merge_acc" where
  "merge_policy acc pr =
    acc\<lparr>maSeen := go_put (mrID pr) (length (maResult acc)) (maSeen acc),
        maPolicyOrigin := mrID pr # maPolicyOrigin acc, maResult := maResult acc @ [pr]\<rparr>"

definition merge_provider :: "merge_acc \<Rightarrow> MappingReference \<Rightarrow> merge_acc" where
  "merge_provider acc pr =
    (if mrID pr = [] then acc\<lparr>maDiscarded := maDiscarded acc @ [mrTitle pr]\<rparr>
     else case go_get (maSeen acc) (mrID pr) of
       Some idx \<Rightarrow>
         (let policyWins = mrID pr \<in> set (maPolicyOrigin acc);
              retainedBy = (if policyWins then ''policy ref'' else ''earlier provider ref'');
              kept = maResult acc ! idx in
          acc\<lparr>maCollisions := maCollisions acc @ [\<lparr>mcID = mrID pr, mcRetainedTitle = mrTitle kept,
                 mcDiscardedTitle = mrTitle pr, mcPolicyWins = policyWins\<rparr>],
              maResult := (maResult acc)[idx := kept\<lparr>mrDescription :=
                 buildCollisionNote (mrID pr) (mrTitle pr) retainedBy @ mrDescription kept\<rparr>]\<rparr>)
     | None \<Rightarrow>
         acc\<lparr>maSeen := go_put (mrID pr) (length (maResult acc)) (maSeen acc), maResult := maResult acc @ [pr]\<rparr>)"

definition merge_all :: "MappingReference list \<Rightarrow> MappingReference list \<Rightarrow> merge_acc" where
  "merge_all policyRefs providerRefs =
    foldl merge_provider
      (foldl merge_policy \<lparr>maSeen = [], maPolicyOrigin = [], maResult = [], maCollisions = [], maDiscarded = []\<rparr> policyRefs)
      providerRefs"

definition MergeMappingReferences ::
    "MappingReference list \<Rightarrow> MappingReference list \<Rightarrow> MappingReference list \<times> MappingCollision list \<times> string list" where
  "MergeMappingReferences policyRefs providerRefs =
    (let acc = merge_all policyRefs providerRefs in (maResult acc, maCollisions acc, maDiscarded acc))"

definition FormatMappingCollisions :: "MappingCollision list \<Rightarrow> string" where
  "FormatMappingCollisions collisions =
    (let q = [CHR 0x27] in
     if collisions = [] then []
     else nl # ''WARNING: '' @ show_nat (length collisions) @ '' mapping reference '' @
       (if length collisions = 1 then ''collision'' else ''collisions'') @ '' during merge:'' @ [nl] @
       concat (map (\<lambda>c.
         (let retained = (if mcPolicyWins c then ''policy ref'' else ''earlier provider ref'') in
          if mcDiscardedTitle c \<noteq> [] then
            ''  - id '' @ q @ mcID c @ q @ '': provider ref '' @ q @ mcDiscardedTitle c @ q @ '' discarded in favor of '' @ retained @ [nl]
          else ''  - id '' @ q @ mcID c @ q @ '': provider ref discarded in favor of '' @ retained @ [nl])) collisions) @ [nl])"

section \<open>OSCAL\<close>

record oscalState =
  osState :: string
  osReason :: string

definition gemaraResultToOSCAL :: "result \<Rightarrow> oscalState" where
  "gemaraResultToOSCAL r = (case r of
     Passed \<Rightarrow> \<lparr>osState = ''satisfied'', osReason = []\<rparr>
   | Failed \<Rightarrow> \<lparr>osState = ''not-satisfied'', osReason = []\<rparr>
   | NotApplicable \<Rightarrow> \<lparr>osState = ''satisfied'', osReason = ''not-applicable''\<rparr>
   | _ \<Rightarrow> \<lparr>osState = ''not-satisfied'', osReason = ''unknown''\<rparr>)"

record oscalFinding =
  ofTitle :: string
  ofDescription :: string
  ofTargetId :: string
  ofStatus :: oscalState
  ofRemarks :: string

definition oscal_finding :: "GemaraAssessmentLog \<Rightarrow> oscalFinding" where
  "oscal_finding al =
    (let mapped = gemaraResultToOSCAL (gaResult al);
         remarks = (if osReason mapped = ''not-applicable'' then ''Skipped due to Tailoring: '' @ gaMessage al else gaMessage al) in
     \<lparr>ofTitle = ''Assessment: '' @ emEntryId (gaRequirement al), ofDescription = gaMessage al,
      ofTargetId = emEntryId (gaRequirement al), ofStatus = mapped, ofRemarks = remarks\<rparr>)"

definition oscal_findings :: "EvaluationLog \<Rightarrow> oscalFinding list" where
  "oscal_findings log = concat (map (\<lambda>ce. map oscal_finding (ceAssessmentLogs ce)) (elEvaluations log))"

text \<open>The document as its policy ID and findings; UUIDs, time stamps and marshalling are the parameter.\<close>

definition ToOSCAL ::
    "(string \<Rightarrow> oscalFinding list option \<Rightarrow> string option) \<Rightarrow> faults \<Rightarrow> string \<Rightarrow> EvaluationLog \<Rightarrow> path \<Rightarrow> fs \<Rightarrow>
      fs \<times> (out_err + path)" where
  "ToOSCAL marshal flt ts log outDir s =
    (let policyID = lmId (elMetadata log); findings = oscal_findings log in
     case marshal policyID (if findings \<noteq> [] then Some findings else None) of
       None \<Rightarrow> (s, Inl OMarshal)
     | Some data \<Rightarrow>
        write_report flt outDir (BuildReportFilename ts ''assessment-results'' policyID (ltId (elTarget log)) ''json'') data s)"

section \<open>Markdown\<close>

definition resultEmoji :: "result \<Rightarrow> string" where
  "resultEmoji r = (case r of Passed \<Rightarrow> StatusPassed | Failed \<Rightarrow> StatusFailed | NotApplicable \<Rightarrow> StatusSkipped
     | NotRun \<Rightarrow> StatusSkipped | _ \<Rightarrow> StatusError)"

record summaryCounts =
  mcPassed :: nat
  mcFailed :: nat
  mcNeedsReview :: nat
  mcNotApplicable :: nat
  mcNotRun :: nat
  mcUnknown :: nat

definition counts_total :: "summaryCounts \<Rightarrow> nat" where
  "counts_total s = mcPassed s + mcFailed s + mcNeedsReview s + mcNotApplicable s + mcNotRun s + mcUnknown s"

definition counts_applicable :: "summaryCounts \<Rightarrow> nat" where
  "counts_applicable s = counts_total s - mcNotApplicable s - mcNotRun s"

definition count_log :: "summaryCounts \<Rightarrow> GemaraAssessmentLog \<Rightarrow> summaryCounts" where
  "count_log c al = (case gaResult al of
     Passed \<Rightarrow> c\<lparr>mcPassed := mcPassed c + 1\<rparr>
   | Failed \<Rightarrow> c\<lparr>mcFailed := mcFailed c + 1\<rparr>
   | NeedsReview \<Rightarrow> c\<lparr>mcNeedsReview := mcNeedsReview c + 1\<rparr>
   | NotApplicable \<Rightarrow> c\<lparr>mcNotApplicable := mcNotApplicable c + 1\<rparr>
   | NotRun \<Rightarrow> c\<lparr>mcNotRun := mcNotRun c + 1\<rparr>
   | Unknown \<Rightarrow> c\<lparr>mcUnknown := mcUnknown c + 1\<rparr>)"

definition computeSummaryCounts :: "ControlEvaluation list \<Rightarrow> summaryCounts" where
  "computeSummaryCounts evals =
    foldl (\<lambda>c ce. foldl count_log c (ceAssessmentLogs ce))
      \<lparr>mcPassed = 0, mcFailed = 0, mcNeedsReview = 0, mcNotApplicable = 0, mcNotRun = 0, mcUnknown = 0\<rparr> evals"

record finding =
  fdControlID :: string
  fdRequirementID :: string
  fdResult :: result
  fdMessage :: string
  fdRecommendation :: string
  fdConfidence :: confidence
  fdEvidence :: "GemaraEvidence list"

definition collectFindings :: "ControlEvaluation list \<Rightarrow> finding list" where
  "collectFindings evals =
    sort_key (\<lambda>f. sortPriority (fdResult f))
      (concat (map (\<lambda>ce. List.map_filter (\<lambda>al.
         if gaResult al = Passed then None
         else Some \<lparr>fdControlID = ceName ce, fdRequirementID = emEntryId (gaRequirement al), fdResult = gaResult al,
            fdMessage = gaMessage al, fdRecommendation = gaRecommendation al, fdConfidence = gaConfidenceLevel al,
            fdEvidence = gaEvidence al\<rparr>) (ceAssessmentLogs ce)) evals))"

definition md_line :: "string \<Rightarrow> string" where "md_line s = s @ [nl]"

definition writeSummary :: "string \<Rightarrow> EvaluationLog \<Rightarrow> string \<Rightarrow> string" where
  "writeSummary policyID log now =
    (let targetID = (if ltId (elTarget log) = [] then ''-'' else ltId (elTarget log));
         tool0 = (if lmAuthorName (elMetadata log) = [] then ''-'' else lmAuthorName (elMetadata log));
         toolName = (if lmAuthorVersion (elMetadata log) \<noteq> [] then tool0 @ '' '' @ lmAuthorVersion (elMetadata log) else tool0);
         counts = computeSummaryCounts (elEvaluations log);
         applicable = counts_applicable counts;
         passRate = (if applicable > 0 then mcPassed counts * 100 div applicable else 0) in
     md_line (''# Compliance Scan Report: '' @ policyID) @ [nl] @
     md_line ''| Field | Value |'' @ md_line ''|-------|-------|'' @
     md_line (''| Policy | '' @ policyID @ '' |'') @
     md_line (''| Target | '' @ targetID @ '' |'') @
     md_line (''| Tool | '' @ toolName @ '' |'') @
     md_line (''| Result | '' @ result_string (elResult log) @ '' |'') @
     md_line (''| Date | '' @ now @ '' |'') @ [nl] @
     md_line (''**Overall: '' @ result_string (elResult log) @ '' -- '' @ show_nat passRate @ ''% pass rate ('' @
       show_nat (mcPassed counts) @ ''/'' @ show_nat applicable @ '' applicable)**'') @ [nl] @
     md_line (''| '' @ StatusPassed @ '' Passed | '' @ StatusFailed @ '' Failed | '' @ StatusError @ '' Needs Review | '' @
       StatusError @ '' Unknown | '' @ StatusSkipped @ '' N/A | '' @ StatusSkipped @ '' Not Run | Total |'') @
     md_line ''|--------|--------|--------------|---------|-----|---------|-------|'' @
     md_line (''| '' @ show_nat (mcPassed counts) @ '' | '' @ show_nat (mcFailed counts) @ '' | '' @ show_nat (mcNeedsReview counts) @
       '' | '' @ show_nat (mcUnknown counts) @ '' | '' @ show_nat (mcNotApplicable counts) @ '' | '' @ show_nat (mcNotRun counts) @
       '' | '' @ show_nat (counts_total counts) @ '' |'') @ [nl])"

definition writeControlsTable :: "EvaluationLog \<Rightarrow> string" where
  "writeControlsTable log =
    md_line ''## Controls'' @ [nl] @ md_line ''| Control / Requirement | Result | Message |'' @
    md_line ''|-----------------------|--------|---------|'' @
    concat (map (\<lambda>ce.
      md_line (''| **'' @ ceName ce @ ''** | **'' @ resultEmoji (ceResult ce) @ '' '' @ result_string (ceResult ce) @ ''** | '' @ ceMessage ce @ '' |'') @
      concat (map (\<lambda>al. md_line (''| &nbsp;&nbsp;'' @ emEntryId (gaRequirement al) @ '' | '' @ resultEmoji (gaResult al) @ '' '' @
        result_string (gaResult al) @ '' | |'')) (ceAssessmentLogs ce))) (elEvaluations log)) @ [nl]"

definition formatEvidenceMeta :: "GemaraEvidence \<Rightarrow> string" where
  "formatEvidenceMeta ev =
    Join '', '' (
      (if geType ev \<noteq> [] then [geType ev] else []) @
      (if geCollectedAt ev \<noteq> [] then [''collected: '' @ geCollectedAt ev] else []) @
      (if exReferenceId (geSource ev) \<noteq> []
       then [''source: '' @ exReferenceId (geSource ev) @
             (if exCoordinate (geSource ev) \<noteq> [] then '' @ '' @ exCoordinate (geSource ev) else [])]
       else []))"

definition evidence_lines :: "GemaraEvidence \<Rightarrow> string" where
  "evidence_lines ev =
    (let label = (if geDescription ev = [] then geId ev else geDescription ev); meta = formatEvidenceMeta ev;
         tick = replicate 3 CHR 0x60 in
     (if meta \<noteq> [] then md_line (''- '' @ label @ '' ('' @ meta @ '')'') else md_line (''- '' @ label)) @
     (if gePayload ev \<noteq> [] then nl # md_line (''  '' @ tick) @ md_line (''  '' @ gePayload ev) @ md_line (''  '' @ tick) @ [nl] else []))"

definition finding_lines :: "finding \<Rightarrow> string" where
  "finding_lines f =
    md_line (''#### '' @ fdRequirementID f @ '' -- '' @ result_string (fdResult f)) @ [nl] @
    md_line (''- **Control**: '' @ fdControlID f) @ md_line (''- **Message**: '' @ fdMessage f) @
    (if fdConfidence f \<noteq> Undetermined then md_line (''- **Confidence**: '' @ confidence_string (fdConfidence f)) else []) @
    (if fdRecommendation f \<noteq> [] then md_line (''- **Recommendation**: '' @ fdRecommendation f) else []) @
    (if fdEvidence f \<noteq> []
     then nl # md_line ''<details>'' @ md_line (''<summary>Evidence ('' @ show_nat (length (fdEvidence f)) @ '' items)</summary>'') @ [nl] @
       concat (map evidence_lines (fdEvidence f)) @ nl # md_line ''</details>''
     else []) @ [nl]"

fun findings_loop :: "result option \<Rightarrow> finding list \<Rightarrow> string" where
  "findings_loop current [] = []"
| "findings_loop current (f # fs) =
    (if current \<noteq> Some (fdResult f)
     then md_line (''### '' @ resultEmoji (fdResult f) @ '' '' @ result_string (fdResult f)) @ [nl] else []) @
    finding_lines f @ findings_loop (Some (fdResult f)) fs"

definition writeFindings :: "EvaluationLog \<Rightarrow> string" where
  "writeFindings log =
    (let findings = collectFindings (elEvaluations log) in
     md_line ''## Findings'' @ [nl] @
     (if findings = [] then md_line ''No findings.'' @ [nl] else findings_loop None findings))"

definition writeEvaluationLog :: "faults \<Rightarrow> path option \<Rightarrow> (fdata \<Rightarrow> string) \<Rightarrow> fs \<Rightarrow> string" where
  "writeEvaluationLog flt embedPath bytes s =
    (case embedPath of
       None \<Rightarrow> []
     | Some p \<Rightarrow>
        (case fs_ReadFile flt p s of
           Doc d \<Rightarrow>
             (let tick = replicate 3 CHR 0x60 in
              md_line ''---'' @ [nl] @ md_line ''<details>'' @ md_line ''<summary>Evaluation Log</summary>'' @ [nl] @
              md_line (tick @ ''yaml'') @ bytes d @ [nl] @ md_line tick @ [nl] @ md_line ''</details>'')
         | _ \<Rightarrow> []))"

definition Markdown_Write ::
    "faults \<Rightarrow> (fdata \<Rightarrow> string) \<Rightarrow> string \<Rightarrow> string \<Rightarrow> string \<Rightarrow> EvaluationLog \<Rightarrow> path option \<Rightarrow> path \<Rightarrow> fs \<Rightarrow>
      fs \<times> (out_err + path)" where
  "Markdown_Write flt bytes now ts policyID log embedPath outDir s =
    write_report flt outDir (BuildReportFilename ts ''report'' policyID (ltId (elTarget log)) ''md'')
      (writeSummary policyID log now @ writeControlsTable log @ writeFindings log @ writeEvaluationLog flt embedPath bytes s) s"

section \<open>Properties of the reports\<close>

abbreviation assessed :: "AssessmentLog \<Rightarrow> result" where
  "assessed a \<equiv> aggregateResultFromSteps (alSteps a)"

definition tally :: "result \<Rightarrow> result list \<Rightarrow> nat" where
  "tally r rs = length (filter (\<lambda>x. x = r) rs)"

lemma tally_simps [simp]: "tally r [] = 0" "tally r (x # rs) = (if x = r then 1 else 0) + tally r rs"
  by (simp_all add: tally_def)

lemma tally_sum:
  "length rs = tally Passed rs + tally Failed rs + tally NeedsReview rs + tally NotApplicable rs + tally NotRun rs + tally Unknown rs"
proof (induction rs)
  case (Cons r rs)
  then show ?case by (cases r) auto
qed simp

lemma tally_perm: "mset rs = mset rs' \<Longrightarrow> tally r rs = tally r rs'"
  by (metis mset_filter size_mset tally_def)

subsection \<open>The summary\<close>

lemma summary_fold:
  "suPass (foldl (summary_step ts rc) acc xs) = suPass acc + tally Passed (map (assessed \<circ> snd) xs)"
  "suFail (foldl (summary_step ts rc) acc xs) = suFail acc + tally Failed (map (assessed \<circ> snd) xs)"
  "suNotApplicable (foldl (summary_step ts rc) acc xs) = suNotApplicable acc + tally NotApplicable (map (assessed \<circ> snd) xs)"
  "suSkip (foldl (summary_step ts rc) acc xs) = suSkip acc + tally NotRun (map (assessed \<circ> snd) xs)"
  "suErr (foldl (summary_step ts rc) acc xs) =
     suErr acc + tally NeedsReview (map (assessed \<circ> snd) xs) + tally Unknown (map (assessed \<circ> snd) xs)"
  "map seResult (suEntries (foldl (summary_step ts rc) acc xs)) = map seResult (suEntries acc) @ map (assessed \<circ> snd) xs"
  by (induction xs arbitrary: acc) (auto simp: summary_step_def Let_def split: prod.splits result.splits)

lemma summary_counts:
  "suPass (summary_of as ts rc) = tally Passed (map assessed as)"
  "suFail (summary_of as ts rc) = tally Failed (map assessed as)"
  "suNotApplicable (summary_of as ts rc) = tally NotApplicable (map assessed as)"
  "suSkip (summary_of as ts rc) = tally NotRun (map assessed as)"
  "suErr (summary_of as ts rc) = tally NeedsReview (map assessed as) + tally Unknown (map assessed as)"
  "map seResult (suEntries (summary_of as ts rc)) = map assessed as"
proof -
  have m: "map (assessed \<circ> snd) (enumerate 0 as) = map assessed as"
    by (metis map_map map_snd_enumerate)
  show "suPass (summary_of as ts rc) = tally Passed (map assessed as)"
    "suFail (summary_of as ts rc) = tally Failed (map assessed as)"
    "suNotApplicable (summary_of as ts rc) = tally NotApplicable (map assessed as)"
    "suSkip (summary_of as ts rc) = tally NotRun (map assessed as)"
    "suErr (summary_of as ts rc) = tally NeedsReview (map assessed as) + tally Unknown (map assessed as)"
    "map seResult (suEntries (summary_of as ts rc)) = map assessed as"
    unfolding summary_of_def summary_fold m by (simp_all add: empty_summary_def)
qed

text \<open>
  The scan summary accounts for every assessment: the five counts of its last line
  add up to the number of assessments, the table has a row for each assessment (for each that did
  not pass when passing ones are hidden), and the rows are ordered by severity, failures first.
\<close>

theorem summary_accounts_for_all:
  "suPass (summary_of as ts rc) + suFail (summary_of as ts rc) + suNotApplicable (summary_of as ts rc) +
     suSkip (summary_of as ts rc) + suErr (summary_of as ts rc) = length as \<and>
   length (summary_rows True (summary_of as ts rc)) = length as \<and>
   length (summary_rows False (summary_of as ts rc)) + suPass (summary_of as ts rc) = length as \<and>
   sorted (map (\<lambda>e. sortPriority (seResult e)) (summary_rows b (summary_of as ts rc)))"
proof -
  note c = summary_counts[of as ts rc]
  have l: "length (suEntries (summary_of as ts rc)) = length as" using arg_cong[OF c(6), of length] by simp
  have "length (filter (\<lambda>e. seResult e \<noteq> Passed) (suEntries (summary_of as ts rc))) =
      length (filter (\<lambda>r. r \<noteq> Passed) (map seResult (suEntries (summary_of as ts rc))))"
    by (simp add: filter_map comp_def)
  then have "length (filter (\<lambda>e. seResult e \<noteq> Passed) (suEntries (summary_of as ts rc))) + tally Passed (map assessed as) = length as"
    unfolding c(6) tally_def using sum_length_filter_compl[of "\<lambda>r. r = Passed" "map assessed as"] by simp
  then show ?thesis using c(1-5) l tally_sum[of "map assessed as"] by (simp add: summary_rows_def)
qed

subsection \<open>Agreement of the reports\<close>

lemma mset_partition:
  "distinct cs \<Longrightarrow> mset (concat (map (\<lambda>c. filter (\<lambda>a. f a = c) as) cs)) = filter_mset (\<lambda>a. f a \<in> set cs) (mset as)"
proof (induction cs)
  case (Cons c cs)
  have "filter_mset (\<lambda>a. f a = c \<or> f a \<in> set cs) M = filter_mset (\<lambda>a. f a = c) M + filter_mset (\<lambda>a. f a \<in> set cs) M" for M
    using Cons.prems by (induction M) auto
  then show ?case using Cons by simp
qed simp

lemma log_assessments:
  assumes "represents now e0 as e"
  shows "mset (concat (map ceAssessmentLogs (elEvaluations (GemaraLog e)))) = mset (map (gemara_of now e0) as)"
proof -
  have "concat (map ceAssessmentLogs (spec_evaluations now e0 as)) =
      map (gemara_of now e0) (concat (map (own e0 as) (firsts (map (control_of e0) as))))"
    by (simp add: spec_evaluations_def spec_control_def Let_def map_concat comp_def)
  also have "mset \<dots> = image_mset (gemara_of now e0) (filter_mset (\<lambda>a. control_of e0 a \<in> set (firsts (map (control_of e0) as))) (mset as))"
    using mset_partition[OF distinct_firsts, of "control_of e0" as "map (control_of e0) as"]
    by (simp add: own_def[abs_def] del: set_firsts)
  also have "filter_mset (\<lambda>a. control_of e0 a \<in> set (firsts (map (control_of e0) as))) (mset as) = mset as"
    by (simp add: filter_mset_eq_conv)
  finally show ?thesis using represents_evaluations[OF assms] by simp
qed

lemma foldl_nested: "foldl (\<lambda>c x. foldl f c (g x)) a xs = foldl f a (concat (map g xs))"
  by (induction xs arbitrary: a) auto

lemma count_fold:
  "mcPassed (foldl count_log c ls) = mcPassed c + tally Passed (map gaResult ls)"
  "mcFailed (foldl count_log c ls) = mcFailed c + tally Failed (map gaResult ls)"
  "mcNeedsReview (foldl count_log c ls) = mcNeedsReview c + tally NeedsReview (map gaResult ls)"
  "mcNotApplicable (foldl count_log c ls) = mcNotApplicable c + tally NotApplicable (map gaResult ls)"
  "mcNotRun (foldl count_log c ls) = mcNotRun c + tally NotRun (map gaResult ls)"
  "mcUnknown (foldl count_log c ls) = mcUnknown c + tally Unknown (map gaResult ls)"
  by (induction ls arbitrary: c) (auto simp: count_log_def split: result.splits)

lemma collectFindings_length:
  "length (collectFindings evals) = length (filter (\<lambda>r. r \<noteq> Passed) (map gaResult (concat (map ceAssessmentLogs evals))))"
proof -
  have h: "length (List.map_filter (\<lambda>al. if gaResult al = Passed then None else Some (g al)) ls) =
      length (filter (\<lambda>r. r \<noteq> Passed) (map gaResult ls))" for g ls
    by (induction ls) (auto simp: List.map_filter_simps)
  have "length (concat (map (\<lambda>ce. List.map_filter (\<lambda>al. if gaResult al = Passed then None else Some (g ce al)) (ceAssessmentLogs ce)) evals)) =
      length (filter (\<lambda>r. r \<noteq> Passed) (map gaResult (concat (map ceAssessmentLogs evals))))" for g
    by (induction evals) (simp_all add: h)
  then show ?thesis by (simp add: collectFindings_def)
qed


subsection \<open>Merging mapping references\<close>

text \<open>References up to their description, and the provider references that are new.\<close>

definition strip :: "MappingReference \<Rightarrow> MappingReference" where
  "strip r = r\<lparr>mrDescription := []\<rparr>"

fun fresh_refs :: "string set \<Rightarrow> MappingReference list \<Rightarrow> MappingReference list" where
  "fresh_refs seen [] = []"
| "fresh_refs seen (r # rs) =
    (if mrID r = [] \<or> mrID r \<in> seen then fresh_refs seen rs else r # fresh_refs (insert (mrID r) seen) rs)"

lemma fresh_refs_ids: "distinct (map mrID (fresh_refs seen rs)) \<and> mrID ` set (fresh_refs seen rs) \<inter> insert [] seen = {}"
  by (induction seen rs rule: fresh_refs.induct) auto

definition seen_ok :: "merge_acc \<Rightarrow> bool" where
  "seen_ok acc \<longleftrightarrow> (\<forall>k. go_get (maSeen acc) k = None \<longleftrightarrow> k \<notin> mrID ` set (maResult acc)) \<and>
     (\<forall>k i. go_get (maSeen acc) k = Some i \<longrightarrow> i < length (maResult acc))"

lemma seen_ok_snoc:
  "seen_ok acc \<Longrightarrow> seen_ok (acc\<lparr>maSeen := go_put (mrID r) (length (maResult acc)) (maSeen acc),
      maPolicyOrigin := po, maResult := maResult acc @ [r]\<rparr>)"
  by (auto simp: seen_ok_def less_Suc_eq)

lemma mrID_strip: "mrID ` set xs = mrID ` set (map strip xs)"
  by (auto simp: strip_def image_image)

lemma strip_update: "i < length xs \<Longrightarrow> map strip (xs[i := (xs ! i)\<lparr>mrDescription := d\<rparr>]) = map strip xs"
  by (rule nth_equalityI) (auto simp: strip_def nth_list_update)

lemma merge_policy_fold:
  assumes "seen_ok acc" "maCollisions acc = []" "maDiscarded acc = []"
  shows "seen_ok (foldl merge_policy acc ps) \<and> maResult (foldl merge_policy acc ps) = maResult acc @ ps \<and>
    set (maPolicyOrigin (foldl merge_policy acc ps)) = set (maPolicyOrigin acc) \<union> mrID ` set ps \<and>
    maCollisions (foldl merge_policy acc ps) = [] \<and> maDiscarded (foldl merge_policy acc ps) = []"
  using assms
proof (induction ps arbitrary: acc)
  case (Cons p ps)
  have "seen_ok (merge_policy acc p)" using seen_ok_snoc[OF Cons.prems(1)] by (simp add: merge_policy_def)
  from Cons.IH[OF this] Cons.prems show ?case by (auto simp: merge_policy_def)
qed simp

lemma merge_provider_step:
  assumes "seen_ok acc"
  shows "seen_ok (merge_provider acc r) \<and> maPolicyOrigin (merge_provider acc r) = maPolicyOrigin acc \<and>
    map strip (maResult (merge_provider acc r)) = map strip (maResult acc) @
      (if mrID r = [] \<or> mrID r \<in> mrID ` set (maResult acc) then [] else [strip r]) \<and>
    maDiscarded (merge_provider acc r) = maDiscarded acc @ (if mrID r = [] then [mrTitle r] else []) \<and>
    length (maCollisions (merge_provider acc r)) + length (maDiscarded (merge_provider acc r)) + length (maResult (merge_provider acc r)) =
      Suc (length (maCollisions acc) + length (maDiscarded acc) + length (maResult acc)) \<and>
    (list_all (\<lambda>c. mcPolicyWins c = (mcID c \<in> set (maPolicyOrigin acc))) (maCollisions acc) \<longrightarrow>
     list_all (\<lambda>c. mcPolicyWins c = (mcID c \<in> set (maPolicyOrigin acc))) (maCollisions (merge_provider acc r)))"
proof (cases "mrID r = []")
  case True
  then show ?thesis using assms by (simp add: merge_provider_def seen_ok_def)
next
  case False
  show ?thesis
  proof (cases "go_get (maSeen acc) (mrID r)")
    case None
    then have "mrID r \<notin> mrID ` set (maResult acc)" using assms by (simp add: seen_ok_def)
    then show ?thesis
      using None False seen_ok_snoc[OF assms, of r "maPolicyOrigin acc"] by (simp add: merge_provider_def)
  next
    case (Some i)
    then have i: "i < length (maResult acc)" and m: "mrID r \<in> mrID ` set (maResult acc)"
      using assms unfolding seen_ok_def by (metis option.distinct(1))+
    let ?kept = "(maResult acc)[i := (maResult acc ! i)\<lparr>mrDescription :=
       buildCollisionNote (mrID r) (mrTitle r) (if mrID r \<in> set (maPolicyOrigin acc) then ''policy ref'' else ''earlier provider ref'') @
       mrDescription (maResult acc ! i)\<rparr>]"
    have s: "map strip ?kept = map strip (maResult acc)" using i by (rule strip_update)
    then have ids: "mrID ` set ?kept = mrID ` set (maResult acc)" by (metis mrID_strip)
    have "maResult (merge_provider acc r) = ?kept" "maSeen (merge_provider acc r) = maSeen acc"
      using Some False by (simp_all add: merge_provider_def Let_def)
    then have "seen_ok (merge_provider acc r)" using assms ids by (simp add: seen_ok_def)
    then show ?thesis using Some False i m s by (simp add: merge_provider_def Let_def)
  qed
qed

lemma merge_provider_fold:
  assumes "seen_ok acc" "list_all (\<lambda>c. mcPolicyWins c = (mcID c \<in> set (maPolicyOrigin acc))) (maCollisions acc)"
  shows "map strip (maResult (foldl merge_provider acc rs)) =
      map strip (maResult acc) @ map strip (fresh_refs (mrID ` set (maResult acc)) rs) \<and>
    maDiscarded (foldl merge_provider acc rs) = maDiscarded acc @ map mrTitle (filter (\<lambda>r. mrID r = []) rs) \<and>
    length (maCollisions (foldl merge_provider acc rs)) + length (maDiscarded (foldl merge_provider acc rs)) +
      length (maResult (foldl merge_provider acc rs)) =
      length rs + length (maCollisions acc) + length (maDiscarded acc) + length (maResult acc) \<and>
    list_all (\<lambda>c. mcPolicyWins c = (mcID c \<in> set (maPolicyOrigin acc))) (maCollisions (foldl merge_provider acc rs))"
  using assms
proof (induction rs arbitrary: acc)
  case (Cons r rs)
  note st = merge_provider_step[OF Cons.prems(1), of r]
  have ids: "mrID ` set (maResult (merge_provider acc r)) =
      (if mrID r = [] \<or> mrID r \<in> mrID ` set (maResult acc) then mrID ` set (maResult acc) else insert (mrID r) (mrID ` set (maResult acc)))"
    using st mrID_strip[of "maResult (merge_provider acc r)"] mrID_strip[of "maResult acc"]
    by (auto simp: strip_def simp del: list.set_map)
  have p: "list_all (\<lambda>c. mcPolicyWins c = (mcID c \<in> set (maPolicyOrigin (merge_provider acc r)))) (maCollisions (merge_provider acc r))"
    using st Cons.prems(2) by simp
  note IH = Cons.IH[OF conjunct1[OF st] p]
  show ?case
    using IH st unfolding ids by (auto split: if_splits)
qed simp

text \<open>
  Merging mapping references loses none: up to collision notes in descriptions the
  result is all policy references in order followed by the new provider references in order
  (non-empty ID, first of its ID, not a policy ID); every other provider reference is reported
  either as a collision, won by the policy exactly when the policy has that ID, or as discarded
  for its empty ID.
\<close>

theorem merge_accounts_for_all:
  "case MergeMappingReferences policyRefs providerRefs of (refs, collisions, discarded) \<Rightarrow>
     map strip refs = map strip policyRefs @ map strip (fresh_refs (mrID ` set policyRefs) providerRefs) \<and>
     discarded = map mrTitle (filter (\<lambda>r. mrID r = []) providerRefs) \<and>
     length refs + length collisions + length discarded = length policyRefs + length providerRefs \<and>
     list_all (\<lambda>c. mcPolicyWins c = (mcID c \<in> mrID ` set policyRefs)) collisions"
proof -
  define a0 where "a0 = \<lparr>maSeen = [], maPolicyOrigin = [], maResult = [], maCollisions = [], maDiscarded = []\<rparr>"
  have "seen_ok a0" "maCollisions a0 = []" "maDiscarded a0 = []" by (simp_all add: a0_def seen_ok_def)
  note p = merge_policy_fold[OF this, of policyRefs]
  define a1 where "a1 = foldl merge_policy a0 policyRefs"
  have a1: "seen_ok a1" "maResult a1 = policyRefs" "set (maPolicyOrigin a1) = mrID ` set policyRefs"
    "maCollisions a1 = []" "maDiscarded a1 = []"
    using p by (simp_all add: a1_def a0_def)
  have "list_all (\<lambda>c. mcPolicyWins c = (mcID c \<in> set (maPolicyOrigin a1))) (maCollisions a1)" by (simp add: a1)
  from merge_provider_fold[OF a1(1) this, of providerRefs]
  show ?thesis by (auto simp: MergeMappingReferences_def Let_def merge_all_def a0_def[symmetric] a1_def[symmetric] a1)
qed

end
