(* ===== verification/Scan.thy ===== *)
theory Scan
  imports Reports
begin

text \<open>
  The scan command (\<^verbatim>\<open>cmd/complyctl/cli/scan.go\<close>), which composes the other components: options,
  choice of target and policy, generation, scanning through the providers, evaluators and reports,
  and the error that decides the exit code. What lies outside the repository (YAML and JSON
  libraries, bundle unpacking, provider processes, the SARIF converter, the clock) is a record of
  functions.
\<close>

section \<open>Options\<close>

datatype scan_err =
    SDuplicateFormat string
  | SAllCombined
  | SInvalidFormat string
  | SLogFormat string
  | SShowPassing string
  | SConfig cfg_err
  | SNoTargets
  | STargetNotFound string
  | STargetNotPolicy string string
  | STargetNoPolicies string
  | STargetManyPolicies string
  | SNeedPolicy
  | SPolicyNotFound string
  | SPolicyRef string cfg_err
  | SResolve resolve_err
  | SProviders prov_err
  | SNoProviders
  | SGenerate gen_err
  | SRoute prov_err
  | SWriteLog out_err
  | SOperational nat
  | SNothingAssessed

definition OutputFormatAll :: string where "OutputFormatAll = ''all''"

definition allConcreteFormats :: "string list" where
  "allConcreteFormats = [''oscal'', ''pretty'', ''sarif'']"

definition scan_validate :: "string list \<Rightarrow> scan_err option" where
  "scan_validate formats =
    (if formats = [] then None
     else case first_dup {} formats of
       Some f \<Rightarrow> Some (SDuplicateFormat f)
     | None \<Rightarrow>
        if OutputFormatAll \<in> set formats then (if length formats > 1 then Some SAllCombined else None)
        else first_err (\<lambda>f. if f = ''oscal'' \<or> f = ''pretty'' \<or> f = ''sarif'' then None else Some (SInvalidFormat f)) formats)"

definition resolveFormats :: "string list \<Rightarrow> string list" where
  "resolveFormats formats = (if formats = [OutputFormatAll] then allConcreteFormats else formats)"

definition resolveLogFormat :: "osenv \<Rightarrow> string \<Rightarrow> bool \<Rightarrow> string" where
  "resolveLogFormat os flagValue flagChanged =
    (if \<not> flagChanged then
       (let envVal = os_Getenv os ''COMPLYTIME_LOG_FORMAT'' in if envVal \<noteq> [] then envVal else flagValue)
     else flagValue)"

definition validateLogFormat :: "string \<Rightarrow> scan_err option" where
  "validateLogFormat logFormat = (if logFormat = ''yaml'' \<or> logFormat = ''json'' then None else Some (SLogFormat logFormat))"

text \<open>\<^verbatim>\<open>strconv.ParseBool\<close> and the override of \<^verbatim>\<open>--show-passing\<close> by the environment.\<close>

definition ParseBool :: "string \<Rightarrow> bool option" where
  "ParseBool s = (if s \<in> {''1'', ''t'', ''T'', ''true'', ''TRUE'', ''True''} then Some True
     else if s \<in> {''0'', ''f'', ''F'', ''false'', ''FALSE'', ''False''} then Some False else None)"

definition resolve_showPassing :: "osenv \<Rightarrow> bool \<Rightarrow> bool \<Rightarrow> scan_err + bool" where
  "resolve_showPassing os flagValue flagChanged =
    (if flagChanged then Inr flagValue
     else let envVal = os_Getenv os ''COMPLYTIME_SHOW_PASSING'' in
       if envVal = [] then Inr flagValue
       else case ParseBool envVal of None \<Rightarrow> Inl (SShowPassing envVal) | Some b \<Rightarrow> Inr b)"

section \<open>Choosing target and policy\<close>

definition resolveTarget :: "WorkspaceConfig \<Rightarrow> string \<Rightarrow> scan_err + TargetConfig" where
  "resolveTarget cfg targetID =
    (case List.find (\<lambda>t. tcID t = targetID) (wcTargets cfg) of
       Some t \<Rightarrow> Inr t
     | None \<Rightarrow> Inl (STargetNotFound targetID))"

definition resolvePolicy :: "TargetConfig option \<Rightarrow> string \<Rightarrow> scan_err + string" where
  "resolvePolicy target policyID =
    (case target of
       Some t \<Rightarrow>
         if policyID \<noteq> [] then
           (if policyID \<notin> set (tcPolicies t) then Inl (STargetNotPolicy (tcID t) policyID) else Inr policyID)
         else (case tcPolicies t of
             [] \<Rightarrow> Inl (STargetNoPolicies (tcID t))
           | [p] \<Rightarrow> Inr p
           | _ \<Rightarrow> Inl (STargetManyPolicies (tcID t)))
     | None \<Rightarrow> if policyID = [] then Inl SNeedPolicy else Inr policyID)"

section \<open>Scanning\<close>

record scanOutput =
  soAssessments :: "AssessmentLog list"
  soAssessmentTargets :: "string list"
  soErrors :: "string list"
  soMappingReferences :: "(string, MappingReference list) gomap"

fun scan_evaluators ::
    "bool \<Rightarrow> manager \<Rightarrow> Target list \<Rightarrow> string list \<Rightarrow> AssessmentLog list \<times> string list \<times> MappingReference list \<Rightarrow>
      prov_err + AssessmentLog list \<times> string list \<times> MappingReference list" where
  "scan_evaluators deadline mgr targets [] acc = Inr acc"
| "scan_evaluators deadline mgr targets (evalID # evalIDs) (results, errs, refs) =
    (case RouteScanResult deadline mgr evalID targets of
       Inl e \<Rightarrow> Inl e
     | Inr r \<Rightarrow> scan_evaluators deadline mgr targets evalIDs
                 (results @ rsAssessments r, errs @ rsErrors r, refs @ rsMappingReferences r))"

definition scanSingleTarget ::
    "bool \<Rightarrow> manager \<Rightarrow> (string, EvaluatorGroup) gomap \<Rightarrow> TargetConfig \<Rightarrow>
      prov_err + AssessmentLog list \<times> string list \<times> MappingReference list" where
  "scanSingleTarget deadline mgr groups target =
    scan_evaluators deadline mgr [\<lparr>tgTargetID = tcID target, tgVariables = tcVariables target\<rparr>]
      (sort (map fst groups)) ([], [], [])"

fun scanAllTargets_loop ::
    "bool \<Rightarrow> manager \<Rightarrow> (string, EvaluatorGroup) gomap \<Rightarrow> TargetConfig list \<Rightarrow> scanOutput \<Rightarrow> prov_err + scanOutput" where
  "scanAllTargets_loop deadline mgr groups [] out = Inr out"
| "scanAllTargets_loop deadline mgr groups (target # targets) out =
    (case scanSingleTarget deadline mgr groups target of
       Inl e \<Rightarrow> Inl e
     | Inr (results, opErrors, mappingRefs) \<Rightarrow>
        (let oldRefs = (case go_get (soMappingReferences out) (tcID target) of Some rs \<Rightarrow> rs | None \<Rightarrow> []) in
         scanAllTargets_loop deadline mgr groups targets
           (out\<lparr>soAssessments := soAssessments out @ results,
                soAssessmentTargets := soAssessmentTargets out @ replicate (length results) (tcID target),
                soErrors := soErrors out @ opErrors,
                soMappingReferences := go_put (tcID target) (oldRefs @ mappingRefs) (soMappingReferences out)\<rparr>)))"

definition empty_output :: scanOutput where
  "empty_output = \<lparr>soAssessments = [], soAssessmentTargets = [], soErrors = [], soMappingReferences = []\<rparr>"

definition scanAllTargets ::
    "bool \<Rightarrow> manager \<Rightarrow> (string, EvaluatorGroup) gomap \<Rightarrow> TargetConfig list \<Rightarrow> prov_err + scanOutput" where
  "scanAllTargets deadline mgr groups policyTargets = scanAllTargets_loop deadline mgr groups policyTargets empty_output"

definition injectWorkspaceIntoTargets :: "TargetConfig list \<Rightarrow> string \<Rightarrow> TargetConfig list" where
  "injectWorkspaceIntoTargets targets baseDir =
    map (\<lambda>t. t\<lparr>tcVariables := WithWorkspaceVar (tcVariables t) baseDir\<rparr>) targets"

section \<open>Identifiers\<close>

record resolvedMappings =
  rmReqToControl :: "(string, string) gomap"
  rmReqToPlan :: "(string, string) gomap"
  rmReqToComplypackRef :: "(string, string) gomap"

definition extractReqToControlMap :: "DependencyGraph \<Rightarrow> (string, string) gomap" where
  "extractReqToControlMap graph =
    foldl (\<lambda>m ctrl. foldl (\<lambda>m c. foldl (\<lambda>m ar. go_put ar (ctId c) m) m (ctRequirementIds c)) m
             (ccControls (coParsed ctrl))) [] (dgControls graph)"

definition extractPlanToReqMap :: "DependencyGraph \<Rightarrow> (string, string) gomap" where
  "extractPlanToReqMap graph =
    foldl (\<lambda>m a. if asRequirementID a \<noteq> [] then go_put (asID a) (asRequirementID a) m else m) [] (dgAssessments graph)"

definition resolve_id :: "(string, string) gomap \<Rightarrow> AssessmentLog \<Rightarrow> AssessmentLog" where
  "resolve_id planToReq a =
    (let matchID = (if alPlanID a = [] then alRequirementID a else alPlanID a) in
     case go_get planToReq matchID of
       Some reqID \<Rightarrow> a\<lparr>alRequirementID := reqID\<rparr>
     | None \<Rightarrow> if alRequirementID a = [] then a\<lparr>alRequirementID := matchID\<rparr> else a)"

definition resolveAssessmentIDs :: "AssessmentLog list \<Rightarrow> (string, string) gomap \<Rightarrow> AssessmentLog list" where
  "resolveAssessmentIDs assessments planToReq = map (resolve_id planToReq) assessments"

definition reverseMap :: "(string, string) gomap \<Rightarrow> (string, string) gomap" where
  "reverseMap m = foldl (\<lambda>r (k, v). go_put v k r) [] m"

definition evaluator_refs :: "State \<Rightarrow> (string, string) gomap" where
  "evaluator_refs st =
    foldl (\<lambda>m (repo, ps). if psDigest ps = [] \<or> psEvaluatorID ps = [] then m
             else go_put (psEvaluatorID ps) (repo @ ''@'' @ psDigest ps) m) [] (stComplypacks st)"

definition buildReqToComplypackRef :: "faults \<Rightarrow> path \<Rightarrow> (string, EvaluatorGroup) gomap \<Rightarrow> fs \<Rightarrow> (string, string) gomap" where
  "buildReqToComplypackRef flt dataDir groups s =
    (if groups = [] then []
     else case LoadState flt dataDir s of
       Inl _ \<Rightarrow> []
     | Inr st \<Rightarrow>
        (let evalToRef = evaluator_refs st in
         if evalToRef = [] then []
         else foldl (\<lambda>m (evalID, grp). case go_get evalToRef evalID of
                 None \<Rightarrow> m
               | Some ref \<Rightarrow> foldl (\<lambda>m cfg. go_put (MatchID cfg) ref m) m (egConfigs grp)) [] groups))"

section \<open>Evaluators and reports\<close>

text \<open>What the command takes from outside the repository.\<close>

record scan_ext =
  sxConfigYaml :: "string \<Rightarrow> string + WorkspaceConfig"
  sxYaml :: gemara_yaml
  sxUnpack :: "OciStore \<Rightarrow> string \<Rightarrow> Bundle option"
  sxConnect :: "string \<Rightarrow> string + Provider"
  sxReadDir :: "string \<Rightarrow> listing"
  sxDeadline :: bool
  sxMarshal :: "bool \<Rightarrow> serializableEvaluationLog \<Rightarrow> string option"
  sxOscal :: "string \<Rightarrow> oscalFinding list option \<Rightarrow> string option"
  sxSarif :: "EvaluationLog \<Rightarrow> string \<Rightarrow> string option"
  sxBytes :: "fdata \<Rightarrow> string"
  sxNow :: string
  sxTs :: string

definition target_assessments :: "AssessmentLog list \<Rightarrow> string list \<Rightarrow> string \<Rightarrow> AssessmentLog list" where
  "target_assessments allAssessments assessmentTargets targetID =
    map fst (filter (\<lambda>(a, t). t = targetID) (zip allAssessments assessmentTargets))"

text \<open>One evaluator per target; a collision on an ID already reported is not reported again.\<close>

fun add_collisions :: "string list \<Rightarrow> MappingCollision list \<Rightarrow> MappingCollision list \<times> string list" where
  "add_collisions seen [] = ([], seen)"
| "add_collisions seen (c # cs) =
    (if mcID c \<in> set seen then add_collisions seen cs
     else case add_collisions (mcID c # seen) cs of (new, seen') \<Rightarrow> (c # new, seen'))"

fun build_loop ::
    "string \<Rightarrow> string \<Rightarrow> resolvedMappings \<Rightarrow> MappingReference list \<Rightarrow> (string, MappingReference list) gomap \<Rightarrow>
      AssessmentLog list \<Rightarrow> string list \<Rightarrow> TargetConfig list \<Rightarrow> string list \<Rightarrow>
      Evaluator list \<times> MappingCollision list \<times> string list" where
  "build_loop now repository mappings policyRefs perTargetRefs as ts [] seen = ([], [], [])"
| "build_loop now repository mappings policyRefs perTargetRefs as ts (target # targets) seen =
    (let targetProviderRefs = (case go_get perTargetRefs (tcID target) of Some rs \<Rightarrow> rs | None \<Rightarrow> []);
         (mergedRefs, collisions, discarded) = MergeMappingReferences policyRefs targetProviderRefs;
         (newCollisions, seen') = add_collisions seen collisions;
         eval = AddTarget now
           (NewEvaluator repository (tcID target) (rmReqToControl mappings) (rmReqToPlan mappings)
              (rmReqToComplypackRef mappings) mergedRefs)
           (target_assessments as ts (tcID target));
         (evaluators, cs, ds) = build_loop now repository mappings policyRefs perTargetRefs as ts targets seen' in
     (eval # evaluators, newCollisions @ cs, discarded @ ds))"

definition buildEvaluators ::
    "string \<Rightarrow> string \<Rightarrow> resolvedMappings \<Rightarrow> MappingReference list \<Rightarrow> (string, MappingReference list) gomap \<Rightarrow>
      TargetConfig list \<Rightarrow> AssessmentLog list \<Rightarrow> string list \<Rightarrow> Evaluator list \<times> MappingCollision list \<times> string list" where
  "buildEvaluators now repository mappings policyRefs perTargetRefs policyTargets as ts =
    build_loop now repository mappings policyRefs perTargetRefs as ts policyTargets []"

text \<open>Secondary reports are best effort: a failure is a warning (the format) and the others go on.\<close>

definition write_format :: "scan_ext \<Rightarrow> faults \<Rightarrow> Evaluator \<Rightarrow> path \<Rightarrow> path \<Rightarrow> string \<Rightarrow> string \<Rightarrow> fs \<Rightarrow> fs \<times> bool" where
  "write_format x flt eval logPath outDir repository f s =
    (let log = GemaraLog eval in
     case (if f = ''pretty'' then Markdown_Write flt (sxBytes x) (sxNow x) (sxTs x) repository log (Some logPath) outDir s
           else if f = ''sarif'' then ToSARIF (sxSarif x) flt (sxTs x) log ''file:///scan'' outDir s
           else if f = ''oscal'' then ToOSCAL (sxOscal x) flt (sxTs x) log outDir s
           else (s, Inl OConvert)) of
       (s', Inl _) \<Rightarrow> (s', False)
     | (s', Inr _) \<Rightarrow> (s', True))"

fun writeFormatReports ::
    "scan_ext \<Rightarrow> faults \<Rightarrow> string list \<Rightarrow> Evaluator \<Rightarrow> path \<Rightarrow> path \<Rightarrow> string \<Rightarrow> fs \<Rightarrow> fs \<times> string list" where
  "writeFormatReports x flt [] eval logPath outDir repository s = (s, [])"
| "writeFormatReports x flt (f # formats) eval logPath outDir repository s =
    (let (s1, ok) = write_format x flt eval logPath outDir repository f s;
         (s2, warnings) = writeFormatReports x flt formats eval logPath outDir repository s1 in
     (s2, if ok then warnings else f # warnings))"

definition writeScanReports ::
    "scan_ext \<Rightarrow> faults \<Rightarrow> string list \<Rightarrow> string \<Rightarrow> Evaluator \<Rightarrow> path \<Rightarrow> string \<Rightarrow> fs \<Rightarrow> fs \<times> (out_err + string list)" where
  "writeScanReports x flt formats logFormat eval outDir repository s =
    (case Evaluator_Write (sxMarshal x) flt (sxTs x) eval outDir logFormat s of
       (s1, Inl e) \<Rightarrow> (s1, Inl e)
     | (s1, Inr logPath) \<Rightarrow>
        (let (s2, warnings) = writeFormatReports x flt formats eval logPath outDir repository s1 in (s2, Inr warnings)))"

fun write_all ::
    "scan_ext \<Rightarrow> faults \<Rightarrow> string list \<Rightarrow> string \<Rightarrow> Evaluator list \<Rightarrow> path \<Rightarrow> string \<Rightarrow> fs \<Rightarrow> fs \<times> out_err option" where
  "write_all x flt formats logFormat [] outDir repository s = (s, None)"
| "write_all x flt formats logFormat (eval # evals) outDir repository s =
    (case writeScanReports x flt formats logFormat eval outDir repository s of
       (s1, Inl e) \<Rightarrow> (s1, Some e)
     | (s1, Inr _) \<Rightarrow> write_all x flt formats logFormat evals outDir repository s1)"

definition checkOperationalErrors :: "string list \<Rightarrow> scan_err option" where
  "checkOperationalErrors errors = (if errors \<noteq> [] then Some (SOperational (length errors)) else None)"

definition checkNothingAssessed :: "AssessmentLog list \<Rightarrow> scan_err option" where
  "checkNothingAssessed assessments = (if NothingAssessed assessments then Some SNothingAssessed else None)"

text \<open>The second component is the summary on standard output, when it is reached.\<close>

definition processScanOutput ::
    "scan_ext \<Rightarrow> faults \<Rightarrow> string list \<Rightarrow> string \<Rightarrow> scanOutput \<Rightarrow> string \<Rightarrow> resolvedMappings \<Rightarrow> MappingReference list \<Rightarrow>
      TargetConfig list \<Rightarrow> string \<Rightarrow> string list \<Rightarrow> path \<Rightarrow> bool \<Rightarrow> fs \<Rightarrow> fs \<times> string option \<times> scan_err option" where
  "processScanOutput x flt formats logFormat scanOut repository mappings policyRefs policyTargets eid targetIDs baseDir showPassing s =
    (let (evaluators, collisions, discardedTitles) =
           buildEvaluators (sxNow x) repository mappings policyRefs (soMappingReferences scanOut) policyTargets
             (soAssessments scanOut) (soAssessmentTargets scanOut);
         outDir = fp_join baseDir [WorkspaceDir, ''scan''] in
     case write_all x flt formats logFormat evaluators outDir repository s of
       (s1, Some e) \<Rightarrow> (s1, None, Some (SWriteLog e))
     | (s1, None) \<Rightarrow>
        (let summary = FormatScanSummary (soAssessments scanOut) (soAssessmentTargets scanOut) (rmReqToControl mappings) eid
               targetIDs showPassing in
         (s1, Some summary, err_seq (checkOperationalErrors (soErrors scanOut)) (checkNothingAssessed (soAssessments scanOut)))))"

definition runScanAndReport ::
    "scan_ext \<Rightarrow> faults \<Rightarrow> string list \<Rightarrow> string \<Rightarrow> manager \<Rightarrow> (string, EvaluatorGroup) gomap \<Rightarrow> (string, string) gomap \<Rightarrow>
      TargetConfig list \<Rightarrow> string \<Rightarrow> string \<Rightarrow> DependencyGraph \<Rightarrow> string list \<Rightarrow> path \<Rightarrow> bool \<Rightarrow> fs \<Rightarrow>
      fs \<times> string option \<times> scan_err option" where
  "runScanAndReport x flt formats logFormat mgr groups reqToComplypackRef policyTargets repository eid graph targetIDs baseDir showPassing s =
    (let planToReq = extractPlanToReqMap graph;
         mappings = \<lparr>rmReqToControl = extractReqToControlMap graph, rmReqToPlan = reverseMap planToReq,
                     rmReqToComplypackRef = reqToComplypackRef\<rparr> in
     case scanAllTargets (sxDeadline x) mgr groups (injectWorkspaceIntoTargets policyTargets (path_string baseDir)) of
       Inl e \<Rightarrow> (s, None, Some (SRoute e))
     | Inr scanOut \<Rightarrow>
        processScanOutput x flt formats logFormat
          (scanOut\<lparr>soAssessments := resolveAssessmentIDs (soAssessments scanOut) planToReq\<rparr>)
          repository mappings (dgMappingReferences graph) policyTargets eid targetIDs baseDir showPassing s)"

section \<open>The command\<close>

definition scan_loadProviders :: "scan_ext \<Rightarrow> osenv \<Rightarrow> string \<Rightarrow> scan_err + manager" where
  "scan_loadProviders x os providerDir =
    (case LoadProviders (sxConnect x) (DiscoverProviders (sxReadDir x) (osHomeDir os) providerDir (ResolveSystemProviderDir os)) [] of
       (_, Some e) \<Rightarrow> Inl (SProviders e)
     | (mgr, None) \<Rightarrow> if ListProviders mgr = [] then Inl SNoProviders else Inr mgr)"

definition loadWorkspaceConfig :: "(string \<Rightarrow> string + WorkspaceConfig) \<Rightarrow> osenv \<Rightarrow> string \<Rightarrow> cfg_err + WorkspaceConfig" where
  "loadWorkspaceConfig yaml os baseDir =
    (case LoadAndValidate yaml os (NewWorkspace os baseDir) of
       Inl e \<Rightarrow> Inl e
     | Inr w \<Rightarrow> (case wsConfig w of Some c \<Rightarrow> Inr c | None \<Rightarrow> Inl ENothingToSave))"

record scan_options =
  opTarget :: string
  opPolicyID :: string
  opFormats :: "string list"
  opLogFormat :: string
  opShowPassing :: bool
  opCacheDir :: string
  opDataDir :: string
  opProviderDir :: string

definition scanPolicy ::
    "scan_ext \<Rightarrow> faults \<Rightarrow> osenv \<Rightarrow> scan_options \<Rightarrow> WorkspaceConfig \<Rightarrow> PolicyEntry \<Rightarrow> string \<Rightarrow> string \<Rightarrow> fs \<Rightarrow>
      fs \<times> string option \<times> scan_err option" where
  "scanPolicy x flt os opts cfg entry targetID baseDir s =
    (case ParsePolicyRef (peURL entry) of
       Inl e \<Rightarrow> (s, None, Some (SPolicyRef (peURL entry) e))
     | Inr ref \<Rightarrow>
        (let eid = EffectiveID entry; repo = prRepository ref; base = path_of baseDir;
             cacheDir = path_of (opCacheDir opts); dataDir = path_of (opDataDir opts) in
         case resolveVersionAndGraph (sxYaml x) (cache_loader (sxUnpack x) flt cacheDir) repo (VersionString ref) s of
           (s1, Inl e) \<Rightarrow> (s1, None, Some (SResolve e))
         | (s1, Inr (version, graph)) \<Rightarrow>
            (let assessmentConfigs = ExtractAssessmentConfigs graph; groups = GroupByEvaluator assessmentConfigs graph in
             case scan_loadProviders x os (opProviderDir opts) of
               Inl e \<Rightarrow> (s1, None, Some e)
             | Inr mgr \<Rightarrow>
                (let policyTargets = filterTargetsForPolicy (wcTargets cfg) eid; evaluatorIDs = evaluatorIDList groups in
                 case ensureGenerated flt (os_Getenv os ''COMPLYTIME_CACHE_VERSIONS'') (sxNow x) cacheDir dataDir base mgr groups
                        policyTargets (wcVariables cfg) repo evaluatorIDs s1 of
                   (s2, Some e) \<Rightarrow> (s2, None, Some (SGenerate e))
                 | (s2, None) \<Rightarrow>
                    (let scanTargets = (if targetID \<noteq> [] then filterTargetByID policyTargets targetID else policyTargets) in
                     runScanAndReport x flt (opFormats opts) (opLogFormat opts) mgr groups (buildReqToComplypackRef flt dataDir groups s2)
                       scanTargets repo eid graph (targetIDList scanTargets) base (opShowPassing opts) s2)))))"

definition scan_run :: "scan_ext \<Rightarrow> faults \<Rightarrow> osenv \<Rightarrow> string \<Rightarrow> scan_options \<Rightarrow> fs \<Rightarrow> fs \<times> string option \<times> scan_err option" where
  "scan_run x flt os workspaceFlag opts s =
    (case ResolveWorkspaceDir os workspaceFlag of
       Inl e \<Rightarrow> (s, None, Some (SConfig e))
     | Inr baseDir \<Rightarrow>
        (case loadWorkspaceConfig (sxConfigYaml x) os baseDir of
           Inl e \<Rightarrow> (s, None, Some (SConfig e))
         | Inr cfg \<Rightarrow>
            if wcTargets cfg = [] then (s, None, Some SNoTargets)
            else (case (if opTarget opts \<noteq> [] then map_sum (\<lambda>e. e) Some (resolveTarget cfg (opTarget opts)) else Inr None) of
               Inl e \<Rightarrow> (s, None, Some e)
             | Inr target \<Rightarrow>
                (case resolvePolicy target (opPolicyID opts) of
                   Inl e \<Rightarrow> (s, None, Some e)
                 | Inr policyID \<Rightarrow>
                    (case FindPolicy (wcPolicies cfg) policyID of
                       None \<Rightarrow> (s, None, Some (SPolicyNotFound policyID))
                     | Some entry \<Rightarrow> scanPolicy x flt os opts cfg entry (opTarget opts) baseDir s)))))"

text \<open>\<^verbatim>\<open>scanCmd\<close>: the command line (\<open>Some\<close> for a flag that was set), then the run.\<close>

record scan_flags =
  sfArg :: "string option"
  sfPolicyID :: string
  sfFormats :: "string list"
  sfShowPassing :: "bool option"
  sfLogFormat :: "string option"
  sfWorkspace :: string

definition scan_complete :: "osenv \<Rightarrow> scan_options \<Rightarrow> scan_err + scan_options" where
  "scan_complete os opts =
    (case ResolveCacheDir os of
       Inl e \<Rightarrow> Inl (SConfig e)
     | Inr c \<Rightarrow> (case ResolveDataDir os of
         Inl e \<Rightarrow> Inl (SConfig e)
       | Inr d \<Rightarrow> (case ResolveProviderDir os of
           Inl e \<Rightarrow> Inl (SConfig e)
         | Inr p \<Rightarrow> Inr (opts\<lparr>opCacheDir := c, opDataDir := d, opProviderDir := p\<rparr>))))"

definition scanCmd :: "scan_ext \<Rightarrow> faults \<Rightarrow> osenv \<Rightarrow> scan_flags \<Rightarrow> fs \<Rightarrow> fs \<times> string option \<times> scan_err option" where
  "scanCmd x flt os f s =
    (case scan_validate (sfFormats f) of
       Some e \<Rightarrow> (s, None, Some e)
     | None \<Rightarrow>
        (case scan_complete os
            \<lparr>opTarget = (case sfArg f of Some a \<Rightarrow> a | None \<Rightarrow> []), opPolicyID = sfPolicyID f,
             opFormats = resolveFormats (sfFormats f), opLogFormat = [], opShowPassing = True,
             opCacheDir = [], opDataDir = [], opProviderDir = []\<rparr> of
           Inl e \<Rightarrow> (s, None, Some e)
         | Inr opts \<Rightarrow>
            (case resolve_showPassing os (case sfShowPassing f of Some b \<Rightarrow> b | None \<Rightarrow> True) (sfShowPassing f \<noteq> None) of
               Inl e \<Rightarrow> (s, None, Some e)
             | Inr b \<Rightarrow>
                (let lf = resolveLogFormat os (case sfLogFormat f of Some l \<Rightarrow> l | None \<Rightarrow> ''yaml'') (sfLogFormat f \<noteq> None) in
                 case validateLogFormat lf of
                   Some e \<Rightarrow> (s, None, Some e)
                 | None \<Rightarrow> scan_run x flt os (sfWorkspace f) (opts\<lparr>opShowPassing := b, opLogFormat := lf\<rparr>) s))))"

definition completeTargetIDs :: "(string \<Rightarrow> string + WorkspaceConfig) \<Rightarrow> osenv \<Rightarrow> string list \<Rightarrow> string list" where
  "completeTargetIDs yaml os args =
    (if args \<noteq> [] then []
     else case ResolveWorkspaceDir os [] of
       Inl _ \<Rightarrow> []
     | Inr baseDir \<Rightarrow> (case loadWorkspaceConfig yaml os baseDir of Inl _ \<Rightarrow> [] | Inr cfg \<Rightarrow> map tcID (wcTargets cfg)))"

section \<open>Formats\<close>

text \<open>
  A list of formats that passes validation expands to distinct formats, each of which
  has a writer, so no format is skipped as unsupported later; exactly the lists that are the
  shorthand alone or distinct concrete formats pass.
\<close>

theorem accepted_formats_supported:
  "(scan_validate formats = None \<longleftrightarrow>
     formats = [OutputFormatAll] \<or> distinct formats \<and> set formats \<subseteq> set allConcreteFormats) \<and>
   (scan_validate formats = None \<longrightarrow>
     distinct (resolveFormats formats) \<and> set (resolveFormats formats) \<subseteq> {''oscal'', ''pretty'', ''sarif''})"
proof -
  have iff: "scan_validate formats = None \<longleftrightarrow>
     formats = [OutputFormatAll] \<or> distinct formats \<and> set formats \<subseteq> set allConcreteFormats"
  proof (cases "OutputFormatAll \<in> set formats")
    case True
    have "\<not> set formats \<subseteq> set allConcreteFormats"
      using True by (auto simp: allConcreteFormats_def OutputFormatAll_def)
    moreover have "length formats > 1 \<or> formats = [OutputFormatAll]"
      using True by (cases formats rule: remdups_adj.cases) auto
    ultimately show ?thesis
      using True first_dup_None[of "{}" formats]
      by (auto simp: scan_validate_def split: option.splits)
  next
    case False
    then show ?thesis using first_dup_None[of "{}" formats]
      by (auto simp: scan_validate_def allConcreteFormats_def split: option.splits if_splits)
  qed
  then show ?thesis by (auto simp: resolveFormats_def allConcreteFormats_def OutputFormatAll_def)
qed

theorem accepted_formats_supported_witness:
  "distinct (resolveFormats [''all'']) \<and> set (resolveFormats [''all'']) \<subseteq> {''oscal'', ''pretty'', ''sarif''}"
proof -
  have "scan_validate [''all''] = None" by code_simp
  with accepted_formats_supported[of "[''all'']"] show ?thesis by blast
qed

section \<open>Scoping\<close>

text \<open>
  A scan of one target runs on that target only: when the configuration is valid, the
  target and policy are resolved, the policy is found and its name in the target's list has no
  surrounding white space, the narrowed target list is exactly the requested target.
\<close>

theorem scan_scoped_to_target:
  assumes "snd (Validate os cfg) = None" "resolveTarget cfg targetID = Inr t"
    and "resolvePolicy (Some t) policyID = Inr pid" "FindPolicy (wcPolicies cfg) pid = Some entry" "TrimSpace pid = pid"
  shows "filterTargetByID (filterTargetsForPolicy (wcTargets cfg) (EffectiveID entry)) targetID = [t]"
proof -
  from assms(2) have t: "t \<in> set (wcTargets cfg)" "tcID t = targetID"
    by (auto simp: resolveTarget_def split: option.splits dest: find_Some_ex)
  have "pid \<in> set (tcPolicies t)"
    using assms(3) by (auto simp: resolvePolicy_def split: if_splits list.splits)
  moreover have "EffectiveID entry = pid" using assms(4,5) by (auto simp: FindPolicy_def dest: find_Some_ex)
  ultimately have m: "t \<in> set (filterTargetsForPolicy (wcTargets cfg) (EffectiveID entry))"
    using t by (simp add: filterTargetsForPolicy_def)
  have d: "distinct (map tcID (wcTargets cfg))" using assms(1) Validate_config_ok by (auto simp: config_ok_def)
  obtain u where u: "List.find (\<lambda>t. tcID t = targetID) (filterTargetsForPolicy (wcTargets cfg) (EffectiveID entry)) = Some u"
    using m t by (cases "List.find (\<lambda>t. tcID t = targetID) (filterTargetsForPolicy (wcTargets cfg) (EffectiveID entry))")
      (auto simp: find_None_iff)
  then have "u \<in> set (wcTargets cfg)" "tcID u = targetID"
    by (auto simp: filterTargetsForPolicy_def dest: find_Some_ex)
  then have "u = t" using d t by (auto simp: distinct_map inj_on_def)
  with u show ?thesis by (simp add: filterTargetByID_def)
qed

text \<open>
  Without the last hypothesis it fails: two policies whose IDs differ by a blank both pass
  validation, the target names the one with the blank, the other one is looked up, and the narrowing
  falls back to the targets of that other policy.
\<close>

definition blank_config :: WorkspaceConfig where
  "blank_config = demo_config\<lparr>
    wcPolicies := [\<lparr>peURL = ''registry.com/policies/a:v1'', peID = ''a'', peVerification = None, peSkipVerify = False\<rparr>,
      \<lparr>peURL = ''registry.com/policies/b:v1'', peID = '' a'', peVerification = None, peSkipVerify = False\<rparr>],
    wcTargets := [\<lparr>tcID = ''one'', tcPolicies = [''a''], tcVariables = []\<rparr>,
      \<lparr>tcID = ''two'', tcPolicies = ['' a''], tcVariables = []\<rparr>]\<rparr>"

lemma blank_scans_other_target:
  "snd (Validate demo_os blank_config) = None \<and>
   (\<exists>t entry. resolveTarget blank_config ''two'' = Inr t \<and> resolvePolicy (Some t) [] = Inr '' a'' \<and>
     FindPolicy (wcPolicies blank_config) '' a'' = Some entry \<and>
     map tcID (filterTargetByID (filterTargetsForPolicy (wcTargets blank_config) (EffectiveID entry)) ''two'') = [''one''])"
proof -
  have v: "snd (Validate demo_os blank_config) = None" unfolding blank_config_def by code_simp
  have f: "FindPolicy (wcPolicies blank_config) '' a'' = Some (hd (wcPolicies blank_config))"
    unfolding blank_config_def by code_simp
  have "EffectiveID (hd (wcPolicies blank_config)) = ''a''" unfolding blank_config_def by code_simp
  with v f show ?thesis
    by (intro conjI exI[of _ "wcTargets blank_config ! 1"] exI[of _ "hd (wcPolicies blank_config)"])
       (simp_all add: blank_config_def resolveTarget_def resolvePolicy_def filterTargetsForPolicy_def filterTargetByID_def)
qed

section \<open>Scanning\<close>

text \<open>The providers' report on one target, as the scan collects it.\<close>

definition own_scan ::
    "bool \<Rightarrow> manager \<Rightarrow> (string, EvaluatorGroup) gomap \<Rightarrow> TargetConfig \<Rightarrow> AssessmentLog list \<times> string list \<times> MappingReference list" where
  "own_scan deadline mgr groups t = (case scanSingleTarget deadline mgr groups t of Inr r \<Rightarrow> r | Inl _ \<Rightarrow> ([], [], []))"

definition refs_of :: "scanOutput \<Rightarrow> string \<Rightarrow> MappingReference list" where
  "refs_of out i = (case go_get (soMappingReferences out) i of Some rs \<Rightarrow> rs | None \<Rightarrow> [])"

lemma scanAllTargets_loop_out:
  assumes "scanAllTargets_loop deadline mgr groups ts out = Inr out'"
  shows "(\<forall>t \<in> set ts. \<exists>r. scanSingleTarget deadline mgr groups t = Inr r) \<and>
    soAssessments out' = soAssessments out @ concat (map (\<lambda>t. fst (own_scan deadline mgr groups t)) ts) \<and>
    soAssessmentTargets out' = soAssessmentTargets out @
      concat (map (\<lambda>t. replicate (length (fst (own_scan deadline mgr groups t))) (tcID t)) ts) \<and>
    soErrors out' = soErrors out @ concat (map (\<lambda>t. fst (snd (own_scan deadline mgr groups t))) ts) \<and>
    refs_of out' i = refs_of out i @ concat (map (\<lambda>t. snd (snd (own_scan deadline mgr groups t))) (filter (\<lambda>t. tcID t = i) ts))"
  using assms
proof (induction ts arbitrary: out)
  case (Cons t ts)
  then obtain as es rs where r: "scanSingleTarget deadline mgr groups t = Inr (as, es, rs)"
    by (auto split: sum.splits)
  then have own: "own_scan deadline mgr groups t = (as, es, rs)" by (simp add: own_scan_def)
  from Cons.prems r have "scanAllTargets_loop deadline mgr groups ts
     (out\<lparr>soAssessments := soAssessments out @ as, soAssessmentTargets := soAssessmentTargets out @ replicate (length as) (tcID t),
          soErrors := soErrors out @ es,
          soMappingReferences := go_put (tcID t) (refs_of out (tcID t) @ rs) (soMappingReferences out)\<rparr>) = Inr out'"
    by (simp add: Let_def refs_of_def)
  from Cons.IH[OF this] r own show ?case by (auto simp: refs_of_def)
qed simp

lemmas scanAllTargets_out = scanAllTargets_loop_out[where out = empty_output, folded scanAllTargets_def]

lemma target_assessments_concat:
  "target_assessments (concat (map f ts)) (concat (map (\<lambda>t. replicate (length (f t)) (tcID t)) ts)) i =
    concat (map f (filter (\<lambda>t. tcID t = i) ts))"
proof (induction ts)
  case (Cons t ts)
  have "filter (\<lambda>(a, u). u = i) (zip as (replicate (length as) (tcID t))) =
      (if tcID t = i then zip as (replicate (length as) (tcID t)) else [])" for as :: "AssessmentLog list"
    by (auto simp: zip_replicate2 filter_map comp_def)
  with Cons show ?case by (auto simp: target_assessments_def zip_append)
qed (simp add: target_assessments_def)

lemma filter_tcID_own: "distinct (map tcID ts) \<Longrightarrow> t \<in> set ts \<Longrightarrow> filter (\<lambda>u. tcID u = tcID t) ts = [t]"
proof (induction ts)
  case (Cons u ts)
  then show ?case by (cases "t = u") (auto simp: filter_empty_conv rev_image_eqI)
qed simp

lemma resolve_ids_concat: "resolveAssessmentIDs (concat xss) m = concat (map (\<lambda>xs. resolveAssessmentIDs xs m) xss)"
  by (simp add: resolveAssessmentIDs_def map_concat)

lemma build_loop_evaluators:
  "fst (build_loop now repo m prefs trefs as ts targets seen) =
    map (\<lambda>t. AddTarget now (NewEvaluator repo (tcID t) (rmReqToControl m) (rmReqToPlan m) (rmReqToComplypackRef m)
         (fst (MergeMappingReferences prefs (case go_get trefs (tcID t) of Some rs \<Rightarrow> rs | None \<Rightarrow> []))))
       (target_assessments as ts (tcID t))) targets"
  by (induction targets arbitrary: seen) (auto simp: Let_def case_prod_unfold)

text \<open>What the evaluator of one target has to hold: the report on that target alone.\<close>

definition target_evaluator ::
    "bool \<Rightarrow> manager \<Rightarrow> (string, EvaluatorGroup) gomap \<Rightarrow> string \<Rightarrow> string \<Rightarrow> resolvedMappings \<Rightarrow> (string, string) gomap \<Rightarrow>
      MappingReference list \<Rightarrow> string \<Rightarrow> TargetConfig \<Rightarrow> Evaluator" where
  "target_evaluator deadline mgr groups now repo m planToReq prefs baseDir t =
    (let (as, es, refs) = own_scan deadline mgr groups (t\<lparr>tcVariables := WithWorkspaceVar (tcVariables t) baseDir\<rparr>) in
     AddTarget now (NewEvaluator repo (tcID t) (rmReqToControl m) (rmReqToPlan m) (rmReqToComplypackRef m)
       (fst (MergeMappingReferences prefs refs))) (resolveAssessmentIDs as planToReq))"

lemma evaluators_isolated:
  assumes "scanAllTargets deadline mgr groups (injectWorkspaceIntoTargets targets baseDir) = Inr out"
    and "distinct (map tcID targets)"
  shows "fst (buildEvaluators now repo m prefs (soMappingReferences out) targets
       (resolveAssessmentIDs (soAssessments out) planToReq) (soAssessmentTargets out)) =
     map (target_evaluator deadline mgr groups now repo m planToReq prefs baseDir) targets"
proof -
  let ?ws = "\<lambda>t. t\<lparr>tcVariables := WithWorkspaceVar (tcVariables t) baseDir\<rparr>"
  let ?own = "\<lambda>t. own_scan deadline mgr groups (?ws t)"
  note out = scanAllTargets_out[OF assms(1)]
  let ?as = "\<lambda>t. resolveAssessmentIDs (fst (?own t)) planToReq"
  have as: "resolveAssessmentIDs (soAssessments out) planToReq = concat (map ?as targets)"
    using out by (simp add: empty_output_def injectWorkspaceIntoTargets_def resolve_ids_concat comp_def)
  have ts: "soAssessmentTargets out = concat (map (\<lambda>t. replicate (length (?as t)) (tcID t)) targets)"
    using out by (simp add: empty_output_def injectWorkspaceIntoTargets_def resolveAssessmentIDs_def comp_def)
  have "target_assessments (concat (map ?as targets)) (soAssessmentTargets out) (tcID t) = ?as t \<and>
      refs_of out (tcID t) = snd (snd (?own t))" if t: "t \<in> set targets" for t
  proof
    show "target_assessments (concat (map ?as targets)) (soAssessmentTargets out) (tcID t) = ?as t"
      using target_assessments_concat[of ?as targets "tcID t"] filter_tcID_own[OF assms(2) t] by (simp add: ts)
    have "refs_of out (tcID t) = concat (map (\<lambda>t. snd (snd (?own t))) (filter (\<lambda>u. tcID u = tcID t) targets))"
      using out[of "tcID t"] by (simp add: empty_output_def refs_of_def injectWorkspaceIntoTargets_def comp_def filter_map)
    then show "refs_of out (tcID t) = snd (snd (?own t))" using filter_tcID_own[OF assms(2) t] by simp
  qed
  then show ?thesis
    by (auto simp: buildEvaluators_def build_loop_evaluators as target_evaluator_def refs_of_def case_prod_unfold Let_def)
qed

section \<open>Reports on disk\<close>

lemma fs_WriteFile_True: "fs_WriteFile flt p d s = (s', True) \<Longrightarrow> s' = go_put p (File d) s"
  by (auto simp: fs_WriteFile_def fs_Write_def split: if_splits)

lemma write_report_ok:
  "write_report flt dir f data s = (s', Inr p) \<Longrightarrow> p = fp_join dir [f] \<and> go_get s' p = Some (File (Raw data))"
  by (auto simp: write_report_def Let_def split: prod.splits bool.splits dest!: fs_WriteFile_True)

lemma write_report_keeps:
  assumes "q \<noteq> fp_join dir [f]" "is_file (go_get s q)"
  shows "go_get (fst (write_report flt dir f data s)) q = go_get s q"
proof -
  obtain s1 b where 1: "fs_MkdirAll flt dir s = (s1, b)" by fastforce
  have s1: "go_get s1 q = go_get s q"
    using fs_MkdirAll_get[of flt dir s q] assms(2) unfolding 1 by (cases "go_get s q") auto
  obtain s2 b' where 2: "fs_WriteFile flt (fp_join dir [f]) (Raw data) s1 = (s2, b')" by fastforce
  have "go_get s2 q = go_get s1 q" using fs_WriteFile_get[OF assms(1), of flt "Raw data" s1] by (simp add: 2)
  then show ?thesis using s1 by (cases b; cases b') (simp_all add: write_report_def Let_def 1 2)
qed

text \<open>The name of the evaluation log and the paths of the other reports.\<close>

definition log_name :: "scan_ext \<Rightarrow> string \<Rightarrow> Evaluator \<Rightarrow> string" where
  "log_name x logFormat e = BuildReportFilename (sxTs x) ''evaluation-log'' (erPolicyID e) (erTargetID e)
     (if logFormat = ''json'' then ''json'' else ''yaml'')"

lemma plain_report:
  "CHR ''/'' \<notin> set prefix \<Longrightarrow> CHR ''/'' \<notin> set ts \<Longrightarrow> CHR ''/'' \<notin> set ext \<Longrightarrow> length prefix > 2 \<Longrightarrow>
   plain_comp (BuildReportFilename ts prefix p t ext)"
  using BuildReportFilename_flat[of prefix ts ext p t] by (auto simp: plain_comp_def BuildReportFilename_def Let_def split: if_splits)

lemma report_hd: "prefix \<noteq> [] \<Longrightarrow> hd (BuildReportFilename ts prefix p t ext) = hd prefix"
  by (simp add: BuildReportFilename_def Let_def)

lemma report_path:
  assumes "abs_path dir" "CHR ''/'' \<notin> set ts" "CHR ''/'' \<notin> set prefix" "CHR ''/'' \<notin> set ext" "length prefix > 2"
  shows "fp_join dir [BuildReportFilename ts prefix p t ext] = dir @ [BuildReportFilename ts prefix p t ext]"
  using assms plain_report[of prefix ts ext p t] by simp

lemma secondary_keeps:
  assumes "abs_path dir" "CHR ''/'' \<notin> set ts" "CHR ''/'' \<notin> set prefix" "CHR ''/'' \<notin> set ext" "length prefix > 2"
    and "hd prefix \<noteq> hd n" "is_file (go_get s (dir @ [n]))"
  shows "go_get (fst (write_report flt dir (BuildReportFilename ts prefix p t ext) data s)) (dir @ [n]) = go_get s (dir @ [n])"
proof (rule write_report_keeps[OF _ assms(7)])
  have "prefix \<noteq> []" using assms(5) by auto
  then show "dir @ [n] \<noteq> fp_join dir [BuildReportFilename ts prefix p t ext]"
    using report_path[OF assms(1-5)] report_hd[of prefix ts p t ext] assms(6) by auto
qed

lemma write_format_fst:
  "fst (write_format x flt eval logPath dir repo f s) =
    (if f = ''pretty'' then fst (Markdown_Write flt (sxBytes x) (sxNow x) (sxTs x) repo (GemaraLog eval) (Some logPath) dir s)
     else if f = ''sarif'' then fst (ToSARIF (sxSarif x) flt (sxTs x) (GemaraLog eval) ''file:///scan'' dir s)
     else if f = ''oscal'' then fst (ToOSCAL (sxOscal x) flt (sxTs x) (GemaraLog eval) dir s) else s)"
  unfolding write_format_def Let_def by (auto split: prod.split sum.split)

lemma write_format_keeps:
  assumes "abs_path dir" "CHR ''/'' \<notin> set (sxTs x)" "hd n = CHR ''e''" "is_file (go_get s (dir @ [n]))"
  shows "go_get (fst (write_format x flt eval logPath dir repo f s)) (dir @ [n]) = go_get s (dir @ [n])"
proof -
  note keep = secondary_keeps[OF assms(1,2), where n = n and s = s and flt = flt]
  have md: "go_get (fst (Markdown_Write flt (sxBytes x) (sxNow x) (sxTs x) repo (GemaraLog eval) (Some logPath) dir s)) (dir @ [n])
      = go_get s (dir @ [n])" unfolding Markdown_Write_def by (rule keep) (simp_all add: assms(3,4))
  have sa: "go_get (fst (ToSARIF (sxSarif x) flt (sxTs x) (GemaraLog eval) u dir s)) (dir @ [n]) = go_get s (dir @ [n])" for u
    by (cases "sxSarif x (GemaraLog eval) u") (simp_all add: ToSARIF_def keep assms(3,4))
  have os: "go_get (fst (ToOSCAL (sxOscal x) flt (sxTs x) (GemaraLog eval) dir s)) (dir @ [n]) = go_get s (dir @ [n])"
    unfolding ToOSCAL_def Let_def by (auto split: option.split intro!: keep simp: assms(3,4))
  show ?thesis unfolding write_format_fst by (simp add: md sa os)
qed

lemma writeFormatReports_keeps:
  assumes "abs_path dir" "CHR ''/'' \<notin> set (sxTs x)" "hd n = CHR ''e''" "is_file (go_get s (dir @ [n]))"
  shows "go_get (fst (writeFormatReports x flt formats eval logPath dir repo s)) (dir @ [n]) = go_get s (dir @ [n])"
  using assms(4)
proof (induction formats arbitrary: s)
  case (Cons f formats)
  note k = write_format_keeps[OF assms(1-3) Cons.prems, of flt eval logPath repo f]
  with Cons show ?case by (simp add: Let_def case_prod_unfold)
qed simp

lemma hd_log_name: "hd (log_name x lf e) = CHR ''e''"
  by (simp add: log_name_def BuildReportFilename_def Let_def)

lemma Evaluator_Write_report:
  "Evaluator_Write (sxMarshal x) flt (sxTs x) e dir lf s =
    (case sxMarshal x (lf = ''json'') (toSerializable e (GemaraLog e)) of
       None \<Rightarrow> (s, Inl OMarshal) | Some data \<Rightarrow> write_report flt dir (log_name x lf e) data s)"
  by (auto simp: Evaluator_Write_def Let_def log_name_def split: option.split)

lemma log_path:
  "abs_path dir \<Longrightarrow> CHR ''/'' \<notin> set (sxTs x) \<Longrightarrow> fp_join dir [log_name x lf e] = dir @ [log_name x lf e]"
  unfolding log_name_def by (rule report_path) auto

lemma writeScanReports_log:
  assumes "abs_path dir" "CHR ''/'' \<notin> set (sxTs x)" "writeScanReports x flt formats lf e dir repo s = (s', Inr w)"
  shows "\<exists>data. sxMarshal x (lf = ''json'') (toSerializable e (GemaraLog e)) = Some data \<and>
    go_get s' (dir @ [log_name x lf e]) = Some (File (Raw data))"
proof -
  from assms(3) obtain s1 p where 1: "Evaluator_Write (sxMarshal x) flt (sxTs x) e dir lf s = (s1, Inr p)"
    and 2: "s' = fst (writeFormatReports x flt formats e p dir repo s1)"
    by (cases "Evaluator_Write (sxMarshal x) flt (sxTs x) e dir lf s"; cases "snd (Evaluator_Write (sxMarshal x) flt (sxTs x) e dir lf s)")
       (auto simp: writeScanReports_def Let_def case_prod_unfold)
  from 1 obtain data where d: "sxMarshal x (lf = ''json'') (toSerializable e (GemaraLog e)) = Some data"
    and w: "write_report flt dir (log_name x lf e) data s = (s1, Inr p)"
    by (auto simp: Evaluator_Write_report split: option.split_asm)
  have "go_get s1 (dir @ [log_name x lf e]) = Some (File (Raw data))"
    using write_report_ok[OF w] log_path[OF assms(1,2), of lf e] by auto
  moreover have "go_get s' (dir @ [log_name x lf e]) = go_get s1 (dir @ [log_name x lf e])"
    unfolding 2 by (rule writeFormatReports_keeps[OF assms(1,2) hd_log_name]) (simp add: calculation)
  ultimately show ?thesis using d by simp
qed

lemma writeScanReports_keeps:
  assumes "abs_path dir" "CHR ''/'' \<notin> set (sxTs x)" "hd n = CHR ''e''" "n \<noteq> log_name x lf e" "is_file (go_get s (dir @ [n]))"
  shows "go_get (fst (writeScanReports x flt formats lf e dir repo s)) (dir @ [n]) = go_get s (dir @ [n])"
proof -
  obtain s1 r where 1: "Evaluator_Write (sxMarshal x) flt (sxTs x) e dir lf s = (s1, r)" by fastforce
  have "dir @ [n] \<noteq> fp_join dir [log_name x lf e]" using log_path[OF assms(1,2)] assms(4) by simp
  from write_report_keeps[OF this assms(5)] 1 have s1: "go_get s1 (dir @ [n]) = go_get s (dir @ [n])"
    by (auto simp: Evaluator_Write_report split: option.split_asm) (metis fst_conv)
  then show ?thesis using writeFormatReports_keeps[OF assms(1-3), of s1 flt formats e _ repo] assms(5)
    by (cases r) (simp_all add: writeScanReports_def 1 Let_def case_prod_unfold)
qed

lemma write_all_keeps:
  assumes "abs_path dir" "CHR ''/'' \<notin> set (sxTs x)" "hd n = CHR ''e''" "n \<notin> log_name x lf ` set es" "is_file (go_get s (dir @ [n]))"
  shows "go_get (fst (write_all x flt formats lf es dir repo s)) (dir @ [n]) = go_get s (dir @ [n])"
  using assms(4,5)
proof (induction es arbitrary: s)
  case (Cons e es)
  have "n \<noteq> log_name x lf e" using Cons.prems(1) by simp
  note k = writeScanReports_keeps[OF assms(1-3) this Cons.prems(2), of flt formats repo]
  obtain s1 r where 1: "writeScanReports x flt formats lf e dir repo s = (s1, r)" by fastforce
  show ?case using Cons.IH[of s1] Cons.prems k by (cases r) (simp_all add: 1)
qed simp

lemma write_all_logs:
  assumes "abs_path dir" "CHR ''/'' \<notin> set (sxTs x)" "distinct (map (log_name x lf) es)"
    and "write_all x flt formats lf es dir repo s = (s', None)" "e \<in> set es"
  shows "\<exists>data. sxMarshal x (lf = ''json'') (toSerializable e (GemaraLog e)) = Some data \<and>
    go_get s' (dir @ [log_name x lf e]) = Some (File (Raw data))"
  using assms(3-5)
proof (induction es arbitrary: s)
  case (Cons e' es)
  obtain s1 w where 1: "writeScanReports x flt formats lf e' dir repo s = (s1, Inr w)"
    and 2: "write_all x flt formats lf es dir repo s1 = (s', None)"
    using Cons.prems(2) by (auto split: prod.split_asm sum.split_asm)
  show ?case
  proof (cases "e \<in> set es")
    case True
    then show ?thesis using Cons.IH[OF _ 2] Cons.prems(1) by simp
  next
    case False
    then have e: "e = e'" using Cons.prems(3) by simp
    from writeScanReports_log[OF assms(1,2) 1] obtain data
      where d: "sxMarshal x (lf = ''json'') (toSerializable e' (GemaraLog e')) = Some data"
        "go_get s1 (dir @ [log_name x lf e']) = Some (File (Raw data))" by blast
    have "go_get s' (dir @ [log_name x lf e']) = go_get s1 (dir @ [log_name x lf e'])"
      using write_all_keeps[OF assms(1,2) hd_log_name, of x lf e' lf es s1 flt formats repo] Cons.prems(1) d(2) by (simp add: 2)
    with d e show ?thesis by simp
  qed
qed simp

lemma evaluator_setup:
  "erPolicyID (target_evaluator deadline mgr groups now repo m planToReq prefs baseDir t) = repo"
  "erTargetID (target_evaluator deadline mgr groups now repo m planToReq prefs baseDir t) = tcID t"
proof -
  have "same_setup (AddTarget now (NewEvaluator p i rc rp rr mr) as) (NewEvaluator p i rc rp rr mr)" for p i rc rp rr mr as
    using AddTarget_represents by (auto simp: represents_def)
  then show "erPolicyID (target_evaluator deadline mgr groups now repo m planToReq prefs baseDir t) = repo"
    "erTargetID (target_evaluator deadline mgr groups now repo m planToReq prefs baseDir t) = tcID t"
    by (simp_all add: target_evaluator_def Let_def case_prod_unfold same_setup_def NewEvaluator_def)
qed

lemma log_name_inj:
  "erPolicyID e = erPolicyID e' \<Longrightarrow> erTargetID e \<noteq> [] \<Longrightarrow> erTargetID e' \<noteq> [] \<Longrightarrow> log_name x lf e = log_name x lf e' \<Longrightarrow>
   FilenameSafe (erTargetID e) = FilenameSafe (erTargetID e')"
  by (simp add: log_name_def BuildReportFilename_def Let_def)

lemma distinct_map_sub:
  assumes "distinct (map f xs)" "\<And>x y. x \<in> set xs \<Longrightarrow> y \<in> set xs \<Longrightarrow> g x = g y \<Longrightarrow> f x = f y"
  shows "distinct (map g xs)"
  using assms(1) unfolding distinct_map inj_on_def by (blast intro: assms(2))

lemma assessed_resolve [simp]: "alSteps (resolve_id m a) = alSteps a"
  by (simp add: resolve_id_def Let_def split: option.split)

lemma NothingAssessed_resolve [simp]: "NothingAssessed (resolveAssessmentIDs as m) = NothingAssessed as"
  by (simp add: NothingAssessed_def resolveAssessmentIDs_def list_ex_iff)

lemma processScanOutput_None:
  assumes "processScanOutput x flt formats lf out repo m prefs targets eid tids base show s = (s', summary, None)"
  shows "write_all x flt formats lf (fst (buildEvaluators (sxNow x) repo m prefs (soMappingReferences out) targets
       (soAssessments out) (soAssessmentTargets out))) (fp_join base [WorkspaceDir, ''scan'']) repo s = (s', None) \<and>
     summary = Some (FormatScanSummary (soAssessments out) (soAssessmentTargets out) (rmReqToControl m) eid tids show) \<and>
     soErrors out = [] \<and> \<not> NothingAssessed (soAssessments out)"
  using assms
  by (auto simp: processScanOutput_def Let_def checkOperationalErrors_def checkNothingAssessed_def
      split: prod.split_asm option.split_asm if_split_asm)

text \<open>
  Property C1. A scan that ends without an error (exit code 0) has scanned every target, had no
  operational error, found at least one passed or failed assessment, printed the summary, and left
  on disk for every target an evaluation log that is the serialised report on exactly that
  target's own assessments; whatever other formats were asked for, and whether writing them failed,
  none of them overwrote it. Target IDs have to differ after replacing slashes, which is how file
  names are made.
\<close>

theorem scan_success_sound:
  assumes run: "runScanAndReport x flt formats lf mgr groups cpRefs targets repo eid graph tids base show s = (s', summary, None)"
    and ids: "distinct (map (\<lambda>t. FilenameSafe (tcID t)) targets)" "\<forall>t \<in> set targets. tcID t \<noteq> []"
    and base: "abs_path base" and ts: "CHR ''/'' \<notin> set (sxTs x)"
  shows "let mappings = \<lparr>rmReqToControl = extractReqToControlMap graph, rmReqToPlan = reverseMap (extractPlanToReqMap graph),
           rmReqToComplypackRef = cpRefs\<rparr>;
         eval = target_evaluator (sxDeadline x) mgr groups (sxNow x) repo mappings (extractPlanToReqMap graph)
           (dgMappingReferences graph) (path_string base) in
     \<exists>out. scanAllTargets (sxDeadline x) mgr groups (injectWorkspaceIntoTargets targets (path_string base)) = Inr out \<and>
       soErrors out = [] \<and> (\<exists>a \<in> set (soAssessments out). assessed a = Passed \<or> assessed a = Failed) \<and> summary \<noteq> None \<and>
       (\<forall>t \<in> set targets. \<exists>data. sxMarshal x (lf = ''json'') (toSerializable (eval t) (GemaraLog (eval t))) = Some data \<and>
          go_get s' (base @ [WorkspaceDir, ''scan'', BuildReportFilename (sxTs x) ''evaluation-log'' repo (tcID t)
             (if lf = ''json'' then ''json'' else ''yaml'')]) = Some (File (Raw data)))"
proof -
  define mappings where "mappings = \<lparr>rmReqToControl = extractReqToControlMap graph,
    rmReqToPlan = reverseMap (extractPlanToReqMap graph), rmReqToComplypackRef = cpRefs\<rparr>"
  define eval where "eval = target_evaluator (sxDeadline x) mgr groups (sxNow x) repo mappings (extractPlanToReqMap graph)
    (dgMappingReferences graph) (path_string base)"
  from run obtain out where out: "scanAllTargets (sxDeadline x) mgr groups (injectWorkspaceIntoTargets targets (path_string base)) = Inr out"
    and p: "processScanOutput x flt formats lf (out\<lparr>soAssessments := resolveAssessmentIDs (soAssessments out) (extractPlanToReqMap graph)\<rparr>)
       repo mappings (dgMappingReferences graph) targets eid tids base show s = (s', summary, None)"
    by (auto simp: runScanAndReport_def Let_def mappings_def split: sum.split_asm)
  note fin = processScanOutput_None[OF p]
  have "distinct (map tcID targets)" by (rule distinct_map_sub[OF ids(1)]) simp
  then have evs: "fst (buildEvaluators (sxNow x) repo mappings (dgMappingReferences graph) (soMappingReferences out) targets
       (resolveAssessmentIDs (soAssessments out) (extractPlanToReqMap graph)) (soAssessmentTargets out)) = map eval targets"
    unfolding eval_def by (rule evaluators_isolated[OF out])
  have dir: "fp_join base [WorkspaceDir, ''scan''] = base @ [WorkspaceDir, ''scan'']"
    using base by (simp add: WorkspaceDir_def plain_comp_def)
  have w: "write_all x flt formats lf (map eval targets) (base @ [WorkspaceDir, ''scan'']) repo s = (s', None)"
    using fin evs dir by simp
  have absd: "abs_path (base @ [WorkspaceDir, ''scan''])" using base by (simp add: WorkspaceDir_def plain_comp_def)
  have "distinct (map (\<lambda>t. log_name x lf (eval t)) targets)"
    by (rule distinct_map_sub[OF ids(1)]) (use ids(2) log_name_inj[of "eval _" "eval _"] in \<open>force simp: eval_def evaluator_setup\<close>)
  then have dn: "distinct (map (log_name x lf) (map eval targets))" by (simp add: comp_def)
  have logs: "\<exists>data. sxMarshal x (lf = ''json'') (toSerializable (eval t) (GemaraLog (eval t))) = Some data \<and>
      go_get s' (base @ [WorkspaceDir, ''scan'', BuildReportFilename (sxTs x) ''evaluation-log'' repo (tcID t)
        (if lf = ''json'' then ''json'' else ''yaml'')]) = Some (File (Raw data))" if "t \<in> set targets" for t
    using write_all_logs[OF absd ts dn w, of "eval t"] that
    by (simp add: log_name_def eval_def evaluator_setup)
  have "\<exists>a \<in> set (soAssessments out). assessed a = Passed \<or> assessed a = Failed"
    using fin by (simp add: NothingAssessed_def[of "soAssessments out"] list_ex_iff)
  then show ?thesis using out fin logs unfolding Let_def mappings_def[symmetric] eval_def[symmetric] by auto
qed

section \<open>Instances\<close>

definition pass_provider :: Provider where
  "pass_provider = \<lparr>pvDescribe = Inl [], pvGenerate = (\<lambda>_. Inl []),
     pvScan = (\<lambda>_. Inr \<lparr>srAssessments = [\<lparr>alPlanID = ''p1'', alRequirementID = [],
        alSteps = [\<lparr>stpName = ''s'', stpResult = ResultPassed, stpMessage = []\<rparr>],
        alMessage = [], alConfidence = 0, alEvidence = [], alRecommendation = []\<rparr>], srErrors = [], srMappingReferences = []\<rparr>)\<rparr>"

definition pass_manager :: manager where
  "pass_manager = [(''b'', \<lparr>lpInfo = \<lparr>piProviderID = ''b'', piEvaluatorID = ''b'', piExecutablePath = ''/b''\<rparr>, lpClient = pass_provider\<rparr>)]"

definition demo_ext :: scan_ext where
  "demo_ext = \<lparr>sxConfigYaml = (\<lambda>_. Inl []), sxYaml = \<lparr>gyPolicy = (\<lambda>_. None), gyControlCatalog = (\<lambda>_. None), gyGuidanceCatalog = (\<lambda>_. None)\<rparr>,
     sxUnpack = (\<lambda>_ _. None), sxConnect = (\<lambda>_. Inl []), sxReadDir = (\<lambda>_. NoListing), sxDeadline = False,
     sxMarshal = (\<lambda>_ _. Some ''log''), sxOscal = (\<lambda>_ _. None), sxSarif = (\<lambda>_ _. None), sxBytes = (\<lambda>_. []), sxNow = ''now'', sxTs = ''1''\<rparr>"

definition plan_graph :: DependencyGraph where
  "plan_graph = \<lparr>dgPolicyID = ''p'', dgControls = [], dgGuidelines = [],
     dgAssessments = [\<lparr>asID = ''p1'', asRequirementID = ''r1'', asEvaluatorID = ''b'', asParameters = []\<rparr>],
     dgEvaluatorID = ''b'', dgTimeline = None, dgMappingReferences = []\<rparr>"

definition web_target :: TargetConfig where
  "web_target = \<lparr>tcID = ''web'', tcPolicies = [''p''], tcVariables = []\<rparr>"

definition demo_run :: "fs \<times> string option \<times> scan_err option" where
  "demo_run = runScanAndReport demo_ext no_faults [''pretty''] ''json'' pass_manager demo_groups [] [web_target] ''p'' ''p'' plan_graph
     [''web''] [''w''] True [([''w''], Dir)]"

lemma demo_run_ok: "snd (snd demo_run) = None"
  unfolding demo_run_def by code_simp

text \<open>The theorem applies to this run.\<close>

theorem scan_success_sound_witness:
  "go_get (fst demo_run) [''w'', ''.complytime'', ''scan'', ''evaluation-log-p-web-1.json''] = Some (File (Raw ''log''))"
proof -
  have r: "runScanAndReport demo_ext no_faults [''pretty''] ''json'' pass_manager demo_groups [] [web_target] ''p'' ''p'' plan_graph
     [''web''] [''w''] True [([''w''], Dir)] = (fst demo_run, fst (snd demo_run), None)"
    using demo_run_ok unfolding demo_run_def[symmetric] by (metis prod.collapse)
  have n: "BuildReportFilename ''1'' ''evaluation-log'' ''p'' ''web'' ''json'' = ''evaluation-log-p-web-1.json''"
    by (simp add: BuildReportFilename_def FilenameSafe_def ReplaceByte_def)
  have d: "distinct (map (\<lambda>t. FilenameSafe (tcID t)) [web_target])" "\<forall>t \<in> set [web_target]. tcID t \<noteq> []"
    by (simp_all add: web_target_def)
  have p: "abs_path [''w'']" "CHR ''/'' \<notin> set (sxTs demo_ext)" by (simp_all add: demo_ext_def plain_comp_def)
  show ?thesis
    using scan_success_sound[OF r d p] n by (auto simp: Let_def demo_ext_def web_target_def WorkspaceDir_def)
qed

theorem scan_scoped_to_target_witness:
  "map tcID (filterTargetByID (filterTargetsForPolicy (wcTargets demo_config) ''nist'') ''prod'') = [''prod'']"
proof -
  let ?t = "\<lparr>tcID = ''prod'', tcPolicies = [''nist''], tcVariables = [(''token'', ''${TOKEN}'')]\<rparr>"
  have v: "snd (Validate demo_os demo_config) = None" by code_simp
  have t: "resolveTarget demo_config ''prod'' = Inr ?t" by (simp add: resolveTarget_def demo_config_def)
  have p: "resolvePolicy (Some ?t) [] = Inr ''nist''" by (simp add: resolvePolicy_def)
  have tr: "TrimSpace ''nist'' = ''nist''" by code_simp
  have "FindPolicy (wcPolicies demo_config) ''nist'' \<noteq> None" by code_simp
  then obtain entry where f: "FindPolicy (wcPolicies demo_config) ''nist'' = Some entry" by blast
  then have "EffectiveID entry = ''nist''" using tr by (auto simp: FindPolicy_def dest: find_Some_ex)
  with scan_scoped_to_target[OF v t p f tr] show ?thesis by simp
qed

section \<open>Complypack references and empty evaluator IDs\<close>

lemma go_get_foldl_put:
  "go_get (foldl (\<lambda>m x. go_put (f x) v m) m xs) k \<noteq> None \<longleftrightarrow> k \<in> f ` set xs \<or> go_get m k \<noteq> None"
  by (induction xs arbitrary: m) auto

lemma complypack_ref_keys:
  "go_get (buildReqToComplypackRef flt dataDir groups s) k \<noteq> None \<Longrightarrow>
   \<exists>(i, g) \<in> set groups. k \<in> MatchID ` set (egConfigs g)"
proof -
  have "go_get (foldl (\<lambda>m (evalID, grp). case go_get refs evalID of None \<Rightarrow> m
      | Some ref \<Rightarrow> foldl (\<lambda>m cfg. go_put (MatchID cfg) ref m) m (egConfigs grp)) m gs) k \<noteq> None \<Longrightarrow>
    go_get m k \<noteq> None \<or> (\<exists>(i, g) \<in> set gs. k \<in> MatchID ` set (egConfigs g))"
    for refs :: "(string, string) gomap" and m :: "(string, string) gomap" and gs :: "(string, EvaluatorGroup) gomap"
  proof (induction gs arbitrary: m)
    case (Cons g gs)
    obtain i grp where g: "g = (i, grp)" by (cases g)
    define m' where "m' = (case go_get refs i of None \<Rightarrow> m | Some ref \<Rightarrow> foldl (\<lambda>m cfg. go_put (MatchID cfg) ref m) m (egConfigs grp))"
    have "go_get m' k \<noteq> None \<or> (\<exists>(i, g) \<in> set gs. k \<in> MatchID ` set (egConfigs g))"
      using Cons.prems by (intro Cons.IH) (simp add: g m'_def)
    moreover have "go_get m' k \<noteq> None \<Longrightarrow> go_get m k \<noteq> None \<or> k \<in> MatchID ` set (egConfigs grp)"
      using go_get_foldl_put[of MatchID _ m "egConfigs grp" k] by (auto simp: m'_def split: option.split_asm)
    ultimately show ?case by (auto simp: g)
  qed simp
  from this[where m = "[]"] show "go_get (buildReqToComplypackRef flt dataDir groups s) k \<noteq> None \<Longrightarrow>
    \<exists>(i, g) \<in> set groups. k \<in> MatchID ` set (egConfigs g)"
    by (auto simp: buildReqToComplypackRef_def Let_def split: if_split_asm sum.split_asm)
qed

text \<open>
  The table is keyed by match IDs, which are plan IDs when the policy has plans, but the evaluator
  consults it with the requirement ID that \<^verbatim>\<open>resolveAssessmentIDs\<close> put in: the reference of a
  requirement whose ID is not also a plan ID is never found.
\<close>

lemma complypack_ref_lost:
  "(\<forall>(i, g) \<in> set groups. r \<notin> MatchID ` set (egConfigs g)) \<Longrightarrow>
   erReqToComplypackRef e = buildReqToComplypackRef flt dataDir groups s \<Longrightarrow> resolveComplypackRef e r = []"
  using complypack_ref_keys[of flt dataDir groups s r]
  by (cases "go_get (buildReqToComplypackRef flt dataDir groups s) r") (auto simp: resolveComplypackRef_def go_str_def)

text \<open>Of two cached complypacks for one evaluator the later one in the iteration is used.\<close>

lemma evaluator_refs_last:
  "stComplypacks st = [(r1, p1), (r2, p2)] \<Longrightarrow> psEvaluatorID p1 = i \<Longrightarrow> psEvaluatorID p2 = i \<Longrightarrow> i \<noteq> [] \<Longrightarrow>
   psDigest p1 \<noteq> [] \<Longrightarrow> psDigest p2 \<noteq> [] \<Longrightarrow> go_get (evaluator_refs st) i = Some (r2 @ ''@'' @ psDigest p2)"
  by (simp add: evaluator_refs_def)

text \<open>
  A policy without an evaluator ID forms a group with the empty ID; generation refuses that ID
  before any provider is asked, so the broadcast that routing offers for it is never reached.
\<close>

lemma empty_evaluator_blocks_generation:
  "\<exists>e. generate_loop flt cc mgr workspace (([], grp) # groups) policyTargets globalVars s available = Inl (GLookup [] e)"
  by (simp add: LookupByEvaluatorID_def ValidatePathComponent_def)

end
