(* ===== verification/Get.thy ===== *)
theory Get
  imports Scan Sync
begin

text \<open>
  The get command (\<^verbatim>\<open>cmd/complyctl/cli/get.go\<close>): which signature verifier an entry of the workspace
  configuration gets, the synchronisation of all policies and complypacks with errors collected,
  the metadata kept after a sync, the invalidation of generated artifacts and the check for
  evaluator IDs that occur twice. The cache of verifiers is a Go map or \<^verbatim>\<open>nil\<close> (\<^const>\<open>None\<close>);
  joined errors are a list, empty for \<^verbatim>\<open>nil\<close>. Sources, verifier constructors, credentials and
  unpacking are parameters.
\<close>

section \<open>Verifiers\<close>

type_synonym verifier_cache = "(VerificationConfig, verify_func) gomap option"

definition buildVerifierFromConfig ::
    "(string \<Rightarrow> string + verify_func) \<Rightarrow> (string \<Rightarrow> string \<Rightarrow> string \<Rightarrow> string + verify_func) \<Rightarrow>
      VerificationConfig \<Rightarrow> string + verify_func" where
  "buildVerifierFromConfig newKeyed newKeyless cfg =
    (if vcKey cfg \<noteq> [] then newKeyed (vcKey cfg)
     else newKeyless (vcIssuer cfg) (vcIdentity cfg) (vcTrustedRoot cfg))"

definition effective_config :: "PolicyEntry \<Rightarrow> VerificationConfig option \<Rightarrow> VerificationConfig option" where
  "effective_config entry wsCfg =
    (if IsConfigured (peVerification entry) then peVerification entry
     else if IsConfigured wsCfg then wsCfg else None)"

definition resolveVerifier ::
    "(VerificationConfig \<Rightarrow> string + verify_func) \<Rightarrow> PolicyEntry \<Rightarrow> VerificationConfig option \<Rightarrow> verifier_cache \<Rightarrow>
      verifier_cache \<times> (string + verify_func option)" where
  "resolveVerifier builder entry wsCfg vfCache =
    (if peSkipVerify entry then (vfCache, Inr None)
     else case effective_config entry wsCfg of
       None \<Rightarrow> (vfCache, Inr None)
     | Some cfg \<Rightarrow>
        (case vfCache of
           None \<Rightarrow> (None, Inr None)
         | Some m \<Rightarrow>
            (case go_get m cfg of
               Some vf \<Rightarrow> (Some m, Inr (Some vf))
             | None \<Rightarrow>
                (case builder cfg of
                   Inl e \<Rightarrow> (Some m, Inl e)
                 | Inr vf \<Rightarrow> (Some (go_put cfg vf m), Inr (Some vf))))))"

section \<open>Policies\<close>

datatype get_err =
    GEConfig cfg_err
  | GELoadState cache_err
  | GECredentials
  | GERef string cfg_err
  | GEVerifier string string
  | GESync sync_err
  | GEDuplicateEvaluator "(string \<times> string list) list"

datatype get_note =
    NUnverified string
  | NSummary string
  | NInvalidated string string
  | NInvalidateFailed string

record get_world =
  gwState :: State
  gwFs :: fs
  gwVerifiers :: verifier_cache
  gwNotes :: "get_note list"

record get_ext =
  gxConfigYaml :: "string \<Rightarrow> string + WorkspaceConfig"
  gxYaml :: gemara_yaml
  gxBundle :: "OciStore \<Rightarrow> string \<Rightarrow> Bundle option"
  gxUnpack :: unpack_func
  gxSource :: "string \<Rightarrow> PolicySource"
  gxNewKeyed :: "string \<Rightarrow> string + verify_func"
  gxNewKeyless :: "string \<Rightarrow> string \<Rightarrow> string \<Rightarrow> string + verify_func"
  gxCredentials :: bool
  gxRandom :: string
  gxNow :: gotime
  gxRetention :: string

abbreviation gxBuilder :: "get_ext \<Rightarrow> VerificationConfig \<Rightarrow> string + verify_func" where
  "gxBuilder x \<equiv> buildVerifierFromConfig (gxNewKeyed x) (gxNewKeyless x)"

definition formatPolicySummary :: "PolicyMetadata \<Rightarrow> string" where
  "formatPolicySummary meta =
    (let hasTitle = pmTitle meta \<noteq> []; hasEval = pmEvaluatorID meta \<noteq> [] in
     (if hasTitle \<and> hasEval then ''  Policy: '' @ pmTitle meta @ '' ('' @ pmEvaluatorID meta @ '')'' @ [nl]
      else if hasTitle then ''  Policy: '' @ pmTitle meta @ [nl]
      else if hasEval then ''  Policy: '' @ pmEvaluatorID meta @ [nl]
      else []) @
     (if hasTitle \<or> hasEval \<or> pmControlCount meta > 0 \<or> pmAssessmentCount meta > 0
      then ''  Controls: '' @ show_nat (pmControlCount meta) @ '' | Assessments: '' @ show_nat (pmAssessmentCount meta) @ [nl]
      else []))"

definition hasMetadata :: "PolicyState \<Rightarrow> bool" where
  "hasMetadata ps \<longleftrightarrow> psPolicyTitle ps \<noteq> [] \<or> psPolicyEvaluator ps \<noteq> [] \<or> psControlCount ps > 0 \<or> psAssessmentCount ps > 0"

definition resolveLatestVersion :: "PolicySource \<Rightarrow> string \<Rightarrow> string" where
  "resolveLatestVersion client repository =
    (case srDefinitionVersion client repository of Inl _ \<Rightarrow> ''latest'' | Inr (_, resolvedVersion) \<Rightarrow> resolvedVersion)"

text \<open>The metadata step after a sync: a failure to extract is not an error.\<close>

definition update_metadata :: "get_ext \<Rightarrow> faults \<Rightarrow> path \<Rightarrow> string \<Rightarrow> bool \<Rightarrow> get_world \<Rightarrow> get_world" where
  "update_metadata x flt cacheDir repository fetched w =
    (let ps = GetPolicyState (gwState w) repository in
     if fetched \<or> \<not> (case ps of None \<Rightarrow> False | Some p \<Rightarrow> hasMetadata p) then
       (case ExtractPolicyMetadata (gxYaml x) (cache_loader (gxBundle x) flt cacheDir) repository
               (case ps of None \<Rightarrow> [] | Some p \<Rightarrow> psVersion p) (gwFs w) of
          (s, Inl _) \<Rightarrow> w\<lparr>gwFs := s\<rparr>
        | (s, Inr meta) \<Rightarrow>
           (let summary = formatPolicySummary meta in
            w\<lparr>gwFs := s,
              gwState := SetPolicyMetadata repository (pmTitle meta) (pmEvaluatorID meta) (int (pmControlCount meta))
                (int (pmAssessmentCount meta)) (gwState w),
              gwNotes := gwNotes w @ (if summary \<noteq> [] then [NSummary summary] else [])\<rparr>))
     else w)"

definition syncSinglePolicy ::
    "get_ext \<Rightarrow> faults \<Rightarrow> path \<Rightarrow> path \<Rightarrow> VerificationConfig option \<Rightarrow> PolicyEntry \<Rightarrow> get_world \<Rightarrow> get_world \<times> get_err option" where
  "syncSinglePolicy x flt cacheDir dataDir wsCfg entry w =
    (case ParsePolicyRef (peURL entry) of
       Inl e \<Rightarrow> (w, Some (GERef (peURL entry) e))
     | Inr ref \<Rightarrow>
        (case resolveVerifier (gxBuilder x) entry wsCfg (gwVerifiers w) of
           (vs, Inl e) \<Rightarrow> (w\<lparr>gwVerifiers := vs\<rparr>, Some (GEVerifier (EffectiveID entry) e))
         | (vs, Inr verifier) \<Rightarrow>
            (let source = gxSource x (prRegistry ref);
                 sy = NewSync cacheDir source dataDir (prRegistry ref) verifier;
                 version = (if VersionString ref = [] then resolveLatestVersion source (prRepository ref) else VersionString ref) in
             case SyncPolicy flt (gxRandom x) (gxNow x) sy (prRepository ref) version (gwState w, gwFs w) of
               ((st, s), Inl e) \<Rightarrow> (w\<lparr>gwVerifiers := vs, gwState := st, gwFs := s\<rparr>, Some (GESync e))
             | ((st, s), Inr fetched) \<Rightarrow>
                (let verified = (case GetPolicyState st (prRepository ref) of None \<Rightarrow> False | Some p \<Rightarrow> psVerified p);
                     notes = (if fetched \<and> \<not> verified then [NUnverified (EffectiveID entry)] else []) in
                 (update_metadata x flt cacheDir (prRepository ref) fetched
                    (w\<lparr>gwVerifiers := vs, gwState := st, gwFs := s, gwNotes := gwNotes w @ notes\<rparr>), None)))))"

text \<open>All entries are attempted; errors are collected in order.\<close>

fun sync_each :: "(PolicyEntry \<Rightarrow> get_world \<Rightarrow> get_world \<times> get_err option) \<Rightarrow> PolicyEntry list \<Rightarrow> get_world \<Rightarrow> get_world \<times> get_err list" where
  "sync_each single [] w = (w, [])"
| "sync_each single (entry # entries) w =
    (let (w1, err) = single entry w; (w2, errs) = sync_each single entries w1 in
     (w2, (case err of None \<Rightarrow> errs | Some e \<Rightarrow> e # errs)))"

definition syncAllPolicies ::
    "get_ext \<Rightarrow> faults \<Rightarrow> path \<Rightarrow> path \<Rightarrow> VerificationConfig option \<Rightarrow> PolicyEntry list \<Rightarrow> get_world \<Rightarrow> get_world \<times> get_err list" where
  "syncAllPolicies x flt cacheDir dataDir wsCfg policies w =
    (let (w1, errs) = sync_each (syncSinglePolicy x flt cacheDir dataDir wsCfg) policies w in
     (w1\<lparr>gwFs := fst (SaveState flt (gxRandom x) (gwState w1) dataDir (gwFs w1))\<rparr>, errs))"

section \<open>Complypacks\<close>

definition invalidateGenerationForComplypack :: "faults \<Rightarrow> string \<Rightarrow> path \<Rightarrow> get_world \<Rightarrow> get_world" where
  "invalidateGenerationForComplypack flt repository baseDir w =
    (case GetComplypackState (gwState w) repository of
       None \<Rightarrow> w
     | Some ps \<Rightarrow>
        if psEvaluatorID ps = [] then w
        else let evalID = psEvaluatorID ps in
        case InvalidateForEvaluator flt baseDir evalID (gwFs w) of
          (s1, _, Some _) \<Rightarrow> w\<lparr>gwFs := s1, gwNotes := gwNotes w @ [NInvalidateFailed evalID]\<rparr>
        | (s1, _, None) \<Rightarrow>
           (case RemoveEvaluatorArtifacts flt baseDir evalID s1 of
              (s2, Some _) \<Rightarrow> w\<lparr>gwFs := s2, gwNotes := gwNotes w @ [NInvalidateFailed evalID]\<rparr>
            | (s2, None) \<Rightarrow> w\<lparr>gwFs := s2, gwNotes := gwNotes w @ [NInvalidated repository evalID]\<rparr>))"

definition syncSingleComplypack ::
    "get_ext \<Rightarrow> faults \<Rightarrow> path \<Rightarrow> path \<Rightarrow> path \<Rightarrow> VerificationConfig option \<Rightarrow> PolicyEntry \<Rightarrow> get_world \<Rightarrow> get_world \<times> get_err option" where
  "syncSingleComplypack x flt cacheDir dataDir baseDir wsCfg entry w =
    (case ParsePolicyRef (peURL entry) of
       Inl e \<Rightarrow> (w, Some (GERef (peURL entry) e))
     | Inr ref \<Rightarrow>
        (case resolveVerifier (gxBuilder x) entry wsCfg (gwVerifiers w) of
           (vs, Inl e) \<Rightarrow> (w\<lparr>gwVerifiers := vs\<rparr>, Some (GEVerifier (EffectiveID entry) e))
         | (vs, Inr verifier) \<Rightarrow>
            (let source = gxSource x (prRegistry ref);
                 cc = NewComplypackCache (gxRetention x) cacheDir (Some (gwState w));
                 sy = NewSync cacheDir source dataDir (prRegistry ref) verifier;
                 version = (if VersionString ref = [] then resolveLatestVersion source (prRepository ref) else VersionString ref) in
             case SyncComplypack (gxUnpack x) flt (gxRandom x) (gxNow x) sy cc (prRepository ref) version (gwState w, gwFs w) of
               ((st, s), Inl e) \<Rightarrow> (w\<lparr>gwVerifiers := vs, gwState := st, gwFs := s\<rparr>, Some (GESync e))
             | ((st, s), Inr fetched) \<Rightarrow>
                (let w1 = w\<lparr>gwVerifiers := vs, gwState := st, gwFs := s\<rparr> in
                 if \<not> fetched then (w1, None)
                 else let verified = (case GetComplypackState st (prRepository ref) of None \<Rightarrow> False | Some p \<Rightarrow> psVerified p) in
                   (invalidateGenerationForComplypack flt (prRepository ref) baseDir
                      (w1\<lparr>gwNotes := gwNotes w1 @ (if verified then [] else [NUnverified (EffectiveID entry)])\<rparr>), None)))))"

definition syncAllComplypacks ::
    "get_ext \<Rightarrow> faults \<Rightarrow> path \<Rightarrow> path \<Rightarrow> path \<Rightarrow> VerificationConfig option \<Rightarrow> PolicyEntry list \<Rightarrow> get_world \<Rightarrow> get_world \<times> get_err list" where
  "syncAllComplypacks x flt cacheDir dataDir baseDir wsCfg complypacks w =
    sync_each (syncSingleComplypack x flt cacheDir dataDir baseDir wsCfg) complypacks w"

text \<open>The repositories of the configured complypacks by evaluator ID.\<close>

definition entry_evaluator :: "State \<Rightarrow> PolicyEntry \<Rightarrow> (string \<times> string) option" where
  "entry_evaluator st entry =
    (case ParsePolicyRef (peURL entry) of
       Inl _ \<Rightarrow> None
     | Inr ref \<Rightarrow>
        (case GetComplypackState st (prRepository ref) of
           None \<Rightarrow> None
         | Some ps \<Rightarrow> if psEvaluatorID ps = [] then None else Some (psEvaluatorID ps, prRepository ref)))"

definition evaluator_repos :: "State \<Rightarrow> PolicyEntry list \<Rightarrow> (string, string list) gomap" where
  "evaluator_repos st complypacks =
    foldl (\<lambda>m entry. case entry_evaluator st entry of
             None \<Rightarrow> m
           | Some (i, r) \<Rightarrow> go_put i ((case go_get m i of None \<Rightarrow> [] | Some rs \<Rightarrow> rs) @ [r]) m) [] complypacks"

definition validateUniqueEvaluatorIDs :: "State \<Rightarrow> PolicyEntry list \<Rightarrow> get_err option" where
  "validateUniqueEvaluatorIDs st complypacks =
    (let conflicts = map (\<lambda>(i, rs). (i, sort rs)) (filter (\<lambda>(i, rs). length rs > 1) (evaluator_repos st complypacks)) in
     if conflicts = [] then None else Some (GEDuplicateEvaluator conflicts))"

section \<open>The command\<close>

definition syncPolicies ::
    "get_ext \<Rightarrow> faults \<Rightarrow> path \<Rightarrow> path \<Rightarrow> WorkspaceConfig \<Rightarrow> VerificationConfig option \<Rightarrow> get_world \<Rightarrow> get_world \<times> get_err list" where
  "syncPolicies x flt cacheDir dataDir cfg wsCfg w =
    (case LoadState flt dataDir (gwFs w) of
       Inl e \<Rightarrow> (w, [GELoadState e])
     | Inr st \<Rightarrow>
        if \<not> gxCredentials x then (w, [GECredentials])
        else syncAllPolicies x flt cacheDir dataDir wsCfg (wcPolicies cfg) (w\<lparr>gwState := st\<rparr>))"

definition syncComplypacks ::
    "get_ext \<Rightarrow> faults \<Rightarrow> path \<Rightarrow> path \<Rightarrow> path \<Rightarrow> WorkspaceConfig \<Rightarrow> VerificationConfig option \<Rightarrow> get_world \<Rightarrow> get_world \<times> get_err list" where
  "syncComplypacks x flt cacheDir dataDir baseDir cfg wsCfg w =
    (if wcComplypacks cfg = [] then (w, [])
     else case LoadState flt dataDir (gwFs w) of
       Inl e \<Rightarrow> (w, [GELoadState e])
     | Inr st \<Rightarrow>
        if \<not> gxCredentials x then (w, [GECredentials])
        else case syncAllComplypacks x flt cacheDir dataDir baseDir wsCfg (wcComplypacks cfg) (w\<lparr>gwState := st\<rparr>) of
          (w1, []) \<Rightarrow> (w1, (case validateUniqueEvaluatorIDs (gwState w1) (wcComplypacks cfg) of None \<Rightarrow> [] | Some e \<Rightarrow> [e]))
        | (w1, errs) \<Rightarrow> (w1, errs))"

definition syncAll ::
    "get_ext \<Rightarrow> faults \<Rightarrow> path \<Rightarrow> path \<Rightarrow> path \<Rightarrow> WorkspaceConfig \<Rightarrow> VerificationConfig option \<Rightarrow> verifier_cache \<Rightarrow> fs \<Rightarrow>
      get_world \<times> get_err list" where
  "syncAll x flt cacheDir dataDir baseDir cfg wsCfg vfCache s =
    (let vfCache' = (if wsCfg \<noteq> None \<and> vfCache = None then Some [] else vfCache);
         (w1, policyErr) = syncPolicies x flt cacheDir dataDir cfg wsCfg
            \<lparr>gwState = empty_state, gwFs = s, gwVerifiers = vfCache', gwNotes = []\<rparr>;
         (w2, complypackErr) = syncComplypacks x flt cacheDir dataDir baseDir cfg wsCfg w1 in
     (w2, policyErr @ complypackErr))"

definition get_run :: "get_ext \<Rightarrow> faults \<Rightarrow> osenv \<Rightarrow> string \<Rightarrow> bool \<Rightarrow> string \<Rightarrow> string \<Rightarrow> fs \<Rightarrow> fs \<times> get_note list \<times> get_err list" where
  "get_run x flt os workspaceFlag skipVerify cacheDir dataDir s =
    (case ResolveWorkspaceDir os workspaceFlag of
       Inl e \<Rightarrow> (s, [], [GEConfig e])
     | Inr baseDir \<Rightarrow>
        (case loadWorkspaceConfig (gxConfigYaml x) os baseDir of
           Inl e \<Rightarrow> (s, [], [GEConfig e])
         | Inr cfg \<Rightarrow>
            (let (w, errs) = syncAll x flt (path_of cacheDir) (path_of dataDir) (path_of baseDir) cfg
                   (if skipVerify then None else wcVerification cfg) None s in
             (gwFs w, gwNotes w, errs))))"

definition getCmd :: "get_ext \<Rightarrow> faults \<Rightarrow> osenv \<Rightarrow> string \<Rightarrow> bool \<Rightarrow> fs \<Rightarrow> fs \<times> get_note list \<times> get_err list" where
  "getCmd x flt os workspaceFlag skipVerify s =
    (case ResolveCacheDir os of
       Inl e \<Rightarrow> (s, [], [GEConfig e])
     | Inr cacheDir \<Rightarrow>
        (case ResolveDataDir os of
           Inl e \<Rightarrow> (s, [], [GEConfig e])
         | Inr dataDir \<Rightarrow> get_run x flt os workspaceFlag skipVerify cacheDir dataDir s))"

section \<open>Which verifier an entry gets\<close>

text \<open>Every cached verifier is the one its configuration builds.\<close>

definition verifiers_ok :: "(VerificationConfig \<Rightarrow> string + verify_func) \<Rightarrow> (VerificationConfig, verify_func) gomap \<Rightarrow> bool" where
  "verifiers_ok builder m \<longleftrightarrow> (\<forall>cfg vf. go_get m cfg = Some vf \<longrightarrow> builder cfg = Inr vf)"

lemma verifiers_ok_Nil [simp]: "verifiers_ok builder []"
  by (simp add: verifiers_ok_def)

lemma resolveVerifier_chain:
  assumes "verifiers_ok builder m"
  shows "snd (resolveVerifier builder entry wsCfg (Some m)) =
      (if peSkipVerify entry then Inr None
       else case effective_config entry wsCfg of None \<Rightarrow> Inr None
         | Some cfg \<Rightarrow> (case builder cfg of Inl e \<Rightarrow> Inl e | Inr vf \<Rightarrow> Inr (Some vf)))"
    and "\<exists>m'. fst (resolveVerifier builder entry wsCfg (Some m)) = Some m' \<and> verifiers_ok builder m'"
  using assms
  by (auto simp: resolveVerifier_def verifiers_ok_def split: option.split sum.split)

lemma effective_config_ws: "IsConfigured wsCfg \<Longrightarrow> effective_config entry wsCfg \<noteq> None"
  by (auto simp: effective_config_def IsConfigured_def split: option.splits)

lemma resolveVerifier_strict:
  assumes "verifiers_ok builder m" "IsConfigured wsCfg" "\<not> peSkipVerify entry"
  obtains m' r where "resolveVerifier builder entry wsCfg (Some m) = (Some m', r)" "verifiers_ok builder m'"
    "\<And>vo. r = Inr vo \<Longrightarrow> \<exists>vf cfg. vo = Some vf \<and> builder cfg = Inr vf"
proof -
  obtain vs r where rv: "resolveVerifier builder entry wsCfg (Some m) = (vs, r)" by fastforce
  note ch = resolveVerifier_chain[OF assms(1), of entry wsCfg, unfolded rv fst_conv snd_conv]
  obtain cfg where cfg: "effective_config entry wsCfg = Some cfg" using effective_config_ws[OF assms(2)] by auto
  have "\<exists>vf cfg. vo = Some vf \<and> builder cfg = Inr vf" if "r = Inr vo" for vo
    using ch(1) cfg assms(3) that by (auto split: sum.split_asm)
  then show ?thesis using that rv ch(2) by auto
qed

text \<open>
  While the cache of verifiers exists, \<^verbatim>\<open>resolveVerifier\<close> follows its documented
  order: no verifier for an entry that opts out or when nothing is configured, else the verifier
  of the entry's own block if that is configured and of the workspace block otherwise, and an error
  when it cannot be built; the cache stays consistent. With a configured workspace block an entry
  without the opt-out never goes unverified.
\<close>

theorem resolveVerifier_priority:
  assumes "verifiers_ok builder m"
  shows "let (cache', r) = resolveVerifier builder entry wsCfg (Some m) in
     (\<exists>m'. cache' = Some m' \<and> verifiers_ok builder m') \<and>
     (peSkipVerify entry \<longrightarrow> r = Inr None) \<and>
     (\<not> peSkipVerify entry \<and> IsConfigured (peVerification entry) \<longrightarrow>
        r = map_sum (\<lambda>e. e) Some (builder (the (peVerification entry)))) \<and>
     (\<not> peSkipVerify entry \<and> \<not> IsConfigured (peVerification entry) \<and> IsConfigured wsCfg \<longrightarrow>
        r = map_sum (\<lambda>e. e) Some (builder (the wsCfg))) \<and>
     (\<not> IsConfigured (peVerification entry) \<and> \<not> IsConfigured wsCfg \<longrightarrow> r = Inr None) \<and>
     (IsConfigured wsCfg \<and> \<not> peSkipVerify entry \<longrightarrow> r \<noteq> Inr None)"
proof -
  note r = resolveVerifier_chain[OF assms, of entry wsCfg]
  have c: "IsConfigured v \<Longrightarrow> \<exists>cfg. v = Some cfg" for v by (cases v) (auto simp: IsConfigured_def)
  have s: "(case b of Inl e \<Rightarrow> Inl e | Inr vf \<Rightarrow> Inr (Some vf)) = map_sum (\<lambda>e. e) Some b" for b :: "string + verify_func"
    by (cases b) auto
  have n: "map_sum (\<lambda>e. e) Some b \<noteq> Inr None" for b :: "string + verify_func" by (cases b) auto
  show ?thesis unfolding case_prod_unfold Let_def r(1) s
    using r(2) c[of "peVerification entry"] c[of wsCfg] n by (auto simp: effective_config_def)
qed

text \<open>Without a workspace block the cache is never made, and then no entry gets a verifier.\<close>

lemma no_cache_no_verifier: "resolveVerifier builder entry wsCfg None = (None, Inr None)"
  by (simp add: resolveVerifier_def split: option.split)

section \<open>Unverified fetches\<close>

lemma SyncPolicy_state:
  assumes "SyncPolicy flt rnd now sy pid v (st, s) = ((st', s'), r)"
  shows "st' = st \<or> (\<exists>vr e. run_verifier sy pid (fst (classifyVersion v)) (snd (classifyVersion v)) = Inr vr \<and>
     GetPolicyState st' = (GetPolicyState st)(pid \<mapsto> e) \<and>
     psVerified e = (case vr of None \<Rightarrow> False | Some x \<Rightarrow> vrVerified x))"
proof -
  obtain t g where c: "classifyVersion v = (t, g)" by fastforce
  have u: "\<exists>e. GetPolicyState st2 = (GetPolicyState st)(pid \<mapsto> e) \<and> psVerified e = (case vr of None \<Rightarrow> False | Some x \<Rightarrow> vrVerified x)"
    if "UpdatePolicyStateWithVerification now pid ver d vr st = Inr st2" for ver d vr st2
    using UpdatePolicy_get[OF that] by (auto simp: fresh_entry_def split: option.split)
  from assms show ?thesis
    unfolding SyncPolicy_def Let_def prod.case c fst_conv snd_conv
    by (auto split: if_split_asm sum.split_asm prod.split_asm option.split_asm dest!: u)
qed

lemma SetPolicyMetadata_keeps:
  "GetPolicyState (SetPolicyMetadata r ti ev c a st) repo = Some ps \<Longrightarrow>
   \<exists>p. GetPolicyState st repo = Some p \<and> psDigest p = psDigest ps \<and> psVerified p = psVerified ps"
  by (auto simp: SetPolicyMetadata_def GetPolicyState_def split: option.split_asm if_split_asm)

lemma update_metadata_keeps:
  "GetPolicyState (gwState (update_metadata x flt cacheDir r f w)) repo = Some ps \<Longrightarrow>
   \<exists>p. GetPolicyState (gwState w) repo = Some p \<and> psDigest p = psDigest ps \<and> psVerified p = psVerified ps"
  by (auto simp: update_metadata_def Let_def split: if_split_asm prod.split_asm sum.split_asm dest: SetPolicyMetadata_keeps)

lemma update_metadata_verifiers [simp]: "gwVerifiers (update_metadata x flt cacheDir r f w) = gwVerifiers w"
  by (auto simp: update_metadata_def Let_def split: prod.split sum.split)

text \<open>What a step may do to what is recorded (policies or complypacks): keep the digest or record a verified one.\<close>

definition only_verified :: "(State \<Rightarrow> string \<Rightarrow> PolicyState option) \<Rightarrow> State \<Rightarrow> State \<Rightarrow> bool" where
  "only_verified getState st st' \<longleftrightarrow> (\<forall>repo ps. getState st' repo = Some ps \<longrightarrow> psVerified ps \<or>
     (\<exists>p. getState st repo = Some p \<and> psDigest p = psDigest ps \<and> psVerified p = psVerified ps))"

lemma only_verified_refl [simp]: "only_verified getState st st"
  by (auto simp: only_verified_def)

lemma only_verified_trans: "only_verified getState a b \<Longrightarrow> only_verified getState b c \<Longrightarrow> only_verified getState a c"
  unfolding only_verified_def by metis

lemma only_verified_metadata: "only_verified GetPolicyState (gwState w) (gwState (update_metadata x flt cacheDir r f w))"
  using update_metadata_keeps unfolding only_verified_def by metis

lemma SyncPolicy_only_verified:
  assumes "SyncPolicy flt rnd now sy pid v (st, s) = ((st', s'), r)" "syVerifier sy = Some vf"
    and "\<And>ref h vr. vf ref h = Inr vr \<Longrightarrow> vrVerified vr"
  shows "only_verified GetPolicyState st st'"
proof -
  have rv: "\<exists>y. vr = Some y \<and> vrVerified y" if "run_verifier sy pid t g = Inr vr" for t g vr
    using that assms(2,3) by (auto simp: run_verifier_def split: sum.split_asm)
  from SyncPolicy_state[OF assms(1)] show ?thesis
  proof (elim disjE exE conjE)
    fix vr e
    assume a: "run_verifier sy pid (fst (classifyVersion v)) (snd (classifyVersion v)) = Inr vr"
      and u: "GetPolicyState st' = (GetPolicyState st)(pid \<mapsto> e)" "psVerified e = (case vr of None \<Rightarrow> False | Some x \<Rightarrow> vrVerified x)"
    from rv[OF a] u(2) have "psVerified e" by auto
    with u(1) show ?thesis by (auto simp: only_verified_def split: if_split_asm)
  qed simp
qed

lemma NewSync_verifier [simp]: "syVerifier (NewSync c src d h v) = v"
  by (simp add: NewSync_def Let_def case_prod_unfold)

lemma syncSinglePolicy_only_verified:
  assumes sound: "\<And>cfg vf ref h vr. gxBuilder x cfg = Inr vf \<Longrightarrow> vf ref h = Inr vr \<Longrightarrow> vrVerified vr"
    and ws: "IsConfigured wsCfg" and skip: "\<not> peSkipVerify entry"
    and m: "gwVerifiers w = Some m" "verifiers_ok (gxBuilder x) m"
    and run: "syncSinglePolicy x flt cacheDir dataDir wsCfg entry w = (w', err)"
  shows "only_verified GetPolicyState (gwState w) (gwState w') \<and> (\<exists>m'. gwVerifiers w' = Some m' \<and> verifiers_ok (gxBuilder x) m')"
proof (cases "ParsePolicyRef (peURL entry)")
  case (Inl e)
  then show ?thesis using run m by (auto simp: syncSinglePolicy_def)
next
  case (Inr ref)
  obtain m' r where rv: "resolveVerifier (gxBuilder x) entry wsCfg (gwVerifiers w) = (Some m', r)" and m': "verifiers_ok (gxBuilder x) m'"
      and vo: "\<And>vo. r = Inr vo \<Longrightarrow> \<exists>vf cfg. vo = Some vf \<and> gxBuilder x cfg = Inr vf"
    using resolveVerifier_strict[OF m(2) ws skip] m(1) by metis
  show ?thesis
  proof (cases r)
    case Inl
    then show ?thesis using run rv m' Inr by (auto simp: syncSinglePolicy_def)
  next
    case v: (Inr verifier)
    obtain cfg vf where vf: "verifier = Some vf" "gxBuilder x cfg = Inr vf" using vo[OF v] by blast
    define src where "src = gxSource x (prRegistry ref)"
    define ver where "ver = (if VersionString ref = [] then resolveLatestVersion src (prRepository ref) else VersionString ref)"
    obtain st s q where sp: "SyncPolicy flt (gxRandom x) (gxNow x) (NewSync cacheDir src dataDir (prRegistry ref) verifier)
        (prRepository ref) ver (gwState w, gwFs w) = ((st, s), q)" by (metis prod.exhaust)
    have ov: "only_verified GetPolicyState (gwState w) st"
      using SyncPolicy_only_verified[OF sp, of vf] vf sound by simp
    have meta: "gwState w1 = st \<Longrightarrow> only_verified GetPolicyState (gwState w) (gwState (update_metadata x flt cacheDir r' f w1))" for r' f w1
      using only_verified_trans[OF ov] only_verified_metadata by metis
    show ?thesis
      using run ov m' meta
      by (auto simp: syncSinglePolicy_def Inr rv v src_def[symmetric] ver_def[symmetric] sp Let_def split: sum.split_asm)
  qed
qed

lemma sync_each_only_verified:
  assumes "\<And>e w w' err m. e \<in> set es \<Longrightarrow> single e w = (w', err) \<Longrightarrow> gwVerifiers w = Some m \<Longrightarrow> verifiers_ok b m \<Longrightarrow>
      only_verified getState (gwState w) (gwState w') \<and> (\<exists>m'. gwVerifiers w' = Some m' \<and> verifiers_ok b m')"
    and "sync_each single es w = (w', errs)" "gwVerifiers w = Some m" "verifiers_ok b m"
  shows "only_verified getState (gwState w) (gwState w') \<and> (\<exists>m'. gwVerifiers w' = Some m' \<and> verifiers_ok b m')"
  using assms
proof (induction es arbitrary: w m errs)
  case (Cons e es)
  obtain w1 err where 1: "single e w = (w1, err)" by fastforce
  obtain errs' where 2: "sync_each single es w1 = (w', errs')"
    using Cons.prems(2) by (cases "sync_each single es w1") (simp add: 1 Let_def)
  obtain m1 where s: "only_verified getState (gwState w) (gwState w1)" "gwVerifiers w1 = Some m1" "verifiers_ok b m1"
    using Cons.prems(1)[OF _ 1 Cons.prems(3,4)] by auto
  have "only_verified getState (gwState w1) (gwState w') \<and> (\<exists>m'. gwVerifiers w' = Some m' \<and> verifiers_ok b m')"
    by (rule Cons.IH[OF _ 2 s(2,3)]) (rule Cons.prems(1), simp_all)
  with s show ?case using only_verified_trans by blast
qed simp

text \<open>
  With a configured workspace block and no entry that opts out, the policy half of get
  records no unverified policy: whatever the registries answer and whatever fails, after the run
  every recorded policy is verified or was recorded before with the same digest. The hypothesis on
  the verifiers is what \<^verbatim>\<open>VerifyFunc\<close> documents: a result without error says that the artifact was
  verified.
\<close>

lemma policies_only_verified:
  assumes "\<forall>cfg vf ref h vr. gxBuilder x cfg = Inr vf \<longrightarrow> vf ref h = Inr vr \<longrightarrow> vrVerified vr"
    and "IsConfigured wsCfg" "\<forall>e \<in> set policies. \<not> peSkipVerify e" "gwVerifiers w = Some m" "verifiers_ok (gxBuilder x) m"
    and "syncAllPolicies x flt cacheDir dataDir wsCfg policies w = (w', errs)"
  shows "only_verified GetPolicyState (gwState w) (gwState w') \<and> (\<exists>m'. gwVerifiers w' = Some m' \<and> verifiers_ok (gxBuilder x) m')"
proof -
  obtain w1 where w1: "sync_each (syncSinglePolicy x flt cacheDir dataDir wsCfg) policies w = (w1, errs)"
      "gwState w' = gwState w1" "gwVerifiers w' = gwVerifiers w1"
    using assms(6) by (auto simp: syncAllPolicies_def Let_def split: prod.split_asm)
  show ?thesis unfolding w1(2,3)
    by (rule sync_each_only_verified[OF _ w1(1) assms(4,5)])
       (use syncSinglePolicy_only_verified[of x wsCfg] assms(1-3) in auto)
qed

section \<open>Unverified complypacks\<close>

lemma complypack_update_verified:
  assumes "UpdateComplypackStateWithVerification now repo v d ev vr st = Inr st'" "run_verifier sy r t g = Inr vr"
    and "syVerifier sy = Some vf" "\<And>ref h vr. vf ref h = Inr vr \<Longrightarrow> vrVerified vr"
  shows "only_verified GetComplypackState st st'"
proof -
  obtain y where "vr = Some y" "vrVerified y"
    using assms(2-) by (auto simp: run_verifier_def split: sum.split_asm)
  then have "GetComplypackState st' = (GetComplypackState st)(repo \<mapsto> fresh_entry now v d ev vr)" "psVerified (fresh_entry now v d ev vr)"
    using UpdatePack_get[OF assms(1)] by (auto simp: fresh_entry_def)
  then show ?thesis by (auto simp: only_verified_def split: if_split_asm)
qed

lemma tryLocalCacheHit_verified:
  assumes "tryLocalCacheHit flt rnd now sy c repo v rd l t g (st, s) = ((st', s'), b)" "syVerifier sy = Some vf"
    and "\<And>ref h vr. vf ref h = Inr vr \<Longrightarrow> vrVerified vr"
  shows "only_verified GetComplypackState st st'"
  using assms(1) complypack_update_verified[OF _ _ assms(2,3)]
  unfolding tryLocalCacheHit_def Let_def prod.case
  by (auto split: sum.split_asm prod.split_asm option.split_asm)

lemma fetch_complypack_verified:
  assumes "fetch_complypack unpack flt rnd now sy c repo v rd t g (st, s) = ((st', s'), r)" "syVerifier sy = Some vf"
    and "\<And>ref h vr. vf ref h = Inr vr \<Longrightarrow> vrVerified vr"
  shows "only_verified GetComplypackState st st'"
  using assms(1) complypack_update_verified[OF _ _ assms(2,3)]
  unfolding fetch_complypack_def Let_def prod.case
  by (auto split: sum.split_asm prod.split_asm option.split_asm if_split_asm)

lemma SyncComplypack_only_verified:
  assumes "SyncComplypack unpack flt rnd now sy c repo v (st, s) = ((st', s'), r)" "syVerifier sy = Some vf"
    and "\<And>ref h vr. vf ref h = Inr vr \<Longrightarrow> vrVerified vr"
  shows "only_verified GetComplypackState st st'"
proof -
  note f = fetch_complypack_verified[OF _ assms(2,3)] and h = tryLocalCacheHit_verified[OF _ assms(2,3)]
  show ?thesis
    using assms(1) unfolding SyncComplypack_def Let_def prod.case
    by (auto split: sum.split_asm prod.split_asm option.split_asm if_split_asm bool.split_asm
        dest: f h intro: only_verified_trans)
qed

lemma invalidateGeneration_state [simp]: "gwState (invalidateGenerationForComplypack flt r b w) = gwState w"
    "gwVerifiers (invalidateGenerationForComplypack flt r b w) = gwVerifiers w"
  by (auto simp: invalidateGenerationForComplypack_def Let_def split: option.split prod.split)

lemma syncSingleComplypack_only_verified:
  assumes sound: "\<And>cfg vf ref h vr. gxBuilder x cfg = Inr vf \<Longrightarrow> vf ref h = Inr vr \<Longrightarrow> vrVerified vr"
    and ws: "IsConfigured wsCfg" and skip: "\<not> peSkipVerify entry"
    and m: "gwVerifiers w = Some m" "verifiers_ok (gxBuilder x) m"
    and run: "syncSingleComplypack x flt cacheDir dataDir baseDir wsCfg entry w = (w', err)"
  shows "only_verified GetComplypackState (gwState w) (gwState w') \<and> (\<exists>m'. gwVerifiers w' = Some m' \<and> verifiers_ok (gxBuilder x) m')"
proof (cases "ParsePolicyRef (peURL entry)")
  case (Inl e)
  then show ?thesis using run m by (auto simp: syncSingleComplypack_def)
next
  case (Inr ref)
  obtain m' r where rv: "resolveVerifier (gxBuilder x) entry wsCfg (gwVerifiers w) = (Some m', r)" and m': "verifiers_ok (gxBuilder x) m'"
      and vo: "\<And>vo. r = Inr vo \<Longrightarrow> \<exists>vf cfg. vo = Some vf \<and> gxBuilder x cfg = Inr vf"
    using resolveVerifier_strict[OF m(2) ws skip] m(1) by metis
  show ?thesis
  proof (cases r)
    case Inl
    then show ?thesis using run rv m' Inr by (auto simp: syncSingleComplypack_def)
  next
    case v: (Inr verifier)
    obtain cfg vf where vf: "verifier = Some vf" "gxBuilder x cfg = Inr vf" using vo[OF v] by blast
    define src where "src = gxSource x (prRegistry ref)"
    define ver where "ver = (if VersionString ref = [] then resolveLatestVersion src (prRepository ref) else VersionString ref)"
    obtain st s q where sp: "SyncComplypack (gxUnpack x) flt (gxRandom x) (gxNow x) (NewSync cacheDir src dataDir (prRegistry ref) verifier)
        (NewComplypackCache (gxRetention x) cacheDir (Some (gwState w))) (prRepository ref) ver (gwState w, gwFs w) = ((st, s), q)"
      by (metis prod.exhaust)
    have "only_verified GetComplypackState (gwState w) st"
      using SyncComplypack_only_verified[OF sp, of vf] vf sound by simp
    then show ?thesis
      using run m' by (auto simp: syncSingleComplypack_def Inr rv v src_def[symmetric] ver_def[symmetric] sp Let_def
          split: sum.split_asm if_split_asm)
  qed
qed

text \<open>The same for complypacks: none is recorded unverified.\<close>

lemma complypacks_only_verified:
  assumes "\<forall>cfg vf ref h vr. gxBuilder x cfg = Inr vf \<longrightarrow> vf ref h = Inr vr \<longrightarrow> vrVerified vr"
    and "IsConfigured wsCfg" "\<forall>e \<in> set packs. \<not> peSkipVerify e" "gwVerifiers w = Some m" "verifiers_ok (gxBuilder x) m"
    and "syncAllComplypacks x flt cacheDir dataDir baseDir wsCfg packs w = (w', errs)"
  shows "only_verified GetComplypackState (gwState w) (gwState w') \<and> (\<exists>m'. gwVerifiers w' = Some m' \<and> verifiers_ok (gxBuilder x) m')"
  by (rule sync_each_only_verified[OF _ assms(6)[unfolded syncAllComplypacks_def] assms(4,5)])
     (use syncSingleComplypack_only_verified[of x wsCfg] assms(1-3) in auto)

section \<open>Instances\<close>

definition strict_ext :: get_ext where
  "strict_ext = \<lparr>gxConfigYaml = (\<lambda>_. Inl []), gxYaml = \<lparr>gyPolicy = (\<lambda>_. None), gyControlCatalog = (\<lambda>_. None), gyGuidanceCatalog = (\<lambda>_. None)\<rparr>,
     gxBundle = (\<lambda>_ _. None), gxUnpack = (\<lambda>_ _. None), gxSource = (\<lambda>_. demo_source ''v1''),
     gxNewKeyed = (\<lambda>k. Inr (\<lambda>_ _. Inl ''bad signature'')), gxNewKeyless = (\<lambda>_ _ _. Inl ''offline''), gxCredentials = True,
     gxRandom = ''1'', gxNow = 1, gxRetention = []\<rparr>"

definition keyed_entry :: PolicyEntry where
  "keyed_entry = \<lparr>peURL = ''registry.com/policies/nist:v1'', peID = ''nist'',
     peVerification = Some \<lparr>vcIssuer = [], vcIdentity = [], vcKey = ''/keys/cosign.pub'', vcTrustedRoot = []\<rparr>, peSkipVerify = False\<rparr>"

definition keyed_config :: "VerificationConfig option \<Rightarrow> WorkspaceConfig" where
  "keyed_config ws = demo_config\<lparr>wcPolicies := [keyed_entry], wcComplypacks := [], wcTargets := [], wcVerification := ws\<rparr>"

definition keyed_get :: "VerificationConfig option \<Rightarrow> get_world \<times> get_err list" where
  "keyed_get ws = syncAll strict_ext no_faults [''c''] [''d''] [''w''] (keyed_config ws) (wcVerification (keyed_config ws)) None []"


text \<open>An accepting verifier, for the theorem on recorded policies.\<close>

theorem resolveVerifier_priority_witness:
  "snd (resolveVerifier (gxBuilder strict_ext) keyed_entry None (Some [])) =
     map_sum (\<lambda>e. e) Some (gxBuilder strict_ext (the (peVerification keyed_entry)))"
  using resolveVerifier_priority[OF verifiers_ok_Nil, of "gxBuilder strict_ext" keyed_entry None]
  by (auto simp: keyed_entry_def IsConfigured_def Let_def split: prod.split_asm)

section \<open>Evaluator IDs\<close>

lemma evaluator_repos_get:
  "go_get (evaluator_repos st es) i =
    (let rs = map snd (filter (\<lambda>p. fst p = i) (List.map_filter (entry_evaluator st) es)) in if rs = [] then None else Some rs)"
proof (induction es rule: rev_induct)
  case (snoc e es)
  then show ?case
    by (auto simp: evaluator_repos_def List.map_filter_def Let_def split: option.split prod.split)
qed (simp add: evaluator_repos_def List.map_filter_def)

lemma evaluator_repos_wf: "go_wf (evaluator_repos st es)"
  by (induction es rule: rev_induct) (auto simp: evaluator_repos_def gm.wf_put split: option.split prod.split)

lemma distinct_keys_iff: "distinct (map fst xs) \<longleftrightarrow> (\<forall>i. length (filter (\<lambda>p. fst p = i) xs) \<le> 1)"
proof (induction xs)
  case (Cons x xs)
  have "fst x \<in> fst ` set xs \<longleftrightarrow> filter (\<lambda>p. fst p = fst x) xs \<noteq> []" by (induction xs) auto
  then show ?case using Cons by auto
qed simp

text \<open>
  After a sync, the command refuses the configuration exactly when two configured
  complypacks have the same evaluator ID in the state.
\<close>

theorem validateUniqueEvaluatorIDs_iff:
  "validateUniqueEvaluatorIDs st complypacks = None \<longleftrightarrow>
    distinct (map fst (List.map_filter (entry_evaluator st) complypacks))"
proof -
  have "validateUniqueEvaluatorIDs st complypacks = None \<longleftrightarrow>
      (\<forall>(i, rs) \<in> set (evaluator_repos st complypacks). length rs \<le> 1)"
    by (simp add: validateUniqueEvaluatorIDs_def Let_def filter_empty_conv case_prod_unfold not_less)
  also have "\<dots> \<longleftrightarrow> (\<forall>i rs. go_get (evaluator_repos st complypacks) i = Some rs \<longrightarrow> length rs \<le> 1)"
    using gm.get_entries[OF evaluator_repos_wf, of st complypacks] by auto
  also have "\<dots> \<longleftrightarrow> distinct (map fst (List.map_filter (entry_evaluator st) complypacks))"
    unfolding distinct_keys_iff evaluator_repos_get Let_def by (auto split: if_split_asm) (metis le0 list.size(3))
  finally show ?thesis .
qed

end
