(* ===== verification/Commands.thy ===== *)
theory Commands
  imports Get
begin

text \<open>
  The generate, list and providers commands (\<^verbatim>\<open>cmd/complyctl/cli/generate.go\<close>, \<^verbatim>\<open>list.go\<close>,
  \<^verbatim>\<open>providers.go\<close>): directories, configuration and the composition of the components below. What is
  printed on standard output is the result.
\<close>

section \<open>generate\<close>

datatype command_err =
    MConfig cfg_err
  | MPolicyNotFound string
  | MPolicyRef string cfg_err
  | MResolve resolve_err
  | MProviders scan_err
  | MGenerate gen_err
  | MCacheState cache_err
  | MDiscovery prov_err

record command_dirs =
  cdCacheDir :: string
  cdDataDir :: string
  cdProviderDir :: string

definition generate_complete :: "osenv \<Rightarrow> cfg_err + command_dirs" where
  "generate_complete os =
    (case ResolveCacheDir os of
       Inl e \<Rightarrow> Inl e
     | Inr c \<Rightarrow> (case ResolveDataDir os of
         Inl e \<Rightarrow> Inl e
       | Inr d \<Rightarrow> (case ResolveProviderDir os of
           Inl e \<Rightarrow> Inl e
         | Inr p \<Rightarrow> Inr \<lparr>cdCacheDir = c, cdDataDir = d, cdProviderDir = p\<rparr>)))"

text \<open>Provider calls, saved state and printed plan, once policy and providers are there.\<close>

definition generate_and_save ::
    "faults \<Rightarrow> string \<Rightarrow> string \<Rightarrow> path \<Rightarrow> path \<Rightarrow> path \<Rightarrow> manager \<Rightarrow> (string, EvaluatorGroup) gomap \<Rightarrow> TargetConfig list \<Rightarrow>
      (string, string) gomap \<Rightarrow> string \<Rightarrow> string \<Rightarrow> fs \<Rightarrow> fs \<times> string \<times> gen_err option" where
  "generate_and_save flt env now cacheDir dataDir baseDir mgr groups policyTargets configVars repository eid s =
    (case invokeGenerate flt env cacheDir dataDir baseDir mgr groups policyTargets configVars s of
       Inl e \<Rightarrow> (s, [], Some e)
     | Inr (evaluatorIDs, availableEvaluators, planRows) \<Rightarrow>
        (case saveGenerationAndPrint flt now dataDir baseDir repository evaluatorIDs availableEvaluators s of
           (s1, Some e) \<Rightarrow> (s1, [], Some e)
         | (s1, None) \<Rightarrow> (s1, FormatExecutionPlan eid planRows, None)))"

definition generatePolicy ::
    "scan_ext \<Rightarrow> faults \<Rightarrow> osenv \<Rightarrow> command_dirs \<Rightarrow> WorkspaceConfig \<Rightarrow> PolicyEntry \<Rightarrow> string \<Rightarrow> fs \<Rightarrow> fs \<times> string \<times> command_err option" where
  "generatePolicy x flt os dirs cfg entry baseDir s =
    (case ParsePolicyRef (peURL entry) of
       Inl e \<Rightarrow> (s, [], Some (MPolicyRef (peURL entry) e))
     | Inr ref \<Rightarrow>
        (let eid = EffectiveID entry; cacheDir = path_of (cdCacheDir dirs); dataDir = path_of (cdDataDir dirs) in
         case resolveVersionAndGraph (sxYaml x) (cache_loader (sxUnpack x) flt cacheDir) (prRepository ref) (VersionString ref) s of
           (s1, Inl e) \<Rightarrow> (s1, [], Some (MResolve e))
         | (s1, Inr (version, graph)) \<Rightarrow>
            (case scan_loadProviders x os (cdProviderDir dirs) of
               Inl e \<Rightarrow> (s1, [], Some (MProviders e))
             | Inr mgr \<Rightarrow>
                (let configs = ExtractAssessmentConfigs graph; groups = GroupByEvaluator configs graph;
                     policyTargets = filterTargetsForPolicy (wcTargets cfg) eid in
                 case generate_and_save flt (os_Getenv os ''COMPLYTIME_CACHE_VERSIONS'') (sxNow x) cacheDir dataDir (path_of baseDir)
                        mgr groups policyTargets (wcVariables cfg) (prRepository ref) eid s1 of
                   (s2, out, Some e) \<Rightarrow> (s2, out, Some (MGenerate e))
                 | (s2, out, None) \<Rightarrow> (s2, out, None)))))"

definition generate_run ::
    "scan_ext \<Rightarrow> faults \<Rightarrow> osenv \<Rightarrow> command_dirs \<Rightarrow> string \<Rightarrow> string \<Rightarrow> fs \<Rightarrow> fs \<times> string \<times> command_err option" where
  "generate_run x flt os dirs workspaceFlag policyID s =
    (case ResolveWorkspaceDir os workspaceFlag of
       Inl e \<Rightarrow> (s, [], Some (MConfig e))
     | Inr baseDir \<Rightarrow>
        (case loadWorkspaceConfig (sxConfigYaml x) os baseDir of
           Inl e \<Rightarrow> (s, [], Some (MConfig e))
         | Inr cfg \<Rightarrow>
            (case FindPolicy (wcPolicies cfg) policyID of
               None \<Rightarrow> (s, [], Some (MPolicyNotFound policyID))
             | Some entry \<Rightarrow> generatePolicy x flt os dirs cfg entry baseDir s)))"

definition generateCmd :: "scan_ext \<Rightarrow> faults \<Rightarrow> osenv \<Rightarrow> string \<Rightarrow> string \<Rightarrow> fs \<Rightarrow> fs \<times> string \<times> command_err option" where
  "generateCmd x flt os workspaceFlag policyID s =
    (case generate_complete os of
       Inl e \<Rightarrow> (s, [], Some (MConfig e))
     | Inr dirs \<Rightarrow> generate_run x flt os dirs workspaceFlag policyID s)"

section \<open>list\<close>

definition show_int :: "int \<Rightarrow> string" where
  "show_int i = (if i < 0 then ''-'' @ show_nat (nat (- i)) else show_nat (nat i))"

definition policyMetadataFields :: "State \<Rightarrow> string \<Rightarrow> string \<times> string" where
  "policyMetadataFields st repository =
    (case GetPolicyState st repository of
       None \<Rightarrow> (''-'', ''-'')
     | Some ps \<Rightarrow>
        if \<not> hasMetadata ps then (''-'', ''-'')
        else (if psPolicyEvaluator ps = [] then ''-'' else psPolicyEvaluator ps, show_int (psControlCount ps)))"

definition abbreviateDigest :: "string \<Rightarrow> string" where
  "abbreviateDigest dgst =
    (if dgst = [] then ''-''
     else case cut_first CHR '':'' dgst of
       None \<Rightarrow> dgst
     | Some (alg, hex) \<Rightarrow> alg @ '':'' @ (if length hex > 12 then take 12 hex else hex))"

definition policyDigestField :: "State \<Rightarrow> string \<Rightarrow> string" where
  "policyDigestField st repository = (case GetPolicyState st repository of None \<Rightarrow> ''-'' | Some ps \<Rightarrow> abbreviateDigest (psDigest ps))"

definition verificationStatus :: "State \<Rightarrow> string \<Rightarrow> string" where
  "verificationStatus st repository = (case GetPolicyState st repository of None \<Rightarrow> ''-''
     | Some ps \<Rightarrow> if psVerified ps then ''Yes'' else ''No'')"

definition printGemaraPolicyTable :: "string list list \<Rightarrow> string" where
  "printGemaraPolicyTable rows =
    ShowPlainTable [''POLICY ID'', ''VERSION'', ''EVALUATOR'', ''CONTROLS'', ''DIGEST'', ''VERIFIED'']
      (sort_key (\<lambda>r. r ! 0) rows)"

definition list_row :: "string list \<Rightarrow> State \<Rightarrow> string \<Rightarrow> string \<Rightarrow> string list" where
  "list_row versions st eid repository =
    (let versionStr = (if versions \<noteq> [] then Join '', '' (sort versions) else ''-'');
         (evaluatorStr, controlsStr) = policyMetadataFields st repository in
     [eid, versionStr, evaluatorStr, controlsStr, policyDigestField st repository, verificationStatus st repository])"

fun list_rows ::
    "faults \<Rightarrow> path \<Rightarrow> string \<Rightarrow> State \<Rightarrow> PolicyEntry list \<Rightarrow> string list list \<Rightarrow> fs \<Rightarrow> fs \<times> (command_err + string list list)" where
  "list_rows flt cacheDir policyID st [] rows s = (s, Inr rows)"
| "list_rows flt cacheDir policyID st (p # ps) rows s =
    (let eid = EffectiveID p in
     if policyID \<noteq> [] \<and> eid \<noteq> policyID then list_rows flt cacheDir policyID st ps rows s
     else case ParsePolicyRef (peURL p) of
       Inl e \<Rightarrow> (s, Inl (MPolicyRef (peURL p) e))
     | Inr ref \<Rightarrow>
        (case GetCachedVersions flt cacheDir (prRepository ref) s of
           (s1, r) \<Rightarrow> list_rows flt cacheDir policyID st ps (rows @ [list_row (cached_or_nil r) st eid (prRepository ref)]) s1))"

definition list_run ::
    "(string \<Rightarrow> string + WorkspaceConfig) \<Rightarrow> faults \<Rightarrow> osenv \<Rightarrow> string \<Rightarrow> string \<Rightarrow> path \<Rightarrow> path \<Rightarrow> fs \<Rightarrow> fs \<times> (command_err + string)" where
  "list_run yaml flt os workspaceFlag policyID cacheDir dataDir s =
    (case ResolveWorkspaceDir os workspaceFlag of
       Inl e \<Rightarrow> (s, Inl (MConfig e))
     | Inr baseDir \<Rightarrow>
        (case loadWorkspaceConfig yaml os baseDir of
           Inl e \<Rightarrow> (s, Inl (MConfig e))
         | Inr cfg \<Rightarrow>
            (case LoadState flt dataDir s of
               Inl e \<Rightarrow> (s, Inl (MCacheState e))
             | Inr st \<Rightarrow>
                (case list_rows flt cacheDir policyID st (wcPolicies cfg) [] s of
                   (s1, Inl e) \<Rightarrow> (s1, Inl e)
                 | (s1, Inr rows) \<Rightarrow> (s1, Inr (printGemaraPolicyTable rows))))))"

definition listCmd ::
    "(string \<Rightarrow> string + WorkspaceConfig) \<Rightarrow> faults \<Rightarrow> osenv \<Rightarrow> string \<Rightarrow> string \<Rightarrow> fs \<Rightarrow> fs \<times> (command_err + string)" where
  "listCmd yaml flt os workspaceFlag policyID s =
    (case ResolveCacheDir os of
       Inl e \<Rightarrow> (s, Inl (MConfig e))
     | Inr c \<Rightarrow> (case ResolveDataDir os of
         Inl e \<Rightarrow> (s, Inl (MConfig e))
       | Inr d \<Rightarrow> list_run yaml flt os workspaceFlag policyID (path_of c) (path_of d) s))"

section \<open>providers\<close>

text \<open>\<^verbatim>\<open>filepath.Rel\<close> on clean paths: up from the rest of the base, down the rest of the target.\<close>

fun drop_common :: "string list \<Rightarrow> string list \<Rightarrow> string list \<times> string list" where
  "drop_common (a # as) (b # bs) = (if a = b then drop_common as bs else (a # as, b # bs))"
| "drop_common as bs = (as, bs)"

definition filepath_Rel :: "string \<Rightarrow> string \<Rightarrow> string option" where
  "filepath_Rel basepath targpath =
    (let base = filepath_Clean basepath; targ = filepath_Clean targpath in
     if targ = base then Some ''.''
     else if IsAbs base \<noteq> IsAbs targ then None
     else let comps = (\<lambda>p. if p = ''.'' then [] else filter (\<lambda>c. c \<noteq> []) (Split CHR ''/'' p));
              (rb, rt) = drop_common (comps base) (comps targ) in
       if rb \<noteq> [] \<and> hd rb = ''..'' then None
       else Some (Join ''/'' (map (\<lambda>_. ''..'') rb @ rt)))"

definition lookupComplypackVersion :: "faults \<Rightarrow> ComplypackCache \<Rightarrow> string \<Rightarrow> fs \<Rightarrow> string" where
  "lookupComplypackVersion flt cc evaluatorID s =
    (case LookupByEvaluatorID flt cc evaluatorID s of
       Inr (Some (p, cfg)) \<Rightarrow> if pcVersion cfg = [] then ''none'' else pcVersion cfg
     | _ \<Rightarrow> ''none'')"

definition describeProvider :: "LoadedProvider \<Rightarrow> string \<times> string" where
  "describeProvider lp =
    (case pvDescribe (lpClient lp) of
       Inl _ \<Rightarrow> (''ERROR'', [])
     | Inr resp \<Rightarrow> if \<not> drHealthy resp then (''unhealthy'', []) else (''healthy'', drVersion resp))"

definition buildProviderRows :: "faults \<Rightarrow> LoadedProvider list \<Rightarrow> string \<Rightarrow> ComplypackCache \<Rightarrow> fs \<Rightarrow> string list list" where
  "buildProviderRows flt providers providerDir cc s =
    map (\<lambda>lp.
      let (status, version) = describeProvider lp; exe = piExecutablePath (lpInfo lp);
          relPath = (case filepath_Rel providerDir exe of None \<Rightarrow> exe | Some r \<Rightarrow> r);
          eid = piEvaluatorID (lpInfo lp) in
      [eid, relPath, status, version, lookupComplypackVersion flt cc eid s]) providers"

definition providers_run :: "scan_ext \<Rightarrow> faults \<Rightarrow> osenv \<Rightarrow> command_dirs \<Rightarrow> fs \<Rightarrow> command_err + string" where
  "providers_run x flt os dirs s =
    (case LoadProviders (sxConnect x)
            (DiscoverProviders (sxReadDir x) (osHomeDir os) (cdProviderDir dirs) (ResolveSystemProviderDir os)) [] of
       (_, Some e) \<Rightarrow> Inl (MDiscovery e)
     | (mgr, None) \<Rightarrow>
        (let providers = ListProviders mgr in
         if providers = [] then Inr []
         else
           (let cacheState = (case LoadState flt (path_of (cdDataDir dirs)) s of Inl _ \<Rightarrow> None | Inr st \<Rightarrow> Some st);
                cc = NewComplypackCache (os_Getenv os ''COMPLYTIME_CACHE_VERSIONS'') (path_of (cdCacheDir dirs)) cacheState in
            Inr (ShowPlainTable [''PROVIDER ID'', ''PATH'', ''STATUS'', ''VERSION'', ''COMPLYPACK'']
                   (buildProviderRows flt providers (cdProviderDir dirs) cc s)))))"

definition providers_complete :: "osenv \<Rightarrow> cfg_err + command_dirs" where
  "providers_complete os =
    (case ResolveProviderDir os of
       Inl e \<Rightarrow> Inl e
     | Inr p \<Rightarrow> (case ResolveCacheDir os of
         Inl e \<Rightarrow> Inl e
       | Inr c \<Rightarrow> (case ResolveDataDir os of
           Inl e \<Rightarrow> Inl e
         | Inr d \<Rightarrow> Inr \<lparr>cdCacheDir = c, cdDataDir = d, cdProviderDir = p\<rparr>)))"

definition providersCmd :: "scan_ext \<Rightarrow> faults \<Rightarrow> osenv \<Rightarrow> fs \<Rightarrow> command_err + string" where
  "providersCmd x flt os s =
    (case providers_complete os of Inl e \<Rightarrow> Inl (MConfig e) | Inr dirs \<Rightarrow> providers_run x flt os dirs s)"

section \<open>Properties\<close>



text \<open>The row of every selected policy is listed once, in order of the IDs.\<close>

lemma list_rows_ids:
  "list_rows flt cacheDir policyID st ps rows s = (s', Inr rs) \<Longrightarrow>
   map (\<lambda>r. r ! 0) rs = map (\<lambda>r. r ! 0) rows @ filter (\<lambda>e. policyID = [] \<or> e = policyID) (map EffectiveID ps)"
proof (induction ps arbitrary: rows s)
  case (Cons p ps)
  then show ?case
    by (fastforce simp: Let_def list_row_def case_prod_unfold split: if_split_asm sum.split_asm)
qed simp

end
