(* ===== verification/Doctor.thy ===== *)
theory Doctor
  imports Scan "HOL-Library.Monad_Syntax"
begin

text \<open>
  The pre-flight diagnostics (\<^verbatim>\<open>internal/doctor/doctor.go\<close>): one function per check, the assembly of
  their results into a tree, all over the file system and configuration of the other theories.
  A resolver or configuration that may be \<^verbatim>\<open>nil\<close> is an option. The text of errors of other
  components and the size of a file are parameters, the text of operating system errors is left
  out; times are nanoseconds since 1970.
\<close>

section \<open>Results\<close>

datatype CheckStatus = StatusPass | StatusFail | StatusWarn

datatype CheckGroup = GroupProviders | GroupVariables | GroupPolicies | GroupCache | GroupComplypacks | GroupWorkspace | GroupVerify

definition GroupOrder :: "CheckGroup list" where
  "GroupOrder = [GroupProviders, GroupPolicies, GroupCache, GroupComplypacks, GroupWorkspace, GroupVerify]"

datatype CheckResult = CheckResult (crName: string) (crLabel: string) (crGroup: CheckGroup) (crStatus: CheckStatus)
  (crMessage: string) (crBlocking: bool) (crChildren: "CheckResult list")

definition check :: "string \<Rightarrow> string \<Rightarrow> CheckGroup \<Rightarrow> CheckStatus \<Rightarrow> string \<Rightarrow> bool \<Rightarrow> CheckResult" where
  "check name label group' status message blocking = CheckResult name label group' status message blocking []"

definition set_children :: "CheckResult list \<Rightarrow> CheckResult \<Rightarrow> CheckResult" where
  "set_children cs r = CheckResult (crName r) (crLabel r) (crGroup r) (crStatus r) (crMessage r) (crBlocking r) cs"

definition set_group :: "CheckGroup \<Rightarrow> CheckResult \<Rightarrow> CheckResult" where
  "set_group g r = CheckResult (crName r) (crLabel r) g (crStatus r) (crMessage r) (crBlocking r) (crChildren r)"

record ProviderHealth =
  phEvaluatorID :: string
  phRequiredGlobalVariables :: "string list"
  phRequiredTargetVariables :: "string list"
  phOptionalTargetVariableGroups :: "string list"

text \<open>Texts of error values, and the version queries of the registry.\<close>

record doctor_ext =
  dxCfgErr :: "cfg_err \<Rightarrow> string"
  dxCacheErr :: "cache_err \<Rightarrow> string"
  dxProvErr :: "prov_err \<Rightarrow> string"
  dxLoadErr :: "load_err \<Rightarrow> string"
  dxResolveErr :: "resolve_err \<Rightarrow> string"
  dxSize :: "fdata \<Rightarrow> nat"
  dxConfigYaml :: "string \<Rightarrow> string + WorkspaceConfig"
  dxConnect :: "string \<Rightarrow> string + Provider"
  dxReadDir :: "string \<Rightarrow> listing"
  dxNow :: gotime
  dxRetention :: string

record VersionResolver =
  vrResolveLatest :: "string \<Rightarrow> string \<Rightarrow> reg_err + string"
  vrResolveVersion :: "string \<Rightarrow> string \<Rightarrow> string \<Rightarrow> reg_err + string"

type_synonym graph_resolver = "gemara_yaml \<times> fs PolicyLoader"

text \<open>The dash of the messages, in UTF-8, and \<^verbatim>\<open>%q\<close> for text of printable characters.\<close>

definition dash :: string where "dash = [CHR '' '', CHR 0xE2, CHR 0x80, CHR 0x94, CHR '' '']"

definition go_quote :: "string \<Rightarrow> string" where
  "go_quote s = CHR 0x22 # concat (map (\<lambda>c. if c = CHR 0x22 \<or> c = CHR 0x5C then [CHR 0x5C, c] else [c]) s) @ [CHR 0x22]"

section \<open>State and directories\<close>

definition CheckVerification :: "doctor_ext \<Rightarrow> faults \<Rightarrow> path \<Rightarrow> fs \<Rightarrow> CheckResult" where
  "CheckVerification x flt dataDir s =
    (case LoadState flt dataDir s of
       Inl e \<Rightarrow> check ''verification'' [] GroupVerify StatusWarn (''cannot load cache state: '' @ dxCacheErr x e) False
     | Inr st \<Rightarrow>
        (let all_states = map snd (stPolicies st) @ map snd (stComplypacks st);
             verified = length (filter psVerified all_states);
             unverified = length (filter (\<lambda>p. \<not> psVerified p) all_states);
             total = verified + unverified in
         if total = 0 then check ''verification'' [] GroupVerify StatusPass ''no cached artifacts to verify'' False
         else if unverified = 0 then check ''verification'' [] GroupVerify StatusPass
           (''all '' @ show_nat verified @ '' cached artifacts verified'') False
         else check ''verification'' [] GroupVerify StatusWarn
           (show_nat unverified @ ''/'' @ show_nat total @
            '' cached artifacts unverified (configure verification: in complytime.yaml)'') False))"

definition fs_stat :: "faults \<Rightarrow> path \<Rightarrow> fs \<Rightarrow> stat_res" where
  "fs_stat flt p s = (if flt (OpStat p) then StatErr
     else case go_get s p of None \<Rightarrow> StatMissing | Some Dir \<Rightarrow> StatDir | Some (File _) \<Rightarrow> StatFile)"

definition CheckDirectoryLayout :: "faults \<Rightarrow> path \<Rightarrow> path \<Rightarrow> fs \<Rightarrow> CheckResult" where
  "CheckDirectoryLayout flt cacheDir dataDir s =
    (let res = (\<lambda>st msg. check ''directory-layout'' [] GroupWorkspace st msg False);
         cacheStatePath = fp_join cacheDir [StateFileName]; dataStatePath = fp_join dataDir [StateFileName] in
     case fs_stat flt cacheDir s of
       StatMissing \<Rightarrow> res StatusWarn (''cache directory does not exist: '' @ path_string cacheDir)
     | StatErr \<Rightarrow> res StatusWarn ''cache directory not accessible''
     | _ \<Rightarrow>
       (case fs_stat flt dataDir s of
          StatMissing \<Rightarrow> res StatusWarn (''data directory does not exist: '' @ path_string dataDir @ dash @ ''run complyctl get to initialize'')
        | StatErr \<Rightarrow> res StatusWarn ''data directory not accessible''
        | _ \<Rightarrow>
          if fs_stat flt cacheStatePath s \<in> {StatFile, StatDir} \<and> fs_stat flt dataStatePath s = StatMissing
          then res StatusWarn (''state.json found in cache directory ('' @ path_string cacheDir @ '') but not in data directory ('' @
                 path_string dataDir @ '')'' @ dash @ ''move it with: mv '' @ path_string cacheStatePath @ '' '' @ path_string dataStatePath)
          else res StatusPass ''XDG directory layout valid''))"

definition CheckConfig :: "doctor_ext \<Rightarrow> osenv \<Rightarrow> string \<Rightarrow> CheckResult" where
  "CheckConfig x os configPath =
    (let res = (\<lambda>st msg. check ''config'' [] GroupWorkspace st msg True) in
     if osStat os configPath = StatMissing then res StatusFail (configPath @ '' not found'')
     else case LoadFrom (dxConfigYaml x) os configPath of
       Inl e \<Rightarrow> res StatusFail (''config load failed: '' @ dxCfgErr x e)
     | Inr cfg \<Rightarrow>
        (case snd (Validate os cfg) of
           Some e \<Rightarrow> res StatusFail (''config validation failed: '' @ dxCfgErr x e)
         | None \<Rightarrow> res StatusPass (configPath @ '' valid'')))"

definition CheckCache :: "faults \<Rightarrow> path option \<Rightarrow> fs \<Rightarrow> CheckResult" where
  "CheckCache flt cacheDir s =
    (let res = (\<lambda>st msg. check ''cache'' [] GroupCache st msg True) in
     case cacheDir of
       None \<Rightarrow> res StatusFail ''policy cache path not resolved''
     | Some policiesDir \<Rightarrow>
        if fs_stat flt policiesDir s = StatMissing then res StatusFail (''policy cache not found'' @ dash @ ''run complyctl get first'')
        else case fs_ReadDir flt policiesDir s of
          Entries [] \<Rightarrow> res StatusFail (''policy cache is empty'' @ dash @ ''run complyctl get first'')
        | Entries entries \<Rightarrow> res StatusPass (show_nat (length entries) @ '' cached policy store(s)'')
        | _ \<Rightarrow> res StatusFail ''cannot read cache directory'')"

section \<open>Providers\<close>

definition provider_check :: "LoadedProvider \<Rightarrow> CheckResult \<times> ProviderHealth list" where
  "provider_check lp =
    (let eid = piEvaluatorID (lpInfo lp);
         res = (\<lambda>st msg. check (''provider/'' @ eid) eid GroupProviders st msg True) in
     case pvDescribe (lpClient lp) of
       Inl e \<Rightarrow> (res StatusFail (''Describe failed: '' @ e), [])
     | Inr resp \<Rightarrow>
        if \<not> drHealthy resp then (res StatusFail (''unhealthy: '' @ drErrorMessage resp), [])
        else (res StatusPass (''healthy (v'' @ drVersion resp @ '')''),
              [\<lparr>phEvaluatorID = eid, phRequiredGlobalVariables = drRequiredGlobalVariables resp,
                phRequiredTargetVariables = drRequiredTargetVariables resp,
                phOptionalTargetVariableGroups = drOptionalTargetVariableGroups resp\<rparr>]))"

definition CheckProviders :: "doctor_ext \<Rightarrow> osenv \<Rightarrow> string \<Rightarrow> CheckResult list \<times> ProviderHealth list" where
  "CheckProviders x os providerDir =
    (case LoadProviders (dxConnect x) (DiscoverProviders (dxReadDir x) (osHomeDir os) providerDir (ResolveSystemProviderDir os)) [] of
       (_, Some e) \<Rightarrow> ([check ''providers'' [] GroupProviders StatusFail (''provider discovery failed: '' @ dxProvErr x e) True], [])
     | (mgr, None) \<Rightarrow>
        (let providers = ListProviders mgr in
         if providers = [] then
           ([check ''providers'' [] GroupProviders StatusWarn
               (''no providers found in '' @ providerDir @ '' or '' @ ResolveSystemProviderDir os) False], [])
         else (map (fst \<circ> provider_check) providers, concat (map (snd \<circ> provider_check) providers))))"

section \<open>Policy versions\<close>

definition policy_check :: "string \<Rightarrow> CheckStatus \<Rightarrow> string \<Rightarrow> bool \<Rightarrow> CheckResult" where
  "policy_check eid st msg blocking = check (''policy/'' @ eid) eid GroupPolicies st msg blocking"

definition resolvePinnedFallback :: "VersionResolver \<Rightarrow> PolicyRef \<Rightarrow> string \<Rightarrow> string \<Rightarrow> reg_err \<Rightarrow> CheckResult" where
  "resolvePinnedFallback resolver ref eid cachedVersion latestErr =
    (let pinnedVersion = VersionString ref; reachable = is_version_not_found latestErr in
     if pinnedVersion \<noteq> [] \<and> reachable \<and> \<not> isl (vrResolveVersion resolver (prRegistry ref) (prRepository ref) pinnedVersion)
     then policy_check eid StatusPass (cachedVersion @ '' (pinned'' @ dash @ ''latest tag unavailable for staleness check)'') False
     else if reachable then
       policy_check eid StatusWarn
         (if pinnedVersion \<noteq> [] then ''version '' @ go_quote pinnedVersion @ '' not found in registry''
          else ''latest tag not found'' @ dash @ ''pin a specific version with @<tag>'') False
     else policy_check eid StatusWarn (''version check skipped (registry unreachable: '' @ prRegistry ref @ '')'') False)"

definition version_check :: "string \<Rightarrow> string \<Rightarrow> string \<Rightarrow> string \<Rightarrow> CheckResult" where
  "version_check eid cachedVersion pinnedVersion latestVersion =
    (if pinnedVersion \<noteq> [] then
       (if cachedVersion = pinnedVersion then
          policy_check eid StatusPass
            (if latestVersion \<noteq> cachedVersion then cachedVersion @ '' (pinned'' @ dash @ ''latest available: '' @ latestVersion @ '')''
             else cachedVersion @ '' (pinned)'') False
        else policy_check eid StatusWarn
          (''cached '' @ cachedVersion @ '' does not match configured pin @'' @ pinnedVersion @ dash @ ''run complyctl get'') False)
     else if cachedVersion = latestVersion then policy_check eid StatusPass (cachedVersion @ '' (latest)'') False
     else policy_check eid StatusWarn
       (''cached '' @ cachedVersion @ '', available '' @ latestVersion @ dash @ ''run complyctl get to update'') False)"

fun versions_loop :: "doctor_ext \<Rightarrow> State \<Rightarrow> VersionResolver \<Rightarrow> (string, reg_err) gomap \<Rightarrow> PolicyEntry list \<Rightarrow> CheckResult list" where
  "versions_loop x st resolver registryErrors [] = []"
| "versions_loop x st resolver registryErrors (p # ps) =
    (let eid = EffectiveID p in
     case ParsePolicyRef (peURL p) of
       Inl e \<Rightarrow> policy_check eid StatusFail (''invalid policy reference: '' @ dxCfgErr x e) True # versions_loop x st resolver registryErrors ps
     | Inr ref \<Rightarrow>
        (case GetPolicyState st (prRepository ref) of
           None \<Rightarrow> policy_check eid StatusWarn (''not cached'' @ dash @ ''run complyctl get first'') False
                     # versions_loop x st resolver registryErrors ps
         | Some cached \<Rightarrow>
            (case go_get registryErrors (prRegistry ref) of
               Some err \<Rightarrow> resolvePinnedFallback resolver ref eid (psVersion cached) err # versions_loop x st resolver registryErrors ps
             | None \<Rightarrow>
                (case vrResolveLatest resolver (prRegistry ref) (prRepository ref) of
                   Inl err \<Rightarrow>
                     resolvePinnedFallback resolver ref eid (psVersion cached) err
                       # versions_loop x st resolver
                           (if is_version_not_found err then registryErrors else go_put (prRegistry ref) err registryErrors) ps
                 | Inr latestVersion \<Rightarrow>
                     version_check eid (psVersion cached) (VersionString ref) latestVersion
                       # versions_loop x st resolver registryErrors ps))))"

definition CheckPolicyVersions ::
    "doctor_ext \<Rightarrow> faults \<Rightarrow> WorkspaceConfig option \<Rightarrow> path \<Rightarrow> VersionResolver option \<Rightarrow> fs \<Rightarrow> CheckResult list" where
  "CheckPolicyVersions x flt cfg dataDir versionResolver s =
    (case cfg of
       None \<Rightarrow> []
     | Some c \<Rightarrow>
        if wcPolicies c = [] then []
        else case versionResolver of
          None \<Rightarrow> []
        | Some resolver \<Rightarrow>
           (case LoadState flt dataDir s of
              Inl e \<Rightarrow> [check ''policy'' [] GroupPolicies StatusWarn
                         (''cannot load cache state for version comparison: '' @ dxCacheErr x e) False]
            | Inr st \<Rightarrow> versions_loop x st resolver [] (wcPolicies c)))"

section \<open>Variables\<close>

definition resolve_graph ::
    "graph_resolver \<Rightarrow> PolicyRef \<Rightarrow> fs \<Rightarrow> fs \<times> ((load_err + resolve_err) + DependencyGraph)" where
  "resolve_graph r ref s =
    (case ldResolve (snd r) (prRepository ref) (VersionString ref) s of
       (s1, Inl e) \<Rightarrow> (s1, Inl (Inl e))
     | (s1, Inr version) \<Rightarrow>
        (case ResolvePolicyGraph (fst r) (snd r) (prRepository ref) version s1 of
           (s2, Inl e) \<Rightarrow> (s2, Inl (Inr e))
         | (s2, Inr g) \<Rightarrow> (s2, Inr g)))"

definition graph_evaluators :: "DependencyGraph \<Rightarrow> string list" where
  "graph_evaluators g = map fst (GroupByEvaluator (ExtractAssessmentConfigs g) g)"

text \<open>The result for one policy of one target: its evaluators, or a warning.\<close>

definition target_policy_evaluators ::
    "doctor_ext \<Rightarrow> WorkspaceConfig \<Rightarrow> graph_resolver \<Rightarrow> TargetConfig \<Rightarrow> string \<Rightarrow> fs \<Rightarrow> fs \<times> (CheckResult + string list)" where
  "target_policy_evaluators x cfg r target pid s =
    (let warn = (\<lambda>i msg. check (''variables/resolve/'' @ i) i GroupProviders StatusWarn msg False) in
     case FindPolicy (wcPolicies cfg) pid of
       None \<Rightarrow> (s, Inl (warn pid (''policy '' @ go_quote pid @ '' referenced by target '' @ go_quote (tcID target) @ '' not found in config'')))
     | Some entry \<Rightarrow>
        (let eid = EffectiveID entry in
         case ParsePolicyRef (peURL entry) of
           Inl e \<Rightarrow> (s, Inl (warn eid (''invalid policy reference for '' @ go_quote eid @ '': '' @ dxCfgErr x e)))
         | Inr ref \<Rightarrow>
            (case resolve_graph r ref s of
               (s1, Inl (Inl e)) \<Rightarrow> (s1, Inl (warn eid (''cannot resolve version for policy '' @ go_quote eid @ '': '' @ dxLoadErr x e)))
             | (s1, Inl (Inr e)) \<Rightarrow> (s1, Inl (warn eid (''cannot resolve policy graph for '' @ go_quote eid @ '': '' @ dxResolveErr x e)))
             | (s1, Inr g) \<Rightarrow> (s1, Inr (graph_evaluators g)))))"

definition add_target :: "TargetConfig \<Rightarrow> (string, TargetConfig list) gomap \<Rightarrow> string \<Rightarrow> (string, TargetConfig list) gomap" where
  "add_target t m evalID = go_put evalID ((case go_get m evalID of None \<Rightarrow> [] | Some ts \<Rightarrow> ts) @ [t]) m"

fun evaluator_targets_loop ::
    "doctor_ext \<Rightarrow> WorkspaceConfig \<Rightarrow> graph_resolver \<Rightarrow> (TargetConfig \<times> string) list \<Rightarrow> (string, TargetConfig list) gomap \<Rightarrow> nat \<Rightarrow>
      CheckResult list \<Rightarrow> fs \<Rightarrow> fs \<times> (string, TargetConfig list) gomap \<times> nat \<times> CheckResult list" where
  "evaluator_targets_loop x cfg r [] m failures results s = (s, m, failures, results)"
| "evaluator_targets_loop x cfg r ((target, pid) # rest) m failures results s =
    (case target_policy_evaluators x cfg r target pid s of
       (s1, Inl w) \<Rightarrow> evaluator_targets_loop x cfg r rest m (failures + 1) (results @ [w]) s1
     | (s1, Inr evs) \<Rightarrow> evaluator_targets_loop x cfg r rest (foldl (add_target target) m evs) failures results s1)"

definition resolveEvaluatorTargets ::
    "doctor_ext \<Rightarrow> WorkspaceConfig \<Rightarrow> graph_resolver option \<Rightarrow> fs \<Rightarrow> fs \<times> (string, TargetConfig list) gomap \<times> nat \<times> CheckResult list" where
  "resolveEvaluatorTargets x cfg resolver s =
    (case resolver of
       None \<Rightarrow> (s, [], 0, [])
     | Some r \<Rightarrow> evaluator_targets_loop x cfg r (concat (map (\<lambda>t. map (Pair t) (tcPolicies t)) (wcTargets cfg))) [] 0 [] s)"

definition countResolved :: "string list \<Rightarrow> (string, string) gomap \<Rightarrow> nat \<times> nat" where
  "countResolved required vars = (length (filter (go_has vars) required), length required)"

definition groupSatisfied :: "string \<Rightarrow> (string, string) gomap \<Rightarrow> bool" where
  "groupSatisfied grp vars = list_ex (go_has vars) (Split CHR ''|'' grp)"

definition joinNames :: "string list \<Rightarrow> string" where
  "joinNames names = Join '', '' names"

definition unmappedReason :: "bool \<Rightarrow> nat \<Rightarrow> string" where
  "unmappedReason hasResolver resolveFailures =
    (if \<not> hasResolver then ''no policy resolver available''
     else if resolveFailures > 0
     then ''policy graph unresolved ('' @ show_nat resolveFailures @ '' error(s))'' @ dash @ ''run complyctl get''
     else ''evaluator not referenced by any cached policy'')"

record variableValidation =
  vvName :: string
  vvGlobalResolved :: nat
  vvGlobalTotal :: nat
  vvTargetResolved :: nat
  vvTargetTotal :: nat
  vvAllGlobalPresent :: bool
  vvAllTargetPresent :: bool
  vvUnmappedTargetVars :: bool
  vvMissingGlobals :: "string list"
  vvMissingTargetVars :: "string list"
  vvHasResolver :: bool
  vvResolveFailures :: nat

definition buildVariableSummary :: "variableValidation \<Rightarrow> CheckResult" where
  "buildVariableSummary v =
    (let res = (\<lambda>st msg. check (vvName v) ''variables'' GroupVariables st msg True);
         gl = show_nat (vvGlobalResolved v) @ ''/'' @ show_nat (vvGlobalTotal v) @ '' global vars'';
         tg = show_nat (vvTargetResolved v) @ ''/'' @ show_nat (vvTargetTotal v) @ '' target vars'' in
     if vvAllGlobalPresent v \<and> vvAllTargetPresent v then
       res StatusPass (if vvUnmappedTargetVars v then gl @ '', no target mapping for this evaluator'' else gl @ '', '' @ tg)
     else
       (let globalPart = (if vvAllGlobalPresent v then gl else gl @ dash @ ''missing '' @ joinNames (vvMissingGlobals v));
            targetPart =
              (if vvUnmappedTargetVars v
               then ''target vars not validated'' @ dash @ unmappedReason (vvHasResolver v) (vvResolveFailures v)
               else if vvAllTargetPresent v then tg
               else tg @ dash @ ''missing '' @ joinNames (vvMissingTargetVars v)) in
        res StatusFail (globalPart @ '', '' @ targetPart)))"

definition detail :: "string \<Rightarrow> CheckStatus \<Rightarrow> string \<Rightarrow> CheckResult" where
  "detail name st msg = check name [] GroupVariables st msg False"

definition buildVariableDetails ::
    "ProviderHealth \<Rightarrow> TargetConfig list \<Rightarrow> (string, string) gomap \<Rightarrow> bool \<Rightarrow> CheckResult list" where
  "buildVariableDetails ph targets globals unmapped =
    (let name = ''variables/'' @ phEvaluatorID ph @ ''/detail'' in
     map (\<lambda>v. detail name (if go_has globals v then StatusPass else StatusFail) (''global: '' @ v)) (phRequiredGlobalVariables ph) @
     (if unmapped then
        map (\<lambda>v. detail name StatusWarn (''target: '' @ v @ '' (not validated)'')) (phRequiredTargetVariables ph) @
        map (\<lambda>g. detail name StatusWarn (''target: one of ('' @ g @ '') (not validated)'')) (phOptionalTargetVariableGroups ph)
      else concat (map (\<lambda>t.
        map (\<lambda>v. detail name (if go_has (tcVariables t) v then StatusPass else StatusFail) (''target['' @ tcID t @ '']: '' @ v))
          (phRequiredTargetVariables ph) @
        map (\<lambda>g. detail name (if groupSatisfied g (tcVariables t) then StatusPass else StatusFail)
                  (''target['' @ tcID t @ '']: one of ('' @ g @ '')''))
          (phOptionalTargetVariableGroups ph)) targets)))"

text \<open>Each target variable or group a provider asks for, whether it is there, and its description when missing.\<close>

definition target_requirements :: "ProviderHealth \<Rightarrow> TargetConfig \<Rightarrow> (bool \<times> string) list" where
  "target_requirements ph t =
    map (\<lambda>v. (go_has (tcVariables t) v, v @ '' for target '' @ go_quote (tcID t))) (phRequiredTargetVariables ph) @
    map (\<lambda>g. (groupSatisfied g (tcVariables t), ''one of ('' @ g @ '') for target '' @ go_quote (tcID t)))
      (phOptionalTargetVariableGroups ph)"

definition validateProviderVariables ::
    "ProviderHealth \<Rightarrow> TargetConfig list \<Rightarrow> (string, string) gomap \<Rightarrow> bool \<Rightarrow> nat \<Rightarrow> bool \<Rightarrow> CheckResult" where
  "validateProviderVariables ph targets globals hasResolver resolveFailures verbose =
    (let (globalResolved, globalTotal) = countResolved (phRequiredGlobalVariables ph) globals;
         missingGlobals = filter (\<lambda>v. \<not> go_has globals v) (phRequiredGlobalVariables ph);
         hasTargetVarReqs = (phRequiredTargetVariables ph \<noteq> [] \<or> phOptionalTargetVariableGroups ph \<noteq> []);
         unmapped = (hasTargetVarReqs \<and> targets = []);
         reqs = concat (map (target_requirements ph) targets);
         targetTotal = length reqs; targetResolved = length (filter fst reqs);
         missingTargetVars = map snd (filter (\<lambda>r. \<not> fst r) reqs);
         allTargetPresent = (if unmapped \<and> (\<not> hasResolver \<or> resolveFailures > 0) then False else targetResolved = targetTotal);
         summary = buildVariableSummary
           \<lparr>vvName = ''variables/'' @ phEvaluatorID ph, vvGlobalResolved = globalResolved, vvGlobalTotal = globalTotal,
            vvTargetResolved = targetResolved, vvTargetTotal = targetTotal, vvAllGlobalPresent = (globalResolved = globalTotal),
            vvAllTargetPresent = allTargetPresent, vvUnmappedTargetVars = unmapped, vvMissingGlobals = missingGlobals,
            vvMissingTargetVars = missingTargetVars, vvHasResolver = hasResolver, vvResolveFailures = resolveFailures\<rparr> in
     if verbose then set_children (buildVariableDetails ph targets globals unmapped) summary else summary)"

definition effectiveGlobals :: "(string, string) gomap \<Rightarrow> (string, string) gomap" where
  "effectiveGlobals configVars = go_put WorkspaceVarKey ''(auto-injected)'' (foldl (\<lambda>m (k, v). go_put k v m) [] configVars)"

definition CheckVariables ::
    "doctor_ext \<Rightarrow> WorkspaceConfig option \<Rightarrow> ProviderHealth list \<Rightarrow> graph_resolver option \<Rightarrow> bool \<Rightarrow> fs \<Rightarrow> fs \<times> CheckResult list" where
  "CheckVariables x cfg healthData resolver verbose s =
    (if healthData = [] then (s, [])
     else case cfg of
       None \<Rightarrow> (s, [check ''variables'' [] GroupProviders StatusFail (''cannot validate variables'' @ dash @ ''config not loaded'') True])
     | Some c \<Rightarrow>
        (let (s1, evaluatorTargets, resolveFailures, resolveResults) = resolveEvaluatorTargets x c resolver s;
             globals = effectiveGlobals (wcVariables c) in
         (s1, resolveResults @ concat (map (\<lambda>ph.
            let targets = (case go_get evaluatorTargets (phEvaluatorID ph) of None \<Rightarrow> [] | Some ts \<Rightarrow> ts) in
            if phRequiredGlobalVariables ph = [] \<and> phRequiredTargetVariables ph = [] \<and> phOptionalTargetVariableGroups ph = [] \<and> targets = []
            then [] else [validateProviderVariables ph targets globals (resolver \<noteq> None) resolveFailures verbose]) healthData))))"

section \<open>Active period\<close>

text \<open>
  \<^verbatim>\<open>time.Parse\<close> for the three layouts: four-digit year, two-digit month, day, minute and second,
  an hour of one or two digits, an optional fraction after the seconds, and for RFC 3339 a zone.
\<close>

definition take_digits :: "nat \<Rightarrow> string \<Rightarrow> (nat \<times> string) option" where
  "take_digits n s = (if length (take n s) = n \<and> list_all is_digit (take n s)
     then map_option (\<lambda>v. (v, drop n s)) (read_digits 0 (take n s)) else None)"

definition take_hour :: "string \<Rightarrow> (nat \<times> string) option" where
  "take_hour s = (case take_digits 2 s of Some r \<Rightarrow> Some r | None \<Rightarrow> take_digits 1 s)"

definition take_char :: "char \<Rightarrow> string \<Rightarrow> string option" where
  "take_char c s = (case s of [] \<Rightarrow> None | d # r \<Rightarrow> if d = c then Some r else None)"

definition leap :: "nat \<Rightarrow> bool" where
  "leap y \<longleftrightarrow> y mod 4 = 0 \<and> (y mod 100 \<noteq> 0 \<or> y mod 400 = 0)"

definition days_in :: "nat \<Rightarrow> nat \<Rightarrow> nat" where
  "days_in y m = (if m = 2 then (if leap y then 29 else 28) else if m \<in> {4, 6, 9, 11} then 30 else 31)"

text \<open>Days since 1970-01-01.\<close>

definition days_since_epoch :: "nat \<Rightarrow> nat \<Rightarrow> nat \<Rightarrow> int" where
  "days_since_epoch y m d =
    (let leaps = (\<lambda>n::int. n div 4 - n div 100 + n div 400) in
     365 * (int y - 1970) + (leaps (int y - 1) - leaps 1969) +
     int (sum_list (map (days_in y) [1..<m])) + int d - 1)"

definition parse_date :: "string \<Rightarrow> (int \<times> string) option" where
  "parse_date s = do {
     (y, s1) \<leftarrow> take_digits 4 s; s2 \<leftarrow> take_char CHR ''-'' s1;
     (m, s3) \<leftarrow> take_digits 2 s2; s4 \<leftarrow> take_char CHR ''-'' s3;
     (d, s5) \<leftarrow> take_digits 2 s4;
     if 1 \<le> m \<and> m \<le> 12 \<and> 1 \<le> d \<and> d \<le> days_in y m then Some (days_since_epoch y m d, s5) else None }"

text \<open>A fraction of a second in nanoseconds; digits after the ninth are ignored.\<close>

definition parse_fraction :: "string \<Rightarrow> int \<times> string" where
  "parse_fraction s = (case s of
     c # r \<Rightarrow>
       (let ds = takeWhile is_digit r in
        if (c = CHR ''.'' \<or> c = CHR '','') \<and> ds \<noteq> [] then
          (case read_digits 0 (take 9 (ds @ replicate 9 CHR ''0'')) of Some v \<Rightarrow> (int v, dropWhile is_digit r) | None \<Rightarrow> (0, s))
        else (0, s))
   | [] \<Rightarrow> (0, s))"

definition parse_clock :: "string \<Rightarrow> (int \<times> string) option" where
  "parse_clock s = do {
     (h, s1) \<leftarrow> take_hour s; s2 \<leftarrow> take_char CHR '':'' s1;
     (mi, s3) \<leftarrow> take_digits 2 s2; s4 \<leftarrow> take_char CHR '':'' s3;
     (se, s5) \<leftarrow> take_digits 2 s4;
     if h < 24 \<and> mi < 60 \<and> se < 60
     then (let (ns, s6) = parse_fraction s5 in Some (int (h * 3600 + mi * 60 + se) * 1000000000 + ns, s6)) else None }"

definition parse_zone :: "string \<Rightarrow> (int \<times> string) option" where
  "parse_zone s = (case s of
     [] \<Rightarrow> None
   | c # r \<Rightarrow>
      if c = CHR ''Z'' then Some (0, r)
      else if c = CHR ''+'' \<or> c = CHR ''-'' then do {
        (h, r1) \<leftarrow> take_digits 2 r; r2 \<leftarrow> take_char CHR '':'' r1; (m, r3) \<leftarrow> take_digits 2 r2;
        if h \<le> 24 \<and> m \<le> 60 then Some ((if c = CHR ''+'' then 1 else -1) * int (h * 3600 + m * 60) * 1000000000, r3) else None }
      else None)"

definition nanos_per_day :: int where "nanos_per_day = 86400 * 1000000000"

definition parse_rfc3339 :: "string \<Rightarrow> gotime option" where
  "parse_rfc3339 s = do {
     (d, s1) \<leftarrow> parse_date s; s2 \<leftarrow> take_char CHR ''T'' s1; (c, s3) \<leftarrow> parse_clock s2; (z, s4) \<leftarrow> parse_zone s3;
     if s4 = [] then Some (d * nanos_per_day + c - z) else None }"

definition parse_local :: "string \<Rightarrow> gotime option" where
  "parse_local s = do {
     (d, s1) \<leftarrow> parse_date s; s2 \<leftarrow> take_char CHR ''T'' s1; (c, s3) \<leftarrow> parse_clock s2;
     if s3 = [] then Some (d * nanos_per_day + c) else None }"

definition parse_day :: "string \<Rightarrow> gotime option" where
  "parse_day s = do { (d, s1) \<leftarrow> parse_date s; if s1 = [] then Some (d * nanos_per_day) else None }"

definition parseDatetime :: "string \<Rightarrow> gotime option" where
  "parseDatetime s = (case parse_rfc3339 s of Some t \<Rightarrow> Some t
     | None \<Rightarrow> (case parse_local s of Some t \<Rightarrow> Some t | None \<Rightarrow> parse_day s))"

definition evaluateTimeline :: "string \<Rightarrow> string \<Rightarrow> string \<Rightarrow> gotime \<Rightarrow> CheckStatus \<times> string" where
  "evaluateTimeline startStr endStr label now =
    (if startStr = [] then (StatusPass, ''no '' @ label @ '' timeline defined'')
     else case parseDatetime startStr of
       None \<Rightarrow> (StatusWarn, label @ '' start date unparseable: '' @ startStr)
     | Some start \<Rightarrow>
        if now < start then (StatusWarn, label @ '' begins '' @ startStr)
        else if endStr = [] then (StatusPass, label @ '' active since '' @ startStr @ '' (open-ended)'')
        else case parseDatetime endStr of
          None \<Rightarrow> (StatusWarn, label @ '' end date unparseable: '' @ endStr)
        | Some end' \<Rightarrow>
           if now > end' then (StatusWarn, label @ '' ended '' @ endStr)
           else (StatusPass, label @ '' active ('' @ startStr @ '' to '' @ endStr @ '')''))"

definition active_check :: "doctor_ext \<Rightarrow> string \<Rightarrow> PolicyTimeline option \<Rightarrow> bool \<Rightarrow> CheckResult" where
  "active_check x eid timeline verbose =
    (let name = ''policy/'' @ eid @ ''/active-period'' in
     case timeline of
       None \<Rightarrow> check name ''active-period'' GroupPolicies StatusPass ''no evaluation timeline defined'' False
     | Some tml \<Rightarrow>
        (let (evalStatus, evalMsg) = evaluateTimeline (ptEvaluationStart tml) (ptEvaluationEnd tml) ''evaluation'' (dxNow x);
             active = check name ''active-period'' GroupPolicies evalStatus evalMsg False;
             (enfStatus, enfMsg) = evaluateTimeline (ptEnforcementStart tml) (ptEnforcementEnd tml) ''enforcement'' (dxNow x);
             line = (\<lambda>st msg. check (name @ ''/detail'') [] GroupPolicies st msg False) in
         if verbose then set_children
           ((if ptEvaluationNotes tml \<noteq> [] then [line StatusPass (''evaluation notes: '' @ ptEvaluationNotes tml)] else []) @
            [line enfStatus enfMsg] @
            (if ptEnforcementNotes tml \<noteq> [] then [line StatusPass (''enforcement notes: '' @ ptEnforcementNotes tml)] else [])) active
         else active))"

fun active_loop :: "doctor_ext \<Rightarrow> graph_resolver \<Rightarrow> bool \<Rightarrow> PolicyEntry list \<Rightarrow> fs \<Rightarrow> fs \<times> CheckResult list" where
  "active_loop x r verbose [] s = (s, [])"
| "active_loop x r verbose (p # ps) s =
    (case ParsePolicyRef (peURL p) of
       Inl e \<Rightarrow>
         (let (s1, rs) = active_loop x r verbose ps s in
          (s1, check (''policy/'' @ EffectiveID p @ ''/active-period'') ''active-period'' GroupPolicies StatusFail
                 (''invalid policy reference: '' @ dxCfgErr x e) True # rs))
     | Inr ref \<Rightarrow>
        (case resolve_graph r ref s of
           (s1, Inl _) \<Rightarrow> active_loop x r verbose ps s1
         | (s1, Inr g) \<Rightarrow>
            (let (s2, rs) = active_loop x r verbose ps s1 in
             (s2, active_check x (EffectiveID p) (dgTimeline g) verbose # rs))))"

definition CheckPolicyActivePeriod ::
    "doctor_ext \<Rightarrow> WorkspaceConfig option \<Rightarrow> graph_resolver option \<Rightarrow> bool \<Rightarrow> fs \<Rightarrow> fs \<times> CheckResult list" where
  "CheckPolicyActivePeriod x cfg resolver verbose s =
    (case (cfg, resolver) of
       (Some c, Some r) \<Rightarrow> if wcPolicies c = [] then (s, []) else active_loop x r verbose (wcPolicies c) s
     | _ \<Rightarrow> (s, []))"

section \<open>Complypacks\<close>

record orphanedVersion =
  ovEvaluatorID :: string
  ovVersion :: string
  ovPath :: path
  ovUntracked :: bool

text \<open>The walk adds up the files below the directory; a directory it cannot read is an error.\<close>

definition walkCacheSize :: "doctor_ext \<Rightarrow> faults \<Rightarrow> path \<Rightarrow> fs \<Rightarrow> nat option" where
  "walkCacheSize x flt cacheDir s =
    (let root = fp_join cacheDir [ComplypacksSubdir] in
     case go_get s root of
       None \<Rightarrow> Some 0
     | Some _ \<Rightarrow>
        if list_ex (\<lambda>(q, n). under root q \<and> n = Dir \<and> flt (OpReadDir q)) s then None
        else Some (sum_list (map (\<lambda>(q, n). case n of Dir \<Rightarrow> 0 | File d \<Rightarrow> if under root q then dxSize x d else 0) s)))"

definition dir_names :: "faults \<Rightarrow> path \<Rightarrow> fs \<Rightarrow> string list" where
  "dir_names flt p s = (case fs_ReadDir flt p s of Entries es \<Rightarrow> map fst (filter (\<lambda>(n, k). k = Dir) es) | _ \<Rightarrow> [])"

definition tracked_versions :: "State \<Rightarrow> (string \<times> string) list" where
  "tracked_versions st = map (\<lambda>ps. (psEvaluatorID ps, psVersion ps))
     (filter (\<lambda>ps. psEvaluatorID ps \<noteq> [] \<and> psVersion ps \<noteq> []) (map snd (stComplypacks st)))"

definition findOrphanedVersions :: "faults \<Rightarrow> path \<Rightarrow> State option \<Rightarrow> fs \<Rightarrow> orphanedVersion list" where
  "findOrphanedVersions flt cacheDir st s =
    (let complypacksDir = fp_join cacheDir [ComplypacksSubdir];
         noState = (case st of None \<Rightarrow> True | Some t \<Rightarrow> stComplypacks t = []);
         tracked = (case st of None \<Rightarrow> [] | Some t \<Rightarrow> tracked_versions t) in
     concat (map (\<lambda>evaluatorID.
       map (\<lambda>version. \<lparr>ovEvaluatorID = evaluatorID, ovVersion = version,
              ovPath = fp_join complypacksDir [evaluatorID, version], ovUntracked = noState\<rparr>)
         (filter (\<lambda>version. noState \<or> (evaluatorID, version) \<notin> set tracked)
            (dir_names flt (fp_join complypacksDir [evaluatorID]) s))) (dir_names flt complypacksDir s)))"

text \<open>\<^verbatim>\<open>%.1f\<close> of a quotient by a power of two, rounded half to even.\<close>

definition one_decimal :: "nat \<Rightarrow> nat \<Rightarrow> string" where
  "one_decimal b u =
    (let q = b * 10 div u; r = b * 10 mod u;
         t = (if 2 * r > u \<or> (2 * r = u \<and> odd q) then q + 1 else q) in
     show_nat (t div 10) @ ''.'' @ show_nat (t mod 10))"

definition formatBytes :: "nat \<Rightarrow> string" where
  "formatBytes b =
    (if b \<ge> 1073741824 then one_decimal b 1073741824 @ '' GB''
     else if b \<ge> 1048576 then one_decimal b 1048576 @ '' MB''
     else if b \<ge> 1024 then one_decimal b 1024 @ '' KB''
     else show_nat b @ '' B'')"

definition complypack_check :: "string \<Rightarrow> CheckStatus \<Rightarrow> string \<Rightarrow> bool \<Rightarrow> CheckResult" where
  "complypack_check i st msg blocking = check (''complypacks/'' @ i) i GroupComplypacks st msg blocking"

text \<open>The evaluators of the policies that resolve, each once, with a result for each bad reference.\<close>

fun policy_evaluators_loop ::
    "doctor_ext \<Rightarrow> graph_resolver \<Rightarrow> PolicyEntry list \<Rightarrow> string list \<Rightarrow> fs \<Rightarrow> fs \<times> CheckResult list \<times> string list" where
  "policy_evaluators_loop x r [] evs s = (s, [], evs)"
| "policy_evaluators_loop x r (p # ps) evs s =
    (case ParsePolicyRef (peURL p) of
       Inl e \<Rightarrow>
         (let (s1, rs, evs') = policy_evaluators_loop x r ps evs s in
          (s1, complypack_check (EffectiveID p) StatusFail (''invalid policy reference: '' @ dxCfgErr x e) True # rs, evs'))
     | Inr ref \<Rightarrow>
        (case resolve_graph r ref s of
           (s1, Inl _) \<Rightarrow> policy_evaluators_loop x r ps evs s1
         | (s1, Inr g) \<Rightarrow>
            policy_evaluators_loop x r ps (foldl (\<lambda>es e. if e \<in> set es then es else es @ [e]) evs (graph_evaluators g)) s1))"

definition cached_check :: "doctor_ext \<Rightarrow> faults \<Rightarrow> ComplypackCache \<Rightarrow> fs \<Rightarrow> string \<Rightarrow> CheckResult" where
  "cached_check x flt cc s evalID =
    (case LookupByEvaluatorID flt cc evalID s of
       Inl e \<Rightarrow> complypack_check evalID StatusWarn
                  (''error checking complypack cache for '' @ evalID @ '': '' @ dxCacheErr x e) False
     | Inr None \<Rightarrow> complypack_check evalID StatusWarn (''not cached'' @ dash @ ''run complyctl get to download'') False
     | Inr (Some _) \<Rightarrow> complypack_check evalID StatusPass ''cached'' False)"

definition orphan_check :: "orphanedVersion \<Rightarrow> CheckResult" where
  "orphan_check v =
    (let i = ovEvaluatorID v @ ''/'' @ ovVersion v in
     complypack_check i StatusWarn
       (if ovUntracked v then ''complypack not tracked in state'' @ dash @ ''run complyctl get to rebuild state''
        else ''orphaned complypack version '' @ ovVersion v @ '' for evaluator '' @ ovEvaluatorID v @ dash @
             ''not referenced in state.json'') False)"

definition CheckComplypacks ::
    "doctor_ext \<Rightarrow> faults \<Rightarrow> WorkspaceConfig option \<Rightarrow> path \<Rightarrow> path \<Rightarrow> graph_resolver option \<Rightarrow> fs \<Rightarrow> fs \<times> CheckResult list" where
  "CheckComplypacks x flt cfg cacheDir dataDir resolver s =
    (case (cfg, resolver) of
       (Some c, Some r) \<Rightarrow>
         if wcComplypacks c = [] then (s, [])
         else
           (let state = LoadState flt dataDir s;
                stateResults = (case state of Inl e \<Rightarrow> [check ''complypacks/state'' ''state'' GroupComplypacks StatusWarn
                    (''cannot load state: '' @ dxCacheErr x e) False] | Inr _ \<Rightarrow> []);
                cacheState = (case state of Inl _ \<Rightarrow> None | Inr st \<Rightarrow> Some st);
                cc = NewComplypackCache (dxRetention x) cacheDir cacheState;
                (s1, refResults, evaluatorIDs) = policy_evaluators_loop x r (wcPolicies c) [] s;
                sizeResult = (case walkCacheSize x flt cacheDir s1 of
                    None \<Rightarrow> check ''complypacks/cache-size'' ''cache-size'' GroupComplypacks StatusWarn ''unable to calculate cache size'' False
                  | Some b \<Rightarrow> check ''complypacks/cache-size'' ''cache-size'' GroupComplypacks StatusPass (formatBytes b) False) in
            (s1, stateResults @ refResults @ map (cached_check x flt cc s1) evaluatorIDs @ [sizeResult] @
                 map orphan_check (findOrphanedVersions flt cacheDir cacheState s1)))
     | _ \<Rightarrow> (s, []))"

section \<open>The tree of results\<close>

definition extractID :: "string \<Rightarrow> string" where
  "extractID name = (case Split CHR ''/'' name of _ # p # _ \<Rightarrow> p | _ \<Rightarrow> name)"

definition id_index :: "CheckResult list \<Rightarrow> (string, nat) gomap" where
  "id_index parents = foldl (\<lambda>m (i, p). go_put (extractID (crName p)) i m) [] (enumerate 0 parents)"

fun attach_loop :: "(string, nat) gomap \<Rightarrow> CheckResult list \<Rightarrow> CheckResult list \<Rightarrow> CheckResult list \<times> CheckResult list" where
  "attach_loop idx parents [] = (parents, [])"
| "attach_loop idx parents (v # vs) =
    (case go_get idx (extractID (crName v)) of
       Some i \<Rightarrow> attach_loop idx (parents[i := set_children (crChildren (parents ! i) @ [v]) (parents ! i)]) vs
     | None \<Rightarrow> (let (ps, unmatched) = attach_loop idx parents vs in (ps, v # unmatched)))"

definition attachByEvaluatorID :: "CheckResult list \<Rightarrow> CheckResult list \<Rightarrow> CheckResult list \<times> CheckResult list" where
  "attachByEvaluatorID providers vars = attach_loop (id_index providers) providers vars"

definition attachByPolicyID :: "CheckResult list \<Rightarrow> CheckResult list \<Rightarrow> CheckResult list \<times> CheckResult list" where
  "attachByPolicyID policies active = attach_loop (id_index policies) policies active"

record RunOptions =
  roConfig :: "WorkspaceConfig option"
  roConfigPath :: string
  roProviderDir :: string
  roCacheDir :: path
  roDataDir :: path
  roResolver :: "graph_resolver option"
  roVersionResolver :: "VersionResolver option"
  roVerbose :: bool

definition Run :: "doctor_ext \<Rightarrow> faults \<Rightarrow> osenv \<Rightarrow> RunOptions \<Rightarrow> fs \<Rightarrow> fs \<times> CheckResult list" where
  "Run x flt os opts s =
    (let policiesCacheDir = fp_join (roCacheDir opts) [PoliciesSubdir];
         (providerResults, healthData) = CheckProviders x os (roProviderDir opts);
         (s1, varResults) = CheckVariables x (roConfig opts) healthData (roResolver opts) (roVerbose opts) s;
         policyResults = CheckPolicyVersions x flt (roConfig opts) (roDataDir opts) (roVersionResolver opts) s1;
         (s2, activeResults) = CheckPolicyActivePeriod x (roConfig opts) (roResolver opts) (roVerbose opts) s1;
         (providerResults', unmatchedVars) = attachByEvaluatorID providerResults varResults;
         (policyResults', unmatchedActive) = attachByPolicyID policyResults activeResults;
         cacheResult = CheckCache flt (Some policiesCacheDir) s2;
         (s3, packResults) = CheckComplypacks x flt (roConfig opts) (roCacheDir opts) (roDataDir opts) (roResolver opts) s2 in
     (s3, providerResults' @ map (set_group GroupProviders) unmatchedVars @ policyResults' @ unmatchedActive @ [cacheResult] @
          packResults @ [CheckConfig x os (roConfigPath opts), CheckVerification x flt (roDataDir opts) s3,
            CheckDirectoryLayout flt (roCacheDir opts) (roDataDir opts) s3]))"

end
