(* ===== verification/Doctor_Report.thy ===== *)
theory Doctor_Report
  imports Doctor Get
begin

text \<open>
  The doctor command (\<^verbatim>\<open>cmd/complyctl/cli/doctor.go\<close>): the version queries it passes to the checks,
  the summary, the renderers and the error that decides the exit code. JSON encoding is a
  parameter.
\<close>

section \<open>Summary\<close>

record resultSummary =
  smPass :: nat
  smFail :: nat
  smWarn :: nat
  smTotal :: nat
  smBlocking :: bool

definition countStatusSummary :: "CheckStatus \<Rightarrow> resultSummary \<Rightarrow> resultSummary" where
  "countStatusSummary status s = (case status of
     StatusPass \<Rightarrow> s\<lparr>smPass := smPass s + 1\<rparr> | StatusFail \<Rightarrow> s\<lparr>smFail := smFail s + 1\<rparr> | StatusWarn \<Rightarrow> s\<lparr>smWarn := smWarn s + 1\<rparr>)"

definition count_result :: "resultSummary \<Rightarrow> CheckResult \<Rightarrow> resultSummary" where
  "count_result s r =
    (let s1 = countStatusSummary (crStatus r) s in
     if crBlocking r \<and> crStatus r = StatusFail then s1\<lparr>smBlocking := True\<rparr> else s1)"

definition summarizeResults :: "CheckResult list \<Rightarrow> resultSummary" where
  "summarizeResults results =
    (let s = foldl (\<lambda>s r. foldl count_result (count_result s r) (crChildren r))
           \<lparr>smPass = 0, smFail = 0, smWarn = 0, smTotal = 0, smBlocking = False\<rparr> results in
     s\<lparr>smTotal := smPass s + smFail s + smWarn s\<rparr>)"

section \<open>Rendering\<close>

definition statusLabel :: "CheckStatus \<Rightarrow> string" where
  "statusLabel s = (case s of StatusPass \<Rightarrow> ''[PASS]'' | StatusFail \<Rightarrow> ''[FAIL]'' | StatusWarn \<Rightarrow> ''[WARN]'')"

definition doctor_statusEmoji :: "CheckStatus \<Rightarrow> string" where
  "doctor_statusEmoji s = (case s of StatusPass \<Rightarrow> StatusPassed | StatusFail \<Rightarrow> StatusFailed | StatusWarn \<Rightarrow> StatusError)"

definition humanStatusPrefix :: "CheckStatus \<Rightarrow> string" where
  "humanStatusPrefix s = doctor_statusEmoji s @ '' '' @ statusLabel s"

definition textStatusPrefix :: "CheckStatus \<Rightarrow> string" where
  "textStatusPrefix s = statusLabel s"

datatype doctor_err = DBadFormat string | DUnsupported string | DBlocking | DEncode | DConfig cfg_err

definition resolveFormat :: "osenv \<Rightarrow> string \<Rightarrow> doctor_err + string" where
  "resolveFormat os flagValue =
    (if flagValue \<noteq> [] then
       (if flagValue = ''text'' \<or> flagValue = ''json'' then Inr flagValue
        else if flagValue = ''human'' then Inr [] else Inl (DBadFormat flagValue))
     else if os_Getenv os ''NO_COLOR'' \<noteq> [] then Inr ''text'' else Inr [])"

definition resultLabel :: "CheckResult \<Rightarrow> string" where
  "resultLabel r = (if crLabel r \<noteq> [] then crLabel r else crName r)"

definition group_name :: "CheckGroup \<Rightarrow> string" where
  "group_name g = (case g of GroupProviders \<Rightarrow> ''Providers'' | GroupVariables \<Rightarrow> ''Variables'' | GroupPolicies \<Rightarrow> ''Policies''
     | GroupCache \<Rightarrow> ''Cache'' | GroupComplypacks \<Rightarrow> ''Complypacks'' | GroupWorkspace \<Rightarrow> ''Workspace'' | GroupVerify \<Rightarrow> ''Verification'')"

text \<open>One check with its children and grandchildren, as lines.\<close>

definition check_lines :: "(CheckStatus \<Rightarrow> string) \<Rightarrow> CheckResult \<Rightarrow> string list" where
  "check_lines fmt r =
    (''  '' @ fmt (crStatus r) @ '' '' @ resultLabel r @ '': '' @ crMessage r) #
    concat (map (\<lambda>child.
      (''      '' @ fmt (crStatus child) @ '' '' @ resultLabel child @ '': '' @ crMessage child) #
      map (\<lambda>gc. ''          '' @ fmt (crStatus gc) @ '' '' @ crMessage gc) (crChildren child)) (crChildren r))"

definition sections :: "CheckResult list \<Rightarrow> (CheckGroup \<times> CheckResult list) list" where
  "sections results = filter (\<lambda>(g, rs). rs \<noteq> []) (map (\<lambda>g. (g, filter (\<lambda>r. crGroup r = g) results)) GroupOrder)"

definition summary_line :: "resultSummary \<Rightarrow> string" where
  "summary_line s = show_nat (smTotal s) @ '' checks: '' @ show_nat (smPass s) @ '' passed, '' @ show_nat (smFail s) @
     '' failed, '' @ show_nat (smWarn s) @ '' warnings''"

definition render_lines :: "CheckResult list \<Rightarrow> (CheckStatus \<Rightarrow> string) \<Rightarrow> string list" where
  "render_lines results fmt =
    [''Running workspace diagnostics...'', []] @
    concat (map (\<lambda>(i, g, rs). (if i = 0 then [] else [[]]) @ group_name g # concat (map (check_lines fmt) rs))
              (enumerate 0 (sections results))) @
    [[], summary_line (summarizeResults results)]"

definition renderDiagnostics :: "CheckResult list \<Rightarrow> (CheckStatus \<Rightarrow> string) \<Rightarrow> string \<times> doctor_err option" where
  "renderDiagnostics results fmt =
    (concat (map (\<lambda>l. l @ [nl]) (render_lines results fmt)),
     if smBlocking (summarizeResults results) then Some DBlocking else None)"

datatype checkOutput = CheckOutput (coName: string) (coLabel: string) (coStatus: CheckStatus) (coMessage: string)
  (coBlocking: bool) (coGroup: CheckGroup) (coChildren: "checkOutput list")

fun convertResult :: "CheckResult \<Rightarrow> checkOutput" where
  "convertResult (CheckResult n l g st m b cs) = CheckOutput n l st m b g (map convertResult cs)"

record diagnosticOutput =
  doChecks :: "checkOutput list"
  doSummary :: resultSummary
  doBlockingFailure :: bool

definition printDiagnosticsJSON :: "(diagnosticOutput \<Rightarrow> string option) \<Rightarrow> CheckResult list \<Rightarrow> string \<times> doctor_err option" where
  "printDiagnosticsJSON encode results =
    (let s = summarizeResults results in
     case encode \<lparr>doChecks = map convertResult results, doSummary = s, doBlockingFailure = smBlocking s\<rparr> of
       None \<Rightarrow> ([], Some DEncode)
     | Some out \<Rightarrow> (out, if smBlocking s then Some DBlocking else None))"

definition printDiagnosticsTo ::
    "(diagnosticOutput \<Rightarrow> string option) \<Rightarrow> CheckResult list \<Rightarrow> string \<Rightarrow> string \<times> doctor_err option" where
  "printDiagnosticsTo encode results format =
    (if format = [] then renderDiagnostics results humanStatusPrefix
     else if format = ''text'' then renderDiagnostics results textStatusPrefix
     else if format = ''json'' then printDiagnosticsJSON encode results
     else ([], Some (DUnsupported format)))"

section \<open>The command\<close>

definition registry_resolve :: "remote \<Rightarrow> string \<Rightarrow> string \<Rightarrow> string \<Rightarrow> reg_err + string" where
  "registry_resolve rm registryURL repository version =
    (let lookup = (if version \<noteq> [] then repository @ '':'' @ version else repository) in
     case DefinitionVersion rm (NewClient registryURL) lookup of
       Inl e \<Rightarrow> Inl e
     | Inr (_, resolved) \<Rightarrow> Inr resolved)"

definition registryVersionResolver :: "remote \<Rightarrow> VersionResolver" where
  "registryVersionResolver rm =
    \<lparr>vrResolveLatest = (\<lambda>u r. registry_resolve rm u r []), vrResolveVersion = registry_resolve rm\<rparr>"

definition runDoctor ::
    "doctor_ext \<Rightarrow> gemara_yaml \<Rightarrow> (OciStore \<Rightarrow> string \<Rightarrow> Bundle option) \<Rightarrow> remote \<Rightarrow> (diagnosticOutput \<Rightarrow> string option) \<Rightarrow>
      faults \<Rightarrow> osenv \<Rightarrow> string \<Rightarrow> bool \<Rightarrow> string \<Rightarrow> fs \<Rightarrow> fs \<times> string \<times> doctor_err option" where
  "runDoctor x yaml unpack rm encode flt os baseDir verbose format s =
    (case ResolveProviderDir os of
       Inl e \<Rightarrow> (s, [], Some (DConfig e))
     | Inr providerDir \<Rightarrow> (case ResolveCacheDir os of
         Inl e \<Rightarrow> (s, [], Some (DConfig e))
       | Inr cacheDir \<Rightarrow> (case ResolveDataDir os of
           Inl e \<Rightarrow> (s, [], Some (DConfig e))
         | Inr dataDir \<Rightarrow>
            (let ws = NewWorkspace os baseDir;
                 cfg = (case Workspace_Load (dxConfigYaml x) os ws of Inl _ \<Rightarrow> None | Inr w \<Rightarrow> wsConfig w);
                 (s1, results) = Run x flt os
                   \<lparr>roConfig = cfg, roConfigPath = wsConfigPath ws, roProviderDir = providerDir, roCacheDir = path_of cacheDir,
                    roDataDir = path_of dataDir, roResolver = Some (yaml, cache_loader unpack flt (path_of cacheDir)),
                    roVersionResolver = Some (registryVersionResolver rm), roVerbose = verbose\<rparr> s in
             (s1, printDiagnosticsTo encode results format)))))"

definition doctorCmd ::
    "doctor_ext \<Rightarrow> gemara_yaml \<Rightarrow> (OciStore \<Rightarrow> string \<Rightarrow> Bundle option) \<Rightarrow> remote \<Rightarrow> (diagnosticOutput \<Rightarrow> string option) \<Rightarrow>
      faults \<Rightarrow> osenv \<Rightarrow> string \<Rightarrow> bool \<Rightarrow> string \<Rightarrow> fs \<Rightarrow> fs \<times> string \<times> doctor_err option" where
  "doctorCmd x yaml unpack rm encode flt os workspaceFlag verbose format s =
    (case ResolveWorkspaceDir os workspaceFlag of
       Inl e \<Rightarrow> (s, [], Some (DConfig e))
     | Inr baseDir \<Rightarrow>
        (case resolveFormat os format of
           Inl e \<Rightarrow> (s, [], Some e)
         | Inr resolvedFormat \<Rightarrow> runDoctor x yaml unpack rm encode flt os baseDir verbose resolvedFormat s))"

section \<open>Counting\<close>

text \<open>The checks that count: the results and their children.\<close>

definition counted :: "CheckResult list \<Rightarrow> CheckResult list" where
  "counted results = concat (map (\<lambda>r. r # crChildren r) results)"

definition status_count :: "CheckStatus \<Rightarrow> CheckResult list \<Rightarrow> nat" where
  "status_count st rs = length (filter (\<lambda>r. crStatus r = st) rs)"

lemma fold_count:
  "foldl count_result s rs = s\<lparr>smPass := smPass s + status_count StatusPass rs, smFail := smFail s + status_count StatusFail rs,
     smWarn := smWarn s + status_count StatusWarn rs,
     smBlocking := (smBlocking s \<or> (\<exists>r \<in> set rs. crBlocking r \<and> crStatus r = StatusFail))\<rparr>"
proof (induction rs arbitrary: s)
  case (Cons r rs)
  show ?case unfolding foldl.simps Cons.IH
    by (cases "crStatus r") (simp_all add: count_result_def countStatusSummary_def status_count_def Let_def)
qed (simp add: status_count_def)

lemma summarize_fold:
  "foldl (\<lambda>s r. foldl count_result (count_result s r) (crChildren r)) s rs = foldl count_result s (counted rs)"
  by (induction rs arbitrary: s) (simp_all add: counted_def)

lemma status_count_total: "status_count StatusPass rs + status_count StatusFail rs + status_count StatusWarn rs = length rs"
proof (induction rs)
  case (Cons r rs)
  then show ?case by (cases "crStatus r") (simp_all add: status_count_def)
qed (simp add: status_count_def)

lemma summarize_eq:
  "summarizeResults rs = \<lparr>smPass = status_count StatusPass (counted rs), smFail = status_count StatusFail (counted rs),
     smWarn = status_count StatusWarn (counted rs), smTotal = length (counted rs),
     smBlocking = (\<exists>r \<in> set (counted rs). crBlocking r \<and> crStatus r = StatusFail)\<rparr>"
  unfolding summarizeResults_def summarize_fold Let_def unfolding fold_count by (simp add: status_count_total)

text \<open>
  Property C29. For every output format the command fails exactly when some result or child of a
  result is a blocking check that failed (an encoding error aside), so the exit code does not
  depend on the format, and the totals of the summary line add up to the checks that count.
\<close>

theorem doctor_exit_code:
  assumes "format \<in> {[], ''text'', ''json''}" "\<forall>out. encode out \<noteq> None"
  shows "(snd (printDiagnosticsTo encode results format) = None \<longleftrightarrow>
      (\<forall>r \<in> set (counted results). \<not> (crBlocking r \<and> crStatus r = StatusFail))) \<and>
    smTotal (summarizeResults results) = length (counted results) \<and>
    smPass (summarizeResults results) + smFail (summarizeResults results) + smWarn (summarizeResults results) = length (counted results)"
proof -
  have "snd (printDiagnosticsJSON encode results) = (if smBlocking (summarizeResults results) then Some DBlocking else None)"
    using assms(2)[rule_format, of "\<lparr>doChecks = map convertResult results, doSummary = summarizeResults results,
      doBlockingFailure = smBlocking (summarizeResults results)\<rparr>"]
    unfolding printDiagnosticsJSON_def Let_def by (cases "encode \<lparr>doChecks = map convertResult results,
      doSummary = summarizeResults results, doBlockingFailure = smBlocking (summarizeResults results)\<rparr>") simp_all
  then have "snd (printDiagnosticsTo encode results format) = (if smBlocking (summarizeResults results) then Some DBlocking else None)"
    using assms(1) by (auto simp: printDiagnosticsTo_def renderDiagnostics_def)
  then show ?thesis by (auto simp: summarize_eq status_count_total)
qed

theorem doctor_exit_code_witness:
  "snd (printDiagnosticsTo (\<lambda>_. Some []) [check ''cache'' [] GroupCache StatusFail [] True] ''json'') \<noteq> None"
  using doctor_exit_code[of "''json''" "\<lambda>_. Some []" "[check ''cache'' [] GroupCache StatusFail [] True]"]
  by (simp add: counted_def check_def)

section \<open>The tree\<close>

abbreviation bare :: "CheckResult \<Rightarrow> CheckResult" where
  "bare r \<equiv> set_children [] r"

lemma set_children_sel [simp]:
  "crName (set_children cs r) = crName r" "crLabel (set_children cs r) = crLabel r" "crGroup (set_children cs r) = crGroup r"
  "crStatus (set_children cs r) = crStatus r" "crMessage (set_children cs r) = crMessage r"
  "crBlocking (set_children cs r) = crBlocking r" "crChildren (set_children cs r) = cs" "set_children ds (set_children cs r) = set_children ds r"
  by (simp_all add: set_children_def)

lemma set_group_sel [simp]:
  "crGroup (set_group g r) = g" "crStatus (set_group g r) = crStatus r" "crBlocking (set_group g r) = crBlocking r"
  "crChildren (set_group g r) = crChildren r"
  by (simp_all add: set_group_def)

lemma check_sel [simp]:
  "crName (check n l g st m b) = n" "crGroup (check n l g st m b) = g" "crChildren (check n l g st m b) = []"
  "crStatus (check n l g st m b) = st" "crBlocking (check n l g st m b) = b"
  by (simp_all add: check_def)

lemma bare_eqD: "bare r = bare r' \<Longrightarrow> crName r = crName r' \<and> crGroup r = crGroup r' \<and> crStatus r = crStatus r' \<and> crBlocking r = crBlocking r'"
  by (simp add: set_children_def)

lemma id_index_None: "go_get (id_index ps) i = None \<longleftrightarrow> i \<notin> (\<lambda>p. extractID (crName p)) ` set ps"
proof -
  have "go_get (foldl (\<lambda>m (i, p). go_put (extractID (crName p)) i m) m xs) k = None \<longleftrightarrow>
      go_get m k = None \<and> k \<notin> (\<lambda>p. extractID (crName p)) ` snd ` set xs" for m :: "(string, nat) gomap" and xs k
    by (induction xs arbitrary: m) (auto split: if_splits)
  moreover have "snd ` set (enumerate 0 ps) = set ps" by (metis map_snd_enumerate set_map)
  ultimately show ?thesis by (simp add: id_index_def)
qed

lemma id_index_bound: "go_get (id_index ps) i = Some n \<Longrightarrow> n < length ps"
proof -
  have "go_get (foldl (\<lambda>m (i, p). go_put (extractID (crName p)) i m) m xs) k = Some n \<Longrightarrow>
      go_get m k = Some n \<or> n \<in> fst ` set xs" for m :: "(string, nat) gomap" and xs k
  proof (induction xs arbitrary: m)
    case (Cons x xs)
    obtain i p where x: "x = (i, p)" by (cases x)
    from Cons.IH[of "go_put (extractID (crName p)) i m"] Cons.prems show ?case by (auto simp: x split: if_split_asm)
  qed simp
  moreover have "fst ` set (enumerate 0 ps) = {0..<length ps}" by (metis map_fst_enumerate set_map set_upt add_0)
  ultimately show "go_get (id_index ps) i = Some n \<Longrightarrow> n < length ps" by (fastforce simp: id_index_def)
qed

definition index_ok :: "(string, nat) gomap \<Rightarrow> CheckResult list \<Rightarrow> bool" where
  "index_ok idx ps \<longleftrightarrow> (\<forall>k n. go_get idx k = Some n \<longrightarrow> n < length ps)"

lemma index_ok_id [simp]: "index_ok (id_index ps) ps"
  using id_index_bound by (auto simp: index_ok_def)

lemma attach_unmatched:
  "snd (attach_loop idx ps vs) = filter (\<lambda>v. go_get idx (extractID (crName v)) = None) vs"
  by (induction vs arbitrary: ps) (auto split: option.split simp: Let_def case_prod_unfold)

lemma attach_bare: "map bare (fst (attach_loop idx ps vs)) = map bare ps"
proof (induction vs arbitrary: ps)
  case (Cons v vs)
  show ?case
  proof (cases "go_get idx (extractID (crName v))")
    case None
    then show ?thesis using Cons[of ps] by (simp add: Let_def case_prod_unfold)
  next
    case (Some i)
    have "map bare (ps[i := set_children (crChildren (ps ! i) @ [v]) (ps ! i)]) = map bare ps"
      by (cases "i < length ps") (simp_all add: map_update list_update_same_conv list_update_beyond)
    with Some Cons show ?thesis by simp
  qed
qed simp

lemma mset_children_update:
  "i < length ps \<Longrightarrow> mset (concat (map crChildren (ps[i := set_children (crChildren (ps ! i) @ [v]) (ps ! i)]))) =
     mset (concat (map crChildren ps)) + {#v#}"
proof (induction ps arbitrary: i)
  case (Cons p ps)
  then show ?case by (cases i) auto
qed simp

lemma attach_children:
  "index_ok idx ps \<Longrightarrow> mset (concat (map crChildren (fst (attach_loop idx ps vs)))) + mset (snd (attach_loop idx ps vs)) =
     mset (concat (map crChildren ps)) + mset vs"
proof (induction vs arbitrary: ps)
  case (Cons v vs)
  show ?case
  proof (cases "go_get idx (extractID (crName v))")
    case None
    then show ?thesis using Cons by (simp add: Let_def case_prod_unfold)
  next
    case (Some i)
    then have i: "i < length ps" using Cons.prems by (auto simp: index_ok_def)
    have "index_ok idx (ps[i := set_children (crChildren (ps ! i) @ [v]) (ps ! i)])" using Cons.prems by (simp add: index_ok_def)
    from Cons.IH[OF this] mset_children_update[OF i, of v] Some show ?thesis by simp
  qed
qed simp

section \<open>Nothing is hidden\<close>

lemma attach_groups: "crGroup ` set (fst (attach_loop idx ps vs)) = crGroup ` set ps"
proof -
  have "map crGroup (fst (attach_loop idx ps vs)) = map crGroup (map bare (fst (attach_loop idx ps vs)))" by simp
  then show ?thesis unfolding attach_bare by (metis (no_types, lifting) list.map_comp comp_def set_children_sel(3) set_map map_eq_conv)
qed

lemma CheckProviders_groups: "r \<in> set (fst (CheckProviders x os d)) \<Longrightarrow> crGroup r = GroupProviders"
  by (auto simp: CheckProviders_def Let_def provider_check_def split: prod.splits option.splits sum.splits if_split_asm)

lemma versions_loop_groups: "r \<in> set (versions_loop x st v errs ps) \<Longrightarrow> crGroup r = GroupPolicies"
  by (induction ps arbitrary: errs)
     (auto simp: Let_def policy_check_def resolvePinnedFallback_def version_check_def split: sum.split_asm option.split_asm if_split_asm)

lemma CheckPolicyVersions_groups: "r \<in> set (CheckPolicyVersions x flt c d v s) \<Longrightarrow> crGroup r = GroupPolicies"
  by (cases c; cases v; cases "LoadState flt d s")
     (auto simp: CheckPolicyVersions_def split: if_split_asm dest: versions_loop_groups)

lemma active_check_sel [simp]:
  "crName (active_check x eid t v) = ''policy/'' @ eid @ ''/active-period''" "crGroup (active_check x eid t v) = GroupPolicies"
  by (auto simp: active_check_def Let_def split: option.split prod.split)

lemma active_loop_Cons:
  "active_loop x res v (p # ps) s =
    (case ParsePolicyRef (peURL p) of
       Inl e \<Rightarrow> (fst (active_loop x res v ps s),
          check (''policy/'' @ EffectiveID p @ ''/active-period'') ''active-period'' GroupPolicies StatusFail
            (''invalid policy reference: '' @ dxCfgErr x e) True # snd (active_loop x res v ps s))
     | Inr ref \<Rightarrow>
        (let s1 = fst (resolve_graph res ref s) in
         case snd (resolve_graph res ref s) of
           Inl _ \<Rightarrow> active_loop x res v ps s1
         | Inr g \<Rightarrow> (fst (active_loop x res v ps s1), active_check x (EffectiveID p) (dgTimeline g) v # snd (active_loop x res v ps s1))))"
  by (cases "ParsePolicyRef (peURL p)") (simp_all add: Let_def case_prod_unfold split: sum.split)

declare active_loop.simps(2) [simp del]

lemma active_loop_groups: "r \<in> set (snd (active_loop x res v ps s)) \<Longrightarrow> crGroup r = GroupPolicies"
  by (induction ps arbitrary: s) (auto simp: active_loop_Cons Let_def split: sum.split_asm)

lemma CheckPolicyActivePeriod_groups: "r \<in> set (snd (CheckPolicyActivePeriod x c res v s)) \<Longrightarrow> crGroup r = GroupPolicies"
  by (auto simp: CheckPolicyActivePeriod_def split: option.split_asm if_split_asm dest: active_loop_groups)

lemma policy_evaluators_groups: "r \<in> set (fst (snd (policy_evaluators_loop x res ps evs s))) \<Longrightarrow> crGroup r = GroupComplypacks"
  by (induction ps arbitrary: evs s)
     (auto simp: complypack_check_def Let_def case_prod_unfold split: sum.split_asm)

lemma CheckComplypacks_groups: "r \<in> set (snd (CheckComplypacks x flt c cd dd res s)) \<Longrightarrow> crGroup r = GroupComplypacks"
proof -
  have "crGroup (cached_check x flt cc s' e) = GroupComplypacks" for cc s' e
    by (auto simp: cached_check_def complypack_check_def split: sum.split option.split)
  moreover have "crGroup (orphan_check v) = GroupComplypacks" for v by (simp add: orphan_check_def complypack_check_def Let_def)
  ultimately show "r \<in> set (snd (CheckComplypacks x flt c cd dd res s)) \<Longrightarrow> crGroup r = GroupComplypacks"
    by (auto simp: CheckComplypacks_def Let_def case_prod_unfold split: option.split_asm if_split_asm sum.split_asm
        dest: policy_evaluators_groups)
qed

lemma single_groups:
  "crGroup (CheckCache flt p s) = GroupCache" "crGroup (CheckConfig x os cp) = GroupWorkspace"
  "crGroup (CheckVerification x flt d s) = GroupVerify" "crGroup (CheckDirectoryLayout flt c d s) = GroupWorkspace"
  by (auto simp: CheckCache_def CheckConfig_def CheckVerification_def CheckDirectoryLayout_def Let_def
      split: option.split sum.split dir_res.split list.split stat_res.split)

lemma sections_mset:
  assumes "\<forall>r \<in> set rs. crGroup r \<in> set GroupOrder"
  shows "mset (concat (map snd (sections rs))) = mset rs"
proof -
  have d: "distinct GroupOrder" by (simp add: GroupOrder_def)
  have f: "concat (map snd (filter (\<lambda>(g, rs). rs \<noteq> []) xs)) = concat (map snd xs)" for xs :: "(CheckGroup \<times> CheckResult list) list"
    by (induction xs) auto
  have "mset (concat (map (\<lambda>g. filter (\<lambda>r. crGroup r = g) rs) gs)) = mset (filter (\<lambda>r. crGroup r \<in> set gs) rs)"
    if "distinct gs" for gs using that
  proof (induction gs)
    case (Cons g gs)
    have "mset (filter (\<lambda>r. crGroup r = g \<or> crGroup r \<in> set gs) rs) =
        mset (filter (\<lambda>r. crGroup r = g) rs) + mset (filter (\<lambda>r. crGroup r \<in> set gs) rs)"
      using Cons.prems by (induction rs) auto
    with Cons show ?case by simp
  qed simp
  from this[OF d] assms show ?thesis by (simp add: sections_def f comp_def filter_id_conv)
qed

text \<open>
  The rendered report hides nothing: every result of a run belongs to a group of the
  display order, so the sections contain each of them exactly once, and attaching children to
  their parents loses and invents none.
\<close>

theorem doctor_report_complete:
  "mset (concat (map snd (sections (snd (Run x flt os opts s))))) = mset (snd (Run x flt os opts s)) \<and>
   (let (ps, unmatched) = attachByEvaluatorID parents kids in
     map bare ps = map bare parents \<and>
     mset (concat (map crChildren ps)) + mset unmatched = mset (concat (map crChildren parents)) + mset kids)"
proof
  let ?order = "set GroupOrder"
  have p: "r \<in> set (fst (attach_loop idx ps vs)) \<Longrightarrow> crGroup r \<in> crGroup ` set ps" for r idx ps vs
    using attach_groups[of idx ps vs] by blast
  have u: "r \<in> set (snd (attach_loop idx ps vs)) \<Longrightarrow> r \<in> set vs" for r idx ps vs by (simp add: attach_unmatched)
  have pol: "crGroup ` set (CheckPolicyVersions x flt c d v s') \<subseteq> {GroupPolicies}" for c d v s' using CheckPolicyVersions_groups by blast
  have prov: "crGroup ` set (fst (CheckProviders x os d)) \<subseteq> {GroupProviders}" for d using CheckProviders_groups by blast
  have "\<forall>r \<in> set (snd (Run x flt os opts s)). crGroup r \<in> ?order"
    unfolding Run_def Let_def case_prod_unfold attachByEvaluatorID_def attachByPolicyID_def
    using subsetD[OF pol] subsetD[OF prov]
    by (auto simp: single_groups GroupOrder_def dest!: p u CheckPolicyActivePeriod_groups CheckComplypacks_groups
        CheckProviders_groups CheckPolicyVersions_groups)
  then show "mset (concat (map snd (sections (snd (Run x flt os opts s))))) = mset (snd (Run x flt os opts s))"
    by (rule sections_mset)
  show "let (ps, unmatched) = attachByEvaluatorID parents kids in
     map bare ps = map bare parents \<and>
     mset (concat (map crChildren ps)) + mset unmatched = mset (concat (map crChildren parents)) + mset kids"
    using attach_bare attach_children[OF index_ok_id] by (simp add: attachByEvaluatorID_def Let_def case_prod_unfold)
qed

section \<open>Verbose output\<close>

text \<open>Results equal up to their children, and parents whose children are equal up to theirs.\<close>

definition sim :: "CheckResult \<Rightarrow> CheckResult \<Rightarrow> bool" where
  "sim r r' \<longleftrightarrow> bare r = bare r'"

definition par :: "CheckResult \<Rightarrow> CheckResult \<Rightarrow> bool" where
  "par r r' \<longleftrightarrow> bare r = bare r' \<and> list_all2 sim (crChildren r) (crChildren r')"

lemma sim_refl [simp]: "sim r r"
  by (simp add: sim_def)

lemma list_sim_refl [simp]: "list_all2 sim rs rs"
  by (simp add: list_all2_refl)

lemma list_par_refl [simp]: "list_all2 par rs rs"
  by (simp add: list_all2_refl par_def)

lemma simD: "sim r r' \<Longrightarrow> crName r = crName r' \<and> crStatus r = crStatus r' \<and> crBlocking r = crBlocking r'"
  by (auto simp: sim_def dest: bare_eqD)

lemma attach_par:
  "list_all2 par ps ps' \<Longrightarrow> list_all2 sim vs vs' \<Longrightarrow>
   list_all2 par (fst (attach_loop idx ps vs)) (fst (attach_loop idx ps' vs'))"
proof (induction vs arbitrary: ps ps' vs')
  case (Cons v vs)
  then obtain w ws where vs': "vs' = w # ws" "sim v w" "list_all2 sim vs ws" by (auto simp: list_all2_Cons1)
  have n: "crName w = crName v" using simD[OF vs'(2)] by simp
  show ?case
  proof (cases "go_get idx (extractID (crName v))")
    case None
    then show ?thesis using Cons.IH[OF Cons.prems(1) vs'(3)] by (simp add: vs'(1) n Let_def case_prod_unfold)
  next
    case (Some i)
    let ?u = "\<lambda>qs x. qs[i := set_children (crChildren (qs ! i) @ [x]) (qs ! i)]"
    have "list_all2 par (?u ps v) (?u ps' w)"
    proof (cases "i < length ps")
      case True
      then have "par (ps ! i) (ps' ! i)" using Cons.prems(1) by (simp add: list_all2_conv_all_nth)
      then show ?thesis using vs'(2) by (intro list_all2_update_cong[OF Cons.prems(1)]) (auto simp: par_def list_all2_appendI)
    next
      case False
      then show ?thesis using Cons.prems(1) by (simp add: list_all2_lengthD[OF Cons.prems(1)] list_update_beyond)
    qed
    from Cons.IH[OF this vs'(3)] show ?thesis by (simp add: vs'(1) n Some)
  qed
qed simp

abbreviation key :: "CheckResult \<Rightarrow> CheckStatus \<times> bool" where
  "key r \<equiv> (crStatus r, crBlocking r)"

lemma par_counted: "list_all2 par ps ps' \<Longrightarrow> map key (counted ps) = map key (counted ps')"
proof (induction rule: list_all2_induct)
  case (Cons p ps p' ps')
  have "list_all2 sim (crChildren p) (crChildren p')" using Cons by (simp add: par_def)
  then have "map key (crChildren p) = map key (crChildren p')" by (induction rule: list_all2_induct) (auto dest: simD)
  moreover have "key p = key p'" using Cons bare_eqD[of p p'] by (simp add: par_def)
  ultimately show ?case using Cons by (simp add: counted_def)
qed (simp add: counted_def)

lemma summary_keys: "map key (counted rs) = map key (counted rs') \<Longrightarrow> summarizeResults rs = summarizeResults rs'"
proof -
  assume a: "map key (counted rs) = map key (counted rs')"
  have c: "status_count st xs = length (filter (\<lambda>k. fst k = st) (map key xs))" for st xs
    by (simp add: status_count_def filter_map comp_def)
  have b: "(\<exists>r \<in> set xs. crBlocking r \<and> crStatus r = StatusFail) \<longleftrightarrow> (StatusFail, True) \<in> set (map key xs)" for xs
    by (auto simp: image_iff) metis
  have l: "length xs = length (map key xs)" for xs by simp
  show ?thesis unfolding summarize_eq c b l[of "counted rs"] l[of "counted rs'"] a ..
qed

lemma extractID_slash: "CHR ''/'' \<notin> set a \<Longrightarrow> extractID (a @ ''/'' @ e) = hd (Split CHR ''/'' e)"
  by (auto simp: extractID_def Split_append[of "CHR ''/''" a e, simplified] neq_Nil_conv split: list.split)

lemma hd_Split_slash: "hd (Split CHR ''/'' (e @ ''/'' @ t)) = hd (Split CHR ''/'' e)"
proof (cases "CHR ''/'' \<in> set e")
  case True
  then obtain a b where e: "e = a @ CHR ''/'' # b" "CHR ''/'' \<notin> set a" by (metis split_list_first)
  show ?thesis using Split_append[OF e(2), of b] Split_append[OF e(2), of "b @ ''/'' @ t"] by (simp add: e(1))
next
  case False
  then show ?thesis using Split_append[OF False, of t] Split_no_sep[OF False] by simp
qed

lemma policy_ids:
  "extractID (''policy/'' @ eid @ ''/active-period'') = extractID (''policy/'' @ eid)"
  "extractID (''variables/'' @ eid) = extractID (''provider/'' @ eid)"
  using extractID_slash[of "''policy''" "eid @ ''/active-period''"] extractID_slash[of "''policy''" eid]
    extractID_slash[of "''variables''" eid] extractID_slash[of "''provider''" eid] hd_Split_slash[of eid "''active-period''"]
  by simp_all

lemma validate_sim: "sim (validateProviderVariables ph ts g h f v) (validateProviderVariables ph ts g h f v')"
  by (simp add: validateProviderVariables_def sim_def Let_def case_prod_unfold)

lemma validate_name: "crName (validateProviderVariables ph ts g h f v) = ''variables/'' @ phEvaluatorID ph"
  by (simp add: validateProviderVariables_def buildVariableSummary_def Let_def case_prod_unfold)

lemma CheckVariables_sim:
  "fst (CheckVariables x c h r v s) = fst (CheckVariables x c h r v' s) \<and>
   list_all2 sim (snd (CheckVariables x c h r v s)) (snd (CheckVariables x c h r v' s))"
proof -
  have "list_all2 sim (concat (map (\<lambda>ph. if P ph then [] else [validateProviderVariables ph (T ph) g b f v]) hs))
     (concat (map (\<lambda>ph. if P ph then [] else [validateProviderVariables ph (T ph) g b f v']) hs))" for P T g b f hs
    by (induction hs) (auto simp: validate_sim)
  then show ?thesis
    by (auto simp: CheckVariables_def Let_def case_prod_unfold list_all2_appendI split: option.split)
qed

lemma targets_loop_children:
  "(\<forall>w \<in> set rs. crChildren w = []) \<Longrightarrow> w \<in> set (snd (snd (snd (evaluator_targets_loop x c r ts m n rs s)))) \<Longrightarrow> crChildren w = []"
proof (induction ts arbitrary: m n rs s)
  case (Cons tp ts)
  obtain t pid where tp: "tp = (t, pid)" by (cases tp)
  obtain s1 o1 where o1: "target_policy_evaluators x c r t pid s = (s1, o1)" by fastforce
  have "crChildren w' = []" if "o1 = Inl w'" for w'
    using o1 that by (auto simp: target_policy_evaluators_def Let_def split: option.split_asm sum.split_asm prod.split_asm)
  then show ?case using Cons.prems Cons.IH[of "rs @ [projl o1]"] Cons.IH[of rs] by (cases o1) (auto simp: tp o1)
qed simp

lemma CheckVariables_children:
  "w \<in> set (snd (CheckVariables x c h r v s)) \<Longrightarrow> crChildren w = [] \<or> (\<exists>ph \<in> set h. crName w = ''variables/'' @ phEvaluatorID ph)"
  by (auto simp: CheckVariables_def Let_def case_prod_unfold resolveEvaluatorTargets_def validate_name
      split: option.split_asm if_split_asm dest: targets_loop_children[rotated])

lemma health_provider:
  "ph \<in> set (snd (CheckProviders x os d)) \<Longrightarrow> \<exists>p \<in> set (fst (CheckProviders x os d)). crName p = ''provider/'' @ phEvaluatorID ph"
proof -
  have "ph \<in> set (snd (provider_check lp)) \<Longrightarrow> crName (fst (provider_check lp)) = ''provider/'' @ phEvaluatorID ph" for lp
    by (auto simp: provider_check_def Let_def split: sum.split_asm if_split_asm)
  then show "ph \<in> set (snd (CheckProviders x os d)) \<Longrightarrow> \<exists>p \<in> set (fst (CheckProviders x os d)). crName p = ''provider/'' @ phEvaluatorID ph"
    by (auto simp: CheckProviders_def Let_def split: prod.split_asm option.split_asm if_split_asm)
qed

lemma unmatched_var_leaf:
  assumes "w \<in> set (snd (attachByEvaluatorID (fst (CheckProviders x os d)) (snd (CheckVariables x c (snd (CheckProviders x os d)) r v s))))"
  shows "crChildren w = []"
proof (rule ccontr)
  assume n: "crChildren w \<noteq> []"
  from assms have w: "w \<in> set (snd (CheckVariables x c (snd (CheckProviders x os d)) r v s))"
    "extractID (crName w) \<notin> (\<lambda>p. extractID (crName p)) ` set (fst (CheckProviders x os d))"
    by (auto simp: attachByEvaluatorID_def attach_unmatched id_index_None)
  then obtain ph where "ph \<in> set (snd (CheckProviders x os d))" "crName w = ''variables/'' @ phEvaluatorID ph"
    using CheckVariables_children n by blast
  moreover from health_provider[OF this(1)] obtain p where "p \<in> set (fst (CheckProviders x os d))" "crName p = ''provider/'' @ phEvaluatorID ph"
    by blast
  ultimately show False using w(2) policy_ids(2)[of "phEvaluatorID ph"] by (auto simp: image_iff)
qed

lemma active_sim: "sim (active_check x e t v) (active_check x e t v')"
  by (simp add: active_check_def sim_def Let_def case_prod_unfold split: option.split)

lemma active_loop_sim:
  "fst (active_loop x r v ps s) = fst (active_loop x r v' ps s) \<and> list_all2 sim (snd (active_loop x r v ps s)) (snd (active_loop x r v' ps s))"
  by (induction ps arbitrary: s) (auto simp: active_loop_Cons Let_def active_sim split: sum.split)

lemma CheckPolicyActivePeriod_sim:
  "fst (CheckPolicyActivePeriod x c r v s) = fst (CheckPolicyActivePeriod x c r v' s) \<and>
   list_all2 sim (snd (CheckPolicyActivePeriod x c r v s)) (snd (CheckPolicyActivePeriod x c r v' s))"
  using active_loop_sim[of x _ v _ s v'] by (auto simp: CheckPolicyActivePeriod_def split: option.split)

lemma active_loop_names:
  "w \<in> set (snd (active_loop x r v ps s)) \<Longrightarrow> \<exists>p \<in> set ps. crName w = ''policy/'' @ EffectiveID p @ ''/active-period''"
  by (induction ps arbitrary: s) (auto simp: active_loop_Cons Let_def split: sum.split_asm)

lemma versions_loop_names: "map crName (versions_loop x st v errs ps) = map (\<lambda>p. ''policy/'' @ EffectiveID p) ps"
  by (induction ps arbitrary: errs)
     (auto simp: Let_def policy_check_def resolvePinnedFallback_def version_check_def split: sum.split option.split)

lemma no_unmatched_active:
  assumes "LoadState flt d s = Inr st"
  shows "snd (attachByPolicyID (CheckPolicyVersions x flt c d (Some vr) s) (snd (CheckPolicyActivePeriod x c r v s'))) = []"
proof -
  have "extractID (crName w) \<in> (\<lambda>p. extractID (crName p)) ` set (CheckPolicyVersions x flt c d (Some vr) s)"
    if w: "w \<in> set (snd (CheckPolicyActivePeriod x c r v s'))" for w
  proof -
    obtain cf r' where c: "c = Some cf" "r = Some r'" "wcPolicies cf \<noteq> []" "w \<in> set (snd (active_loop x r' v (wcPolicies cf) s'))"
      using w by (cases c; cases r) (auto simp: CheckPolicyActivePeriod_def split: if_split_asm)
    obtain p where p: "p \<in> set (wcPolicies cf)" "crName w = ''policy/'' @ EffectiveID p @ ''/active-period''"
      using active_loop_names[OF c(4)] by blast
    have "''policy/'' @ EffectiveID p \<in> crName ` set (versions_loop x st vr [] (wcPolicies cf))"
      using p(1) versions_loop_names[of x st vr "[]" "wcPolicies cf"] by (metis (mono_tags, lifting) image_eqI list.set_map)
    then show ?thesis using c assms p(2) policy_ids(1)[of "EffectiveID p"] by (auto simp: CheckPolicyVersions_def)
  qed
  then show ?thesis by (simp add: attachByPolicyID_def attach_unmatched id_index_None filter_empty_conv)
qed


lemma leaf_counted: "\<forall>r \<in> set rs. crChildren r = [] \<Longrightarrow> counted rs = rs"
  by (induction rs) (auto simp: counted_def)

lemma counted_append [simp]: "counted (xs @ ys) = counted xs @ counted ys"
  by (simp add: counted_def)

lemma sim_keys: "list_all2 sim xs ys \<Longrightarrow> map key xs = map key ys"
  by (induction rule: list_all2_induct) (auto dest: simD)

text \<open>
  The counts of the summary and the exit code do not depend on the verbose flag, when
  the state file can be loaded (the version checks then give every policy its parent result).
\<close>

theorem doctor_counts_stable:
  assumes "LoadState flt (roDataDir opts) (fst (CheckVariables x (roConfig opts) (snd (CheckProviders x os (roProviderDir opts)))
      (roResolver opts) False s)) = Inr st"
    and "roVersionResolver opts = Some vr"
  shows "summarizeResults (snd (Run x flt os (opts\<lparr>roVerbose := True\<rparr>) s)) =
    summarizeResults (snd (Run x flt os (opts\<lparr>roVerbose := False\<rparr>) s))"
proof (rule summary_keys)
  define h where "h = CheckProviders x os (roProviderDir opts)"
  define V where "V v = CheckVariables x (roConfig opts) (snd h) (roResolver opts) v s" for v
  define s1 where "s1 = fst (V False)"
  define A where "A v = CheckPolicyActivePeriod x (roConfig opts) (roResolver opts) v s1" for v
  define P where "P = CheckPolicyVersions x flt (roConfig opts) (roDataDir opts) (Some vr) s1"
  have V: "fst (V v) = s1" "list_all2 sim (snd (V v)) (snd (V v'))" for v v'
    using CheckVariables_sim unfolding V_def s1_def by blast+
  have A: "fst (A v) = fst (A False)" "list_all2 sim (snd (A v)) (snd (A v'))" for v v'
    using CheckPolicyActivePeriod_sim unfolding A_def by blast+
  have prov: "map key (counted (fst (attachByEvaluatorID (fst h) (snd (V True))))) =
      map key (counted (fst (attachByEvaluatorID (fst h) (snd (V False)))))"
    unfolding attachByEvaluatorID_def by (rule par_counted[OF attach_par[OF list_par_refl V(2)]])
  have pol: "map key (counted (fst (attachByPolicyID P (snd (A True))))) = map key (counted (fst (attachByPolicyID P (snd (A False)))))"
    unfolding attachByPolicyID_def by (rule par_counted[OF attach_par[OF list_par_refl A(2)]])
  have "LoadState flt (roDataDir opts) s1 = Inr st" using assms(1) by (simp add: s1_def V_def h_def)
  then have un: "snd (attachByPolicyID P (snd (A v))) = []" for v unfolding P_def A_def by (rule no_unmatched_active)
  let ?u = "\<lambda>v. map (set_group GroupProviders) (snd (attachByEvaluatorID (fst h) (snd (V v))))"
  have leaf: "counted (?u v) = ?u v" for v
    by (rule leaf_counted) (auto simp: h_def V_def dest: unmatched_var_leaf)
  have "list_all2 sim (snd (attachByEvaluatorID (fst h) (snd (V True)))) (snd (attachByEvaluatorID (fst h) (snd (V False))))"
    unfolding attachByEvaluatorID_def attach_unmatched
    using V(2)[of True False] by (induction rule: list_all2_induct) (auto dest: simD)
  from sim_keys[OF this] have var: "map key (?u True) = map key (?u False)" by (simp add: comp_def)
  show "map key (counted (snd (Run x flt os (opts\<lparr>roVerbose := True\<rparr>) s))) =
      map key (counted (snd (Run x flt os (opts\<lparr>roVerbose := False\<rparr>) s)))"
    unfolding Run_def Let_def case_prod_unfold
    using prov pol var un[of True] un[of False] assms(2)
    by (simp add: h_def[symmetric] V_def[symmetric] V(1) P_def[symmetric] A_def[symmetric] A(1)[of True] leaf[simplified])
qed

text \<open>
  Otherwise it fails: the single result of an unreadable state does not take the active periods as
  children, they stay at the top level and their details are counted.
\<close>

lemma verbose_counts_details:
  assumes "ptEvaluationNotes t = []" "ptEnforcementNotes t = []"
  shows "let parents = [check ''policy'' [] GroupPolicies StatusWarn m False];
      count = (\<lambda>v. case attachByPolicyID parents [active_check x eid (Some t) v] of
         (ps, un) \<Rightarrow> smTotal (summarizeResults (ps @ un))) in
    hd (Split CHR ''/'' eid) \<noteq> ''policy'' \<longrightarrow> count True = 3 \<and> count False = 2"
proof -
  have e: "extractID (''policy/'' @ eid @ ''/active-period'') = hd (Split CHR ''/'' eid)"
    using extractID_slash[of "''policy''" "eid @ ''/active-period''"] hd_Split_slash[of eid "''active-period''"] by simp
  have i: "id_index [check ''policy'' [] GroupPolicies StatusWarn m False] = [(''policy'', 0)]"
    by (simp add: id_index_def extractID_def Split_no_sep go_put_def)
  have c: "length (crChildren (active_check x eid (Some t) v)) = (if v then 1 else 0)" for v
    using assms by (simp add: active_check_def Let_def case_prod_unfold)
  show ?thesis
    using e by (auto simp: attachByPolicyID_def i go_get_def Let_def summarize_eq counted_def c)
qed

text \<open>
  The identifier of a check is the text up to the next slash, so policies whose IDs are repository
  paths share it: the active periods of both end up under the last of them.
\<close>

lemma active_period_misplaced:
  "attachByPolicyID [policy_check ''policies/a'' st1 m1 b1, policy_check ''policies/b'' st2 m2 b2]
      [active_check x ''policies/a'' ta v, active_check x ''policies/b'' tb v] =
    ([policy_check ''policies/a'' st1 m1 b1,
      set_children [active_check x ''policies/a'' ta v, active_check x ''policies/b'' tb v] (policy_check ''policies/b'' st2 m2 b2)], [])"
proof -
  have e: "extractID (''policy/'' @ ''policies/'' @ t) = ''policies''" for t
    using extractID_slash[of "''policy''" "''policies/'' @ t"] Split_append[of "CHR ''/''" "''policies''" t] by simp
  have "id_index [policy_check ''policies/a'' st1 m1 b1, policy_check ''policies/b'' st2 m2 b2] = [(''policies'', 1)]"
    using e[of "''a''"] e[of "''b''"] by (simp add: id_index_def policy_check_def go_put_def)
  then show ?thesis
    using e[of "''a/active-period''"] e[of "''b/active-period''"]
    by (simp add: attachByPolicyID_def go_get_def policy_check_def)
qed

section \<open>Staleness\<close>

lemma latest_tag:
  assumes "CHR '':'' \<notin> set repo" "CHR ''@'' \<notin> set repo" "CHR ''/'' \<notin> set (NormalizeHost url)"
    and "registry_resolve rm url repo [] = Inr v"
  shows "v = ''latest''"
proof -
  let ?h = "NormalizeHost url"
  have "repo \<noteq> []" using assms(4) by (auto simp: registry_resolve_def Let_def DefinitionVersion_def)
  then obtain d where f: "fetchVersion rm (?h @ ''/'' @ repo @ '':latest'') = Inr (d, v)"
    using assms by (auto simp: registry_resolve_def Let_def DefinitionVersion_def NewClient_def buildRef_def split: sum.split_asm if_split_asm)
  then obtain ref where ref: "ParseReference (?h @ ''/'' @ repo @ '':latest'') = Inr ref"
    and v: "v = (if rfReference ref = [] then ''latest'' else rfReference ref)"
    by (auto simp: fetchVersion_def Let_def split: sum.split_asm resolve_res.split_asm)
  have cut: "cut_first CHR ''/'' (?h @ ''/'' @ repo @ '':latest'') = Some (?h, repo @ '':latest'')"
    "cut_first CHR ''@'' (repo @ '':latest'') = None" "cut_first CHR '':'' (repo @ '':latest'') = Some (repo, ''latest'')"
    using assms(1-3) by simp_all
  have "rfReference ref = ''latest''"
    using ref unfolding ParseReference_def cut option.case prod.case Let_def by (auto split: if_split_asm)
  then show ?thesis using v by simp
qed

text \<open>
  An outdated policy is never reported: the registry is only asked for a version
  name, which without a pin is always the tag \<^verbatim>\<open>latest\<close>, and this is the version get records for
  such a policy. So the check passes whatever digest is cached and whatever digest the registry
  answers with.
\<close>

theorem staleness_not_detected:
  assumes "ParsePolicyRef (peURL p) = Inr ref" "VersionString ref = []"
    and "CHR '':'' \<notin> set (prRepository ref)" "CHR ''@'' \<notin> set (prRepository ref)"
    and "CHR ''/'' \<notin> set (NormalizeHost (prRegistry ref))"
    and "GetPolicyState st (prRepository ref) = Some cached"
    and "psVersion cached = resolveLatestVersion \<lparr>srDefinitionVersion = DefinitionVersion rm0 (NewClient (prRegistry ref)), srCopy = copy\<rparr> (prRepository ref)"
    and "registry_resolve rm (prRegistry ref) (prRepository ref) [] = Inr v"
  shows "psVersion cached = ''latest'' \<and>
    versions_loop x st (registryVersionResolver rm) [] [p] = [policy_check (EffectiveID p) StatusPass ''latest (latest)'' False]"
proof -
  have v: "v = ''latest''" by (rule latest_tag[OF assms(3-5,8)])
  have c: "psVersion cached = ''latest''"
  proof (cases "DefinitionVersion rm0 (NewClient (prRegistry ref)) (prRepository ref)")
    case (Inr r)
    then have "registry_resolve rm0 (prRegistry ref) (prRepository ref) [] = Inr (snd r)"
      by (simp add: registry_resolve_def case_prod_unfold)
    then show ?thesis using latest_tag[OF assms(3-5)] assms(7) Inr by (simp add: resolveLatestVersion_def case_prod_unfold)
  qed (simp add: assms(7) resolveLatestVersion_def)
  show ?thesis using assms(1,2,6,8) v c by (simp add: registryVersionResolver_def version_check_def)
qed

theorem staleness_not_detected_witness:
  "\<exists>p st. (\<forall>x. versions_loop x st (registryVersionResolver (\<lambda>_ _. ResolveOK ''sha256:new'')) [] [p] =
     [policy_check (EffectiveID p) StatusPass ''latest (latest)'' False]) \<and>
   map_option psDigest (GetPolicyState st ''policies/nist'') = Some ''sha256:old''"
proof -
  define p :: PolicyEntry where "p = \<lparr>peURL = ''registry.com/policies/nist'', peID = ''nist'', peVerification = None, peSkipVerify = False\<rparr>"
  define ref :: PolicyRef where "ref = \<lparr>prRaw = ''registry.com/policies/nist'', prRegistry = ''registry.com'', prRepository = ''policies/nist'', prTag = [], prDigest = []\<rparr>"
  define old where "old = fresh_entry 1 ''latest'' ''sha256:old'' [] None"
  define st where "st = empty_state\<lparr>stPolicies := [(''policies/nist'', old)]\<rparr>"
  have 1: "ParsePolicyRef (peURL p) = Inr ref" unfolding p_def ref_def by code_simp
  have 2: "VersionString ref = []" unfolding ref_def by code_simp
  have 3: "CHR '':'' \<notin> set (prRepository ref)" "CHR ''@'' \<notin> set (prRepository ref)" by (simp_all add: ref_def)
  have 4: "CHR ''/'' \<notin> set (NormalizeHost (prRegistry ref))" unfolding ref_def by code_simp
  have 5: "GetPolicyState st (prRepository ref) = Some old" by (simp add: st_def ref_def GetPolicyState_def go_get_def)
  have 6: "psVersion old = resolveLatestVersion \<lparr>srDefinitionVersion = DefinitionVersion (\<lambda>_ _. ResolveFail) (NewClient (prRegistry ref)),
      srCopy = (\<lambda>_ _ s. (s, Inl []))\<rparr> (prRepository ref)" unfolding old_def ref_def by code_simp
  have 7: "registry_resolve (\<lambda>_ _. ResolveOK ''sha256:new'') (prRegistry ref) (prRepository ref) [] = Inr ''latest''"
    unfolding ref_def by code_simp
  have "psDigest old = ''sha256:old''" by (simp add: old_def)
  then show ?thesis using staleness_not_detected[OF 1 2 3 4 5 6 7] 5
    by (intro exI[of _ p] exI[of _ st]) (simp add: ref_def)
qed


definition demo_options :: RunOptions where
  "demo_options = \<lparr>roConfig = None, roConfigPath = ''/w/complytime.yaml'', roProviderDir = ''/p'', roCacheDir = [''c''], roDataDir = [''d''],
     roResolver = None, roVersionResolver = Some (registryVersionResolver (\<lambda>_ _. ResolveFail)), roVerbose = False\<rparr>"

theorem doctor_counts_stable_witness:
  "\<forall>x os. summarizeResults (snd (Run x no_faults os (demo_options\<lparr>roVerbose := True\<rparr>) [])) =
     summarizeResults (snd (Run x no_faults os (demo_options\<lparr>roVerbose := False\<rparr>) []))"
proof (intro allI)
  fix x os
  have l: "LoadState no_faults [''d''] [] = Inr empty_state" by code_simp
  have "fst (CheckVariables x None h r False []) = []" for h r by (simp add: CheckVariables_def)
  then have 1: "LoadState no_faults (roDataDir demo_options) (fst (CheckVariables x (roConfig demo_options)
      (snd (CheckProviders x os (roProviderDir demo_options))) (roResolver demo_options) False [])) = Inr empty_state"
    using l by (simp add: demo_options_def)
  have 2: "roVersionResolver demo_options = Some (registryVersionResolver (\<lambda>_ _. ResolveFail))" by (simp add: demo_options_def)
  show "summarizeResults (snd (Run x no_faults os (demo_options\<lparr>roVerbose := True\<rparr>) [])) =
     summarizeResults (snd (Run x no_faults os (demo_options\<lparr>roVerbose := False\<rparr>) []))"
    by (rule doctor_counts_stable[OF 1 2])
qed

end
