(* ===== verification/Recovery.thy ===== *)
theory Recovery
  imports Get
begin

text \<open>
  What interrupted and repeated runs of the sync do to a policy store. A store directory is broken
  when its marker or its index holds something else than what \<^verbatim>\<open>oci.New\<close> accepts, which is what a
  write leaves that was cut short. A broken store stays broken; with stores intact and the
  directories usable a run without failures succeeds and leaves them so.
\<close>

section \<open>Broken stores\<close>

fun is_index :: "node \<Rightarrow> bool" where
  "is_index (File (OciDoc _)) = True"
| "is_index _ = False"

definition store_broken :: "path \<Rightarrow> fs \<Rightarrow> bool" where
  "store_broken p s \<longleftrightarrow>
    (case go_get s (p @ [oci_layout_file]) of None \<Rightarrow> False | Some n \<Rightarrow> n \<noteq> File (Raw ''layout'')) \<or>
    (case go_get s (p @ [oci_index_file]) of None \<Rightarrow> False | Some n \<Rightarrow> \<not> is_index n)"

lemma oci_files_neq [simp]: "oci_layout_file \<noteq> oci_index_file" "oci_index_file \<noteq> oci_layout_file"
  by (simp_all add: oci_layout_file_def oci_index_file_def)

lemma fs_WriteFile_other: "q \<noteq> p \<Longrightarrow> go_get (fst (fs_WriteFile flt p d s)) q = go_get s q"
  by (simp add: fs_WriteFile_def fs_Write_def)

lemma MkdirAll_broken: "store_broken p (fst (fs_MkdirAll flt p s)) = store_broken p s"
  by (simp add: store_broken_def fs_MkdirAll_get)

lemma oci_New_broken:
  assumes "store_broken p s" "oci_New flt p s = (s', r)"
  shows "r = None \<and> store_broken p s'"
proof (cases "go_get s (p @ [oci_layout_file])")
  case (Some n)
  then show ?thesis
    using assms by (auto simp: oci_New_def Let_def fs_ReadFile_def store_broken_def
        split: if_split_asm node.split_asm fdata.split_asm option.split_asm prod.split_asm bool.split_asm)
next
  case None
  then obtain n where n: "go_get s (p @ [oci_index_file]) = Some n" "\<not> is_index n"
    using assms(1) by (auto simp: store_broken_def split: option.split_asm)
  obtain s1 b where w: "fs_WriteFile flt (p @ [oci_layout_file]) (Raw ''layout'') s = (s1, b)" by fastforce
  have i: "go_get s1 (p @ [oci_index_file]) = Some n"
    using fs_WriteFile_other[of "p @ [oci_index_file]" "p @ [oci_layout_file]" flt "Raw ''layout''" s] w n(1) by simp
  then have br: "store_broken p s1" using n(2) by (simp add: store_broken_def)
  show ?thesis
    using assms None n i br
    by (auto simp: oci_New_def Let_def fs_ReadFile_def w
        split: if_split_asm node.split_asm fdata.split_asm bool.split_asm)
qed

lemma NewPolicyStore_broken:
  assumes "store_broken (PolicyStorePath c pid) s" "NewPolicyStore flt c pid s = (s', r)"
  shows "isl r \<and> store_broken (PolicyStorePath c pid) s'"
proof -
  obtain s1 b where m: "fs_MkdirAll flt (PolicyStorePath c pid) s = (s1, b)" by fastforce
  have "store_broken (PolicyStorePath c pid) s1"
    using MkdirAll_broken[of "PolicyStorePath c pid" flt s] assms(1) m by simp
  note br = oci_New_broken[OF this, of flt]
  obtain s2 st where n: "oci_New flt (PolicyStorePath c pid) s1 = (s2, st)" by fastforce
  show ?thesis
    using assms(2) br[OF n] n m fs_MkdirAll_fail[of flt "PolicyStorePath c pid" s] assms(1)
    by (auto simp: NewPolicyStore_def Let_def split: bool.split_asm option.split_asm)
qed

lemma SyncPolicy_broken:
  assumes "store_broken (PolicyStorePath (syCacheDir sy) pid) s" "SyncPolicy flt rnd now sy pid v (st, s) = ((st', s'), r)"
  shows "st' = st \<and> r \<noteq> Inr True \<and> store_broken (PolicyStorePath (syCacheDir sy) pid) s'"
proof -
  obtain s1 q where n: "NewPolicyStore flt (syCacheDir sy) pid s = (s1, q)" by fastforce
  note br = NewPolicyStore_broken[OF assms(1) n]
  then obtain e where q: "q = Inl e" by (cases q) auto
  show ?thesis
    using assms br unfolding SyncPolicy_def Let_def prod.case n q
    by (auto split: if_split_asm sum.split_asm prod.split_asm)
qed

lemma ResolveVersion_broken:
  assumes "store_broken (PolicyStorePath c pid) s"
  shows "isl (snd (ResolveVersion flt c pid v s))"
proof -
  have ex: "PolicyExists flt c pid ver t = (t', b) \<Longrightarrow> store_broken (PolicyStorePath c pid) t \<Longrightarrow>
      \<not> b \<and> store_broken (PolicyStorePath c pid) t'" for ver t t' b
    using NewPolicyStore_broken[of c pid t flt] by (auto simp: PolicyExists_def split: if_split_asm prod.split_asm sum.split_asm)
  have gv: "GetCachedVersions flt c pid t = (t', r) \<Longrightarrow> store_broken (PolicyStorePath c pid) t \<Longrightarrow>
      cached_or_nil r = []" for t t' r
    using NewPolicyStore_broken[of c pid t flt]
    by (auto simp: GetCachedVersions_def cached_or_nil_def split: if_split_asm prod.split_asm sum.split_asm)
  obtain s1 b where 1: "PolicyExists flt c pid (if v = [] then ''latest'' else v) s = (s1, b)" by fastforce
  obtain s2 r2 where 2: "GetCachedVersions flt c pid s1 = (s2, r2)" by fastforce
  show ?thesis
    using ex[OF 1 assms] gv[OF 2] 1 2 by (auto simp: ResolveVersion_def Let_def cached_or_nil_def split: prod.split bool.split)
qed

text \<open>One later sync of the policy, against any registry, with any verifier and any failures.\<close>

inductive resync :: "path \<Rightarrow> string \<Rightarrow> world \<Rightarrow> world \<Rightarrow> bool" for c pid where
  resync: "syCacheDir sy = c \<Longrightarrow> SyncPolicy flt rnd now sy pid v w = (w', r) \<Longrightarrow> resync c pid w w'"

inductive_cases resyncE: "resync c pid w w'"

lemma resync_broken: "resync c pid w w' \<Longrightarrow> store_broken (PolicyStorePath c pid) (snd w) \<Longrightarrow>
    fst w' = fst w \<and> store_broken (PolicyStorePath c pid) (snd w')"
  by (erule resyncE) (metis SyncPolicy_broken prod.collapse)

lemma resyncs_broken: "(resync c pid)\<^sup>*\<^sup>* w w' \<Longrightarrow> store_broken (PolicyStorePath c pid) (snd w) \<Longrightarrow>
    fst w' = fst w \<and> store_broken (PolicyStorePath c pid) (snd w')"
  by (induction rule: rtranclp_induct) (use resync_broken in \<open>auto simp del: split_paired_All\<close>)

text \<open>
  Property C34. A policy store whose marker or index was cut short is never repaired: after any number of
  further syncs of the policy, whatever the registry answers and whatever fails, the recorded state
  is as before, the store is still broken, and no version of the policy can be resolved from it.
\<close>

theorem interrupted_store_never_recovers:
  assumes "(resync c pid)\<^sup>*\<^sup>* w w'" "store_broken (PolicyStorePath c pid) (snd w)"
  shows "fst w' = fst w \<and> store_broken (PolicyStorePath c pid) (snd w') \<and> isl (snd (ResolveVersion flt c pid v (snd w')))"
  using resyncs_broken[OF assms] ResolveVersion_broken by blast

text \<open>A sync that is interrupted while it writes the marker, and the same sync again.\<close>

definition torn_marker :: faults where
  "torn_marker = (\<lambda>f. f = OpWrite [''c'', ''policies'', ''p'', ''oci-layout''])"

definition torn_world :: world where
  "torn_world = fst (SyncPolicy torn_marker ''1'' 1 (demo_sync ''v1'' None) ''p'' [] (empty_state, []))"

theorem interrupted_store_never_recovers_witness:
  "isl (snd (ResolveVersion no_faults [''c''] ''p'' ''v1''
     (snd (fst (SyncPolicy no_faults ''2'' 2 (demo_sync ''v1'' None) ''p'' [] torn_world)))))"
proof -
  let ?w = "fst (SyncPolicy no_faults ''2'' 2 (demo_sync ''v1'' None) ''p'' [] torn_world)"
  have "resync [''c''] ''p'' torn_world ?w"
    by (rule resync[where r = "snd (SyncPolicy no_faults ''2'' 2 (demo_sync ''v1'' None) ''p'' [] torn_world)"])
       (simp_all add: demo_sync_def)
  moreover have "store_broken (PolicyStorePath [''c''] ''p'') (snd torn_world)"
    unfolding store_broken_def by code_simp
  ultimately show ?thesis
    using interrupted_store_never_recovers[of "[''c'']" "''p''" torn_world ?w no_faults "''v1''"] by blast
qed

section \<open>Usable directories\<close>

lemma not_broken_iff:
  "\<not> store_broken p s \<longleftrightarrow> (\<forall>n. go_get s (p @ [oci_layout_file]) = Some n \<longrightarrow> n = File (Raw ''layout'')) \<and>
    (\<forall>n. go_get s (p @ [oci_index_file]) = Some n \<longrightarrow> is_index n)"
  by (simp add: store_broken_def split: option.split)

definition usable :: "path \<Rightarrow> fs \<Rightarrow> bool" where
  "usable p s \<longleftrightarrow> p \<noteq> [] \<and> (\<forall>q. q \<noteq> [] \<and> under q p \<longrightarrow> \<not> is_file (go_get s q))"

definition state_tmp :: "string \<Rightarrow> string" where
  "state_tmp rnd = ''.state-'' @ rnd @ ''.json.tmp''"

lemma state_names_neq [simp]:
  "state_tmp rnd \<noteq> StateFileName" "StateFileName \<noteq> state_tmp rnd" "oci_layout_file \<noteq> StateFileName" "StateFileName \<noteq> oci_layout_file"
  "oci_index_file \<noteq> StateFileName" "StateFileName \<noteq> oci_index_file" "oci_layout_file \<noteq> state_tmp rnd" "state_tmp rnd \<noteq> oci_layout_file"
  "oci_index_file \<noteq> state_tmp rnd" "state_tmp rnd \<noteq> oci_index_file"
  by (simp_all add: state_tmp_def StateFileName_def oci_layout_file_def oci_index_file_def)

lemma not_file_dir: "\<not> is_file n \<longleftrightarrow> n = None \<or> n = Some Dir"
  by (cases n rule: is_file.cases) auto

lemma MkdirAll_usable:
  assumes "usable p s"
  obtains s' where "fs_MkdirAll no_faults p s = (s', True)"
    "\<And>q. go_get s' q = (if q \<noteq> [] \<and> under q p then Some Dir else go_get s q)"
proof -
  obtain s' b where m: "fs_MkdirAll no_faults p s = (s', b)" by fastforce
  have "b" using m assms by (auto simp: fs_MkdirAll_def usable_def list_ex_iff path_prefixes_set split: if_split_asm)
  have g: "go_get s' q = (if q \<noteq> [] \<and> under q p then Some Dir else go_get s q)" for q
    using fs_MkdirAll_get[of no_faults p s q] m \<open>b\<close> assms by (auto simp: usable_def not_file_dir)
  show ?thesis by (rule that[of s']) (use m \<open>b\<close> g in auto)
qed

lemma fs_WriteFile_done:
  assumes "\<not> is_dir (go_get s p)" "is_dir (go_get s (butlast p))"
  shows "fs_WriteFile no_faults p d s = (go_put p (File d) s, True)"
  using assms by (simp add: fs_WriteFile_def fs_Write_def)

text \<open>Opening an intact store: the marker and an index are there afterwards, nothing else changed.\<close>

lemma NewPolicyStore_ok:
  assumes "usable (PolicyStorePath c pid) s" "\<not> store_broken (PolicyStorePath c pid) s"
  obtains s' store where "NewPolicyStore no_faults c pid s = (s', Inr store)"
    "\<And>q. go_get s' q = (if q \<noteq> [] \<and> under q (PolicyStorePath c pid) then Some Dir
        else if q = PolicyStorePath c pid @ [oci_layout_file] then Some (File (Raw ''layout''))
        else if q = PolicyStorePath c pid @ [oci_index_file] then Some (File (OciDoc store)) else go_get s q)"
proof -
  let ?p = "PolicyStorePath c pid"
  let ?m = "?p @ [oci_layout_file]" and ?i = "?p @ [oci_index_file]"
  obtain s1 where m: "fs_MkdirAll no_faults ?p s = (s1, True)"
      "\<And>q. go_get s1 q = (if q \<noteq> [] \<and> under q ?p then Some Dir else go_get s q)"
    using MkdirAll_usable[OF assms(1)] by blast
  have d: "go_get s1 ?p = Some Dir" using m(2)[of ?p] assms(1) by (simp add: usable_def)
  have l: "go_get s1 ?m = go_get s ?m" "go_get s1 ?i = go_get s ?i" using m(2) by simp_all
  define s2 where "s2 = (if go_get s ?m = None then go_put ?m (File (Raw ''layout'')) s1 else s1)"
  have k: "(case fs_ReadFile no_faults ?m s1 of NoDoc \<Rightarrow> fs_WriteFile no_faults ?m (Raw ''layout'') s1
      | UnreadableDoc \<Rightarrow> (s1, False) | Doc x \<Rightarrow> (s1, x = Raw ''layout'')) = (s2, True)"
    using assms(2) d by (auto simp: s2_def fs_ReadFile_def l fs_WriteFile_done store_broken_def split: option.splits)
  have g2: "go_get s2 q = (if q = ?m then Some (File (Raw ''layout'')) else go_get s1 q)" for q
    using assms(2) l by (auto simp: s2_def store_broken_def split: option.splits)
  show ?thesis
  proof (cases "go_get s ?i")
    case None
    have "oci_New no_faults ?p s1 = (go_put ?i (File (OciDoc empty_oci)) s2, Some empty_oci)"
      unfolding oci_New_def Let_def k using None d by (simp add: fs_ReadFile_def g2 l fs_WriteFile_done)
    then show ?thesis
      using that[of "go_put ?i (File (OciDoc empty_oci)) s2" empty_oci] m by (simp add: NewPolicyStore_def Let_def g2)
  next
    case (Some n)
    then obtain store where n: "n = File (OciDoc store)"
      using assms(2) by (auto simp: store_broken_def elim: is_index.elims)
    have "oci_New no_faults ?p s1 = (s2, Some store)"
      unfolding oci_New_def Let_def k using Some n by (simp add: fs_ReadFile_def g2 l)
    then show ?thesis
      using that[of s2 store] m Some n by (auto simp: NewPolicyStore_def Let_def g2)
  qed
qed

text \<open>Saving the state without failures; what was at or below the two file names does not matter.\<close>

lemma SaveState_ok:
  assumes "abs_path b" "usable b s" "go_get s (b @ [state_tmp rnd]) = None" "\<not> is_dir (go_get s (b @ [StateFileName]))"
  obtains s' where "SaveState no_faults rnd st b s = (s', None)"
    "\<And>q. \<not> under (b @ [StateFileName]) q \<Longrightarrow> \<not> under (b @ [state_tmp rnd]) q \<Longrightarrow>
       go_get s' q = (if q \<noteq> [] \<and> under q b then Some Dir else go_get s q)"
    "go_get s' (b @ [StateFileName]) = Some (File (StateDoc st))" "go_get s' (b @ [state_tmp rnd]) = None"
proof -
  let ?sp = "b @ [StateFileName]" and ?t = "b @ [state_tmp rnd]"
  have sp: "fp_join b [StateFileName] = ?sp" using assms(1) by simp
  obtain s1 where m: "fs_MkdirAll no_faults b s = (s1, True)"
      "\<And>q. go_get s1 q = (if q \<noteq> [] \<and> under q b then Some Dir else go_get s q)"
    using MkdirAll_usable[OF assms(2)] by blast
  have d: "go_get s1 b = Some Dir" using m(2)[of b] assms(2) by (simp add: usable_def)
  define s3 where "s3 = go_put ?t (File (StateDoc st)) (go_put ?t (File (Raw [])) s1)"
  have g3: "go_get s3 q = (if q = ?t then Some (File (StateDoc st)) else go_get s1 q)" for q by (simp add: s3_def)
  have c: "fs_CreateTemp no_faults b (state_tmp rnd) s1 = (go_put ?t (File (Raw [])) s1, Some ?t)"
    using m(2)[of ?t] assms(3) by (simp add: fs_CreateTemp_def Let_def go_has_def del: go_has_keys)
  obtain s4 ok where r: "fs_Rename no_faults ?t ?sp s3 = (s4, ok)" by fastforce
  have ok: ok
    using r d m(2)[of ?sp] assms(4) g3
    by (auto simp: fs_Rename_def go_has_def split: if_split_asm option.split_asm node.split_asm simp del: go_has_keys)
  have nu: "\<not> under ?sp ?t" by simp
  have g4: "go_get s4 q = (if under ?sp q then go_get s3 (?t @ drop (length ?sp) q) else if under ?t q then None else go_get s3 q)" for q
    using fs_Rename_get[of no_faults ?t ?sp s3, OF _ nu] r ok by simp
  have w: "fs_Write no_faults ?t (StateDoc st) (go_put ?t (File (Raw [])) s1) = (s3, True)" by (simp add: fs_Write_def s3_def)
  have "SaveState no_faults rnd st b s = (s4, None)"
    using m(1) c w r ok by (simp add: SaveState_def Let_def sp state_tmp_def)
  moreover have "go_get s4 ?sp = Some (File (StateDoc st))" "go_get s4 ?t = None"
    using g4[of ?sp] g4[of ?t] by (simp_all add: g3)
  moreover have "go_get s4 q = (if q \<noteq> [] \<and> under q b then Some Dir else go_get s q)"
    if "\<not> under ?sp q" "\<not> under ?t q" for q
    using that g4[of q] g3[of q] m(2)[of q] by auto
  ultimately show ?thesis using that by blast
qed

section \<open>Healthy caches\<close>

text \<open>
  The directories of a run: the data directory and the stores of the policies. Their files must not
  stand where another of these directories is to be.
\<close>

definition dir_files :: "string \<Rightarrow> path \<Rightarrow> path set \<Rightarrow> path set" where
  "dir_files rnd dataDir stores =
    {dataDir @ [StateFileName], dataDir @ [state_tmp rnd]} \<union> {p @ [f] | p f. p \<in> stores \<and> f \<in> {oci_layout_file, oci_index_file}}"

definition apart :: "string \<Rightarrow> path \<Rightarrow> path set \<Rightarrow> bool" where
  "apart rnd dataDir stores \<longleftrightarrow> abs_path dataDir \<and>
    (\<forall>f \<in> dir_files rnd dataDir stores. \<forall>d \<in> insert dataDir stores. \<not> under f d)"

definition healthy :: "string \<Rightarrow> path \<Rightarrow> path set \<Rightarrow> fs \<Rightarrow> bool" where
  "healthy rnd dataDir stores s \<longleftrightarrow>
    (\<forall>d \<in> insert dataDir stores. usable d s) \<and> (\<forall>p \<in> stores. \<not> store_broken p s) \<and>
    go_get s (dataDir @ [state_tmp rnd]) = None \<and> \<not> is_dir (go_get s (dataDir @ [StateFileName]))"

text \<open>What the operations do to a healthy cache: new directories on the way to one of these, and good files.\<close>

definition good_file :: "string \<Rightarrow> path \<Rightarrow> path set \<Rightarrow> path \<Rightarrow> node option \<Rightarrow> bool" where
  "good_file rnd dataDir stores q n \<longleftrightarrow>
    (q = dataDir @ [StateFileName] \<and> is_file n) \<or> (q = dataDir @ [state_tmp rnd] \<and> n = None) \<or>
    (\<exists>p \<in> stores. q = p @ [oci_layout_file] \<and> n = Some (File (Raw ''layout'')) \<or>
                   q = p @ [oci_index_file] \<and> (\<exists>st. n = Some (File (OciDoc st))))"

definition benign :: "string \<Rightarrow> path \<Rightarrow> path set \<Rightarrow> fs \<Rightarrow> fs \<Rightarrow> bool" where
  "benign rnd dataDir stores s s' \<longleftrightarrow>
    (\<forall>q. (q \<in> dir_files rnd dataDir stores \<or> (\<exists>d \<in> insert dataDir stores. q \<noteq> [] \<and> under q d)) \<longrightarrow>
       go_get s' q = go_get s q \<or> good_file rnd dataDir stores q (go_get s' q) \<or>
       (go_get s' q = Some Dir \<and> (\<exists>d \<in> insert dataDir stores. under q d)))"

lemma good_file_in: "good_file rnd dataDir stores q n \<Longrightarrow> q \<in> dir_files rnd dataDir stores"
  by (auto simp: good_file_def dir_files_def)

lemma healthy_benign:
  assumes "apart rnd dataDir stores" "healthy rnd dataDir stores s" "benign rnd dataDir stores s s'"
  shows "healthy rnd dataDir stores s'"
proof -
  have nf: "\<not> under f d" if "f \<in> dir_files rnd dataDir stores" "d \<in> insert dataDir stores" for f d
    using assms(1) that by (auto simp: apart_def)
  have dirs: "\<not> is_file (go_get s' q)" if "d \<in> insert dataDir stores" "q \<noteq> []" "under q d" for d q
  proof -
    have "\<not> good_file rnd dataDir stores q (go_get s' q)"
      using nf[OF good_file_in that(1)] that(3) by blast
    then have "go_get s' q = go_get s q \<or> go_get s' q = Some Dir"
      using assms(3) that unfolding benign_def by blast
    moreover have "\<not> is_file (go_get s q)" using assms(2) that by (auto simp: healthy_def usable_def)
    ultimately show ?thesis by auto
  qed
  have files: "go_get s' f = go_get s f \<or> good_file rnd dataDir stores f (go_get s' f)" if "f \<in> dir_files rnd dataDir stores" for f
    using assms(3) that nf[OF that] unfolding benign_def by blast
  have br: "\<not> store_broken p s'" if p: "p \<in> stores" for p
  proof -
    have "p @ [oci_layout_file] \<in> dir_files rnd dataDir stores" "p @ [oci_index_file] \<in> dir_files rnd dataDir stores"
      using p by (auto simp: dir_files_def)
    moreover have "\<not> store_broken p s" using assms(2) p by (simp add: healthy_def)
    ultimately show ?thesis
      unfolding not_broken_iff using files[of "p @ [oci_layout_file]"] files[of "p @ [oci_index_file]"]
      by (auto simp: good_file_def)
  qed
  have st: "go_get s' (dataDir @ [state_tmp rnd]) = None" "\<not> is_dir (go_get s' (dataDir @ [StateFileName]))"
    using files[of "dataDir @ [state_tmp rnd]"] files[of "dataDir @ [StateFileName]"] assms(2)
    by (auto simp: dir_files_def healthy_def good_file_def not_file_dir elim: is_file.elims)
  show ?thesis
    using dirs br st assms(2) by (auto simp: healthy_def usable_def)
qed

lemma NewPolicyStore_healthy:
  assumes "apart rnd dataDir stores" "healthy rnd dataDir stores s" "PolicyStorePath c pid \<in> stores"
  obtains s' store where "NewPolicyStore no_faults c pid s = (s', Inr store)" "healthy rnd dataDir stores s'"
proof -
  have u: "usable (PolicyStorePath c pid) s" "\<not> store_broken (PolicyStorePath c pid) s"
    using assms(2,3) by (auto simp: healthy_def)
  obtain s' store where n: "NewPolicyStore no_faults c pid s = (s', Inr store)"
    "\<And>q. go_get s' q = (if q \<noteq> [] \<and> under q (PolicyStorePath c pid) then Some Dir
        else if q = PolicyStorePath c pid @ [oci_layout_file] then Some (File (Raw ''layout''))
        else if q = PolicyStorePath c pid @ [oci_index_file] then Some (File (OciDoc store)) else go_get s q)"
    using NewPolicyStore_ok[OF u] by blast
  have "benign rnd dataDir stores s s'"
    unfolding benign_def n(2) using assms(3) by (auto simp: good_file_def)
  with healthy_benign[OF assms(1,2)] n(1) show ?thesis using that by blast
qed

lemma write_store_healthy:
  assumes "apart rnd dataDir stores" "healthy rnd dataDir stores s" "p \<in> stores"
  shows "healthy rnd dataDir stores (write_store p st s)"
  by (rule healthy_benign[OF assms(1,2)]) (use assms(3) in \<open>auto simp: benign_def write_store_def good_file_def\<close>)

lemma under_snocD: "under (x @ [a]) (d @ [b]) \<Longrightarrow> x @ [a] = d @ [b] \<or> under (x @ [a]) d"
proof -
  assume "under (x @ [a]) (d @ [b])"
  then obtain r where r: "d @ [b] = x @ [a] @ r" by (auto simp: under_iff)
  show ?thesis
  proof (cases r rule: rev_cases)
    case Nil
    then show ?thesis using r by simp
  next
    case (snoc r' y)
    then have "d = (x @ [a]) @ r'" using r by simp
    then show ?thesis by simp
  qed
qed

lemma SaveState_healthy:
  assumes "apart rnd dataDir stores" "healthy rnd dataDir stores s"
  obtains s' where "SaveState no_faults rnd st dataDir s = (s', None)" "healthy rnd dataDir stores s'"
proof -
  have h: "abs_path dataDir" "usable dataDir s" "go_get s (dataDir @ [state_tmp rnd]) = None" "\<not> is_dir (go_get s (dataDir @ [StateFileName]))"
    using assms by (auto simp: apart_def healthy_def)
  let ?sp = "dataDir @ [StateFileName]" and ?t = "dataDir @ [state_tmp rnd]"
  obtain s' where s': "SaveState no_faults rnd st dataDir s = (s', None)"
    "\<And>q. \<not> under ?sp q \<Longrightarrow> \<not> under ?t q \<Longrightarrow> go_get s' q = (if q \<noteq> [] \<and> under q dataDir then Some Dir else go_get s q)"
    "go_get s' ?sp = Some (File (StateDoc st))" "go_get s' ?t = None"
    using SaveState_ok[OF h] by blast
  have f: "\<not> under ?sp d" "\<not> under ?t d" if "d \<in> insert dataDir stores" for d
    using assms(1) that by (auto simp: apart_def dir_files_def)
  have below: "under (x @ [a]) (d @ [b]) \<Longrightarrow> x @ [a] = d @ [b] \<or> under (x @ [a]) d" for x d :: path and a b
    by (rule under_snocD)
  have "benign rnd dataDir stores s s'"
    unfolding benign_def
  proof (intro allI impI)
    fix q
    assume q: "q \<in> dir_files rnd dataDir stores \<or> (\<exists>d \<in> insert dataDir stores. q \<noteq> [] \<and> under q d)"
    show "go_get s' q = go_get s q \<or> good_file rnd dataDir stores q (go_get s' q) \<or>
       (go_get s' q = Some Dir \<and> (\<exists>d \<in> insert dataDir stores. under q d))"
    proof (cases "q = ?sp \<or> q = ?t")
      case True
      then show ?thesis using s'(3,4) by (auto simp: good_file_def)
    next
      case False
      have "\<not> under ?sp q \<and> \<not> under ?t q"
        using q
      proof (elim disjE bexE)
        assume "q \<in> dir_files rnd dataDir stores"
        then obtain d b where q: "q = d @ [b]" "d \<in> insert dataDir stores" by (auto simp: dir_files_def)
        then show ?thesis using below[of dataDir StateFileName d b] below[of dataDir "state_tmp rnd" d b] f[OF q(2)] False by blast
      next
        fix d
        assume "d \<in> insert dataDir stores" "q \<noteq> [] \<and> under q d"
        then show ?thesis using f[of d] under_trans by blast
      qed
      then show ?thesis using s'(2)[of q] by auto
    qed
  qed
  with healthy_benign[OF assms] s'(1) show ?thesis using that by blast
qed

section \<open>Progress of one sync\<close>

lemma SyncPolicy_progress:
  assumes a: "apart rnd (syDataDir sy) stores" "healthy rnd (syDataDir sy) stores s" "PolicyStorePath (syCacheDir sy) pid \<in> stores"
    and p: "pid \<noteq> []" "syVerifier sy = None \<or> syRegistryHost sy \<noteq> []"
    and v: "classifyVersion v = (t, g)" "srDefinitionVersion (sySource sy) (BuildLookupRef [] pid t g) = Inr (d, rv)"
      "digest_ok d" "run_verifier sy pid t g = Inr vr"
    and cp: "\<And>store. \<exists>desc. snd (srCopy (sySource sy) pid (if v = [] \<or> v = ''latest'' then rv else v) store) = Inr desc"
  obtains st' s' b e where "SyncPolicy no_faults rnd now sy pid v (st, s) = ((st', s'), Inr b)"
    "healthy rnd (syDataDir sy) stores s'" "GetPolicyState st' = (GetPolicyState st)(pid \<mapsto> e)" "psDigest e = d"
proof (cases "(case GetPolicyState st pid of None \<Rightarrow> False | Some l \<Rightarrow> psDigest l = d) \<and> PolicyStoreExists no_faults (syCacheDir sy) pid s")
  case True
  then obtain l where "GetPolicyState st pid = Some l" "psDigest l = d" by (auto split: option.split_asm)
  moreover from this have "GetPolicyState st = (GetPolicyState st)(pid \<mapsto> l)" by auto
  moreover have "SyncPolicy no_faults rnd now sy pid v (st, s) = ((st, s), Inr False)"
    using True p v by (simp add: SyncPolicy_def)
  ultimately show ?thesis using that a(2) by blast
next
  case False
  define ver where "ver = (if v = [] \<or> v = ''latest'' then rv else v)"
  obtain s1 store where n: "NewPolicyStore no_faults (syCacheDir sy) pid s = (s1, Inr store)" "healthy rnd (syDataDir sy) stores s1"
    using NewPolicyStore_healthy[OF a] by blast
  obtain store' desc where c: "srCopy (sySource sy) pid ver store = (store', Inr desc)"
    using cp[of store] unfolding ver_def[symmetric] by (metis prod.collapse)
  define s2 where "s2 = write_store (PolicyStorePath (syCacheDir sy) pid) store' s1"
  have h2: "healthy rnd (syDataDir sy) stores s2" unfolding s2_def by (rule write_store_healthy[OF a(1) n(2) a(3)])
  obtain st2 where u: "UpdatePolicyStateWithVerification now pid ver d vr st = Inr st2"
    using v(3) by (auto simp: UpdatePolicyStateWithVerification_def split: option.split)
  obtain s3 where sv: "SaveState no_faults rnd st2 (syDataDir sy) s2 = (s3, None)" "healthy rnd (syDataDir sy) stores s3"
    using SaveState_healthy[OF a(1) h2] by blast
  have "SyncPolicy no_faults rnd now sy pid v (st, s) = ((st2, s3), Inr True)"
    unfolding SyncPolicy_def Let_def prod.case v(1,2) sum.case ver_def[symmetric]
    using False p v(4) n(1) c u sv(1) by (simp add: s2_def)
  with UpdatePolicy_get[OF u] sv(2) show ?thesis by (intro that) auto
qed

section \<open>Loaders keep what opening a store keeps\<close>

locale loader_invariant =
  fixes L :: "'s PolicyLoader" and p :: string and I :: "'s \<Rightarrow> bool"
  assumes layer_keeps: "I s \<Longrightarrow> I (fst (ldLayer L p v m s))"
    and bundle_keeps: "I s \<Longrightarrow> I (fst (ldBundle L p v s))"
    and shape_keeps: "I s \<Longrightarrow> I (fst (ldShape L p v s))"
    and exists_keeps: "I s \<Longrightarrow> I (fst (ldExists L p v s))"
begin

lemma metadata_keeps:
  assumes "I s"
  shows "I (fst (ExtractPolicyMetadata y L p v s))"
proof -
  note k = layer_keeps bundle_keeps shape_keeps exists_keeps
  have b: "I s \<Longrightarrow> I (fst (extractBundleMetadata y L p v s))" for s
    using bundle_keeps[of s v] by (auto simp: extractBundleMetadata_def split: prod.split sum.split)
  have sp: "I s \<Longrightarrow> I (fst (extractSplitMetadata y L p v s))" for s
    using layer_keeps[of s v MediaTypePolicy] layer_keeps[of "fst (ldLayer L p v MediaTypePolicy s)" v MediaTypeCatalog]
    by (auto simp: extractSplitMetadata_def Let_def split: prod.split sum.split)
  obtain s1 ok where e: "ldExists L p v s = (s1, ok)" by fastforce
  obtain s2 sh where h: "ldShape L p v s1 = (s2, sh)" by fastforce
  have "I s1" using exists_keeps[OF assms, of v] e by simp
  moreover from this have "I s2" using shape_keeps[of s1 v] h by simp
  ultimately show ?thesis
    using assms b[of s2] sp[of s2] by (auto simp: ExtractPolicyMetadata_def e h split: bool.split sum.split)
qed

end

lemma NewPolicyStore_keeps_healthy:
  "apart rnd d stores \<Longrightarrow> PolicyStorePath c p \<in> stores \<Longrightarrow> healthy rnd d stores s \<Longrightarrow>
   NewPolicyStore no_faults c p s = (s', r) \<Longrightarrow> healthy rnd d stores s'"
  by (metis NewPolicyStore_healthy prod.inject)

interpretation hl: loader_invariant "cache_loader unpack no_faults c" p
    "\<lambda>s. apart rnd d stores \<and> PolicyStorePath c p \<in> stores \<longrightarrow> healthy rnd d stores s" for unpack c p rnd d stores
  by unfold_locales
    (auto simp: cache_loader_def LoadLayerByMediaType_def LoadBundleFiles_def DetectManifestShape_def PolicyExists_def
      split: prod.split sum.split intro: NewPolicyStore_keeps_healthy)

section \<open>Progress of get\<close>

text \<open>What the registry has to do for one entry: resolve the reference to a digest and copy the artifact.\<close>

definition entry_version :: "get_ext \<Rightarrow> PolicyRef \<Rightarrow> string" where
  "entry_version x ref =
    (if VersionString ref = [] then resolveLatestVersion (gxSource x (prRegistry ref)) (prRepository ref) else VersionString ref)"

definition served :: "get_ext \<Rightarrow> PolicyRef \<Rightarrow> string \<Rightarrow> bool" where
  "served x ref d \<longleftrightarrow>
    (let src = gxSource x (prRegistry ref); v = entry_version x ref; (t, g) = classifyVersion v in
     prRepository ref \<noteq> [] \<and> fst (SplitHostScheme (prRegistry ref)) \<noteq> [] \<and> digest_ok d \<and>
     (\<exists>rv. srDefinitionVersion src (BuildLookupRef [] (prRepository ref) t g) = Inr (d, rv) \<and>
       (\<forall>store. \<exists>desc. snd (srCopy src (prRepository ref) (if v = [] \<or> v = ''latest'' then rv else v) store) = Inr desc)))"

text \<open>Every verifier can be built and accepts.\<close>

definition accepting :: "get_ext \<Rightarrow> bool" where
  "accepting x \<longleftrightarrow> (\<forall>cfg. \<exists>vf. gxBuilder x cfg = Inr vf \<and> (\<forall>ref h. \<exists>vr. vf ref h = Inr vr))"

definition recorded :: "State \<Rightarrow> string \<Rightarrow> string \<Rightarrow> bool" where
  "recorded st repo d \<longleftrightarrow> (\<exists>e. GetPolicyState st repo = Some e \<and> psDigest e = d)"

definition cache_ok :: "get_ext \<Rightarrow> verifier_cache \<Rightarrow> bool" where
  "cache_ok x vs \<longleftrightarrow> (case vs of None \<Rightarrow> True | Some m \<Rightarrow> verifiers_ok (gxBuilder x) m)"

lemma resolveVerifier_accepting:
  assumes "accepting x" "cache_ok x vs"
  obtains vs' vo where "resolveVerifier (gxBuilder x) entry ws vs = (vs', Inr vo)" "cache_ok x vs'"
    "\<And>ref h vf. vo = Some vf \<Longrightarrow> \<exists>vr. vf ref h = Inr vr"
proof (cases vs)
  case None
  then show ?thesis using that[of None None] by (simp add: no_cache_no_verifier cache_ok_def)
next
  case (Some m)
  then have m: "verifiers_ok (gxBuilder x) m" using assms(2) by (simp add: cache_ok_def)
  obtain vs' r where r: "resolveVerifier (gxBuilder x) entry ws vs = (vs', r)" by fastforce
  note ch = resolveVerifier_chain[OF m, of entry ws, folded Some, unfolded r fst_conv snd_conv]
  have c: "cache_ok x vs'" using ch(2) by (auto simp: cache_ok_def)
  obtain vo where vo: "r = Inr vo" "\<And>ref h vf. vo = Some vf \<Longrightarrow> \<exists>vr. vf ref h = Inr vr"
  proof (cases "peSkipVerify entry \<or> effective_config entry ws = None")
    case True
    then show ?thesis using that[of None] ch(1) by auto
  next
    case False
    then obtain cfg where cfg: "effective_config entry ws = Some cfg" by auto
    obtain vf where "gxBuilder x cfg = Inr vf" "\<forall>ref h. \<exists>vr. vf ref h = Inr vr" using assms(1) unfolding accepting_def by blast
    then show ?thesis using that[of "Some vf"] ch(1) False cfg by auto
  qed
  show ?thesis using that[of vs' vo] r c vo by blast
qed

lemma recorded_metadata:
  "recorded (gwState (update_metadata x flt c r f w)) repo d \<longleftrightarrow> recorded (gwState w) repo d"
  by (auto simp: recorded_def update_metadata_def Let_def SetPolicyMetadata_def GetPolicyState_def
      split: prod.split sum.split option.split)

lemma update_metadata_healthy:
  assumes "apart rnd d stores" "PolicyStorePath c r \<in> stores" "healthy rnd d stores (gwFs w)"
  shows "healthy rnd d stores (gwFs (update_metadata x no_faults c r f w))"
proof -
  have "healthy rnd d stores (fst (ExtractPolicyMetadata (gxYaml x) (cache_loader (gxBundle x) no_faults c) r v (gwFs w)))" for v
    using hl.metadata_keeps[of rnd d stores c r "gwFs w" "gxYaml x" "gxBundle x" v] assms by blast
  then show ?thesis using assms(3)
    by (auto simp: update_metadata_def Let_def split: prod.split sum.split) (metis fst_conv)+
qed

lemma run_verifier_accepting:
  assumes "\<And>ref h vf. syVerifier sy = Some vf \<Longrightarrow> \<exists>vr. vf ref h = Inr vr"
  obtains vr where "run_verifier sy r t g = Inr vr"
proof (cases "syVerifier sy")
  case None
  then show ?thesis using that by (simp add: run_verifier_def)
next
  case (Some vf)
  then obtain vr where "vf (BuildLookupRef (syRegistryHost sy) r t g) (syInsecure sy) = Inr vr" using assms by blast
  then show ?thesis using that Some by (simp add: run_verifier_def)
qed

lemma NewSync_fields [simp]:
  "syDataDir (NewSync c src d h v) = d" "syCacheDir (NewSync c src d h v) = c" "sySource (NewSync c src d h v) = src"
  "syRegistryHost (NewSync c src d h v) = fst (SplitHostScheme h)"
  by (simp_all add: NewSync_def Let_def case_prod_unfold)

lemma syncSinglePolicy_progress:
  assumes a: "apart (gxRandom x) dataDir stores" "healthy (gxRandom x) dataDir stores (gwFs w)"
    and e: "ParsePolicyRef (peURL entry) = Inr ref" "served x ref d" "PolicyStorePath cacheDir (prRepository ref) \<in> stores"
    and v: "accepting x" "cache_ok x (gwVerifiers w)"
  obtains w' where "syncSinglePolicy x no_faults cacheDir dataDir ws entry w = (w', None)"
    "healthy (gxRandom x) dataDir stores (gwFs w')" "cache_ok x (gwVerifiers w')" "recorded (gwState w') (prRepository ref) d"
    "\<And>repo d'. repo \<noteq> prRepository ref \<Longrightarrow> recorded (gwState w') repo d' = recorded (gwState w) repo d'"
proof -
  obtain vs vo where r: "resolveVerifier (gxBuilder x) entry ws (gwVerifiers w) = (vs, Inr vo)" "cache_ok x vs"
      "\<And>ref h vf. vo = Some vf \<Longrightarrow> \<exists>vr. vf ref h = Inr vr"
    using resolveVerifier_accepting[OF v] by blast
  let ?src = "gxSource x (prRegistry ref)" and ?repo = "prRepository ref" and ?v = "entry_version x ref"
  let ?sy = "NewSync cacheDir ?src dataDir (prRegistry ref) vo"
  obtain t g where c: "classifyVersion ?v = (t, g)" by fastforce
  obtain rv where sv: "?repo \<noteq> []" "fst (SplitHostScheme (prRegistry ref)) \<noteq> []" "digest_ok d"
      "srDefinitionVersion ?src (BuildLookupRef [] ?repo t g) = Inr (d, rv)"
      "\<forall>store. \<exists>desc. snd (srCopy ?src ?repo (if ?v = [] \<or> ?v = ''latest'' then rv else ?v) store) = Inr desc"
    using e(2) unfolding served_def Let_def c prod.case by blast
  obtain vr where vr: "run_verifier ?sy ?repo t g = Inr vr" by (rule run_verifier_accepting[of ?sy]) (use r(3) in auto)
  obtain st s b p where sp: "SyncPolicy no_faults (gxRandom x) (gxNow x) ?sy ?repo ?v (gwState w, gwFs w) = ((st, s), Inr b)"
      "healthy (gxRandom x) dataDir stores s" "GetPolicyState st = (GetPolicyState (gwState w))(?repo \<mapsto> p)" "psDigest p = d"
    by (rule SyncPolicy_progress[of "gxRandom x" ?sy stores "gwFs w" ?repo ?v t g d rv vr "gxNow x" "gwState w"])
       (use a e(3) sv c vr in auto)
  define w1 where "w1 = w\<lparr>gwVerifiers := vs, gwState := st, gwFs := s,
      gwNotes := gwNotes w @ (if b \<and> \<not> (case GetPolicyState st ?repo of None \<Rightarrow> False | Some p \<Rightarrow> psVerified p) then [NUnverified (EffectiveID entry)] else [])\<rparr>"
  have run: "syncSinglePolicy x no_faults cacheDir dataDir ws entry w = (update_metadata x no_faults cacheDir ?repo b w1, None)"
    using e(1) r(1) sp(1) by (simp add: syncSinglePolicy_def entry_version_def w1_def Let_def)
  have st1: "gwState w1 = st" "gwVerifiers w1 = vs" by (simp_all add: w1_def)
  have "healthy (gxRandom x) dataDir stores (gwFs (update_metadata x no_faults cacheDir ?repo b w1))"
    by (rule update_metadata_healthy[OF a(1) e(3)]) (simp add: w1_def sp(2))
  then show ?thesis
    by (rule that[OF run], unfold recorded_metadata update_metadata_verifiers st1)
       (use r(2) sp(3,4) in \<open>auto simp: recorded_def\<close>)
qed

text \<open>The entries with their references and digests.\<close>

definition serves :: "get_ext \<Rightarrow> PolicyEntry \<Rightarrow> string \<Rightarrow> string \<Rightarrow> bool" where
  "serves x entry repo d \<longleftrightarrow> (\<exists>ref. ParsePolicyRef (peURL entry) = Inr ref \<and> prRepository ref = repo \<and> served x ref d)"

lemma sync_each_progress:
  assumes a: "apart (gxRandom x) dataDir stores" and v: "accepting x"
    and "healthy (gxRandom x) dataDir stores (gwFs w)" "cache_ok x (gwVerifiers w)"
    and "list_all2 (\<lambda>entry (repo, d). serves x entry repo d) entries want" "distinct (map fst want)"
    and "\<forall>(repo, d) \<in> set want. PolicyStorePath cacheDir repo \<in> stores"
  shows "\<exists>w'. sync_each (syncSinglePolicy x no_faults cacheDir dataDir ws) entries w = (w', []) \<and>
     healthy (gxRandom x) dataDir stores (gwFs w') \<and> (\<forall>(repo, d) \<in> set want. recorded (gwState w') repo d) \<and>
     (\<forall>repo d. repo \<notin> fst ` set want \<longrightarrow> recorded (gwState w') repo d = recorded (gwState w) repo d)"
  using assms(3-)
proof (induction entries arbitrary: w want)
  case Nil
  then show ?case by auto
next
  case (Cons entry entries)
  obtain repo d rest where w: "want = (repo, d) # rest" "serves x entry repo d"
      "list_all2 (\<lambda>entry (repo, d). serves x entry repo d) entries rest"
    using Cons.prems(3) by (auto simp: list_all2_Cons1)
  obtain ref where ref: "ParsePolicyRef (peURL entry) = Inr ref" "prRepository ref = repo" "served x ref d"
    using w(2) by (auto simp: serves_def)
  obtain w1 where w1: "syncSinglePolicy x no_faults cacheDir dataDir ws entry w = (w1, None)"
      "healthy (gxRandom x) dataDir stores (gwFs w1)" "cache_ok x (gwVerifiers w1)" "recorded (gwState w1) repo d"
      "\<And>r d'. r \<noteq> repo \<Longrightarrow> recorded (gwState w1) r d' = recorded (gwState w) r d'"
    using syncSinglePolicy_progress[OF a Cons.prems(1) ref(1,3) _ v Cons.prems(2), of cacheDir ws] ref(2) Cons.prems(5) w(1) by auto
  obtain w2 where w2: "sync_each (syncSinglePolicy x no_faults cacheDir dataDir ws) entries w1 = (w2, [])"
      "healthy (gxRandom x) dataDir stores (gwFs w2)" "\<forall>(repo, d) \<in> set rest. recorded (gwState w2) repo d"
      "\<forall>repo d. repo \<notin> fst ` set rest \<longrightarrow> recorded (gwState w2) repo d = recorded (gwState w1) repo d"
    using Cons.IH[OF w1(2,3) w(3)] Cons.prems(4,5) w(1) by auto
  have "repo \<notin> fst ` set rest" using Cons.prems(4) w(1) by simp
  then show ?case using w1 w2 w(1) by auto
qed

text \<open>
  Property C33. Get converges: when the registries resolve and serve every configured policy, the
  verifiers accept, nothing fails and the cache is usable with intact stores, get reports no error and
  every policy is recorded with the digest its registry answered, in memory and in \<^verbatim>\<open>state.json\<close>,
  whatever state earlier runs have left; the cache is as healthy as before, so it holds again.
\<close>

theorem get_converges:
  assumes "apart (gxRandom x) dataDir (PolicyStorePath cacheDir ` fst ` set want)"
    and "healthy (gxRandom x) dataDir (PolicyStorePath cacheDir ` fst ` set want) (gwFs w)"
    and "accepting x" "cache_ok x (gwVerifiers w)"
    and "list_all2 (\<lambda>entry (repo, d). serves x entry repo d) policies want" "distinct (map fst want)"
  shows "\<exists>w'. syncAllPolicies x no_faults cacheDir dataDir ws policies w = (w', []) \<and>
    (\<forall>(repo, d) \<in> set want. recorded (gwState w') repo d) \<and>
    go_get (gwFs w') (dataDir @ [StateFileName]) = Some (File (StateDoc (gwState w'))) \<and>
    healthy (gxRandom x) dataDir (PolicyStorePath cacheDir ` fst ` set want) (gwFs w')"
proof -
  let ?S = "PolicyStorePath cacheDir ` fst ` set want"
  obtain w1 where w1: "sync_each (syncSinglePolicy x no_faults cacheDir dataDir ws) policies w = (w1, [])"
      "healthy (gxRandom x) dataDir ?S (gwFs w1)" "\<forall>(repo, d) \<in> set want. recorded (gwState w1) repo d"
    using sync_each_progress[OF assms(1,3,2,4-6), of cacheDir ws] by (auto simp: case_prod_unfold)
  obtain s where s: "SaveState no_faults (gxRandom x) (gwState w1) dataDir (gwFs w1) = (s, None)" "healthy (gxRandom x) dataDir ?S s"
    using SaveState_healthy[OF assms(1) w1(2)] by blast
  have "go_get s (dataDir @ [StateFileName]) = Some (File (StateDoc (gwState w1)))"
    using SaveState_atomic_lemma[of dataDir no_faults "gxRandom x" "gwState w1" "gwFs w1"] assms(1) s(1) by (simp add: apart_def)
  then show ?thesis using w1 s by (simp add: syncAllPolicies_def)
qed

definition served_ext :: get_ext where
  "served_ext = strict_ext\<lparr>gxNewKeyed := (\<lambda>k. Inr (\<lambda>_ _. Inr \<lparr>vrVerified = True, vrSignerIdentity = [], vrIssuer = [], vrVerifiedAt = 1\<rparr>)),
     gxNewKeyless := (\<lambda>_ _ _. Inr (\<lambda>_ _. Inr \<lparr>vrVerified = True, vrSignerIdentity = [], vrIssuer = [], vrVerifiedAt = 1\<rparr>))\<rparr>"

theorem get_converges_witness:
  "\<exists>w'. syncAllPolicies served_ext no_faults [''c''] [''d''] None [keyed_entry]
      \<lparr>gwState = empty_state, gwFs = [], gwVerifiers = None, gwNotes = []\<rparr> = (w', []) \<and> recorded (gwState w') ''policies/nist'' demo_digest"
proof -
  let ?w = "\<lparr>gwState = empty_state, gwFs = [], gwVerifiers = None, gwNotes = []\<rparr>"
  let ?want = "[(''policies/nist'', demo_digest)]"
  have p: "PolicyStorePath [''c''] ''policies/nist'' = [''c'', ''policies'', ''policies'', ''nist'']" by code_simp
  have S: "PolicyStorePath [''c''] ` fst ` set ?want = {[''c'', ''policies'', ''policies'', ''nist'']}" by (simp add: p)
  let ?r = "projr (ParsePolicyRef (peURL keyed_entry))"
  have r: "ParsePolicyRef (peURL keyed_entry) = Inr ?r" "prRepository ?r = ''policies/nist''" "NormalizeHost (prRegistry ?r) \<noteq> []"
    "digest_ok demo_digest" by code_simp+
  have 1: "apart (gxRandom served_ext) [''d''] (PolicyStorePath [''c''] ` fst ` set ?want)"
    unfolding S by (auto simp: apart_def dir_files_def served_ext_def strict_ext_def plain_comp_def under_def)
  have 2: "healthy (gxRandom served_ext) [''d''] (PolicyStorePath [''c''] ` fst ` set ?want) (gwFs ?w)"
    unfolding S by (simp add: healthy_def usable_def store_broken_def go_get_def)
  have 3: "accepting served_ext" by (simp add: accepting_def served_ext_def buildVerifierFromConfig_def)
  have 4: "cache_ok served_ext (gwVerifiers ?w)" by (simp add: cache_ok_def)
  have 5: "list_all2 (\<lambda>entry (repo, d). serves served_ext entry repo d) [keyed_entry] ?want"
    using r by (auto simp: serves_def served_def Let_def SplitHostScheme_def served_ext_def strict_ext_def demo_source_def intro!: exI[of _ ?r] split: prod.split)
  have "distinct (map fst ?want)" by simp
  from get_converges[OF 1 2 3 4 5 this, of None] show ?thesis by auto
qed

end
