(* ===== verification/Logging.thy ===== *)
theory Logging
  imports Generation Workspace
begin

text \<open>
  Logging and the root of the command line: the adapter from the logger interface of the plugin
  library to the terminal logger (\<^verbatim>\<open>pkg/log/log.go\<close>), the log file that is opened on the first write
  (\<^verbatim>\<open>cmd/complyctl/cli/root.go\<close>), what runs before and after a command, the exit code
  (\<^verbatim>\<open>cmd/complyctl/main.go\<close>) and the version text. A logged entry is its level, prefix, message and
  key-value pairs; how it is rendered is a parameter.
\<close>

section \<open>The terminal logger\<close>

text \<open>What the adapter uses of the vendored logger: a threshold, a prefix and fields.\<close>

record charm_logger =
  clLevel :: int
  clPrefix :: string
  clFields :: "string list"

record log_entry =
  leLevel :: int
  lePrefix :: string
  leMessage :: string
  leKeyvals :: "string list"

definition DebugLevel :: int where "DebugLevel = -4"
definition InfoLevel :: int where "InfoLevel = 0"
definition WarnLevel :: int where "WarnLevel = 4"
definition ErrorLevel :: int where "ErrorLevel = 8"
definition FatalLevel :: int where "FatalLevel = 12"

lemmas charm_levels = DebugLevel_def InfoLevel_def WarnLevel_def ErrorLevel_def FatalLevel_def

definition charm_Log :: "charm_logger \<Rightarrow> int \<Rightarrow> string \<Rightarrow> string list \<Rightarrow> log_entry list" where
  "charm_Log l level msg keyvals =
    (if clLevel l > level then []
     else [\<lparr>leLevel = level, lePrefix = clPrefix l, leMessage = msg, leKeyvals = clFields l @ keyvals\<rparr>])"

section \<open>The adapter\<close>

datatype hclog_level = HNoLevel | HTrace | HDebug | HInfo | HWarn | HError | HOff

fun hclog_num :: "hclog_level \<Rightarrow> nat" where
  "hclog_num HNoLevel = 0"
| "hclog_num HTrace = 1"
| "hclog_num HDebug = 2"
| "hclog_num HInfo = 3"
| "hclog_num HWarn = 4"
| "hclog_num HError = 5"
| "hclog_num HOff = 6"

fun hclogCharmLevels :: "hclog_level \<Rightarrow> int" where
  "hclogCharmLevels HNoLevel = InfoLevel"
| "hclogCharmLevels HTrace = DebugLevel"
| "hclogCharmLevels HDebug = DebugLevel"
| "hclogCharmLevels HInfo = InfoLevel"
| "hclogCharmLevels HWarn = WarnLevel"
| "hclogCharmLevels HError = ErrorLevel"
| "hclogCharmLevels HOff = FatalLevel"

record CharmHclog =
  chLogger :: charm_logger
  chLogLevel :: hclog_level

definition NewLogger :: CharmHclog where
  "NewLogger = \<lparr>chLogger = \<lparr>clLevel = InfoLevel, clPrefix = [], clFields = []\<rparr>, chLogLevel = HInfo\<rparr>"

text \<open>The calls of the interface that write; \<^verbatim>\<open>Log\<close> formats its arguments into the message.\<close>

datatype log_call =
    CLog hclog_level string
  | CTrace string "string list"
  | CDebug string "string list"
  | CInfo string "string list"
  | CWarn string "string list"
  | CError string "string list"

fun log_emit :: "CharmHclog \<Rightarrow> log_call \<Rightarrow> log_entry list" where
  "log_emit c (CLog level msg) = charm_Log (chLogger c) (hclogCharmLevels level) msg []"
| "log_emit c (CTrace msg args) = charm_Log (chLogger c) DebugLevel msg args"
| "log_emit c (CDebug msg args) = charm_Log (chLogger c) DebugLevel msg args"
| "log_emit c (CInfo msg args) =
    (if Contains msg ''generated finding for rule''
     then if hclog_num (chLogLevel c) > hclog_num HDebug then [] else charm_Log (chLogger c) DebugLevel msg args
     else charm_Log (chLogger c) InfoLevel msg args)"
| "log_emit c (CWarn msg args) = charm_Log (chLogger c) WarnLevel msg args"
| "log_emit c (CError msg args) = charm_Log (chLogger c) ErrorLevel msg args"

definition log_With :: "CharmHclog \<Rightarrow> string list \<Rightarrow> CharmHclog" where
  "log_With c args = \<lparr>chLogger = (chLogger c)\<lparr>clFields := clFields (chLogger c) @ args\<rparr>, chLogLevel = chLogLevel c\<rparr>"

definition log_Name :: "CharmHclog \<Rightarrow> string" where
  "log_Name c = clPrefix (chLogger c)"

definition log_Named :: "CharmHclog \<Rightarrow> string \<Rightarrow> CharmHclog" where
  "log_Named c name = \<lparr>chLogger = (chLogger c)\<lparr>clPrefix := name\<rparr>, chLogLevel = chLogLevel c\<rparr>"

definition log_ResetNamed :: "CharmHclog \<Rightarrow> string \<Rightarrow> CharmHclog" where
  "log_ResetNamed c name = \<lparr>chLogger = (chLogger c)\<lparr>clPrefix := name\<rparr>, chLogLevel = chLogLevel c\<rparr>"

definition log_SetLevel :: "CharmHclog \<Rightarrow> hclog_level \<Rightarrow> CharmHclog" where
  "log_SetLevel c level = c\<lparr>chLogLevel := level, chLogger := (chLogger c)\<lparr>clLevel := hclogCharmLevels level\<rparr>\<rparr>"

definition log_GetLevel :: "CharmHclog \<Rightarrow> hclog_level" where
  "log_GetLevel c = chLogLevel c"

section \<open>The log file\<close>

text \<open>An open log file is its path and whether it has been closed.\<close>

record lazyLogWriter =
  lwOnce :: bool
  lwFile :: "(path \<times> bool) option"
  lwBaseDir :: string

definition new_log_writer :: lazyLogWriter where
  "new_log_writer = \<lparr>lwOnce = False, lwFile = None, lwBaseDir = []\<rparr>"

definition SetWorkspace :: "string \<Rightarrow> lazyLogWriter \<Rightarrow> lazyLogWriter" where
  "SetWorkspace baseDir w = w\<lparr>lwBaseDir := baseDir\<rparr>"

definition LogFileName :: string where "LogFileName = ''complyctl.log''"

definition log_dir :: "path \<Rightarrow> string \<Rightarrow> path" where
  "log_dir cwd baseDir = os_path cwd (filepath_Join [if baseDir = [] then ''.'' else baseDir, WorkspaceDir])"

definition log_path :: "path \<Rightarrow> string \<Rightarrow> path" where
  "log_path cwd baseDir = os_path cwd (filepath_Join [filepath_Join [if baseDir = [] then ''.'' else baseDir, WorkspaceDir], LogFileName])"

text \<open>\<^verbatim>\<open>os.OpenFile\<close> to create or truncate, and a write through the handle.\<close>

definition fs_OpenTrunc :: "faults \<Rightarrow> path \<Rightarrow> fs \<Rightarrow> fs \<times> bool" where
  "fs_OpenTrunc flt p s =
    (if flt (OpOpen p) \<or> is_dir (go_get s p) \<or> \<not> is_dir (go_get s (butlast p)) then (s, False)
     else (go_put p (File (Raw [])) s, True))"

definition fs_Append :: "faults \<Rightarrow> path \<Rightarrow> string \<Rightarrow> fs \<Rightarrow> fs \<times> bool" where
  "fs_Append flt p d s =
    (if flt (OpWrite p) then (s, False)
     else case go_get s p of
       Some (File (Raw old)) \<Rightarrow> (go_put p (File (Raw (old @ d))) s, True)
     | _ \<Rightarrow> (s, True))"

text \<open>The body of \<^verbatim>\<open>once.Do\<close>, with the warning it prints (less the text of the system's error).\<close>

definition log_open :: "faults \<Rightarrow> path \<Rightarrow> lazyLogWriter \<Rightarrow> fs \<Rightarrow> lazyLogWriter \<times> fs \<times> string" where
  "log_open flt cwd w s =
    (if lwOnce w then (w, s, [])
     else let w1 = w\<lparr>lwOnce := True\<rparr>; p = log_path cwd (lwBaseDir w) in
       if \<not> fs_exists flt (log_dir cwd (lwBaseDir w)) s then (w1, s, [])
       else case fs_OpenTrunc flt p s of
         (s1, False) \<Rightarrow> (w1, s1, ''Warning: failed to open log file'' @ [nl])
       | (s1, True) \<Rightarrow> (w1\<lparr>lwFile := Some (p, False)\<rparr>, s1, []))"

text \<open>\<^verbatim>\<open>Write\<close>: the number of bytes, or an error.\<close>

definition log_Write :: "faults \<Rightarrow> path \<Rightarrow> string \<Rightarrow> lazyLogWriter \<Rightarrow> fs \<Rightarrow> lazyLogWriter \<times> fs \<times> string \<times> nat option" where
  "log_Write flt cwd p w0 s0 =
    (let (w, s, warn) = log_open flt cwd w0 s0 in
     case lwFile w of
       None \<Rightarrow> (w, s, warn, Some (length p))
     | Some (path, closed) \<Rightarrow>
        if closed then (w, s, warn, None)
        else case fs_Append flt path p s of
          (s1, True) \<Rightarrow> (w, s1, warn, Some (length p))
        | (s1, False) \<Rightarrow> (w, s1, warn, None))"

definition log_Close :: "lazyLogWriter \<Rightarrow> lazyLogWriter \<times> bool" where
  "log_Close w =
    (case lwFile w of
       None \<Rightarrow> (w, True)
     | Some (path, closed) \<Rightarrow> (w\<lparr>lwFile := Some (path, True)\<rparr>, \<not> closed))"

section \<open>The command line\<close>

record cli_world =
  cwFs :: fs
  cwLog :: lazyLogWriter
  cwStderr :: string
  cwLogger :: CharmHclog
  cwTee :: bool

record Common =
  coDebug :: bool
  coWorkspace :: string

definition new_cli :: "fs \<Rightarrow> cli_world" where
  "new_cli s = \<lparr>cwFs = s, cwLog = new_log_writer, cwStderr = [], cwLogger = NewLogger, cwTee = False\<rparr>"

text \<open>
  One rendered entry reaches the writer of the logger: the log file, or the tee writer, which gives
  the log file its copy first and whose result is that of standard error.
\<close>

definition log_line :: "faults \<Rightarrow> path \<Rightarrow> string \<Rightarrow> cli_world \<Rightarrow> cli_world" where
  "log_line flt cwd line w =
    (let (lw, s, warn, n) = log_Write flt cwd line (cwLog w) (cwFs w);
         w1 = w\<lparr>cwLog := lw, cwFs := s, cwStderr := cwStderr w @ warn\<rparr> in
     if cwTee w then w1\<lparr>cwStderr := cwStderr w1 @ line\<rparr> else w1)"

definition log_call_cli :: "(log_entry \<Rightarrow> string) \<Rightarrow> faults \<Rightarrow> path \<Rightarrow> log_call \<Rightarrow> cli_world \<Rightarrow> cli_world" where
  "log_call_cli render flt cwd c w = foldl (\<lambda>w e. log_line flt cwd (render e) w) w (log_emit (cwLogger w) c)"

definition enableDebug :: "Common \<Rightarrow> cli_world \<Rightarrow> cli_world" where
  "enableDebug opts w =
    (if coDebug opts then w\<lparr>cwTee := True, cwLogger := log_SetLevel NewLogger HDebug\<rparr> else w)"

text \<open>\<^verbatim>\<open>PersistentPreRun\<close>; the text of the legacy warning is a parameter.\<close>

definition PersistentPreRun :: "(string \<times> string \<times> string \<Rightarrow> string) \<Rightarrow> osenv \<Rightarrow> Common \<Rightarrow> cli_world \<Rightarrow> cli_world" where
  "PersistentPreRun legacy os opts w =
    (let baseDir = (case ResolveWorkspaceDir os (coWorkspace opts) of Inl _ \<Rightarrow> ''.'' | Inr b \<Rightarrow> b);
         w1 = enableDebug opts (w\<lparr>cwLog := SetWorkspace baseDir (cwLog w)\<rparr>);
         resolvedBase = (if lwBaseDir (cwLog w1) = [] then ''.'' else lwBaseDir (cwLog w1));
         w2 = (if coDebug opts
               then w1\<lparr>cwStderr := cwStderr w1 @ ''Debug log: '' @ filepath_Join [resolvedBase, WorkspaceDir, LogFileName] @ [nl]\<rparr>
               else w1) in
     case CheckLegacyDir os of
       None \<Rightarrow> w2
     | Some dirs \<Rightarrow> w2\<lparr>cwStderr := cwStderr w2 @ legacy dirs\<rparr>)"

text \<open>
  How a command ends: an error before it runs (unknown command or flag, wrong arguments), an error of
  the command, or success; a command logs while it runs.
\<close>

datatype outcome = ParseFailed string | RunFailed "log_call list" string | RunOK "log_call list"

definition run_logs :: "(log_entry \<Rightarrow> string) \<Rightarrow> faults \<Rightarrow> path \<Rightarrow> log_call list \<Rightarrow> cli_world \<Rightarrow> cli_world" where
  "run_logs render flt cwd cs w = foldl (\<lambda>w c. log_call_cli render flt cwd c w) w cs"

definition report_error :: "(log_entry \<Rightarrow> string) \<Rightarrow> faults \<Rightarrow> path \<Rightarrow> string \<Rightarrow> cli_world \<Rightarrow> cli_world" where
  "report_error render flt cwd e w =
    (let w1 = log_call_cli render flt cwd (CError (''error running complytime: '' @ e) []) w in
     w1\<lparr>cwStderr := cwStderr w1 @ ''Error: '' @ e @ [nl]\<rparr>)"

definition complyctl_main ::
    "(log_entry \<Rightarrow> string) \<Rightarrow> (string \<times> string \<times> string \<Rightarrow> string) \<Rightarrow> faults \<Rightarrow> path \<Rightarrow> osenv \<Rightarrow> Common \<Rightarrow> outcome \<Rightarrow> fs \<Rightarrow> cli_world \<times> nat" where
  "complyctl_main render legacy flt cwd os opts r s =
    (case r of
       ParseFailed e \<Rightarrow> (report_error render flt cwd e (new_cli s), 1)
     | RunFailed cs e \<Rightarrow> (report_error render flt cwd e (run_logs render flt cwd cs (PersistentPreRun legacy os opts (new_cli s))), 1)
     | RunOK cs \<Rightarrow>
        (let w = run_logs render flt cwd cs (PersistentPreRun legacy os opts (new_cli s)) in
         (w\<lparr>cwLog := fst (log_Close (cwLog w))\<rparr>, 0)))"

section \<open>Version\<close>

record build_info =
  biVersion :: string
  biGitTreeState :: string
  biCommit :: string
  biBuildDate :: string
  biGoVersion :: string
  biGOOS :: string
  biGOARCH :: string

definition WriteVersion :: "build_info \<Rightarrow> string" where
  "WriteVersion b =
    (let version = (if biVersion b = [] then ''v0.0.0-unknown'' else biVersion b);
         versionWithState = (if biGitTreeState b \<noteq> [] then version @ ''+'' @ biGitTreeState b else version);
         tab = [CHR 0x09] in
     ''Version:'' @ tab @ versionWithState @ [nl] @ ''Go Version:'' @ tab @ biGoVersion b @ [nl] @
     ''Git Commit:'' @ tab @ biCommit b @ [nl] @ ''Build Date:'' @ tab @ biBuildDate b @ [nl] @
     ''Platform:'' @ tab @ biGOOS b @ ''/'' @ biGOARCH b @ [nl])"

section \<open>The level of a logger\<close>

text \<open>Every logger of the program is made by \<^verbatim>\<open>NewLogger\<close> and changed by the calls of the interface.\<close>

inductive made_logger :: "CharmHclog \<Rightarrow> bool" where
  new: "made_logger NewLogger"
| "with": "made_logger c \<Longrightarrow> made_logger (log_With c args)"
| named: "made_logger c \<Longrightarrow> made_logger (log_Named c name)"
| reset: "made_logger c \<Longrightarrow> made_logger (log_ResetNamed c name)"
| level: "made_logger c \<Longrightarrow> made_logger (log_SetLevel c l)"

lemma made_logger_level: "made_logger c \<Longrightarrow> clLevel (chLogger c) = hclogCharmLevels (chLogLevel c)"
  by (induction rule: made_logger.induct)
    (simp_all add: NewLogger_def log_With_def log_Named_def log_ResetNamed_def log_SetLevel_def)

text \<open>The level at which a call is documented to log: a finding of a rule is a debug message.\<close>

fun call_level :: "log_call \<Rightarrow> int" where
  "call_level (CLog level msg) = hclogCharmLevels level"
| "call_level (CTrace msg args) = DebugLevel"
| "call_level (CDebug msg args) = DebugLevel"
| "call_level (CInfo msg args) = (if Contains msg ''generated finding for rule'' then DebugLevel else InfoLevel)"
| "call_level (CWarn msg args) = WarnLevel"
| "call_level (CError msg args) = ErrorLevel"

lemma made_logger_emits:
  assumes "made_logger c"
  shows "log_emit c k = [] \<longleftrightarrow> call_level k < hclogCharmLevels (log_GetLevel c) \<or>
    (log_GetLevel c = HNoLevel \<and> call_level k < InfoLevel)"
  using made_logger_level[OF assms]
  by (cases k; cases "chLogLevel c") (simp_all add: charm_Log_def log_GetLevel_def charm_levels)

section \<open>One log file per run\<close>

text \<open>The calls the process makes on its writer, in any order.\<close>

datatype log_event = EvWorkspace string | EvWrite string

fun log_run :: "faults \<Rightarrow> path \<Rightarrow> log_event list \<Rightarrow> lazyLogWriter \<Rightarrow> fs \<Rightarrow> lazyLogWriter \<times> fs \<times> nat option list" where
  "log_run flt cwd [] w s = (w, s, [])"
| "log_run flt cwd (EvWorkspace b # evs) w s = log_run flt cwd evs (SetWorkspace b w) s"
| "log_run flt cwd (EvWrite p # evs) w s =
    (let (w1, s1, warn, n) = log_Write flt cwd p w s; (w2, s2, ns) = log_run flt cwd evs w1 s1 in (w2, s2, n # ns))"

text \<open>The workspace in force at the first write, and the bytes written.\<close>

fun log_base :: "string \<Rightarrow> log_event list \<Rightarrow> string" where
  "log_base b [] = b"
| "log_base b (EvWorkspace b' # evs) = log_base b' evs"
| "log_base b (EvWrite p # evs) = b"

fun log_writes :: "log_event list \<Rightarrow> string list" where
  "log_writes [] = []"
| "log_writes (EvWorkspace b # evs) = log_writes evs"
| "log_writes (EvWrite p # evs) = p # log_writes evs"

definition log_usable :: "path \<Rightarrow> string \<Rightarrow> fs \<Rightarrow> bool" where
  "log_usable cwd b s \<longleftrightarrow> go_has s (log_dir cwd b) \<and>
     \<not> is_dir (go_get s (log_path cwd b)) \<and> is_dir (go_get s (butlast (log_path cwd b)))"

text \<open>A log file that is open, or that will never be.\<close>

lemma log_run_open:
  "lwOnce w \<Longrightarrow> lwFile w = Some (f, False) \<Longrightarrow> go_get s f = Some (File (Raw old)) \<Longrightarrow>
   log_run no_faults cwd evs w s = (w', s', ns) \<Longrightarrow>
   go_get s' q = (if q = f then Some (File (Raw (old @ concat (log_writes evs)))) else go_get s q) \<and>
   ns = map (\<lambda>p. Some (length p)) (log_writes evs)"
proof (induction evs arbitrary: w s old ns)
  case (Cons e evs)
  show ?case
  proof (cases e)
    case (EvWorkspace b)
    with Cons.prems Cons.IH[of "SetWorkspace b w" s old] show ?thesis by (simp add: SetWorkspace_def)
  next
    case (EvWrite p)
    have "log_Write no_faults cwd p w s = (w, go_put f (File (Raw (old @ p))) s, [], Some (length p))"
      using Cons.prems(1-3) by (simp add: log_Write_def log_open_def fs_Append_def)
    then obtain ns' where r: "log_run no_faults cwd evs w (go_put f (File (Raw (old @ p))) s) = (w', s', ns')"
      "ns = Some (length p) # ns'"
      using Cons.prems(4) EvWrite by (auto split: prod.splits)
    from Cons.IH[OF Cons.prems(1,2) _ r(1), of "old @ p"] r(2) EvWrite show ?thesis by simp
  qed
qed simp

lemma log_run_none:
  "lwOnce w \<Longrightarrow> lwFile w = None \<Longrightarrow> log_run flt cwd evs w s = (w', s', ns) \<Longrightarrow>
   s' = s \<and> ns = map (\<lambda>p. Some (length p)) (log_writes evs)"
proof (induction evs arbitrary: w ns)
  case (Cons e evs)
  show ?case
  proof (cases e)
    case (EvWorkspace b)
    with Cons.prems Cons.IH[of "SetWorkspace b w"] show ?thesis by (simp add: SetWorkspace_def)
  next
    case (EvWrite p)
    have "log_Write flt cwd p w s = (w, s, [], Some (length p))"
      using Cons.prems(1,2) by (simp add: log_Write_def log_open_def)
    then obtain ns' where r: "log_run flt cwd evs w s = (w', s', ns')" "ns = Some (length p) # ns'"
      using Cons.prems(3) EvWrite by (auto split: prod.splits)
    from Cons.IH[OF Cons.prems(1,2) r(1)] r(2) EvWrite show ?thesis by simp
  qed
qed simp

lemma log_first_write:
  assumes "\<not> lwOnce w" "lwFile w = None"
  shows "log_Write no_faults cwd p w s =
    (let b = lwBaseDir w; f = log_path cwd b in
     if log_usable cwd b s
     then (w\<lparr>lwOnce := True, lwFile := Some (f, False)\<rparr>, go_put f (File (Raw p)) (go_put f (File (Raw [])) s), [], Some (length p))
     else (w\<lparr>lwOnce := True\<rparr>, s, if go_has s (log_dir cwd b) then ''Warning: failed to open log file'' @ [nl] else [], Some (length p)))"
  using assms
  by (auto simp: log_Write_def log_open_def log_usable_def fs_exists_def fs_OpenTrunc_def fs_Append_def Let_def
      simp del: go_has_keys)

text \<open>
  The log of a run goes to one file: the workspace in force at the first write decides it, and later
  calls of \<^verbatim>\<open>SetWorkspace\<close> do not move it. If the \<^verbatim>\<open>.complytime\<close> directory of that workspace exists and the
  file can be opened, the file ends up holding exactly the bytes of this run; otherwise the run leaves
  no trace, and no directory is created in either case.
\<close>

lemma log_run_file:
  assumes "\<not> lwOnce w" "lwFile w = None" "log_run no_faults cwd evs w s = (w', s', ns)"
  shows "ns = map (\<lambda>p. Some (length p)) (log_writes evs) \<and>
    (\<forall>q. go_get s' q =
      (if log_writes evs \<noteq> [] \<and> log_usable cwd (log_base (lwBaseDir w) evs) s \<and> q = log_path cwd (log_base (lwBaseDir w) evs)
       then Some (File (Raw (concat (log_writes evs)))) else go_get s q))"
  using assms
proof (induction evs arbitrary: w)
  case (Cons e evs)
  show ?case
  proof (cases e)
    case (EvWorkspace b)
    with Cons.prems Cons.IH[of "SetWorkspace b w"] show ?thesis by (simp add: SetWorkspace_def)
  next
    case (EvWrite p)
    let ?b = "lwBaseDir w"
    note fw = log_first_write[OF Cons.prems(1,2), of cwd p s]
    show ?thesis
    proof (cases "log_usable cwd ?b s")
      case True
      let ?f = "log_path cwd ?b" let ?w = "w\<lparr>lwOnce := True, lwFile := Some (?f, False)\<rparr>"
      let ?s = "go_put ?f (File (Raw p)) (go_put ?f (File (Raw [])) s)"
      obtain ns' where r: "log_run no_faults cwd evs ?w ?s = (w', s', ns')" "ns = Some (length p) # ns'"
        using Cons.prems(3) EvWrite fw True by (auto simp: Let_def split: prod.splits)
      from log_run_open[OF _ _ _ r(1), of ?f p] r(2) EvWrite True show ?thesis by simp
    next
      case False
      obtain ns' where r: "log_run no_faults cwd evs (w\<lparr>lwOnce := True\<rparr>) s = (w', s', ns')" "ns = Some (length p) # ns'"
        using Cons.prems(3) EvWrite fw False by (auto simp: Let_def split: prod.splits)
      from log_run_none[OF _ _ r(1)] r(2) EvWrite False Cons.prems(2) show ?thesis by simp
    qed
  qed
qed simp

section \<open>How a run ends\<close>

text \<open>The calls of a run on its logger, the logger, and the workspace its log belongs to.\<close>

fun run_error :: "outcome \<Rightarrow> string option" where
  "run_error (ParseFailed e) = Some e"
| "run_error (RunFailed cs e) = Some e"
| "run_error (RunOK cs) = None"

fun run_calls :: "outcome \<Rightarrow> log_call list" where
  "run_calls (ParseFailed e) = [CError (''error running complytime: '' @ e) []]"
| "run_calls (RunFailed cs e) = cs @ [CError (''error running complytime: '' @ e) []]"
| "run_calls (RunOK cs) = cs"

fun run_logger :: "Common \<Rightarrow> outcome \<Rightarrow> CharmHclog" where
  "run_logger opts (ParseFailed e) = NewLogger"
| "run_logger opts r = (if coDebug opts then log_SetLevel NewLogger HDebug else NewLogger)"

fun run_base :: "osenv \<Rightarrow> Common \<Rightarrow> outcome \<Rightarrow> string" where
  "run_base os opts (ParseFailed e) = []"
| "run_base os opts r = (case ResolveWorkspaceDir os (coWorkspace opts) of Inl _ \<Rightarrow> ''.'' | Inr b \<Rightarrow> b)"

definition run_entries :: "Common \<Rightarrow> outcome \<Rightarrow> log_entry list" where
  "run_entries opts r = concat (map (log_emit (run_logger opts r)) (run_calls r))"

text \<open>The writer and the files see the calls of a run as writes of the rendered entries.\<close>

lemma log_run_append:
  "log_run flt cwd (a @ b) w s =
    (let (w1, s1, n1) = log_run flt cwd a w s; (w2, s2, n2) = log_run flt cwd b w1 s1 in (w2, s2, n1 @ n2))"
  by (induction flt cwd a w s rule: log_run.induct) (auto simp: Let_def split: prod.splits)

lemma log_lines_run:
  "(\<exists>ns. log_run flt cwd (map EvWrite ls) (cwLog w) (cwFs w) =
     (cwLog (foldl (\<lambda>w l. log_line flt cwd l w) w ls), cwFs (foldl (\<lambda>w l. log_line flt cwd l w) w ls), ns)) \<and>
   cwLogger (foldl (\<lambda>w l. log_line flt cwd l w) w ls) = cwLogger w"
proof (induction ls arbitrary: w)
  case (Cons l ls)
  obtain lw s warn n where r: "log_Write flt cwd l (cwLog w) (cwFs w) = (lw, s, warn, n)"
    by (cases "log_Write flt cwd l (cwLog w) (cwFs w)") auto
  then have "cwLog (log_line flt cwd l w) = lw" "cwFs (log_line flt cwd l w) = s"
    "cwLogger (log_line flt cwd l w) = cwLogger w" by (auto simp: log_line_def Let_def)
  with Cons.IH[of "log_line flt cwd l w"] r show ?case by auto
qed simp

lemma log_call_lines:
  "log_call_cli render flt cwd c w = foldl (\<lambda>w l. log_line flt cwd l w) w (map render (log_emit (cwLogger w) c))"
  by (simp add: log_call_cli_def foldl_map)

lemma run_logs_run:
  "(\<exists>ns. log_run flt cwd (map EvWrite (map render (concat (map (log_emit (cwLogger w)) cs)))) (cwLog w) (cwFs w) =
     (cwLog (run_logs render flt cwd cs w), cwFs (run_logs render flt cwd cs w), ns)) \<and>
   cwLogger (run_logs render flt cwd cs w) = cwLogger w"
proof (induction cs arbitrary: w)
  case (Cons c cs)
  let ?w = "log_call_cli render flt cwd c w"
  note l = log_lines_run[of flt cwd "map render (log_emit (cwLogger w) c)" w, folded log_call_lines]
  with Cons.IH[of ?w] show ?case by (auto simp: run_logs_def log_run_append)
qed (simp add: run_logs_def)

lemma log_writes_writes [simp]: "log_writes (map EvWrite ls) = ls"
  by (induction ls) auto

lemma log_base_writes [simp]: "log_base b (map EvWrite ls) = b"
  by (cases ls) auto

lemma run_logs_fs:
  assumes "\<not> lwOnce (cwLog w)" "lwFile (cwLog w) = None"
  shows "go_get (cwFs (run_logs render no_faults cwd cs w)) q =
    (let es = concat (map (log_emit (cwLogger w)) cs); b = lwBaseDir (cwLog w) in
     if es \<noteq> [] \<and> log_usable cwd b (cwFs w) \<and> q = log_path cwd b
     then Some (File (Raw (concat (map render es)))) else go_get (cwFs w) q)"
proof -
  let ?es = "concat (map (log_emit (cwLogger w)) cs)"
  obtain ns where "log_run no_faults cwd (map EvWrite (map render (concat (map (log_emit (cwLogger w)) cs)))) (cwLog w) (cwFs w) =
     (cwLog (run_logs render no_faults cwd cs w), cwFs (run_logs render no_faults cwd cs w), ns)"
    using run_logs_run by blast
  then have "log_run no_faults cwd (map EvWrite (map render ?es)) (cwLog w) (cwFs w) =
     (cwLog (run_logs render no_faults cwd cs w), cwFs (run_logs render no_faults cwd cs w), ns)" .
  from log_run_file[OF assms this] show ?thesis
    unfolding Let_def log_writes_writes log_base_writes by (metis map_is_Nil_conv)
qed

definition run_start :: "(string \<times> string \<times> string \<Rightarrow> string) \<Rightarrow> osenv \<Rightarrow> Common \<Rightarrow> outcome \<Rightarrow> fs \<Rightarrow> cli_world" where
  "run_start legacy os opts r s =
    (case r of ParseFailed e \<Rightarrow> new_cli s | _ \<Rightarrow> PersistentPreRun legacy os opts (new_cli s))"

lemma run_start_fields:
  "cwFs (run_start legacy os opts r s) = s" "cwLogger (run_start legacy os opts r s) = run_logger opts r"
  "\<not> lwOnce (cwLog (run_start legacy os opts r s))" "lwFile (cwLog (run_start legacy os opts r s)) = None"
  "lwBaseDir (cwLog (run_start legacy os opts r s)) = run_base os opts r"
  by (cases r; auto simp: run_start_def PersistentPreRun_def new_cli_def new_log_writer_def enableDebug_def
      SetWorkspace_def Let_def split: option.splits sum.splits)+

lemma main_fs:
  "cwFs (fst (complyctl_main render legacy flt cwd os opts r s)) =
    cwFs (run_logs render flt cwd (run_calls r) (run_start legacy os opts r s))"
  by (cases r) (simp_all add: complyctl_main_def run_start_def report_error_def run_logs_def Let_def)

text \<open>
  Property C35. How a run of \<^verbatim>\<open>complyctl\<close> ends. The exit code is 0 exactly when the command succeeded; a failed
  run ends standard error with its error, whatever fails in the log. On a file system without faults the
  log file of the run's workspace then holds exactly the rendered entries of this run at its level, the
  error included, provided the \<^verbatim>\<open>.complytime\<close> directory is there and the file can be opened; nothing else
  changes, in particular no directory is created. The workspace is the resolved one when the command
  line was accepted, and the current directory when it was not.
\<close>

theorem run_log_and_exit:
  "let (w, code) = complyctl_main render legacy flt cwd os opts r s;
       (v, _) = complyctl_main render legacy no_faults cwd os opts r s;
       b = run_base os opts r in
   (code = 0 \<longleftrightarrow> run_error r = None) \<and>
   (case run_error r of None \<Rightarrow> True | Some e \<Rightarrow> HasSuffix (cwStderr w) (''Error: '' @ e @ [nl])) \<and>
   go_get (cwFs v) q =
     (if run_entries opts r \<noteq> [] \<and> log_usable cwd b s \<and> q = log_path cwd b
      then Some (File (Raw (concat (map render (run_entries opts r))))) else go_get s q)"
proof -
  let ?m = "complyctl_main render legacy flt cwd os opts r s"
  have c: "snd ?m = 0 \<longleftrightarrow> run_error r = None"
    by (cases r) (simp_all add: complyctl_main_def Let_def)
  have e: "case run_error r of None \<Rightarrow> True | Some e \<Rightarrow> HasSuffix (cwStderr (fst ?m)) (''Error: '' @ e @ [nl])"
    by (cases r) (simp_all add: complyctl_main_def report_error_def Let_def HasSuffix_append del: append_Cons)
  have f: "go_get (cwFs (fst (complyctl_main render legacy no_faults cwd os opts r s))) q =
     (if run_entries opts r \<noteq> [] \<and> log_usable cwd (run_base os opts r) s \<and> q = log_path cwd (run_base os opts r)
      then Some (File (Raw (concat (map render (run_entries opts r))))) else go_get s q)"
    using run_logs_fs[OF run_start_fields(3,4), of render cwd "run_calls r" legacy os opts r s q]
    unfolding main_fs run_start_fields run_entries_def Let_def .
  show ?thesis using c e f by (simp add: Let_def split_beta)
qed

text \<open>An error is logged at every level but \<^verbatim>\<open>Off\<close>, so a failed run always has an entry.\<close>

lemma failed_run_logged: "run_error r = Some e \<Longrightarrow> run_entries opts r \<noteq> []"
  by (cases r) (auto simp: run_entries_def charm_Log_def log_SetLevel_def NewLogger_def charm_levels)

end
