(* ===== verification/Sync_Loader.thy ===== *)
theory Sync_Loader
  imports Recovery
begin

text \<open>
  From the sync to the loader: what a sync that fetched a policy has written is what the loader opens, so
  the version the sync recorded resolves and its layers are those of the copied artifact.
\<close>

lemma NewPolicyStore_index:
  assumes "NewPolicyStore no_faults c pid s = (s1, Inr store)"
  shows "store = empty_oci \<or> go_get s (PolicyStorePath c pid @ [oci_index_file]) = Some (File (OciDoc store))"
proof -
  let ?p = "PolicyStorePath c pid"
  obtain s0 where m: "fs_MkdirAll no_faults ?p s = (s0, True)" "oci_New no_faults ?p s0 = (s1, Some store)"
    using assms by (auto simp: NewPolicyStore_def Let_def split: prod.splits bool.splits option.splits)
  have i: "go_get s0 (?p @ [oci_index_file]) = go_get s (?p @ [oci_index_file])"
    using fs_MkdirAll_get[of no_faults ?p s "?p @ [oci_index_file]"] m(1) by simp
  have w: "go_get (fst (fs_WriteFile no_faults (?p @ [oci_layout_file]) d s0)) (?p @ [oci_index_file]) = go_get s0 (?p @ [oci_index_file])" for d
    by (rule fs_WriteFile_other) simp
  obtain s9 b where k: "(case fs_ReadFile no_faults (?p @ [oci_layout_file]) s0 of
             NoDoc \<Rightarrow> fs_WriteFile no_faults (?p @ [oci_layout_file]) (Raw ''layout'') s0
           | UnreadableDoc \<Rightarrow> (s0, False)
           | Doc d \<Rightarrow> (s0, d = Raw ''layout'')) = (s9, b)" by fastforce
  have g: "go_get s9 (?p @ [oci_index_file]) = go_get s (?p @ [oci_index_file])"
    using k w[of "Raw ''layout''"] i by (auto split: read_doc.splits)
  show ?thesis using m(2) g unfolding oci_New_def Let_def k
    by (auto simp: fs_ReadFile_def split: bool.splits option.splits node.splits fdata.splits prod.splits)
qed

text \<open>Saving the state leaves the stores as they are.\<close>

lemma SaveState_keeps_store:
  assumes "apart rnd dd stores" "healthy rnd dd stores s" "p \<in> stores" "store_at p s store"
    "SaveState no_faults rnd st dd s = (s', None)"
  shows "store_at p s' store" "snd (fs_MkdirAll no_faults p s')"
proof -
  let ?sp = "dd @ [StateFileName]" and ?t = "dd @ [state_tmp rnd]"
  have h: "abs_path dd" "usable dd s" "go_get s ?t = None" "\<not> is_dir (go_get s ?sp)"
    using assms(1,2) by (auto simp: apart_def healthy_def)
  have g: "go_get s' q = (if q \<noteq> [] \<and> under q dd then Some Dir else go_get s q)" if "\<not> under ?sp q" "\<not> under ?t q" for q
  proof -
    obtain s'' where "SaveState no_faults rnd st dd s = (s'', None)"
      "\<And>q. \<not> under ?sp q \<Longrightarrow> \<not> under ?t q \<Longrightarrow> go_get s'' q = (if q \<noteq> [] \<and> under q dd then Some Dir else go_get s q)"
      using SaveState_ok[OF h] by blast
    with that assms(5) show ?thesis by simp
  qed
  have f: "\<not> under ?sp p" "\<not> under ?t p" using assms(1,3) by (auto simp: apart_def dir_files_def)
  have n: "\<not> under ?sp (p @ [x])" "\<not> under ?t (p @ [x])" if "x \<in> {oci_layout_file, oci_index_file}" for x
    using under_snocD[of dd StateFileName p x] under_snocD[of dd "state_tmp rnd" p x] f that by auto
  have d: "\<not> under (p @ [x]) dd" if "x \<in> {oci_layout_file, oci_index_file}" for x
  proof -
    have "p @ [x] \<in> dir_files rnd dd stores" using assms(3) that by (auto simp: dir_files_def)
    with assms(1) show ?thesis by (auto simp: apart_def)
  qed
  show "store_at p s' store"
    using assms(4) g[OF f] g[OF n[of oci_layout_file]] g[OF n[of oci_index_file]] d[of oci_layout_file] d[of oci_index_file]
    by (auto simp: store_at_def)
  obtain s'' where "SaveState no_faults rnd st dd s = (s'', None)" "healthy rnd dd stores s''"
    using SaveState_healthy[OF assms(1,2)] by blast
  then have "usable p s'" using assms(3,5) by (auto simp: healthy_def)
  then show "snd (fs_MkdirAll no_faults p s')" using MkdirAll_usable by (metis snd_conv)
qed

text \<open>The store after a sync that fetched.\<close>

lemma SyncPolicy_store:
  assumes "apart rnd (syDataDir sy) stores" "healthy rnd (syDataDir sy) stores s" "PolicyStorePath (syCacheDir sy) pid \<in> stores"
    and "SyncPolicy no_faults rnd now sy pid v (st, s) = ((st', s'), Inr True)"
  obtains rv d store store' desc where
    "srDefinitionVersion (sySource sy) (BuildLookupRef [] pid (fst (classifyVersion v)) (snd (classifyVersion v))) = Inr (d, rv)"
    "store = empty_oci \<or> go_get s (PolicyStorePath (syCacheDir sy) pid @ [oci_index_file]) = Some (File (OciDoc store))"
    "srCopy (sySource sy) pid (if v = [] \<or> v = ''latest'' then rv else v) store = (store', Inr desc)"
    "store_at (PolicyStorePath (syCacheDir sy) pid) s' store'"
    "snd (NewPolicyStore no_faults (syCacheDir sy) pid s') = Inr store'"
  using assms(4)
proof (rule SyncPolicy_True)
  fix d rv vr s1 store store' s2
  let ?p = "PolicyStorePath (syCacheDir sy) pid"
  assume a: "srDefinitionVersion (sySource sy) (BuildLookupRef [] pid (fst (classifyVersion v)) (snd (classifyVersion v))) = Inr (d, rv)"
    "NewPolicyStore no_faults (syCacheDir sy) pid s = (s1, Inr store)"
    "\<exists>desc. srCopy (sySource sy) pid (if v = [] \<or> v = ''latest'' then rv else v) store = (store', Inr desc)"
    "s2 = write_store ?p store' s1" "SaveState no_faults rnd st' (syDataDir sy) s2 = (s', None)"
  have u: "usable ?p s" "\<not> store_broken ?p s" using assms(2,3) by (auto simp: healthy_def)
  obtain t1 store1 where n: "NewPolicyStore no_faults (syCacheDir sy) pid s = (t1, Inr store1)"
    "\<And>q. go_get t1 q = (if q \<noteq> [] \<and> under q ?p then Some Dir
        else if q = ?p @ [oci_layout_file] then Some (File (Raw ''layout''))
        else if q = ?p @ [oci_index_file] then Some (File (OciDoc store1)) else go_get s q)"
    using NewPolicyStore_ok[OF u] by blast
  have t: "t1 = s1" using n(1) a(2) by simp
  have "healthy rnd (syDataDir sy) stores s1"
    using NewPolicyStore_healthy[OF assms(1-3)] a(2) by (metis prod.inject)
  then have h: "healthy rnd (syDataDir sy) stores s2" unfolding a(4) by (rule write_store_healthy[OF assms(1) _ assms(3)])
  have "?p \<noteq> []" using u(1) by (simp add: usable_def)
  then have "store_at ?p s2 store'" using n(2) unfolding t by (simp add: store_at_def a(4) write_store_def)
  note k = SaveState_keeps_store[OF assms(1) h assms(3) this a(5)]
  then have "snd (NewPolicyStore no_faults (syCacheDir sy) pid s') = Inr store'" by (intro NewPolicyStore_open)
  with that[OF a(1) NewPolicyStore_index[OF a(2)] _ k(1)] a(3) show thesis by blast
qed

lemma LoadLayer_of_store:
  assumes "snd (NewPolicyStore no_faults c pid s) = Inr store" "pid \<noteq> []" "ver \<noteq> []" "mt \<noteq> []"
    "resolveManifest store pid ver = Inr mf" "List.find (\<lambda>l. dsMediaType l = mt) (mfLayers mf) = Some l" "oci_Fetch store l = Some (BBytes data)"
  shows "snd (LoadLayerByMediaType no_faults c pid ver mt s) = Inr data"
  using assms by (cases "NewPolicyStore no_faults c pid s") (simp add: LoadLayerByMediaType_def)

text \<open>
  What get fetched, scan and generate find: after a sync that fetched a policy on a healthy
  cache, the loader opens exactly the store the copy returned, and resolves the configured version to
  the requested one (\<^verbatim>\<open>latest\<close> when none is configured), provided the registry answers a lookup of
  the default version with \<^verbatim>\<open>latest\<close> and a copy tags the destination with the version, as the client
  library documents.
\<close>

theorem sync_then_resolve:
  assumes "apart rnd (syDataDir sy) stores" "healthy rnd (syDataDir sy) stores s" "PolicyStorePath (syCacheDir sy) pid \<in> stores"
    and "SyncPolicy no_faults rnd now sy pid v (st, s) = ((st', s'), Inr True)"
    and "\<And>d rv. srDefinitionVersion (sySource sy) (BuildLookupRef [] pid (fst (classifyVersion v)) (snd (classifyVersion v))) = Inr (d, rv) \<Longrightarrow>
      v = [] \<or> v = ''latest'' \<Longrightarrow> rv = ''latest''"
    and "\<And>store store' desc. srCopy (sySource sy) pid (wanted v) store = (store', Inr desc) \<Longrightarrow> oci_Resolve store' (wanted v) = Some desc"
  shows "snd (ResolveVersion no_faults (syCacheDir sy) pid v s') = Inr (wanted v) \<and>
    (\<exists>store store' desc. srCopy (sySource sy) pid (wanted v) store = (store', Inr desc) \<and>
       snd (NewPolicyStore no_faults (syCacheDir sy) pid s') = Inr store')"
proof -
  obtain rv d store store' desc where
    k: "srDefinitionVersion (sySource sy) (BuildLookupRef [] pid (fst (classifyVersion v)) (snd (classifyVersion v))) = Inr (d, rv)"
    "srCopy (sySource sy) pid (if v = [] \<or> v = ''latest'' then rv else v) store = (store', Inr desc)"
    "snd (NewPolicyStore no_faults (syCacheDir sy) pid s') = Inr store'"
    by (rule SyncPolicy_store[OF assms(1-4)])
  have "(if v = [] \<or> v = ''latest'' then rv else v) = wanted v" using assms(5)[OF k(1)] by (simp add: wanted_def)
  with k(2) have cp: "srCopy (sySource sy) pid (wanted v) store = (store', Inr desc)" by (simp only:)
  have "pid \<noteq> []"
  proof
    assume "pid = []"
    with assms(4) show False by (simp add: SyncPolicy_def)
  qed
  moreover have "wanted v \<noteq> []" by (simp add: wanted_def)
  ultimately have "snd (PolicyExists no_faults (syCacheDir sy) pid (wanted v) s')"
    using k(3) assms(6)[OF cp] by (cases "NewPolicyStore no_faults (syCacheDir sy) pid s'") (simp add: PolicyExists_def)
  then have "snd (ResolveVersion no_faults (syCacheDir sy) pid v s') = Inr (wanted v)"
    by (cases "PolicyExists no_faults (syCacheDir sy) pid (wanted v) s'") (simp add: ResolveVersion_def Let_def wanted_def)
  with cp k(3) show ?thesis by blast
qed

text \<open>A registry that answers with the tag and a copy that writes one manifest.\<close>

definition tag_source :: PolicySource where
  "tag_source = \<lparr>srDefinitionVersion = (\<lambda>_. Inr (demo_digest, ''latest'')),
     srCopy = (\<lambda>_ ver store. (store\<lparr>ocTags := go_put ver \<lparr>dsMediaType = ''m'', dsDigest = demo_digest, dsArtifactType = []\<rparr> (ocTags store)\<rparr>,
       Inr \<lparr>dsMediaType = ''m'', dsDigest = demo_digest, dsArtifactType = []\<rparr>))\<rparr>"

definition tag_sync :: SyncCfg where
  "tag_sync = \<lparr>syCacheDir = [''c''], sySource = tag_source, syVerifier = None, syRegistryHost = [], syInsecure = False, syDataDir = [''d'']\<rparr>"

theorem sync_then_resolve_witness:
  "snd (ResolveVersion no_faults [''c''] ''p'' [] (snd (fst (SyncPolicy no_faults ''1'' 1 tag_sync ''p'' [] (empty_state, []))))) = Inr ''latest''"
proof -
  let ?r = "SyncPolicy no_faults ''1'' 1 tag_sync ''p'' [] (empty_state, [])"
  have p: "PolicyStorePath (syCacheDir tag_sync) ''p'' \<in> {[''c'', ''policies'', ''p'']}" by code_simp
  have f: "syCacheDir tag_sync = [''c'']" "syDataDir tag_sync = [''d'']" "sySource tag_sync = tag_source" by (simp_all add: tag_sync_def)
  have a: "apart ''1'' (syDataDir tag_sync) {[''c'', ''policies'', ''p'']}"
    unfolding f by (auto simp: apart_def dir_files_def plain_comp_def under_def)
  have h: "healthy ''1'' (syDataDir tag_sync) {[''c'', ''policies'', ''p'']} []"
    unfolding f by (simp add: healthy_def usable_def store_broken_def)
  have "snd ?r = Inr True" by code_simp
  then have r: "?r = ((fst (fst ?r), snd (fst ?r)), Inr True)" by (metis prod.collapse)
  have w: "wanted [] = ''latest''" by (simp add: wanted_def)
  have "snd (ResolveVersion no_faults (syCacheDir tag_sync) ''p'' [] (snd (fst ?r))) = Inr (wanted [])"
    using sync_then_resolve[OF a h p r] unfolding f by (auto simp: tag_source_def oci_Resolve_def w)
  then show ?thesis unfolding f w .
qed

end
