(* ===== verification/Get_Resolve.thy ===== *)
theory Get_Resolve
  imports Sync_Loader
begin

text \<open>
  From get to scan: what get has fetched for every configured policy is still there for the loader when
  it has fetched the others, so the version a scan or a generate asks for resolves.
\<close>

section \<open>The stores of the other policies\<close>

lemma apart_files:
  assumes "apart rnd d stores" "p \<in> stores" "q \<in> stores" "x \<in> {oci_layout_file, oci_index_file}"
  shows "\<not> under (p @ [x]) q" "p @ [x] \<noteq> q"
proof -
  have "p @ [x] \<in> dir_files rnd d stores" using assms(2,4) by (auto simp: dir_files_def)
  then show "\<not> under (p @ [x]) q" using assms(1,3) by (auto simp: apart_def)
  then show "p @ [x] \<noteq> q" by auto
qed

lemma NewPolicyStore_keeps_store:
  assumes a: "apart rnd d stores" "healthy rnd d stores s" "PolicyStorePath c pid \<in> stores" "q \<in> stores"
    and "store_at q s store" "NewPolicyStore no_faults c pid s = (s', r)"
  shows "store_at q s' store"
proof -
  let ?p = "PolicyStorePath c pid"
  have u: "usable ?p s" "\<not> store_broken ?p s" using a(2,3) by (auto simp: healthy_def)
  obtain t st where n: "NewPolicyStore no_faults c pid s = (t, Inr st)"
    "\<And>q. go_get t q = (if q \<noteq> [] \<and> under q ?p then Some Dir
        else if q = ?p @ [oci_layout_file] then Some (File (Raw ''layout''))
        else if q = ?p @ [oci_index_file] then Some (File (OciDoc st)) else go_get s q)"
    using NewPolicyStore_ok[OF u] by blast
  have t: "t = s'" using n(1) assms(6) by simp
  have q: "\<not> under (q @ [x]) ?p" "?p @ [x] \<noteq> q" if "x \<in> {oci_layout_file, oci_index_file}" for x
    using apart_files[OF a(1,4,3) that] apart_files[OF a(1,3,4) that] by auto
  show ?thesis
  proof (cases "q = ?p")
    case True
    have "snd (fs_MkdirAll no_faults ?p s)" using MkdirAll_usable[OF u(1)] by (metis snd_conv)
    then have "st = store" using NewPolicyStore_open(1)[of c pid s store] assms(5) True n(1) by simp
    then show ?thesis using n(2) u(1) unfolding True t by (simp add: store_at_def usable_def)
  next
    case False
    then show ?thesis using assms(5) n(2) q[of oci_layout_file] q[of oci_index_file] unfolding t
      by (auto simp: store_at_def)
  qed
qed

lemma write_store_keeps_store:
  assumes "apart rnd d stores" "p \<in> stores" "q \<in> stores" "p \<noteq> q" "store_at q s store"
  shows "store_at q (write_store p st s) store"
  using assms(4,5) apart_files[OF assms(1-3), of oci_index_file] by (simp add: store_at_def write_store_def)

lemma SyncPolicy_False:
  assumes "SyncPolicy flt rnd now sy pid v (st, s) = ((st', s'), Inr False)"
  shows "st' = st \<and> s' = s \<and> (\<exists>d rv l.
    srDefinitionVersion (sySource sy) (BuildLookupRef [] pid (fst (classifyVersion v)) (snd (classifyVersion v))) = Inr (d, rv) \<and>
    GetPolicyState st pid = Some l \<and> psDigest l = d)"
  using assms by (auto simp: SyncPolicy_def Let_def split: if_split_asm sum.split_asm prod.split_asm option.split_asm)

lemma SyncPolicy_keeps_store:
  assumes a: "apart rnd (syDataDir sy) stores" "healthy rnd (syDataDir sy) stores s" "PolicyStorePath (syCacheDir sy) pid \<in> stores"
    and q: "q \<in> stores" "q \<noteq> PolicyStorePath (syCacheDir sy) pid" "store_at q s store"
    and "SyncPolicy no_faults rnd now sy pid v (st, s) = ((st', s'), Inr b)"
  shows "store_at q s' store"
proof (cases b)
  case False
  then show ?thesis using SyncPolicy_False[of no_faults rnd now sy pid v st s st' s'] assms(7) q(3) by simp
next
  case True
  let ?p = "PolicyStorePath (syCacheDir sy) pid"
  from True assms(7) have "SyncPolicy no_faults rnd now sy pid v (st, s) = ((st', s'), Inr True)" by simp
  then show ?thesis
  proof (rule SyncPolicy_True)
    fix s1 st1 st2 s2
    assume n: "NewPolicyStore no_faults (syCacheDir sy) pid s = (s1, Inr st1)" and w: "s2 = write_store ?p st2 s1"
      and sv: "SaveState no_faults rnd st' (syDataDir sy) s2 = (s', None)"
    have 1: "store_at q s1 store" by (rule NewPolicyStore_keeps_store[OF a q(1,3) n])
    have h1: "healthy rnd (syDataDir sy) stores s1" by (rule NewPolicyStore_keeps_healthy[OF a(1,3,2) n])
    have 2: "store_at q s2 store" unfolding w by (rule write_store_keeps_store[OF a(1,3) q(1) q(2)[symmetric] 1])
    have h2: "healthy rnd (syDataDir sy) stores s2" unfolding w by (rule write_store_healthy[OF a(1) h1 a(3)])
    show ?thesis by (rule SaveState_keeps_store(1)[OF a(1) h2 q(1) 2 sv])
  qed
qed

lemma SyncPolicy_keeps_healthy:
  assumes a: "apart rnd (syDataDir sy) stores" "healthy rnd (syDataDir sy) stores s" "PolicyStorePath (syCacheDir sy) pid \<in> stores"
    and "SyncPolicy no_faults rnd now sy pid v (st, s) = ((st', s'), Inr b)"
  shows "healthy rnd (syDataDir sy) stores s'"
proof (cases b)
  case False
  then show ?thesis using SyncPolicy_False[of no_faults rnd now sy pid v st s st' s'] assms(4) a(2) by simp
next
  case True
  from True assms(4) have "SyncPolicy no_faults rnd now sy pid v (st, s) = ((st', s'), Inr True)" by simp
  then show ?thesis
  proof (rule SyncPolicy_True)
    fix s1 st1 st2 s2
    assume n: "NewPolicyStore no_faults (syCacheDir sy) pid s = (s1, Inr st1)" and w: "s2 = write_store (PolicyStorePath (syCacheDir sy) pid) st2 s1"
      and sv: "SaveState no_faults rnd st' (syDataDir sy) s2 = (s', None)"
    have "healthy rnd (syDataDir sy) stores s2" unfolding w
      by (rule write_store_healthy[OF a(1) NewPolicyStore_keeps_healthy[OF a(1,3,2) n] a(3)])
    from SaveState_healthy[OF a(1) this, of st'] sv show ?thesis by auto
  qed
qed

text \<open>Loaders keep every store, also the one they open.\<close>

interpretation sl: loader_invariant "cache_loader unpack no_faults c" p
    "\<lambda>s. apart rnd d stores \<and> PolicyStorePath c p \<in> stores \<and> q \<in> stores \<longrightarrow> healthy rnd d stores s \<and> store_at q s store"
    for unpack c p rnd d stores q store
  by unfold_locales
    (auto simp: cache_loader_def LoadLayerByMediaType_def LoadBundleFiles_def DetectManifestShape_def PolicyExists_def
      split: prod.split sum.split intro: NewPolicyStore_keeps_healthy NewPolicyStore_keeps_store)

lemma update_metadata_keeps_store:
  assumes "apart rnd d stores" "PolicyStorePath c r \<in> stores" "q \<in> stores" "healthy rnd d stores (gwFs w)" "store_at q (gwFs w) store"
  shows "store_at q (gwFs (update_metadata x no_faults c r f w)) store"
proof -
  have "store_at q (fst (ExtractPolicyMetadata (gxYaml x) (cache_loader (gxBundle x) no_faults c) r v (gwFs w))) store" for v
    using sl.metadata_keeps[of rnd d stores c r q "gwFs w" store "gxYaml x" "gxBundle x" v] assms by blast
  then show ?thesis using assms(5)
    by (auto simp: update_metadata_def Let_def split: prod.split sum.split) (metis fst_conv)+
qed


section \<open>The version a scan asks for\<close>

text \<open>The store of a policy opens and holds the configured version.\<close>

definition has_version :: "path \<Rightarrow> string \<Rightarrow> string \<Rightarrow> fs \<Rightarrow> bool" where
  "has_version cacheDir repo v s \<longleftrightarrow> (\<exists>store. store_at (PolicyStorePath cacheDir repo) s store \<and> oci_Resolve store (wanted v) \<noteq> None)"

lemma has_version_keeps:
  "has_version c repo v s \<Longrightarrow> (\<And>store. store_at (PolicyStorePath c repo) s store \<Longrightarrow> store_at (PolicyStorePath c repo) s' store) \<Longrightarrow>
    has_version c repo v s'"
  by (auto simp: has_version_def)

lemma has_version_resolves:
  assumes "has_version c repo v s" "healthy rnd d stores s" "PolicyStorePath c repo \<in> stores" "repo \<noteq> []"
  shows "snd (ResolveVersion no_faults c repo v s) = Inr (wanted v)"
proof -
  let ?p = "PolicyStorePath c repo"
  obtain store where st: "store_at ?p s store" "oci_Resolve store (wanted v) \<noteq> None" using assms(1) by (auto simp: has_version_def)
  have "usable ?p s" using assms(2,3) by (auto simp: healthy_def)
  then have "snd (fs_MkdirAll no_faults ?p s)" using MkdirAll_usable by (metis snd_conv)
  then have n: "snd (NewPolicyStore no_faults c repo s) = Inr store" using st(1) by (intro NewPolicyStore_open)
  have "wanted v \<noteq> []" by (simp add: wanted_def)
  then have "snd (PolicyExists no_faults c repo (wanted v) s)"
    using n st(2) assms(4) by (cases "NewPolicyStore no_faults c repo s") (simp add: PolicyExists_def)
  then show ?thesis
    by (cases "PolicyExists no_faults c repo (wanted v) s") (simp add: ResolveVersion_def Let_def wanted_def)
qed

text \<open>A registry whose answers name the tag and whose copies tag the destination, as the client library documents.\<close>

definition tags_copies :: "PolicySource \<Rightarrow> string \<Rightarrow> string \<Rightarrow> bool" where
  "tags_copies src repo v \<longleftrightarrow>
    (\<forall>d rv. srDefinitionVersion src repo = Inr (d, rv) \<longrightarrow> rv = ''latest'') \<and>
    (\<forall>store store' desc. srCopy src repo (wanted v) store = (store', Inr desc) \<longrightarrow> oci_Resolve store' (wanted v) = Some desc)"

lemma default_lookup:
  "v = [] \<or> v = ''latest'' \<Longrightarrow> BuildLookupRef [] repo (fst (classifyVersion v)) (snd (classifyVersion v)) = repo"
proof -
  assume "v = [] \<or> v = ''latest''"
  moreover have "classifyVersion [] = ([], [])" "classifyVersion ''latest'' = (''latest'', [])" by code_simp+
  ultimately show ?thesis by (auto simp: BuildLookupRef_def)
qed

lemma entry_version_wanted:
  "tags_copies (gxSource x (prRegistry ref)) (prRepository ref) v \<Longrightarrow> wanted (entry_version x ref) = wanted (VersionString ref)"
  by (auto simp: entry_version_def resolveLatestVersion_def tags_copies_def wanted_def split: sum.split)

lemma has_version_cong: "wanted v = wanted v' \<Longrightarrow> has_version c repo v s = has_version c repo v' s"
  by (simp add: has_version_def)

lemma SyncPolicy_has_version:
  assumes a: "apart rnd (syDataDir sy) stores" "healthy rnd (syDataDir sy) stores s" "PolicyStorePath (syCacheDir sy) pid \<in> stores"
    and r: "SyncPolicy no_faults rnd now sy pid v (st, s) = ((st', s'), Inr b)"
    and t: "tags_copies (sySource sy) pid v"
    and k: "\<And>d rv. srDefinitionVersion (sySource sy) (BuildLookupRef [] pid (fst (classifyVersion v)) (snd (classifyVersion v))) = Inr (d, rv) \<Longrightarrow>
      recorded st pid d \<Longrightarrow> has_version (syCacheDir sy) pid v s"
  shows "has_version (syCacheDir sy) pid v s'"
proof (cases b)
  case False
  then obtain d rv l where "s' = s" "GetPolicyState st pid = Some l" "psDigest l = d"
      "srDefinitionVersion (sySource sy) (BuildLookupRef [] pid (fst (classifyVersion v)) (snd (classifyVersion v))) = Inr (d, rv)"
    using SyncPolicy_False[of no_faults rnd now sy pid v st s st' s'] r by auto
  then show ?thesis using k by (auto simp: recorded_def)
next
  case True
  from True r have r': "SyncPolicy no_faults rnd now sy pid v (st, s) = ((st', s'), Inr True)" by simp
  obtain rv d store store' desc where
    n: "srDefinitionVersion (sySource sy) (BuildLookupRef [] pid (fst (classifyVersion v)) (snd (classifyVersion v))) = Inr (d, rv)"
    "srCopy (sySource sy) pid (if v = [] \<or> v = ''latest'' then rv else v) store = (store', Inr desc)"
    "store_at (PolicyStorePath (syCacheDir sy) pid) s' store'"
    by (rule SyncPolicy_store[OF a r'])
  have "(if v = [] \<or> v = ''latest'' then rv else v) = wanted v" using t n(1) default_lookup[of v pid] by (auto simp: wanted_def tags_copies_def)
  with n(2) have "srCopy (sySource sy) pid (wanted v) store = (store', Inr desc)" by (simp only:)
  then show ?thesis using t n(3) by (auto simp: has_version_def tags_copies_def)
qed

text \<open>One entry.\<close>

lemma syncSinglePolicy_run:
  assumes "syncSinglePolicy x no_faults cacheDir dataDir ws entry w = (w', None)" "ParsePolicyRef (peURL entry) = Inr ref"
  obtains vo st s b w1 where
    "SyncPolicy no_faults (gxRandom x) (gxNow x) (NewSync cacheDir (gxSource x (prRegistry ref)) dataDir (prRegistry ref) vo)
       (prRepository ref) (entry_version x ref) (gwState w, gwFs w) = ((st, s), Inr b)"
    "gwFs w1 = s" "w' = update_metadata x no_faults cacheDir (prRepository ref) b w1"
proof -
  obtain vs vo where v: "resolveVerifier (gxBuilder x) entry ws (gwVerifiers w) = (vs, Inr vo)"
    using assms by (auto simp: syncSinglePolicy_def split: sum.split_asm prod.split_asm)
  let ?sp = "SyncPolicy no_faults (gxRandom x) (gxNow x) (NewSync cacheDir (gxSource x (prRegistry ref)) dataDir (prRegistry ref) vo)
       (prRepository ref) (entry_version x ref) (gwState w, gwFs w)"
  obtain st s r where sp: "?sp = ((st, s), r)" by (metis prod.collapse)
  from assms v sp show ?thesis
    by (cases r) (auto simp: syncSinglePolicy_def Let_def entry_version_def[symmetric] intro!: that[of vo st s])
qed

lemma syncSinglePolicy_stores:
  assumes a: "apart (gxRandom x) dataDir stores" "healthy (gxRandom x) dataDir stores (gwFs w)"
    and e: "ParsePolicyRef (peURL entry) = Inr ref" "PolicyStorePath cacheDir (prRepository ref) \<in> stores" "served x ref d"
      "tags_copies (gxSource x (prRegistry ref)) (prRepository ref) (VersionString ref)"
    and run: "syncSinglePolicy x no_faults cacheDir dataDir ws entry w = (w', None)"
    and k: "recorded (gwState w) (prRepository ref) d \<Longrightarrow> has_version cacheDir (prRepository ref) (VersionString ref) (gwFs w)"
  shows "has_version cacheDir (prRepository ref) (VersionString ref) (gwFs w')"
    "q \<in> stores \<Longrightarrow> q \<noteq> PolicyStorePath cacheDir (prRepository ref) \<Longrightarrow> store_at q (gwFs w) store \<Longrightarrow> store_at q (gwFs w') store"
proof -
  let ?repo = "prRepository ref" and ?v = "entry_version x ref"
  note wv = entry_version_wanted[OF e(4)]
  have tc: "tags_copies (gxSource x (prRegistry ref)) ?repo ?v" using e(4) wv by (simp add: tags_copies_def)
  obtain vo st s b w1 where r: "SyncPolicy no_faults (gxRandom x) (gxNow x) (NewSync cacheDir (gxSource x (prRegistry ref)) dataDir (prRegistry ref) vo)
       ?repo ?v (gwState w, gwFs w) = ((st, s), Inr b)"
    and w1: "gwFs w1 = s" "w' = update_metadata x no_faults cacheDir ?repo b w1"
    by (rule syncSinglePolicy_run[OF run e(1)])
  let ?sy = "NewSync cacheDir (gxSource x (prRegistry ref)) dataDir (prRegistry ref) vo"
  have a': "apart (gxRandom x) (syDataDir ?sy) stores" "healthy (gxRandom x) (syDataDir ?sy) stores (gwFs w)"
    "PolicyStorePath (syCacheDir ?sy) ?repo \<in> stores" using a e(2) by simp_all
  have h: "healthy (gxRandom x) dataDir stores s"
    using SyncPolicy_keeps_healthy[OF a' r] by simp
  note keep = update_metadata_keeps_store[OF a(1) e(2) _ h[folded w1(1)], of _ _ x b]
  have "has_version (syCacheDir ?sy) ?repo ?v s"
    using e(3) k tc has_version_cong[OF wv, of cacheDir ?repo]
    by (intro SyncPolicy_has_version[OF a' r]) (auto simp: served_def Let_def split: prod.splits)
  then have "has_version cacheDir ?repo (VersionString ref) (gwFs w1)" using w1(1) has_version_cong[OF wv] by simp
  from has_version_keeps[OF this] show "has_version cacheDir ?repo (VersionString ref) (gwFs w')"
    unfolding w1(2) using keep[OF e(2)] by blast
  show "q \<in> stores \<Longrightarrow> q \<noteq> PolicyStorePath cacheDir ?repo \<Longrightarrow> store_at q (gwFs w) store \<Longrightarrow> store_at q (gwFs w') store"
    unfolding w1(2) using keep SyncPolicy_keeps_store[OF a' _ _ _ r] w1(1) by auto
qed

section \<open>The whole configuration\<close>

text \<open>What is asked of an entry: its reference, the digest its registry answers and the version kept with it.\<close>

definition fetchable :: "get_ext \<Rightarrow> PolicyEntry \<Rightarrow> PolicyRef \<times> string \<Rightarrow> bool" where
  "fetchable x entry rd \<longleftrightarrow> ParsePolicyRef (peURL entry) = Inr (fst rd) \<and> served x (fst rd) (snd rd) \<and>
     tags_copies (gxSource x (prRegistry (fst rd))) (prRepository (fst rd)) (VersionString (fst rd))"

definition kept :: "path \<Rightarrow> State \<Rightarrow> fs \<Rightarrow> PolicyRef \<times> string \<Rightarrow> bool" where
  "kept cacheDir st s rd \<longleftrightarrow> recorded st (prRepository (fst rd)) (snd rd) \<longrightarrow>
     has_version cacheDir (prRepository (fst rd)) (VersionString (fst rd)) s"

definition ref_store :: "path \<Rightarrow> PolicyRef \<times> string \<Rightarrow> path" where
  "ref_store cacheDir rd = PolicyStorePath cacheDir (prRepository (fst rd))"

definition fetched :: "path \<Rightarrow> State \<Rightarrow> fs \<Rightarrow> PolicyRef \<times> string \<Rightarrow> bool" where
  "fetched cacheDir st s rd \<longleftrightarrow> recorded st (prRepository (fst rd)) (snd rd) \<and>
     has_version cacheDir (prRepository (fst rd)) (VersionString (fst rd)) s"

lemma has_version_cases:
  "has_version c (prRepository (fst rd)) v s \<longleftrightarrow> (\<exists>store. store_at (ref_store c rd) s store \<and> oci_Resolve store (wanted v) \<noteq> None)"
  by (simp add: has_version_def ref_store_def)

lemma sync_each_fetches:
  assumes a: "apart (gxRandom x) dataDir stores" and v: "accepting x"
    and "healthy (gxRandom x) dataDir stores (gwFs w)" "cache_ok x (gwVerifiers w)"
    and "list_all2 (fetchable x) entries want" "distinct (map (ref_store cacheDir) want)" "ref_store cacheDir ` set want \<subseteq> stores"
    and "\<forall>rd \<in> set want. kept cacheDir (gwState w) (gwFs w) rd"
  shows "\<exists>w'. sync_each (syncSinglePolicy x no_faults cacheDir dataDir ws) entries w = (w', []) \<and>
     healthy (gxRandom x) dataDir stores (gwFs w') \<and> (\<forall>rd \<in> set want. fetched cacheDir (gwState w') (gwFs w') rd) \<and>
     (\<forall>repo d. repo \<notin> prRepository ` fst ` set want \<longrightarrow> recorded (gwState w') repo d = recorded (gwState w) repo d) \<and>
     (\<forall>q store. q \<in> stores \<longrightarrow> q \<notin> ref_store cacheDir ` set want \<longrightarrow> store_at q (gwFs w) store \<longrightarrow> store_at q (gwFs w') store)"
  using assms(3-)
proof (induction entries arbitrary: w want)
  case Nil
  then show ?case by auto
next
  case (Cons entry entries)
  obtain ref d rest where w: "want = (ref, d) # rest" "fetchable x entry (ref, d)" "list_all2 (fetchable x) entries rest"
    using Cons.prems(3) by (auto simp: list_all2_Cons1)
  let ?repo = "prRepository ref" and ?v = "VersionString ref"
  have f: "ParsePolicyRef (peURL entry) = Inr ref" "served x ref d" "tags_copies (gxSource x (prRegistry ref)) ?repo ?v"
    using w(2) by (auto simp: fetchable_def)
  have p: "PolicyStorePath cacheDir ?repo \<in> stores" using Cons.prems(5) w(1) by (simp add: ref_store_def)
  obtain w1 where w1: "syncSinglePolicy x no_faults cacheDir dataDir ws entry w = (w1, None)"
      "healthy (gxRandom x) dataDir stores (gwFs w1)" "cache_ok x (gwVerifiers w1)" "recorded (gwState w1) ?repo d"
      "\<And>r d'. r \<noteq> ?repo \<Longrightarrow> recorded (gwState w1) r d' = recorded (gwState w) r d'"
    using syncSinglePolicy_progress[OF a Cons.prems(1) f(1,2) p v Cons.prems(2), of ws] by metis
  have k: "recorded (gwState w) ?repo d \<Longrightarrow> has_version cacheDir ?repo ?v (gwFs w)"
    using Cons.prems(6) w(1) by (simp add: kept_def)
  note s1 = syncSinglePolicy_stores[OF a Cons.prems(1) f(1) p f(2,3) w1(1) k]
  have nd: "ref_store cacheDir (ref, d) \<notin> ref_store cacheDir ` set rest" using Cons.prems(4) w(1) by simp
  have new: "ref_store cacheDir rd \<noteq> PolicyStorePath cacheDir ?repo" "prRepository (fst rd) \<noteq> ?repo" if "rd \<in> set rest" for rd
  proof -
    have "ref_store cacheDir rd \<noteq> ref_store cacheDir (ref, d)" using nd that by (metis imageI)
    then show "ref_store cacheDir rd \<noteq> PolicyStorePath cacheDir ?repo" "prRepository (fst rd) \<noteq> ?repo"
      by (auto simp: ref_store_def)
  qed
  have sub: "ref_store cacheDir ` set rest \<subseteq> stores" using Cons.prems(5) w(1) by simp
  have "kept cacheDir (gwState w1) (gwFs w1) rd" if rd: "rd \<in> set rest" for rd
  proof -
    have "ref_store cacheDir rd \<in> stores" using sub rd by blast
    then have "has_version cacheDir (prRepository (fst rd)) v (gwFs w) \<Longrightarrow> has_version cacheDir (prRepository (fst rd)) v (gwFs w1)" for v
      unfolding has_version_cases using s1(2) new(1)[OF rd] by blast
    moreover have "kept cacheDir (gwState w) (gwFs w) rd" using Cons.prems(6) w(1) rd by simp
    ultimately show ?thesis using w1(5)[OF new(2)[OF rd]] by (simp add: kept_def)
  qed
  then obtain w2 where w2: "sync_each (syncSinglePolicy x no_faults cacheDir dataDir ws) entries w1 = (w2, [])"
      "healthy (gxRandom x) dataDir stores (gwFs w2)" "\<forall>rd \<in> set rest. fetched cacheDir (gwState w2) (gwFs w2) rd"
      "\<forall>repo d. repo \<notin> prRepository ` fst ` set rest \<longrightarrow> recorded (gwState w2) repo d = recorded (gwState w1) repo d"
      "\<forall>q store. q \<in> stores \<longrightarrow> q \<notin> ref_store cacheDir ` set rest \<longrightarrow> store_at q (gwFs w1) store \<longrightarrow> store_at q (gwFs w2) store"
    using Cons.IH[OF w1(2,3) w(3)] Cons.prems(4) w(1) sub by auto
  have n: "?repo \<notin> prRepository ` fst ` set rest" "ref_store cacheDir (ref, d) \<notin> ref_store cacheDir ` set rest"
    using new(2) nd by force+
  have "fetched cacheDir (gwState w2) (gwFs w2) (ref, d)"
    unfolding fetched_def has_version_cases
    using w1(4) s1(1) w2(4,5) n p by (auto simp: has_version_def ref_store_def)
  moreover have "sync_each (syncSinglePolicy x no_faults cacheDir dataDir ws) (entry # entries) w = (w2, [])"
    using w1(1) w2(1) by simp
  moreover have "\<forall>repo d. repo \<notin> prRepository ` fst ` set want \<longrightarrow> recorded (gwState w2) repo d = recorded (gwState w) repo d"
    using w2(4) w1(5) w(1) by simp
  moreover have "\<forall>q store. q \<in> stores \<longrightarrow> q \<notin> ref_store cacheDir ` set want \<longrightarrow> store_at q (gwFs w) store \<longrightarrow> store_at q (gwFs w2) store"
    using w2(5) s1(2) w(1) by (simp add: ref_store_def)
  ultimately show ?case using w2(2,3) w(1) by auto
qed

text \<open>
  Property C15. From get to scan: when the registries resolve, serve and tag every configured policy,
  the verifiers accept, nothing fails, the stores are distinct and what is recorded is in the cache, get
  reports no error, and afterwards the cache resolves every configured version to the one asked for
  (\<^verbatim>\<open>latest\<close> when none is configured): fetching the later policies does not lose the earlier ones.
\<close>

theorem get_then_resolve:
  assumes "apart (gxRandom x) dataDir (ref_store cacheDir ` set want)"
    and "healthy (gxRandom x) dataDir (ref_store cacheDir ` set want) (gwFs w)"
    and "accepting x" "cache_ok x (gwVerifiers w)"
    and "list_all2 (fetchable x) policies want" "distinct (map (ref_store cacheDir) want)"
    and "\<forall>rd \<in> set want. kept cacheDir (gwState w) (gwFs w) rd"
  shows "\<exists>w'. syncAllPolicies x no_faults cacheDir dataDir ws policies w = (w', []) \<and>
    (\<forall>(ref, d) \<in> set want. recorded (gwState w') (prRepository ref) d \<and>
      snd (ResolveVersion no_faults cacheDir (prRepository ref) (VersionString ref) (gwFs w')) = Inr (wanted (VersionString ref))) \<and>
    (\<forall>rd \<in> set want. kept cacheDir (gwState w') (gwFs w') rd)"
proof -
  let ?S = "ref_store cacheDir ` set want"
  obtain w1 where w1: "sync_each (syncSinglePolicy x no_faults cacheDir dataDir ws) policies w = (w1, [])"
      "healthy (gxRandom x) dataDir ?S (gwFs w1)" "\<forall>rd \<in> set want. fetched cacheDir (gwState w1) (gwFs w1) rd"
    using sync_each_fetches[OF assms(1,3,2,4-6) subset_refl assms(7), of ws] by auto
  obtain s where s: "SaveState no_faults (gxRandom x) (gwState w1) dataDir (gwFs w1) = (s, None)" "healthy (gxRandom x) dataDir ?S s"
    using SaveState_healthy[OF assms(1) w1(2)] by blast
  have f: "fetched cacheDir (gwState w1) s rd" if rd: "rd \<in> set want" for rd
    using w1(3) rd SaveState_keeps_store(1)[OF assms(1) w1(2) _ _ s(1), of "ref_store cacheDir rd"]
    by (fastforce simp: fetched_def has_version_cases)
  have "snd (ResolveVersion no_faults cacheDir (prRepository (fst rd)) (VersionString (fst rd)) s) = Inr (wanted (VersionString (fst rd)))"
    if rd: "rd \<in> set want" for rd
  proof (rule has_version_resolves)
    show "has_version cacheDir (prRepository (fst rd)) (VersionString (fst rd)) s" using f[OF rd] by (simp add: fetched_def)
    show "PolicyStorePath cacheDir (prRepository (fst rd)) \<in> ?S" using rd by (auto simp: ref_store_def)
    show "prRepository (fst rd) \<noteq> []" using assms(5) rd by (auto simp: list_all2_conv_all_nth in_set_conv_nth fetchable_def served_def Let_def)
  qed (rule s(2))
  with f have "(\<forall>(ref, d) \<in> set want. recorded (gwState w1) (prRepository ref) d \<and>
      snd (ResolveVersion no_faults cacheDir (prRepository ref) (VersionString ref) s) = Inr (wanted (VersionString ref))) \<and>
    (\<forall>rd \<in> set want. kept cacheDir (gwState w1) s rd)"
    by (auto simp: fetched_def kept_def)
  then show ?thesis using w1(1) s(1) by (simp add: syncAllPolicies_def)
qed

definition tag_ext :: get_ext where
  "tag_ext = served_ext\<lparr>gxSource := (\<lambda>_. tag_source)\<rparr>"

theorem get_then_resolve_witness:
  "\<exists>w'. syncAllPolicies tag_ext no_faults [''c''] [''d''] None [keyed_entry]
      \<lparr>gwState = empty_state, gwFs = [], gwVerifiers = None, gwNotes = []\<rparr> = (w', []) \<and>
    snd (ResolveVersion no_faults [''c''] ''policies/nist'' ''v1'' (gwFs w')) = Inr ''v1''"
proof -
  let ?w = "\<lparr>gwState = empty_state, gwFs = [], gwVerifiers = None, gwNotes = []\<rparr>"
  let ?r = "projr (ParsePolicyRef (peURL keyed_entry))"
  let ?want = "[(?r, demo_digest)]"
  have r: "ParsePolicyRef (peURL keyed_entry) = Inr ?r" "prRepository ?r = ''policies/nist''" "NormalizeHost (prRegistry ?r) \<noteq> []"
    "digest_ok demo_digest" "VersionString ?r = ''v1''" by code_simp+
  have p: "PolicyStorePath [''c''] ''policies/nist'' = [''c'', ''policies'', ''policies'', ''nist'']" by code_simp
  have S: "ref_store [''c''] ` set ?want = {[''c'', ''policies'', ''policies'', ''nist'']}" by (simp add: ref_store_def r(2) p)
  have 1: "apart (gxRandom tag_ext) [''d''] (ref_store [''c''] ` set ?want)"
    unfolding S by (auto simp: apart_def dir_files_def tag_ext_def served_ext_def strict_ext_def plain_comp_def under_def)
  have 2: "healthy (gxRandom tag_ext) [''d''] (ref_store [''c''] ` set ?want) (gwFs ?w)"
    unfolding S by (simp add: healthy_def usable_def store_broken_def go_get_def)
  have 3: "accepting tag_ext" by (simp add: accepting_def tag_ext_def served_ext_def buildVerifierFromConfig_def)
  have 4: "cache_ok tag_ext (gwVerifiers ?w)" by (simp add: cache_ok_def)
  have "list_all2 (fetchable tag_ext) [keyed_entry] ?want"
    using r by (auto simp: fetchable_def served_def tags_copies_def wanted_def oci_Resolve_def Let_def SplitHostScheme_def tag_ext_def tag_source_def split: prod.split)
  moreover have "distinct (map (ref_store [''c'']) ?want)" by simp
  moreover have "\<forall>rd \<in> set ?want. kept [''c''] (gwState ?w) (gwFs ?w) rd"
    by (simp add: kept_def recorded_def empty_state_def GetPolicyState_def)
  ultimately have "\<exists>w'. syncAllPolicies tag_ext no_faults [''c''] [''d''] None [keyed_entry] ?w = (w', []) \<and>
      (\<forall>(ref, d) \<in> set ?want. recorded (gwState w') (prRepository ref) d \<and>
        snd (ResolveVersion no_faults [''c''] (prRepository ref) (VersionString ref) (gwFs w')) = Inr (wanted (VersionString ref))) \<and>
      (\<forall>rd \<in> set ?want. kept [''c''] (gwState w') (gwFs w') rd)"
    by (rule get_then_resolve[OF 1 2 3 4])
  then show ?thesis using r by (auto simp: wanted_def)
qed

end
