(* ===== verification/Registry_Source.thy ===== *)
theory Registry_Source
  imports Get_Resolve
begin

text \<open>
  The source of a sync that talks to a registry (\<^verbatim>\<open>internal/cache/source.go\<close>,
  \<^verbatim>\<open>complypack_source.go\<close>) and what a sync over it records. Resolving a reference and \<^verbatim>\<open>oras.Copy\<close> are
  parameters; a registry is asked up to three times during one sync (lookup, verification, copy), so
  what it answers at the lookup and what it answers at the copy are two parameters.
\<close>

section \<open>The source\<close>

text \<open>\<^verbatim>\<open>oras.Copy(ctx, repo, tag, dst, tag, ...)\<close>: the destination it leaves with its result.\<close>

type_synonym oras_copy = "string \<Rightarrow> string \<Rightarrow> OciStore \<Rightarrow> OciStore \<times> (string + Descriptor)"

definition RegistrySource_DefinitionVersion :: "remote \<Rightarrow> Client \<Rightarrow> string \<Rightarrow> reg_err + string \<times> string" where
  "RegistrySource_DefinitionVersion rm client policyID = DefinitionVersion rm client policyID"

definition RegistrySource_CopyPolicy :: "oras_copy \<Rightarrow> Client \<Rightarrow> string \<Rightarrow> string \<Rightarrow> OciStore \<Rightarrow> OciStore \<times> (string + Descriptor)" where
  "RegistrySource_CopyPolicy copier client policyID tag dst =
    (case NewRemoteRepository client policyID of
       Inl _ \<Rightarrow> (dst, Inl ''failed to create remote repository'')
     | Inr repo \<Rightarrow> copier (rfRegistry repo @ ''/'' @ rfRepository repo) tag dst)"

definition NewRegistrySource :: "remote \<Rightarrow> oras_copy \<Rightarrow> Client \<Rightarrow> PolicySource" where
  "NewRegistrySource rm copier client =
    \<lparr>srDefinitionVersion = RegistrySource_DefinitionVersion rm client, srCopy = RegistrySource_CopyPolicy copier client\<rparr>"

text \<open>
  The source of complypacks is the same client; the copy of \<^verbatim>\<open>CopyComplypack\<close> goes to an empty store and its
  check of the artifact type is with the sync of complypacks.
\<close>

definition NewRegistryComplypackSource :: "remote \<Rightarrow> oras_copy \<Rightarrow> Client \<Rightarrow> PolicySource" where
  "NewRegistryComplypackSource rm copier client =
    \<lparr>srDefinitionVersion = DefinitionVersion rm client, srCopy = RegistrySource_CopyPolicy copier client\<rparr>"

text \<open>The options of a sync and the constructor of the sync of complypacks, which shares the fields of \<^verbatim>\<open>Sync\<close>.\<close>

record syncConfig = scVerifier :: "verify_func option"

definition WithVerifier :: "verify_func \<Rightarrow> syncConfig \<Rightarrow> syncConfig" where
  "WithVerifier vf c = c\<lparr>scVerifier := Some vf\<rparr>"

definition apply_options :: "(syncConfig \<Rightarrow> syncConfig) list \<Rightarrow> syncConfig" where
  "apply_options opts = foldl (\<lambda>c opt. opt c) \<lparr>scVerifier = None\<rparr> opts"

definition NewComplypackSync :: "path \<Rightarrow> PolicySource \<Rightarrow> path \<Rightarrow> string \<Rightarrow> (syncConfig \<Rightarrow> syncConfig) list \<Rightarrow> SyncCfg" where
  "NewComplypackSync cacheDir source dataDir registryHost opts =
    (let cfg = apply_options opts; (host, insecure) = SplitHostScheme registryHost in
     \<lparr>syCacheDir = cacheDir, sySource = source, syVerifier = scVerifier cfg, syRegistryHost = host,
      syInsecure = insecure, syDataDir = dataDir\<rparr>)"

text \<open>The options that the commands pass give the sync the model of get uses.\<close>

lemma NewComplypackSync_verifier:
  "NewComplypackSync c src d h (case v of None \<Rightarrow> [] | Some vf \<Rightarrow> [WithVerifier vf]) = NewSync c src d h v"
  by (simp add: NewComplypackSync_def NewSync_def apply_options_def WithVerifier_def Let_def split: option.split)

text \<open>
  What the client library documents of a copy: the descriptor is that of the manifest the registry
  resolves, and the destination resolves the tag to it; and of a reference by digest: it resolves to
  the content with this digest.
\<close>

definition copies_from :: "remote \<Rightarrow> oras_copy \<Rightarrow> bool" where
  "copies_from rm copier \<longleftrightarrow> (\<forall>repo tag dst dst' desc. copier repo tag dst = (dst', Inr desc) \<longrightarrow>
     rm repo tag = ResolveOK (dsDigest desc) \<and> oci_Resolve dst' tag = Some desc)"

definition content_addressed :: "remote \<Rightarrow> bool" where
  "content_addressed rm \<longleftrightarrow> (\<forall>repo d x. valid_digest d \<longrightarrow> rm repo d = ResolveOK x \<longrightarrow> x = d)"

section \<open>Lookups and copies\<close>

text \<open>The version of a configuration that an entry may carry.\<close>

definition version_ok :: "string \<Rightarrow> bool" where
  "version_ok v \<longleftrightarrow> v = [] \<or> tagRegexp v \<or> valid_digest v"

definition host_scheme :: "string \<Rightarrow> bool" where
  "host_scheme sch \<longleftrightarrow> sch \<in> {[], ''http://'', ''https://''}"

lemma RegistrySource_lookup:
  assumes "valid_host h" "repositoryRegexp r" "version_ok v" "host_scheme sch"
    and "srDefinitionVersion (NewRegistrySource rm copier (NewClient (sch @ h)))
      (BuildLookupRef [] r (fst (classifyVersion v)) (snd (classifyVersion v))) = Inr (d, t)"
  shows "rm (h @ ''/'' @ r) (wanted v) = ResolveOK d \<and> t = wanted v"
  using DefinitionVersion_asks_for_version[of h r v sch rm] assms
  by (simp add: NewRegistrySource_def RegistrySource_DefinitionVersion_def version_ok_def host_scheme_def)

lemma RegistrySource_copy:
  assumes "valid_host h" "repositoryRegexp r" "host_scheme sch"
  shows "srCopy (NewRegistrySource rm copier (NewClient (sch @ h))) r tag dst = copier (h @ ''/'' @ r) tag dst"
  using assms NormalizeHost_valid[OF assms(1) host_no_scheme[OF assms(1)], of sch] ParseReference_plain[OF assms(1,2)]
  by (simp add: NewRegistrySource_def RegistrySource_CopyPolicy_def NewRemoteRepository_def newRepository_def NewClient_def host_scheme_def)

text \<open>What a fetch records and what it stores, when the registry answers may differ.\<close>

lemma fetch_records:
  assumes r: "valid_host h" "repositoryRegexp pid" "version_ok v" "host_scheme sch"
    and s: "sySource sy = NewRegistrySource rm copier (NewClient (sch @ h))" "copies_from rm' copier"
    and a: "apart rnd (syDataDir sy) stores" "healthy rnd (syDataDir sy) stores s" "PolicyStorePath (syCacheDir sy) pid \<in> stores"
      "SyncPolicy no_faults rnd now sy pid v (st, s) = ((st', s'), Inr True)"
  obtains l store desc where "GetPolicyState st' pid = Some l" "rm (h @ ''/'' @ pid) (wanted v) = ResolveOK (psDigest l)"
    "srDefinitionVersion (sySource sy) (BuildLookupRef [] pid (fst (classifyVersion v)) (snd (classifyVersion v))) = Inr (psDigest l, wanted v)"
    "case syVerifier sy of None \<Rightarrow> \<not> psVerified l
       | Some vf \<Rightarrow> \<exists>vr. vf (BuildLookupRef (syRegistryHost sy) pid (fst (classifyVersion v)) (snd (classifyVersion v)))
                          (syInsecure sy) = Inr vr \<and> psVerified l = vrVerified vr"
    "store_at (PolicyStorePath (syCacheDir sy) pid) s' store" "snd (NewPolicyStore no_faults (syCacheDir sy) pid s') = Inr store"
    "oci_Resolve store (wanted v) = Some desc" "rm' (h @ ''/'' @ pid) (wanted v) = ResolveOK (dsDigest desc)"
proof -
  let ?look = "BuildLookupRef [] pid (fst (classifyVersion v)) (snd (classifyVersion v))"
  have ab: "abs_path (syDataDir sy)" using a(1) by (simp add: apart_def)
  obtain d rv e where e: "srDefinitionVersion (sySource sy) ?look = Inr (d, rv)" "GetPolicyState st' = (GetPolicyState st)(pid \<mapsto> e)" "psDigest e = d"
    "case syVerifier sy of None \<Rightarrow> \<not> psVerified e
       | Some vf \<Rightarrow> \<exists>vr. vf (BuildLookupRef (syRegistryHost sy) pid (fst (classifyVersion v)) (snd (classifyVersion v)))
                          (syInsecure sy) = Inr vr \<and> psVerified e = vrVerified vr"
    using SyncPolicy_success_lemma[OF a(4) ab] by blast
  obtain rv' d' store0 store desc where c: "srDefinitionVersion (sySource sy) ?look = Inr (d', rv')"
    "srCopy (sySource sy) pid (if v = [] \<or> v = ''latest'' then rv' else v) store0 = (store, Inr desc)"
    "store_at (PolicyStorePath (syCacheDir sy) pid) s' store" "snd (NewPolicyStore no_faults (syCacheDir sy) pid s') = Inr store"
    by (rule SyncPolicy_store[OF a])
  have l: "rm (h @ ''/'' @ pid) (wanted v) = ResolveOK d" "rv = wanted v"
    using RegistrySource_lookup[OF r e(1)[unfolded s(1)]] by simp_all
  have "rv' = wanted v" using c(1) e(1) l(2) by simp
  then have "srCopy (sySource sy) pid (wanted v) store0 = (store, Inr desc)" using c(2) by (auto simp: wanted_def split: if_splits)
  then have "copier (h @ ''/'' @ pid) (wanted v) store0 = (store, Inr desc)"
    using RegistrySource_copy[OF r(1,2,4)] s(1) by simp
  then have "rm' (h @ ''/'' @ pid) (wanted v) = ResolveOK (dsDigest desc)" "oci_Resolve store (wanted v) = Some desc"
    using s(2) by (auto simp: copies_from_def)
  with e l c(3,4) show ?thesis by (intro that[of e store desc]) auto
qed

text \<open>A registry source meets what the composition of get and the loader asks of a source.\<close>

lemma RegistrySource_tags_copies:
  assumes "valid_host h" "repositoryRegexp r" "host_scheme sch" "copies_from rm' copier"
  shows "tags_copies (NewRegistrySource rm copier (NewClient (sch @ h))) r v"
proof -
  have "BuildLookupRef [] r (fst (classifyVersion [])) (snd (classifyVersion [])) = r" by (rule default_lookup) simp
  then show ?thesis
    using RegistrySource_lookup[OF assms(1,2) _ assms(3), of "[]" rm copier] RegistrySource_copy[OF assms(1-3)] assms(4)
    by (auto simp: tags_copies_def copies_from_def version_ok_def wanted_def)
qed

section \<open>Instances\<close>

text \<open>A copy that tags one manifest, and a sync from a registry that answers the lookup with another digest or the same.\<close>

definition one_copy :: "string \<Rightarrow> oras_copy" where
  "one_copy d repo tag dst =
    (if tag = [] then (dst, Inl ''invalid reference'')
     else let desc = \<lparr>dsMediaType = ''m'', dsDigest = d, dsArtifactType = []\<rparr> in (dst\<lparr>ocTags := go_put tag desc (ocTags dst)\<rparr>, Inr desc))"

definition live_sync :: "string \<Rightarrow> SyncCfg" where
  "live_sync d = \<lparr>syCacheDir = [''c''],
     sySource = NewRegistrySource (\<lambda>_ _. ResolveOK demo_digest) (one_copy d) (NewClient (''https://'' @ ''r.io'')),
     syVerifier = Some (\<lambda>_ _. Inr \<lparr>vrVerified = True, vrSignerIdentity = [], vrIssuer = [], vrVerifiedAt = 1\<rparr>),
     syRegistryHost = ''r.io'', syInsecure = False, syDataDir = [''d'']\<rparr>"

lemma one_copy_from: "copies_from (\<lambda>_ _. ResolveOK d) (one_copy d)"
  by (auto simp: copies_from_def one_copy_def Let_def oci_Resolve_def split: if_splits)

lemma live_setup:
  "valid_host ''r.io''" "repositoryRegexp ''p''" "version_ok ''v1''" "host_scheme ''https://''"
  "sySource (live_sync d) = NewRegistrySource (\<lambda>_ _. ResolveOK demo_digest) (one_copy d) (NewClient (''https://'' @ ''r.io''))"
  "apart ''1'' (syDataDir (live_sync d)) {[''c'', ''policies'', ''p'']}"
  "healthy ''1'' (syDataDir (live_sync d)) {[''c'', ''policies'', ''p'']} []"
  "PolicyStorePath (syCacheDir (live_sync d)) ''p'' \<in> {[''c'', ''policies'', ''p'']}"
proof -
  have h: "valid_host ''r.io''" "repositoryRegexp ''p''" "tagRegexp ''v1''" by code_simp+
  then show "valid_host ''r.io''" "repositoryRegexp ''p''" "version_ok ''v1''" by (simp_all add: version_ok_def)
  have f: "syDataDir (live_sync d) = [''d'']" "syCacheDir (live_sync d) = [''c'']" by (simp_all add: live_sync_def)
  show "host_scheme ''https://''" by (simp add: host_scheme_def)
  show "sySource (live_sync d) = NewRegistrySource (\<lambda>_ _. ResolveOK demo_digest) (one_copy d) (NewClient (''https://'' @ ''r.io''))"
    by (simp add: live_sync_def)
  show "apart ''1'' (syDataDir (live_sync d)) {[''c'', ''policies'', ''p'']}"
    unfolding f by (auto simp: apart_def dir_files_def plain_comp_def under_def)
  show "healthy ''1'' (syDataDir (live_sync d)) {[''c'', ''policies'', ''p'']} []"
    unfolding f by (simp add: healthy_def usable_def store_broken_def)
  have "PolicyStorePath [''c''] ''p'' = [''c'', ''policies'', ''p'']" by code_simp
  then show "PolicyStorePath (syCacheDir (live_sync d)) ''p'' \<in> {[''c'', ''policies'', ''p'']}" unfolding f by simp
qed

definition live_run :: "string \<Rightarrow> world \<times> (sync_err + bool)" where
  "live_run d = SyncPolicy no_faults ''1'' 1 (live_sync d) ''p'' ''v1'' (empty_state, [])"

lemma live_run_split:
  assumes "snd (live_run d) = Inr True"
  shows "SyncPolicy no_faults ''1'' 1 (live_sync d) ''p'' ''v1'' (empty_state, []) = ((fst (fst (live_run d)), snd (fst (live_run d))), Inr True)"
  using assms by (metis live_run_def prod.collapse)

section \<open>Properties\<close>

text \<open>
  Property C14. A sync records the digest of what it stores when the reference cannot move between the
  lookup and the copy: with a registry that answers both alike, or for a version pinned by digest, the
  digest recorded for a fetched policy is that of the manifest the loader resolves.
\<close>

theorem sync_records_stored_digest:
  assumes "valid_host h" "repositoryRegexp pid" "version_ok v" "host_scheme sch"
    and "sySource sy = NewRegistrySource rm copier (NewClient (sch @ h))" "copies_from rm' copier"
    and "apart rnd (syDataDir sy) stores" "healthy rnd (syDataDir sy) stores s" "PolicyStorePath (syCacheDir sy) pid \<in> stores"
      "SyncPolicy no_faults rnd now sy pid v (st, s) = ((st', s'), Inr True)"
    and "rm' (h @ ''/'' @ pid) (wanted v) = rm (h @ ''/'' @ pid) (wanted v) \<or>
      valid_digest v \<and> content_addressed rm \<and> content_addressed rm'"
  shows "\<exists>l store desc. GetPolicyState st' pid = Some l \<and> snd (NewPolicyStore no_faults (syCacheDir sy) pid s') = Inr store \<and>
    oci_Resolve store (wanted v) = Some desc \<and> dsDigest desc = psDigest l"
proof -
  obtain l store desc where k: "GetPolicyState st' pid = Some l" "rm (h @ ''/'' @ pid) (wanted v) = ResolveOK (psDigest l)"
    "snd (NewPolicyStore no_faults (syCacheDir sy) pid s') = Inr store"
    "oci_Resolve store (wanted v) = Some desc" "rm' (h @ ''/'' @ pid) (wanted v) = ResolveOK (dsDigest desc)"
    by (rule fetch_records[OF assms(1-10)])
  have "dsDigest desc = psDigest l"
  proof (cases "rm' (h @ ''/'' @ pid) (wanted v) = rm (h @ ''/'' @ pid) (wanted v)")
    case False
    then have d: "valid_digest v" "content_addressed rm" "content_addressed rm'" using assms(11) by auto
    then have "wanted v = v" using valid_digest_ne by (auto simp: wanted_def)
    with d k(2,5) show ?thesis unfolding content_addressed_def by metis
  qed (use k(2,5) in simp)
  with k show ?thesis by blast
qed

theorem sync_records_stored_digest_witness:
  "\<exists>l store desc. GetPolicyState (fst (fst (live_run demo_digest))) ''p'' = Some l \<and>
    snd (NewPolicyStore no_faults [''c''] ''p'' (snd (fst (live_run demo_digest)))) = Inr store \<and>
    oci_Resolve store ''v1'' = Some desc \<and> dsDigest desc = psDigest l"
proof -
  have r: "snd (live_run demo_digest) = Inr True" by code_simp
  have w: "wanted ''v1'' = ''v1''" "syCacheDir (live_sync demo_digest) = [''c'']" by (simp_all add: wanted_def live_sync_def)
  show ?thesis
    using sync_records_stored_digest[OF live_setup(1-5) one_copy_from live_setup(6-8) live_run_split[OF r] disjI1[OF refl]]
    unfolding w .
qed

text \<open>
  Property C10. A tag that moves between the lookup and the copy is recorded as verified with the wrong digest:
  \<^verbatim>\<open>SyncPolicy\<close> drops the descriptor of the copy, so the entry holds the digest of the lookup and the
  answer of the verifier, while the store the loader opens resolves the version to another manifest; and
  while the registry answers the first digest again, further syncs report the policy up to date and
  leave the other manifest in place.
\<close>

theorem moved_tag_recorded_verified:
  assumes "valid_host h" "repositoryRegexp pid" "version_ok v" "host_scheme sch"
    and "sySource sy = NewRegistrySource rm copier (NewClient (sch @ h))" "copies_from rm' copier"
    and "apart rnd (syDataDir sy) stores" "healthy rnd (syDataDir sy) stores s" "PolicyStorePath (syCacheDir sy) pid \<in> stores"
      "SyncPolicy no_faults rnd now sy pid v (st, s) = ((st', s'), Inr True)"
    and "rm (h @ ''/'' @ pid) (wanted v) = ResolveOK d" "rm' (h @ ''/'' @ pid) (wanted v) = ResolveOK d'" "d' \<noteq> d"
    and "syVerifier sy = Some (\<lambda>_ _. Inr vr)" "vrVerified vr"
  shows "\<exists>l store desc. GetPolicyState st' pid = Some l \<and> psDigest l = d \<and> psVerified l \<and>
    snd (NewPolicyStore no_faults (syCacheDir sy) pid s') = Inr store \<and>
    oci_Resolve store (wanted v) = Some desc \<and> dsDigest desc = d' \<and>
    SyncPolicy no_faults rnd now' sy pid v (st', s') = ((st', s'), Inr False)"
proof -
  let ?p = "PolicyStorePath (syCacheDir sy) pid"
  obtain l store desc where k: "GetPolicyState st' pid = Some l" "rm (h @ ''/'' @ pid) (wanted v) = ResolveOK (psDigest l)"
    "srDefinitionVersion (sySource sy) (BuildLookupRef [] pid (fst (classifyVersion v)) (snd (classifyVersion v))) = Inr (psDigest l, wanted v)"
    "case syVerifier sy of None \<Rightarrow> \<not> psVerified l
       | Some vf \<Rightarrow> \<exists>vr. vf (BuildLookupRef (syRegistryHost sy) pid (fst (classifyVersion v)) (snd (classifyVersion v)))
                          (syInsecure sy) = Inr vr \<and> psVerified l = vrVerified vr"
    "store_at ?p s' store" "snd (NewPolicyStore no_faults (syCacheDir sy) pid s') = Inr store"
    "oci_Resolve store (wanted v) = Some desc" "rm' (h @ ''/'' @ pid) (wanted v) = ResolveOK (dsDigest desc)"
    by (rule fetch_records[OF assms(1-10)])
  have n: "pid \<noteq> []" "syRegistryHost sy \<noteq> []" using assms(10,14) by (auto simp: SyncPolicy_def split: if_splits)
  have "PolicyStoreExists no_faults (syCacheDir sy) pid s'"
    using k(5) by (simp add: PolicyStoreExists_def fs_exists_def go_has_get store_at_def del: go_has_keys)
  then have "SyncPolicy no_faults rnd now' sy pid v (st', s') = ((st', s'), Inr False)"
    using n k(1,3) by (auto simp: SyncPolicy_def Let_def split: prod.split)
  with k assms(11-15) show ?thesis by auto
qed

theorem moved_tag_recorded_verified_witness:
  "\<exists>l store desc. GetPolicyState (fst (fst (live_run ''sha256:other''))) ''p'' = Some l \<and> psDigest l = demo_digest \<and> psVerified l \<and>
    snd (NewPolicyStore no_faults [''c''] ''p'' (snd (fst (live_run ''sha256:other'')))) = Inr store \<and>
    oci_Resolve store ''v1'' = Some desc \<and> dsDigest desc = ''sha256:other''"
proof -
  have r: "snd (live_run ''sha256:other'') = Inr True" by code_simp
  have w: "wanted ''v1'' = ''v1''" "syCacheDir (live_sync ''sha256:other'') = [''c'']" by (simp_all add: wanted_def live_sync_def)
  have n: "''sha256:other'' \<noteq> demo_digest" by code_simp
  have v: "syVerifier (live_sync ''sha256:other'') =
      Some (\<lambda>_ _. Inr \<lparr>vrVerified = True, vrSignerIdentity = [], vrIssuer = [], vrVerifiedAt = 1\<rparr>)" by (simp add: live_sync_def)
  show ?thesis
    using moved_tag_recorded_verified[OF live_setup(1-5) one_copy_from live_setup(6-8) live_run_split[OF r] refl refl n v]
    unfolding w by simp blast
qed

end
