(* ===== verification/Mock_Registry.thy ===== *)
theory Mock_Registry
  imports Registry Workspace Filesystem
begin

text \<open>
  The registry of the integration tests (\<^verbatim>\<open>cmd/mock-oci-registry/main.go\<close>): a content store seeded from
  embedded files and from a directory, and the handler that serves it over the distribution API. The
  SHA-256 function and the writer of compressed archives are parameters; the JSON the server writes is
  written out. A response is its status, its headers and the body the handler writes.
\<close>

section \<open>Text\<close>

fun LastIndex :: "string \<Rightarrow> string \<Rightarrow> int" where
  "LastIndex [] p = (if p = [] then 0 else -1)"
| "LastIndex (c # s) p =
    (let i = LastIndex s p in if i \<ge> 0 then i + 1 else if HasPrefix (c # s) p then 0 else -1)"

definition hex_digit :: "nat \<Rightarrow> char" where
  "hex_digit n = (if n < 10 then char_of (48 + n) else char_of (87 + n))"

definition hex_byte :: "char \<Rightarrow> string" where
  "hex_byte c = [hex_digit (of_char c div 16), hex_digit (of_char c mod 16)]"

definition hex_string :: "string \<Rightarrow> string" where
  "hex_string s = concat (map hex_byte s)"

text \<open>\<^verbatim>\<open>%q\<close>: control characters are escaped, text of other alphabets is printable and kept.\<close>

definition quote_byte :: "char \<Rightarrow> string" where
  "quote_byte c =
    (if c = CHR 0x22 \<or> c = CHR 0x5C then [CHR 0x5C, c]
     else if c = CHR 0x07 then [CHR 0x5C, CHR ''a'']
     else if c = CHR 0x08 then [CHR 0x5C, CHR ''b'']
     else if c = CHR 0x0C then [CHR 0x5C, CHR ''f'']
     else if c = CHR 0x0A then [CHR 0x5C, CHR ''n'']
     else if c = CHR 0x0D then [CHR 0x5C, CHR ''r'']
     else if c = CHR 0x09 then [CHR 0x5C, CHR ''t'']
     else if c = CHR 0x0B then [CHR 0x5C, CHR ''v'']
     else if c < CHR 0x20 \<or> c = CHR 0x7F then [CHR 0x5C, CHR ''x''] @ hex_byte c
     else [c])"

definition quoted :: "string \<Rightarrow> string" where
  "quoted s = [CHR 0x22] @ concat (map quote_byte s) @ [CHR 0x22]"

subsection \<open>JSON\<close>

text \<open>\<^verbatim>\<open>json.Marshal\<close> of UTF-8 text, with the escapes for HTML.\<close>

definition json_byte :: "char \<Rightarrow> string" where
  "json_byte c =
    (if c = CHR 0x22 \<or> c = CHR 0x5C then [CHR 0x5C, c]
     else if c = CHR 0x08 then [CHR 0x5C, CHR ''b'']
     else if c = CHR 0x0C then [CHR 0x5C, CHR ''f'']
     else if c = CHR 0x0A then [CHR 0x5C, CHR ''n'']
     else if c = CHR 0x0D then [CHR 0x5C, CHR ''r'']
     else if c = CHR 0x09 then [CHR 0x5C, CHR ''t'']
     else if c < CHR 0x20 \<or> c = CHR ''<'' \<or> c = CHR ''>'' \<or> c = CHR ''&''
     then [CHR 0x5C, CHR ''u'', CHR ''0'', CHR ''0''] @ hex_byte c
     else [c])"

definition json_string :: "string \<Rightarrow> string" where
  "json_string s = [CHR 0x22] @ concat (map json_byte s) @ [CHR 0x22]"

datatype json = JString string | JNum nat | JArr "json list" | JObj "(string \<times> json) list"

fun json_text :: "json \<Rightarrow> string" where
  "json_text (JString s) = json_string s"
| "json_text (JNum n) = show_nat n"
| "json_text (JArr xs) = ''['' @ Join '','' (map json_text xs) @ '']''"
| "json_text (JObj kvs) = ''{'' @ Join '','' (map (\<lambda>kv. json_string (fst kv) @ '':'' @ json_text (snd kv)) kvs) @ ''}''"

text \<open>A map is written in the order of its keys.\<close>

definition json_map :: "(string, string) gomap \<Rightarrow> json" where
  "json_map m = JObj (map (\<lambda>k. (k, JString (go_str m k))) (sort (go_keys m)))"

section \<open>The content store\<close>

record mock_blob =
  mbData :: string
  mbMediaType :: string

record artifact =
  arManifestBytes :: string
  arManifestDigest :: string

record repository =
  rpTags :: "(string, artifact) gomap"
  rpBlobs :: "(string, mock_blob) gomap"

type_synonym contentStore = "(string, repository) gomap"

record ociDescriptor =
  odMediaType :: string
  odDigest :: string
  odSize :: nat

record ociManifest =
  omSchemaVersion :: nat
  omMediaType :: string
  omArtifactType :: string
  omAnnotations :: "(string, string) gomap"
  omConfig :: ociDescriptor
  omLayers :: "ociDescriptor list"

record layerDef =
  ldMediaType :: string
  ldData :: string

record complypackDef =
  cdEvaluatorID :: string
  cdVersion :: string
  cdContent :: string

definition ociManifestMediaType :: string where "ociManifestMediaType = ''application/vnd.oci.image.manifest.v1+json''"
definition ociEmptyConfigType :: string where "ociEmptyConfigType = ''application/vnd.oci.empty.v1+json''"
definition gemaraCatalogType :: string where "gemaraCatalogType = ''application/vnd.gemara.catalog.v1+yaml''"
definition gemaraPolicyType :: string where "gemaraPolicyType = ''application/vnd.gemara.policy.v1+yaml''"
definition complypackArtifactType :: string where "complypackArtifactType = ''application/vnd.complypack.artifact.v1''"
definition complypackConfigType :: string where "complypackConfigType = ''application/vnd.complypack.config.v1+json''"
definition complypackContentType :: string where "complypackContentType = ''application/vnd.complypack.content.v1.tar+gzip''"

definition descriptor_json :: "ociDescriptor \<Rightarrow> json" where
  "descriptor_json d = JObj [(''mediaType'', JString (odMediaType d)), (''digest'', JString (odDigest d)), (''size'', JNum (odSize d))]"

definition manifest_json :: "ociManifest \<Rightarrow> json" where
  "manifest_json m = JObj (
    [(''schemaVersion'', JNum (omSchemaVersion m)), (''mediaType'', JString (omMediaType m))] @
    (if omArtifactType m = [] then [] else [(''artifactType'', JString (omArtifactType m))]) @
    (if omAnnotations m = [] then [] else [(''annotations'', json_map (omAnnotations m))]) @
    [(''config'', descriptor_json (omConfig m)), (''layers'', JArr (map descriptor_json (omLayers m)))])"

definition computeDigest :: "(string \<Rightarrow> string) \<Rightarrow> string \<Rightarrow> string" where
  "computeDigest sha data = ''sha256:'' @ hex_string (sha data)"

text \<open>A range over the tags visits them in the order of the list.\<close>

definition mock_resolve :: "repository \<Rightarrow> string \<Rightarrow> artifact option" where
  "mock_resolve r reference =
    (case go_get (rpTags r) reference of
       Some art \<Rightarrow> Some art
     | None \<Rightarrow> map_option snd (find (\<lambda>(t, a). arManifestDigest a = reference) (rpTags r)))"

definition listRepositories :: "contentStore \<Rightarrow> string list" where
  "listRepositories s = sort (go_keys s)"

text \<open>The loop over the layers: the blobs and the descriptors.\<close>

fun add_layers :: "(string \<Rightarrow> string) \<Rightarrow> layerDef list \<Rightarrow> (string, mock_blob) gomap \<Rightarrow> (string, mock_blob) gomap \<times> ociDescriptor list" where
  "add_layers sha [] blobs = (blobs, [])"
| "add_layers sha (l # ls) blobs =
    (let dg = computeDigest sha (ldData l);
         (bs, ds) = add_layers sha ls (go_put dg \<lparr>mbData = ldData l, mbMediaType = ldMediaType l\<rparr> blobs) in
     (bs, \<lparr>odMediaType = ldMediaType l, odDigest = dg, odSize = length (ldData l)\<rparr> # ds))"

definition tag_all :: "string list \<Rightarrow> artifact \<Rightarrow> (string, artifact) gomap" where
  "tag_all tags art = foldl (\<lambda>m tag. go_put tag art m) [] tags"

definition addArtifact :: "(string \<Rightarrow> string) \<Rightarrow> string \<Rightarrow> string list \<Rightarrow> layerDef list \<Rightarrow> contentStore \<Rightarrow> contentStore" where
  "addArtifact sha repoName tags layers s =
    (let emptyConfig = ''{}'';
         emptyConfigDigest = computeDigest sha emptyConfig;
         (blobs, layerDescs) = add_layers sha layers (go_put emptyConfigDigest \<lparr>mbData = emptyConfig, mbMediaType = ociEmptyConfigType\<rparr> []);
         manifest = \<lparr>omSchemaVersion = 2, omMediaType = ociManifestMediaType, omArtifactType = [], omAnnotations = [],
           omConfig = \<lparr>odMediaType = ociEmptyConfigType, odDigest = emptyConfigDigest, odSize = length emptyConfig\<rparr>,
           omLayers = layerDescs\<rparr>;
         manifestBytes = json_text (manifest_json manifest);
         art = \<lparr>arManifestBytes = manifestBytes, arManifestDigest = computeDigest sha manifestBytes\<rparr> in
     go_put repoName \<lparr>rpTags = tag_all tags art, rpBlobs = blobs\<rparr> s)"

definition addComplypackArtifact :: "(string \<Rightarrow> string) \<Rightarrow> string \<Rightarrow> string list \<Rightarrow> complypackDef \<Rightarrow> contentStore \<Rightarrow> contentStore" where
  "addComplypackArtifact sha repoName tags def s =
    (let configJSON = json_text (json_map [(''evaluator-id'', cdEvaluatorID def), (''version'', cdVersion def)]);
         configDigest = computeDigest sha configJSON;
         blobs = go_put configDigest \<lparr>mbData = configJSON, mbMediaType = complypackConfigType\<rparr> [];
         contentDigest = computeDigest sha (cdContent def);
         blobs = go_put contentDigest \<lparr>mbData = cdContent def, mbMediaType = complypackContentType\<rparr> blobs;
         manifest = \<lparr>omSchemaVersion = 2, omMediaType = ociManifestMediaType, omArtifactType = complypackArtifactType,
           omAnnotations = [(''complypack.evaluator-id'', cdEvaluatorID def)],
           omConfig = \<lparr>odMediaType = complypackConfigType, odDigest = configDigest, odSize = length configJSON\<rparr>,
           omLayers = [\<lparr>odMediaType = complypackContentType, odDigest = contentDigest, odSize = length (cdContent def)\<rparr>]\<rparr>;
         manifestBytes = json_text (manifest_json manifest);
         art = \<lparr>arManifestBytes = manifestBytes, arManifestDigest = computeDigest sha manifestBytes\<rparr> in
     go_put repoName \<lparr>rpTags = tag_all tags art, rpBlobs = blobs\<rparr> s)"

section \<open>Serving\<close>

datatype http_method = GET | HEAD | OtherMethod string

record response =
  rsStatus :: nat
  rsHeaders :: "(string, string) gomap"
  rsBody :: string

definition json_response :: "nat \<Rightarrow> json \<Rightarrow> response" where
  "json_response status j = \<lparr>rsStatus = status, rsHeaders = [(''Content-Type'', ''application/json'')], rsBody = json_text j @ [CHR 0x0A]\<rparr>"

definition writeOCIError :: "nat \<Rightarrow> string \<Rightarrow> string \<Rightarrow> response" where
  "writeOCIError status code message =
    json_response status (JObj [(''errors'', JArr [json_map [(''code'', code), (''message'', message)]])])"

definition serveCatalog :: "contentStore \<Rightarrow> response" where
  "serveCatalog store = json_response 200 (JObj [(''repositories'', JArr (map JString (listRepositories store)))])"

definition repo_unknown :: "string \<Rightarrow> response" where
  "repo_unknown repoName = writeOCIError 404 ''NAME_UNKNOWN'' (''repository '' @ quoted repoName @ '' not found'')"

definition serveTagsList :: "contentStore \<Rightarrow> string \<Rightarrow> response" where
  "serveTagsList store repoName =
    (case go_get store repoName of
       None \<Rightarrow> repo_unknown repoName
     | Some repo \<Rightarrow> json_response 200 (JObj [(''name'', JString repoName), (''tags'', JArr (map JString (sort (go_keys (rpTags repo)))))]))"

definition serveManifest :: "http_method \<Rightarrow> contentStore \<Rightarrow> string \<Rightarrow> string \<Rightarrow> response" where
  "serveManifest method store repoName reference =
    (if method \<noteq> GET \<and> method \<noteq> HEAD then
       \<lparr>rsStatus = 405, rsHeaders = [(''Content-Type'', ''text/plain; charset=utf-8''), (''X-Content-Type-Options'', ''nosniff'')],
        rsBody = ''method not allowed'' @ [CHR 0x0A]\<rparr>
     else case go_get store repoName of
       None \<Rightarrow> repo_unknown repoName
     | Some repo \<Rightarrow>
        (case mock_resolve repo reference of
           None \<Rightarrow> writeOCIError 404 ''MANIFEST_UNKNOWN'' (''manifest '' @ quoted reference @ '' not found'')
         | Some art \<Rightarrow>
            \<lparr>rsStatus = 200,
             rsHeaders = [(''Content-Type'', ociManifestMediaType), (''Docker-Content-Digest'', arManifestDigest art),
               (''Content-Length'', show_nat (length (arManifestBytes art))), (''Docker-Distribution-API-Version'', ''registry/2.0'')],
             rsBody = (if method = HEAD then [] else arManifestBytes art)\<rparr>))"

definition serveBlob :: "contentStore \<Rightarrow> string \<Rightarrow> string \<Rightarrow> response" where
  "serveBlob store repoName dg =
    (case go_get store repoName of
       None \<Rightarrow> repo_unknown repoName
     | Some repo \<Rightarrow>
        (case go_get (rpBlobs repo) dg of
           None \<Rightarrow> writeOCIError 404 ''BLOB_UNKNOWN'' (''blob '' @ quoted dg @ '' not found'')
         | Some b \<Rightarrow>
            \<lparr>rsStatus = 200,
             rsHeaders = [(''Content-Type'', ''application/octet-stream''), (''Content-Length'', show_nat (length (mbData b))),
               (''Docker-Content-Digest'', dg)],
             rsBody = mbData b\<rparr>))"

text \<open>The handler of \<^verbatim>\<open>/v2/\<close>.\<close>

definition oci_handler :: "contentStore \<Rightarrow> http_method \<Rightarrow> string \<Rightarrow> response" where
  "oci_handler store method urlPath =
    (let path = TrimSuffix (TrimPrefix urlPath ''/v2/'') ''/'' in
     if path = [] then
       \<lparr>rsStatus = 200, rsHeaders = [(''Docker-Distribution-API-Version'', ''registry/2.0''), (''Content-Type'', ''application/json'')],
        rsBody = ''{}''\<rparr>
     else if path = ''_catalog'' then serveCatalog store
     else let idx = LastIndex path ''/tags/list'' in
     if idx > 0 then serveTagsList store (take (nat idx) path)
     else let idx = LastIndex path ''/manifests/'' in
     if idx > 0 then serveManifest method store (take (nat idx) path) (drop (nat idx + length ''/manifests/'') path)
     else let idx = LastIndex path ''/blobs/'' in
     if idx > 0 then serveBlob store (take (nat idx) path) (drop (nat idx + length ''/blobs/'') path)
     else writeOCIError 400 ''NAME_UNKNOWN'' ''invalid API path'')"

section \<open>Seeding\<close>

text \<open>An embedded file system: the entries of a directory with whether each is a directory, and the files.\<close>

record embedFS =
  emReadDir :: "string \<Rightarrow> (string \<times> bool) list option"
  emReadFile :: "string \<Rightarrow> string option"

text \<open>An abort of the process (\<^verbatim>\<open>log.Fatalf\<close>) is \<^const>\<open>None\<close>.\<close>

definition buildDummyTarGz :: "((string \<times> string) list \<Rightarrow> string) \<Rightarrow> string \<Rightarrow> string \<Rightarrow> string" where
  "buildDummyTarGz targz name content = targz [(name, content)]"

fun embed_files :: "embedFS \<Rightarrow> string \<Rightarrow> (string \<times> bool) list \<Rightarrow> (string \<times> string) list option" where
  "embed_files fsys root [] = Some []"
| "embed_files fsys root ((name, isDir) # entries) =
    (if isDir then embed_files fsys root entries
     else case emReadFile fsys (filepath_Join [root, name]) of
       None \<Rightarrow> None
     | Some d \<Rightarrow> map_option (\<lambda>fs. (name, d) # fs) (embed_files fsys root entries))"

definition buildTarGzFromFS :: "((string \<times> string) list \<Rightarrow> string) \<Rightarrow> embedFS \<Rightarrow> string \<Rightarrow> string option" where
  "buildTarGzFromFS targz fsys root =
    (case emReadDir fsys root of
       None \<Rightarrow> None
     | Some entries \<Rightarrow> map_option targz (embed_files fsys root entries))"

definition policy_layers :: "string \<Rightarrow> string \<Rightarrow> layerDef list" where
  "policy_layers catalog policy =
    [\<lparr>ldMediaType = gemaraCatalogType, ldData = catalog\<rparr>, \<lparr>ldMediaType = gemaraPolicyType, ldData = policy\<rparr>]"

definition seedPolicyFromFiles ::
    "(string \<Rightarrow> string) \<Rightarrow> embedFS \<Rightarrow> string \<Rightarrow> string \<Rightarrow> string \<Rightarrow> string list \<Rightarrow> contentStore \<Rightarrow> contentStore option" where
  "seedPolicyFromFiles sha seedData repoPath catalogFile policyFile tags s =
    (case emReadFile seedData catalogFile of
       None \<Rightarrow> None
     | Some catalog \<Rightarrow>
        (case emReadFile seedData policyFile of
           None \<Rightarrow> None
         | Some policy \<Rightarrow> Some (addArtifact sha repoPath tags (policy_layers catalog policy) s)))"

definition seedComplypack ::
    "(string \<Rightarrow> string) \<Rightarrow> ((string \<times> string) list \<Rightarrow> string) \<Rightarrow> embedFS \<Rightarrow> string \<Rightarrow> string \<Rightarrow> string \<Rightarrow> contentStore \<Rightarrow> contentStore option" where
  "seedComplypack sha targz fsys root repoName evaluatorID s =
    map_option (\<lambda>content. addComplypackArtifact sha repoName [''v1.0.0'', ''latest'']
        \<lparr>cdEvaluatorID = evaluatorID, cdVersion = ''1.0.0'', cdContent = content\<rparr> s)
      (buildTarGzFromFS targz fsys root)"

definition seedDefaults ::
    "(string \<Rightarrow> string) \<Rightarrow> ((string \<times> string) list \<Rightarrow> string) \<Rightarrow> embedFS \<Rightarrow> embedFS \<Rightarrow> embedFS \<Rightarrow> contentStore \<Rightarrow> contentStore option" where
  "seedDefaults sha targz seedData ampelData opaData s =
    Option.bind (seedPolicyFromFiles sha seedData ''policies/test-branch-protection''
      ''testdata/test-branch-protection-catalog.yaml'' ''testdata/test-branch-protection-policy.yaml'' [''v1.0.0'', ''latest''] s) (\<lambda>s.
    Option.bind (seedPolicyFromFiles sha seedData ''policies/ampel-branch-protection''
      ''testdata/ampel-branch-protection-catalog.yaml'' ''testdata/ampel-branch-protection-policy.yaml'' [''v1.0.0'', ''latest''] s) (\<lambda>s.
    Option.bind (seedComplypack sha targz ampelData ''testdata/ampel-complypack'' ''complypacks/ampel-bp'' ''ampel'' s) (\<lambda>s.
    Option.bind (seedPolicyFromFiles sha seedData ''policies/test-opa-policy''
      ''testdata/test-opa-catalog.yaml'' ''testdata/test-opa-policy.yaml'' [''v1.0.0'', ''latest''] s) (\<lambda>s.
    seedComplypack sha targz opaData ''testdata/opa-complypack'' ''complypacks/test-opa-complypack'' ''opa'' s))))"

definition resolveContentDir :: "osenv \<Rightarrow> string" where
  "resolveContentDir os =
    (let dir = os_Getenv os ''MOCK_REGISTRY_CONTENT_DIR'' in if dir \<noteq> [] then dir else ''/bundles'')"

definition validBundleName :: "string \<Rightarrow> bool" where
  "validBundleName name \<longleftrightarrow> name \<noteq> [] \<and>
     list_all (\<lambda>c. is_lower c \<or> is_upper c \<or> is_digit c \<or> c = CHR ''_'' \<or> c = CHR ''-'') name"

definition maxPolicyFileSize :: nat where "maxPolicyFileSize = 10 * 1024 * 1024"

text \<open>
  The files of the mounted directory: \<open>bytes\<close> is the content of a file that is not kept as raw bytes,
  and \<open>link\<close> says which paths are symbolic links.
\<close>

fun file_bytes :: "(fdata \<Rightarrow> string) \<Rightarrow> fdata \<Rightarrow> string" where
  "file_bytes bytes (Raw s) = s"
| "file_bytes bytes d = bytes d"

datatype read_err = ReadLstat | ReadSymlink | ReadTooLarge nat | ReadFailed

definition readFileLimited :: "(fdata \<Rightarrow> string) \<Rightarrow> (path \<Rightarrow> bool) \<Rightarrow> faults \<Rightarrow> fs \<Rightarrow> path \<Rightarrow> nat \<Rightarrow> read_err + string" where
  "readFileLimited bytes link flt s p maxSize =
    (if \<not> fs_exists flt p s then Inl ReadLstat
     else if link p then Inl ReadSymlink
     else case go_get s p of
       Some (File d) \<Rightarrow>
        (if length (file_bytes bytes d) > maxSize then Inl (ReadTooLarge (length (file_bytes bytes d)))
         else case fs_ReadFile flt p s of Doc d \<Rightarrow> Inr (file_bytes bytes d) | _ \<Rightarrow> Inl ReadFailed)
     | _ \<Rightarrow> Inl ReadFailed)"

datatype seed_log = InvalidName | SkippedCatalog string read_err | SkippedPolicy string read_err | SeededPolicy string

fun seed_entries ::
    "(string \<Rightarrow> string) \<Rightarrow> (fdata \<Rightarrow> string) \<Rightarrow> (path \<Rightarrow> bool) \<Rightarrow> faults \<Rightarrow> fs \<Rightarrow> path \<Rightarrow> string \<Rightarrow> (string \<times> node) list \<Rightarrow>
     contentStore \<Rightarrow> contentStore \<times> seed_log list" where
  "seed_entries sha bytes link flt fsys cwd dir [] s = (s, [])"
| "seed_entries sha bytes link flt fsys cwd dir ((name, n) # entries) s =
    (let next = (\<lambda>s logs. (let (s', ls) = seed_entries sha bytes link flt fsys cwd dir entries s in (s', logs @ ls)));
         policyDir = filepath_Join [dir, name] in
     if n \<noteq> Dir \<or> link (os_path cwd policyDir) then next s []
     else if \<not> validBundleName name then next s [InvalidName]
     else case readFileLimited bytes link flt fsys (os_path cwd (filepath_Join [policyDir, ''catalog.yaml''])) maxPolicyFileSize of
       Inl e \<Rightarrow> next s [SkippedCatalog name e]
     | Inr catalog \<Rightarrow>
        (case readFileLimited bytes link flt fsys (os_path cwd (filepath_Join [policyDir, ''policy.yaml''])) maxPolicyFileSize of
           Inl e \<Rightarrow> next s [SkippedPolicy name e]
         | Inr policy \<Rightarrow>
            next (addArtifact sha (''policies/'' @ name) [''latest''] (policy_layers catalog policy) s) [SeededPolicy name]))"

definition seedFromDirectory ::
    "(string \<Rightarrow> string) \<Rightarrow> (fdata \<Rightarrow> string) \<Rightarrow> (path \<Rightarrow> bool) \<Rightarrow> faults \<Rightarrow> fs \<Rightarrow> path \<Rightarrow> string \<Rightarrow> contentStore \<Rightarrow> contentStore \<times> seed_log list" where
  "seedFromDirectory sha bytes link flt fsys cwd dir s =
    (case fs_ReadDir flt (os_path cwd dir) fsys of
       Entries entries \<Rightarrow> seed_entries sha bytes link flt fsys cwd dir entries s
     | _ \<Rightarrow> (s, []))"

text \<open>The store the server starts with.\<close>

definition mock_main ::
    "(string \<Rightarrow> string) \<Rightarrow> ((string \<times> string) list \<Rightarrow> string) \<Rightarrow> embedFS \<Rightarrow> embedFS \<Rightarrow> embedFS \<Rightarrow>
     (fdata \<Rightarrow> string) \<Rightarrow> (path \<Rightarrow> bool) \<Rightarrow> faults \<Rightarrow> fs \<Rightarrow> path \<Rightarrow> osenv \<Rightarrow> (string \<times> contentStore) option" where
  "mock_main sha targz seedData ampelData opaData bytes link flt fsys cwd os =
    (let port = os_Getenv os ''GEMARA_SERVICE_PORT''; port = (if port = [] then ''8765'' else port) in
     map_option (\<lambda>s. ('':'' @ port, fst (seedFromDirectory sha bytes link flt fsys cwd (resolveContentDir os) s)))
       (seedDefaults sha targz seedData ampelData opaData []))"

section \<open>What every store satisfies\<close>

text \<open>Blobs and manifests are stored under their digests, and the tags of a repository name one artifact.\<close>

definition repo_ok :: "(string \<Rightarrow> string) \<Rightarrow> repository \<Rightarrow> bool" where
  "repo_ok sha r \<longleftrightarrow>
    (\<forall>dg b. go_get (rpBlobs r) dg = Some b \<longrightarrow> dg = computeDigest sha (mbData b)) \<and>
    (\<exists>a. arManifestDigest a = computeDigest sha (arManifestBytes a) \<and> (\<forall>(t, x) \<in> set (rpTags r). x = a))"

definition store_ok :: "(string \<Rightarrow> string) \<Rightarrow> contentStore \<Rightarrow> bool" where
  "store_ok sha s \<longleftrightarrow> (\<forall>n r. go_get s n = Some r \<longrightarrow> repo_ok sha r)"

locale seeding =
  fixes sha :: "string \<Rightarrow> string" and P :: "contentStore \<Rightarrow> bool"
  assumes empty: "P []"
    and artifact: "P s \<Longrightarrow> P (addArtifact sha n tags layers s)"
    and complypack: "P s \<Longrightarrow> P (addComplypackArtifact sha n tags def s)"
begin

lemma policy: "P s \<Longrightarrow> seedPolicyFromFiles sha d n c p tags s = Some s' \<Longrightarrow> P s'"
  by (auto simp: seedPolicyFromFiles_def artifact split: option.splits)

lemma pack: "P s \<Longrightarrow> seedComplypack sha targz d root n ev s = Some s' \<Longrightarrow> P s'"
  by (auto simp: seedComplypack_def complypack)

lemma defaults: "P s \<Longrightarrow> seedDefaults sha targz d1 d2 d3 s = Some s' \<Longrightarrow> P s'"
  unfolding seedDefaults_def bind_eq_Some_conv by (elim exE conjE) (rule pack, rule policy, rule pack, rule policy, rule policy)

lemma entries: "P s \<Longrightarrow> P (fst (seed_entries sha bytes link flt fsys cwd dir es s))"
proof (induction es arbitrary: s)
  case (Cons e es)
  obtain name n where e: "e = (name, n)" by (cases e)
  note IH = Cons.IH[OF Cons.prems] Cons.IH[OF artifact[OF Cons.prems]]
  show ?case using IH by (simp add: e Let_def split_beta split: sum.splits)
qed simp

lemma directory: "P s \<Longrightarrow> P (fst (seedFromDirectory sha bytes link flt fsys cwd dir s))"
  by (simp add: seedFromDirectory_def entries split: dir_res.splits)

lemma main: "mock_main sha targz d1 d2 d3 bytes link flt fsys cwd os = Some (addr, s) \<Longrightarrow> P s"
  using defaults[OF empty] directory by (auto simp: mock_main_def Let_def)

end

lemma tag_all_get: "go_get (tag_all tags art) t = (if t \<in> set tags then Some art else None)"
proof -
  have "go_get (foldl (\<lambda>m tag. go_put tag art m) m tags) t = (if t \<in> set tags then Some art else go_get m t)" for m
    by (induction tags arbitrary: m) auto
  then show ?thesis by (simp add: tag_all_def)
qed

lemma go_put_values: "(k, v) \<in> set (go_put a x m) \<Longrightarrow> v = x \<or> (k, v) \<in> set m"
  unfolding go_put_def by (induction m) (auto split: if_splits)

lemma tag_all_ne: "tag_all tags art = [] \<longleftrightarrow> tags = []"
proof -
  have "tag_all tags art \<noteq> []" if "t \<in> set tags" for t using tag_all_get[of tags art t] that by auto
  then show ?thesis by (cases tags) (auto simp: tag_all_def)
qed

lemma tag_all_values: "(t, x) \<in> set (tag_all tags art) \<Longrightarrow> x = art"
proof -
  have "(t, x) \<in> set (foldl (\<lambda>m tag. go_put tag art m) m tags) \<Longrightarrow> x = art \<or> (t, x) \<in> set m" for m
    by (induction tags arbitrary: m) (auto dest: go_put_values)
  from this[of "[]"] show "(t, x) \<in> set (tag_all tags art) \<Longrightarrow> x = art" by (simp add: tag_all_def)
qed

lemma tag_all_find:
  "map_option snd (find (\<lambda>(t, a). arManifestDigest a = x) (tag_all tags art)) =
    (if x = arManifestDigest art \<and> tags \<noteq> [] then Some art else None)"
proof -
  have "map_option snd (find (\<lambda>(t, a). arManifestDigest a = x) xs) =
    (if x = arManifestDigest art \<and> xs \<noteq> [] then Some art else None)" if "\<forall>(t, a) \<in> set xs. a = art" for xs
    using that by (induction xs) auto
  moreover have "\<forall>(t, a) \<in> set (tag_all tags art). a = art" using tag_all_values by blast
  ultimately show ?thesis unfolding tag_all_ne[of tags art, symmetric] by blast
qed

lemma add_layers_blobs:
  assumes "\<forall>dg b. go_get blobs dg = Some b \<longrightarrow> dg = computeDigest sha (mbData b)"
  shows "go_get (fst (add_layers sha ls blobs)) dg = Some b \<Longrightarrow> dg = computeDigest sha (mbData b)"
  using assms
proof (induction ls arbitrary: blobs)
  case (Cons l ls)
  show ?case
    by (rule Cons.IH[of "go_put (computeDigest sha (ldData l)) \<lparr>mbData = ldData l, mbMediaType = ldMediaType l\<rparr> blobs"])
      (use Cons.prems in \<open>auto simp: Let_def split_beta split: if_splits\<close>)
qed simp

definition layer_desc :: "(string \<Rightarrow> string) \<Rightarrow> layerDef \<Rightarrow> ociDescriptor" where
  "layer_desc sha l = \<lparr>odMediaType = ldMediaType l, odDigest = computeDigest sha (ldData l), odSize = length (ldData l)\<rparr>"

lemma add_layers_descs: "snd (add_layers sha ls blobs) = map (layer_desc sha) ls"
  by (induction ls arbitrary: blobs) (auto simp: Let_def split_beta layer_desc_def)

text \<open>The manifest of an artifact.\<close>

definition artifact_manifest :: "(string \<Rightarrow> string) \<Rightarrow> layerDef list \<Rightarrow> ociManifest" where
  "artifact_manifest sha layers =
    \<lparr>omSchemaVersion = 2, omMediaType = ociManifestMediaType, omArtifactType = [], omAnnotations = [],
     omConfig = \<lparr>odMediaType = ociEmptyConfigType, odDigest = computeDigest sha ''{}'', odSize = 2\<rparr>,
     omLayers = map (layer_desc sha) layers\<rparr>"

definition manifest_artifact :: "(string \<Rightarrow> string) \<Rightarrow> ociManifest \<Rightarrow> artifact" where
  "manifest_artifact sha m =
    (let b = json_text (manifest_json m) in \<lparr>arManifestBytes = b, arManifestDigest = computeDigest sha b\<rparr>)"

lemma addArtifact_eq:
  "addArtifact sha n tags layers s = go_put n
    \<lparr>rpTags = tag_all tags (manifest_artifact sha (artifact_manifest sha layers)),
     rpBlobs = fst (add_layers sha layers [(computeDigest sha ''{}'', \<lparr>mbData = ''{}'', mbMediaType = ociEmptyConfigType\<rparr>)])\<rparr> s"
  using add_layers_descs[of sha layers]
  by (simp add: addArtifact_def manifest_artifact_def artifact_manifest_def Let_def split_beta go_put_def numeral_2_eq_2)

lemma manifest_artifact_digest: "arManifestDigest (manifest_artifact sha m) = computeDigest sha (arManifestBytes (manifest_artifact sha m))"
  by (simp add: manifest_artifact_def Let_def)

lemma repo_ok_intro:
  assumes "\<And>dg b. go_get blobs dg = Some b \<Longrightarrow> dg = computeDigest sha (mbData b)"
  shows "repo_ok sha \<lparr>rpTags = tag_all tags (manifest_artifact sha m), rpBlobs = blobs\<rparr>"
  using assms manifest_artifact_digest[of sha m] unfolding repo_ok_def
  by (auto intro!: exI[of _ "manifest_artifact sha m"] dest: tag_all_values)

lemma store_ok_put: "store_ok sha s \<Longrightarrow> repo_ok sha r \<Longrightarrow> store_ok sha (go_put n r s)"
  by (simp add: store_ok_def)

lemma addArtifact_ok: "store_ok sha s \<Longrightarrow> store_ok sha (addArtifact sha n tags layers s)"
  unfolding addArtifact_eq
proof (intro store_ok_put repo_ok_intro)
  fix dg b
  assume "go_get (fst (add_layers sha layers [(computeDigest sha ''{}'', \<lparr>mbData = ''{}'', mbMediaType = ociEmptyConfigType\<rparr>)])) dg = Some b"
  then show "dg = computeDigest sha (mbData b)"
    by (rule add_layers_blobs[rotated]) (simp add: go_get_def)
qed

lemma addComplypackArtifact_eq:
  "\<exists>m c. addComplypackArtifact sha n tags def s = go_put n
    \<lparr>rpTags = tag_all tags (manifest_artifact sha m),
     rpBlobs = go_put (computeDigest sha (cdContent def)) \<lparr>mbData = cdContent def, mbMediaType = complypackContentType\<rparr>
       (go_put (computeDigest sha c) \<lparr>mbData = c, mbMediaType = complypackConfigType\<rparr> [])\<rparr> s"
  unfolding addComplypackArtifact_def manifest_artifact_def Let_def by blast

lemma addComplypackArtifact_ok: "store_ok sha s \<Longrightarrow> store_ok sha (addComplypackArtifact sha n tags def s)"
  using addComplypackArtifact_eq[of sha n tags def s]
  by (elim exE) (auto simp: split: if_splits intro!: store_ok_put repo_ok_intro)

interpretation sd: seeding sha "store_ok sha" for sha
proof unfold_locales
  show "store_ok sha []" by (simp add: store_ok_def)
qed (rule addArtifact_ok addComplypackArtifact_ok, assumption)+

section \<open>Routing\<close>

lemma LastIndex_ge: "LastIndex s p = -1 \<or> LastIndex s p \<ge> 0"
  by (induction s) (auto simp: Let_def)

lemma LastIndex_none: "p \<noteq> [] \<Longrightarrow> LastIndex s p = -1 \<longleftrightarrow> \<not> Contains s p"
proof (induction s)
  case (Cons c s)
  then show ?case using LastIndex_ge[of s p] by (auto simp: Let_def)
qed simp

lemma LastIndex_last: "p = c # q \<Longrightarrow> \<not> Contains (q @ t) p \<Longrightarrow> LastIndex (n @ p @ t) p = int (length n)"
  using LastIndex_none[of p "q @ t"] HasPrefix_append[of p t]
  by (induction n) (simp_all add: Let_def)

text \<open>Two slashes cannot be matched where there is one.\<close>

lemma one_slash: "count_list s CHR ''/'' < count_list p CHR ''/'' \<Longrightarrow> \<not> Contains s p"
  by (auto simp: Contains_iff)

lemma no_slash_count: "CHR ''/'' \<notin> set t \<Longrightarrow> count_list t CHR ''/'' = 0"
  by (simp add: count_list_0_iff)

text \<open>Repository names the handler routes: not hidden by a route tried earlier.\<close>

definition routable :: "string \<Rightarrow> bool" where
  "routable n \<longleftrightarrow> n \<noteq> [] \<and> \<not> Contains n ''/tags/list'' \<and> \<not> Contains (n @ ''/'') ''/manifests/''"

lemma no_tags_route:
  assumes "\<not> Contains n ''/tags/list''" "CHR ''/'' \<notin> set t" "m \<in> {''/manifests/'', ''/blobs/''}"
  shows "\<not> Contains (n @ m @ t) ''/tags/list''"
proof
  assume "Contains (n @ m @ t) ''/tags/list''"
  then obtain a b where "n @ m @ t = a @ ''/tags/list'' @ b" unfolding Contains_iff by blast
  then consider us where "a = n @ us" "m @ t = us @ ''/tags/list'' @ b"
    | us where "n = a @ us" "us @ m @ t = ''/tags/list'' @ b"
    by (auto simp: append_eq_append_conv2)
  then show False
  proof cases
    case 1
    then show ?thesis using assms(2,3) by (auto simp: append_eq_Cons_conv Cons_eq_append_conv)
  next
    case 2
    then have "\<exists>vs. us = ''/tags/list'' @ vs"
      using assms(3) by (auto simp: append_eq_Cons_conv Cons_eq_append_conv)
    with 2(1) assms(1) show ?thesis by (auto simp: Contains_iff)
  qed
qed

lemma no_manifest_route:
  assumes "\<not> Contains (n @ ''/'') ''/manifests/''" "CHR ''/'' \<notin> set t"
  shows "\<not> Contains (n @ ''/blobs/'' @ t) ''/manifests/''"
proof
  assume "Contains (n @ ''/blobs/'' @ t) ''/manifests/''"
  then obtain a b where "n @ ''/blobs/'' @ t = a @ ''/manifests/'' @ b" unfolding Contains_iff by blast
  then consider us where "a = n @ us" "''/blobs/'' @ t = us @ ''/manifests/'' @ b"
    | us where "n = a @ us" "us @ ''/blobs/'' @ t = ''/manifests/'' @ b"
    by (auto simp: append_eq_append_conv2)
  then show False
  proof cases
    case 1
    then show ?thesis using assms(2) by (auto simp: append_eq_Cons_conv Cons_eq_append_conv)
  next
    case 2
    then have "\<exists>vs. us @ ''/'' = ''/manifests/'' @ vs"
      by (auto simp: append_eq_Cons_conv Cons_eq_append_conv)
    then obtain vs where "n @ ''/'' = a @ ''/manifests/'' @ vs" using 2(1) by auto
    with assms(1) show ?thesis unfolding Contains_iff by blast
  qed
qed

lemma route_trim:
  assumes "n \<noteq> []" "CHR ''/'' \<notin> set t" "t \<noteq> []"
  shows "TrimSuffix (TrimPrefix (''/v2/'' @ n @ m @ t) ''/v2/'') ''/'' = n @ m @ t"
proof -
  have "last t \<noteq> CHR ''/''" using assms(2,3) last_in_set by metis
  then have "\<not> HasSuffix (n @ m @ t) ''/''"
    using assms(3) by (auto simp: HasSuffix_iff) (metis append_is_Nil_conv last_appendR last_snoc)
  then show ?thesis unfolding TrimPrefix_append by (simp add: TrimSuffix_def)
qed

lemma not_catalog: "n @ (CHR ''/'' # m) \<noteq> ''_catalog''"
proof
  assume "n @ (CHR ''/'' # m) = ''_catalog''"
  then have "CHR ''/'' \<in> set ''_catalog''" by (metis in_set_conv_decomp)
  then show False by simp
qed

lemma handler_manifest:
  assumes "routable n" "CHR ''/'' \<notin> set t" "t \<noteq> []"
  shows "oci_handler st method (''/v2/'' @ n @ ''/manifests/'' @ t) = serveManifest method st n t"
proof -
  let ?p = "n @ ''/manifests/'' @ t"
  have n: "n \<noteq> []" "\<not> Contains n ''/tags/list''" using assms(1) by (auto simp: routable_def)
  have i1: "LastIndex ?p ''/tags/list'' = -1"
    using LastIndex_none[of "''/tags/list''" ?p] no_tags_route[OF n(2) assms(2), of "''/manifests/''"] by auto
  have "\<not> Contains (''manifests/'' @ t) ''/manifests/''"
    by (rule one_slash) (simp add: no_slash_count[OF assms(2)])
  then have i2: "LastIndex ?p ''/manifests/'' = int (length n)" by (intro LastIndex_last) auto
  have d: "drop (length n + length ''/manifests/'') ?p = t" by simp
  show ?thesis using n(1) not_catalog[of n "''manifests/'' @ t"]
    unfolding oci_handler_def route_trim[OF n(1) assms(2,3)] Let_def i1 i2 nat_int d by simp
qed

lemma handler_blob:
  assumes "routable n" "CHR ''/'' \<notin> set t" "t \<noteq> []"
  shows "oci_handler st method (''/v2/'' @ n @ ''/blobs/'' @ t) = serveBlob st n t"
proof -
  let ?p = "n @ ''/blobs/'' @ t"
  have n: "n \<noteq> []" "\<not> Contains n ''/tags/list''" "\<not> Contains (n @ ''/'') ''/manifests/''"
    using assms(1) by (auto simp: routable_def)
  have i1: "LastIndex ?p ''/tags/list'' = -1"
    using LastIndex_none[of "''/tags/list''" ?p] no_tags_route[OF n(2) assms(2), of "''/blobs/''"] by auto
  have i2: "LastIndex ?p ''/manifests/'' = -1"
    using LastIndex_none[of "''/manifests/''" ?p] no_manifest_route[OF n(3) assms(2)] by auto
  have "\<not> Contains (''blobs/'' @ t) ''/blobs/''"
    by (rule one_slash) (simp add: no_slash_count[OF assms(2)])
  then have i3: "LastIndex ?p ''/blobs/'' = int (length n)" by (intro LastIndex_last) auto
  have d: "drop (length n + length ''/blobs/'') ?p = t" by simp
  show ?thesis using n(1) not_catalog[of n "''blobs/'' @ t"]
    unfolding oci_handler_def route_trim[OF n(1) assms(2,3)] Let_def i1 i2 i3 nat_int d by simp
qed

section \<open>Pulling\<close>

lemma hex_digit_lhex: "n < 16 \<Longrightarrow> is_lhex (hex_digit n)"
proof -
  have "list_all (\<lambda>n. is_lhex (hex_digit n)) [0..<16]" by code_simp
  then show "n < 16 \<Longrightarrow> is_lhex (hex_digit n)" unfolding list_all_iff by simp
qed

lemma hex_byte_lhex: "list_all is_lhex (hex_byte c)"
proof -
  have "(of_char c :: nat) div 16 < 16" using nat_of_char_less_256[of c] by linarith
  then show ?thesis by (simp add: hex_byte_def hex_digit_lhex)
qed

lemma hex_string_lhex: "list_all is_lhex (hex_string s)"
  by (induction s) (simp_all add: hex_string_def hex_byte_lhex)

lemma hex_string_length: "length (hex_string s) = 2 * length s"
  by (induction s) (simp_all add: hex_string_def hex_byte_def)

lemma computeDigest_plain: "CHR ''/'' \<notin> set (computeDigest sha x)" "computeDigest sha x \<noteq> []"
proof -
  have "CHR ''/'' \<notin> set (hex_string (sha x))"
    using hex_string_lhex[of "sha x"] by (auto simp: list_all_iff is_lhex_def is_digit_def)
  then show "CHR ''/'' \<notin> set (computeDigest sha x)" "computeDigest sha x \<noteq> []" by (simp_all add: computeDigest_def)
qed

lemma computeDigest_valid: "length (sha x) = 32 \<Longrightarrow> valid_digest (computeDigest sha x)"
  using hex_string_lhex[of "sha x"] hex_string_length[of "sha x"]
  unfolding computeDigest_def valid_digest_iff by (intro exI[of _ "''sha256''"] exI[of _ 64] exI[of _ "hex_string (sha x)"]) auto

lemma add_layers_keep:
  assumes "inj_on (computeDigest sha) (D \<union> ldData ` set ls)" "\<forall>x \<in> D. \<exists>b. go_get blobs (computeDigest sha x) = Some b \<and> mbData b = x"
    "x \<in> D \<union> ldData ` set ls"
  shows "\<exists>b. go_get (fst (add_layers sha ls blobs)) (computeDigest sha x) = Some b \<and> mbData b = x"
  using assms
proof (induction ls arbitrary: D blobs)
  case (Cons l ls)
  let ?D = "insert (ldData l) D"
  let ?b = "go_put (computeDigest sha (ldData l)) \<lparr>mbData = ldData l, mbMediaType = ldMediaType l\<rparr> blobs"
  have "\<exists>b. go_get ?b (computeDigest sha y) = Some b \<and> mbData b = y" if "y \<in> ?D" for y
    using that Cons.prems(1,2) by (auto simp: inj_on_def)
  with Cons.IH[of ?D ?b] Cons.prems(1,3) show ?case by (simp add: Let_def split_beta)
qed simp

text \<open>
  What is put into the mock registry can be pulled from it: after \<^verbatim>\<open>addArtifact\<close>, a request
  for the manifest at one of the tags or at its digest is answered with the marshalled manifest that lists
  the layers with their digests and sizes, under its own digest; a request for a layer's digest
  returns that layer's bytes; an unknown tag is 404 \<^verbatim>\<open>MANIFEST_UNKNOWN\<close>. The name must not be hidden by
  another route, and the digests of the contents must not collide.
\<close>

theorem mock_pull_roundtrip:
  assumes "routable n" "CHR ''/'' \<notin> set t" "t \<noteq> []" "inj_on (computeDigest sha) (insert ''{}'' (ldData ` set layers))"
  shows "let st = addArtifact sha n tags layers s;
      m = json_text (manifest_json (artifact_manifest sha layers));
      r = oci_handler st GET (''/v2/'' @ n @ ''/manifests/'' @ t) in
    (if t \<in> set tags \<or> (t = computeDigest sha m \<and> tags \<noteq> [])
     then rsStatus r = 200 \<and> rsBody r = m \<and> go_get (rsHeaders r) ''Docker-Content-Digest'' = Some (computeDigest sha m)
     else rsStatus r = 404) \<and>
    (\<forall>l \<in> set layers. let q = oci_handler st GET (''/v2/'' @ n @ ''/blobs/'' @ odDigest (layer_desc sha l)) in
       rsStatus q = 200 \<and> rsBody q = ldData l)"
proof -
  let ?a = "manifest_artifact sha (artifact_manifest sha layers)"
  let ?m = "json_text (manifest_json (artifact_manifest sha layers))"
  let ?st = "addArtifact sha n tags layers s"
  have g: "go_get ?st n = Some \<lparr>rpTags = tag_all tags ?a,
     rpBlobs = fst (add_layers sha layers [(computeDigest sha ''{}'', \<lparr>mbData = ''{}'', mbMediaType = ociEmptyConfigType\<rparr>)])\<rparr>"
    by (simp add: addArtifact_eq)
  have a: "arManifestBytes ?a = ?m" "arManifestDigest ?a = computeDigest sha ?m" by (simp_all add: manifest_artifact_def Let_def)
  have r: "mock_resolve \<lparr>rpTags = tag_all tags ?a, rpBlobs = bs\<rparr> t =
    (if t \<in> set tags \<or> (t = computeDigest sha ?m \<and> tags \<noteq> []) then Some ?a else None)" for bs
    using tag_all_find[of t tags ?a] unfolding a(2) by (cases "t \<in> set tags") (simp_all add: mock_resolve_def tag_all_get)
  have b: "serveBlob ?st n (odDigest (layer_desc sha l)) = serveBlob ?st n (computeDigest sha (ldData l))" for l
    by (simp add: layer_desc_def)
  have "rsStatus q = 200 \<and> rsBody q = ldData l"
    if "l \<in> set layers" "q = serveBlob ?st n (computeDigest sha (ldData l))" for l q
  proof -
    have "\<exists>b. go_get (fst (add_layers sha layers [(computeDigest sha ''{}'', \<lparr>mbData = ''{}'', mbMediaType = ociEmptyConfigType\<rparr>)]))
        (computeDigest sha (ldData l)) = Some b \<and> mbData b = ldData l"
      by (rule add_layers_keep[of sha "{''{}''}"]) (use assms(4) that(1) in \<open>auto simp: go_get_def\<close>)
    then show ?thesis using g that(2) by (auto simp: serveBlob_def)
  qed
  moreover have "go_get (rsHeaders (serveManifest GET ?st n t)) ''Docker-Content-Digest'' = Some (computeDigest sha ?m) \<and>
      rsStatus (serveManifest GET ?st n t) = 200 \<and> rsBody (serveManifest GET ?st n t) = ?m"
    if "t \<in> set tags \<or> (t = computeDigest sha ?m \<and> tags \<noteq> [])"
    using g r that a by (simp add: serveManifest_def go_get_def)
  moreover have "rsStatus (serveManifest GET ?st n t) = 404"
    if "\<not> (t \<in> set tags \<or> (t = computeDigest sha ?m \<and> tags \<noteq> []))"
    using g r that by (simp add: serveManifest_def writeOCIError_def json_response_def)
  ultimately show ?thesis
    using handler_manifest[OF assms(1-3)] handler_blob[OF assms(1) computeDigest_plain]
    unfolding Let_def layer_desc_def by simp
qed

definition no_sha :: "string \<Rightarrow> string" where
  "no_sha s = take 32 (s @ replicate 32 CHR ''0'')"

theorem mock_pull_roundtrip_witness:
  "let st = addArtifact no_sha ''policies/p'' [''v1''] (policy_layers ''cat'' ''pol'') [] in
   rsStatus (oci_handler st GET ''/v2/policies/p/manifests/v1'') = 200 \<and>
   rsBody (oci_handler st GET (''/v2/policies/p/blobs/'' @ computeDigest no_sha ''pol'')) = ''pol''"
proof -
  have i: "inj_on (computeDigest no_sha) (insert ''{}'' (ldData ` set (policy_layers ''cat'' ''pol'')))"
  proof -
    have "distinct (map (computeDigest no_sha) [''{}'', ''cat'', ''pol''])" by code_simp
    then show ?thesis by (simp add: policy_layers_def)
  qed
  have r: "routable ''policies/p''" by code_simp
  have d: "odDigest (layer_desc no_sha \<lparr>ldMediaType = gemaraPolicyType, ldData = ''pol''\<rparr>) = computeDigest no_sha ''pol''"
    by (simp add: layer_desc_def)
  note t = mock_pull_roundtrip[OF r _ _ i, of "''v1''" "[''v1'']" "[]"]
  have "\<lparr>ldMediaType = gemaraPolicyType, ldData = ''pol''\<rparr> \<in> set (policy_layers ''cat'' ''pol'')" by (simp add: policy_layers_def)
  with t show ?thesis unfolding Let_def by (auto simp: d)
qed

section \<open>Digest headers\<close>

lemma go_get_Cons: "go_get ((a, b) # m) k = (if a = k then Some b else go_get m k)"
  by (simp add: go_get_def)

lemma serveManifest_digest:
  assumes "store_ok sha st" "go_get (rsHeaders (serveManifest GET st n t)) ''Docker-Content-Digest'' = Some h"
  shows "h = computeDigest sha (rsBody (serveManifest GET st n t))"
proof -
  obtain repo art where g: "go_get st n = Some repo" "mock_resolve repo t = Some art" "h = arManifestDigest art"
    using assms(2)
    by (auto simp: serveManifest_def repo_unknown_def writeOCIError_def json_response_def go_get_Cons split: option.splits)
  obtain a where a: "arManifestDigest a = computeDigest sha (arManifestBytes a)" "\<forall>(t, x) \<in> set (rpTags repo). x = a"
    using assms(1) g(1) unfolding store_ok_def repo_ok_def by blast
  have "\<exists>k. (k, art) \<in> set (rpTags repo)"
    using g(2) by (auto simp: mock_resolve_def go_get_def find_Some_iff split: option.splits dest: map_of_SomeD) (metis nth_mem)
  with a(2) have "art = a" by blast
  with a(1) g show ?thesis by (simp add: serveManifest_def)
qed

lemma store_ok_blob:
  assumes "store_ok sha st" "go_get st n = Some r" "go_get (rpBlobs r) d = Some b"
  shows "d = computeDigest sha (mbData b)"
proof -
  have "repo_ok sha r" using assms(1,2) unfolding store_ok_def by blast
  then have "\<forall>dg b. go_get (rpBlobs r) dg = Some b \<longrightarrow> dg = computeDigest sha (mbData b)"
    unfolding repo_ok_def by (rule conjunct1)
  with assms(3) show ?thesis by blast
qed

lemma no_digest_header:
  "go_get (rsHeaders (writeOCIError c m e)) ''Docker-Content-Digest'' = None"
  "go_get (rsHeaders (repo_unknown n)) ''Docker-Content-Digest'' = None"
  "go_get (rsHeaders (serveCatalog st)) ''Docker-Content-Digest'' = None"
  "go_get (rsHeaders (serveTagsList st n)) ''Docker-Content-Digest'' = None"
  by (simp_all add: serveCatalog_def serveTagsList_def repo_unknown_def writeOCIError_def json_response_def go_get_Cons split: option.splits)

lemma serveBlob_digest:
  assumes "store_ok sha st" "go_get (rsHeaders (serveBlob st n d)) ''Docker-Content-Digest'' = Some h"
  shows "h = computeDigest sha (rsBody (serveBlob st n d))"
proof (cases "go_get st n")
  case None
  then show ?thesis using assms(2) by (simp add: serveBlob_def no_digest_header)
next
  case (Some repo)
  show ?thesis
  proof (cases "go_get (rpBlobs repo) d")
    case None
    then show ?thesis using assms(2) Some by (simp add: serveBlob_def no_digest_header)
  next
    case (Some b)
    have e: "serveBlob st n d = \<lparr>rsStatus = 200,
        rsHeaders = [(''Content-Type'', ''application/octet-stream''), (''Content-Length'', show_nat (length (mbData b))),
          (''Docker-Content-Digest'', d)], rsBody = mbData b\<rparr>"
      using \<open>go_get st n = Some repo\<close> Some by (simp add: serveBlob_def)
    have "h = d" using assms(2) unfolding e by (simp add: go_get_Cons)
    then show ?thesis using store_ok_blob[OF assms(1) \<open>go_get st n = Some repo\<close> Some] unfolding e by simp
  qed
qed

lemma handler_digest:
  assumes "store_ok sha st" "go_get (rsHeaders (oci_handler st GET p)) ''Docker-Content-Digest'' = Some h"
  shows "h = computeDigest sha (rsBody (oci_handler st GET p))"
proof -
  show ?thesis using assms(2) serveManifest_digest[OF assms(1)] serveBlob_digest[OF assms(1)]
    unfolding oci_handler_def Let_def by (auto simp: no_digest_header go_get_Cons split: if_splits)
qed

text \<open>
  The mock registry is content addressed: whatever the embedded files, the mounted directory
  and the path of a request, if the server starts, every answer to a GET that carries a
  \<^verbatim>\<open>Docker-Content-Digest\<close> header carries the digest of the body it is sent with.
\<close>

theorem mock_digest_header:
  assumes "mock_main sha targz seedData ampelData opaData bytes link flt fsys cwd os = Some (addr, st)"
    "go_get (rsHeaders (oci_handler st GET p)) ''Docker-Content-Digest'' = Some h"
  shows "h = computeDigest sha (rsBody (oci_handler st GET p))"
  using sd.main[OF assms(1)] assms(2) by (rule handler_digest)

definition demo_embed :: embedFS where
  "demo_embed = \<lparr>emReadDir = \<lambda>_. Some [(''f'', False)], emReadFile = \<lambda>_. Some ''x''\<rparr>"

definition demo_mock_os :: osenv where
  "demo_mock_os = \<lparr>osLookupEnv = [], osStat = \<lambda>_. StatMissing, osReadFile = \<lambda>_. ReadMissing, osHomeDir = None,
     osUserCacheDir = None, osGetwd = None, osGOOS = ''linux''\<rparr>"

definition demo_mock :: "string \<times> contentStore" where
  "demo_mock = the (mock_main no_sha (\<lambda>fs. concat (map snd fs)) demo_embed demo_embed demo_embed (\<lambda>_. []) (\<lambda>_. False) no_faults [] [] demo_mock_os)"

theorem mock_digest_header_witness:
  "go_get (rsHeaders (oci_handler (snd demo_mock) GET (''/v2/complypacks/test-opa-complypack/blobs/'' @ computeDigest no_sha ''x''))) ''Docker-Content-Digest'' =
     Some (computeDigest no_sha (rsBody (oci_handler (snd demo_mock) GET (''/v2/complypacks/test-opa-complypack/blobs/'' @ computeDigest no_sha ''x''))))"
proof -
  let ?n = "''complypacks/test-opa-complypack''" and ?d = "computeDigest no_sha ''x''"
  have dir: "fst (seedFromDirectory no_sha (\<lambda>_. []) (\<lambda>_. False) no_faults [] [] x s) = s" for x s
    by (simp add: seedFromDirectory_def fs_ReadDir_def)
  have m: "mock_main no_sha (\<lambda>fs. concat (map snd fs)) demo_embed demo_embed demo_embed (\<lambda>_. []) (\<lambda>_. False) no_faults [] [] demo_mock_os =
      Some (fst demo_mock, snd demo_mock)"
    by (simp add: demo_mock_def mock_main_def Let_def seedDefaults_def seedPolicyFromFiles_def seedComplypack_def
        buildTarGzFromFS_def demo_embed_def)
  have "\<exists>a s0. mock_main no_sha (\<lambda>fs. concat (map snd fs)) demo_embed demo_embed demo_embed (\<lambda>_. []) (\<lambda>_. False) no_faults [] [] demo_mock_os =
      Some (a, addComplypackArtifact no_sha ?n [''v1.0.0'', ''latest''] \<lparr>cdEvaluatorID = ''opa'', cdVersion = ''1.0.0'', cdContent = ''x''\<rparr> s0)"
    by (simp add: mock_main_def dir Let_def seedDefaults_def seedPolicyFromFiles_def seedComplypack_def buildTarGzFromFS_def demo_embed_def) blast
  then obtain s0 where "snd demo_mock = addComplypackArtifact no_sha ?n [''v1.0.0'', ''latest'']
      \<lparr>cdEvaluatorID = ''opa'', cdVersion = ''1.0.0'', cdContent = ''x''\<rparr> s0" unfolding m by (metis option.inject snd_conv)
  then obtain r b where g: "go_get (snd demo_mock) ?n = Some r" "go_get (rpBlobs r) ?d = Some b"
    using addComplypackArtifact_eq[of no_sha ?n "[''v1.0.0'', ''latest'']" "\<lparr>cdEvaluatorID = ''opa'', cdVersion = ''1.0.0'', cdContent = ''x''\<rparr>" s0]
    by auto
  have "routable ?n" by code_simp
  from handler_blob[OF this computeDigest_plain, of "snd demo_mock" GET no_sha "''x''"] g
  have h: "go_get (rsHeaders (oci_handler (snd demo_mock) GET (''/v2/'' @ ?n @ ''/blobs/'' @ ?d))) ''Docker-Content-Digest'' = Some ?d"
    by (simp add: serveBlob_def go_get_Cons)
  show ?thesis using mock_digest_header[OF m h] h by simp
qed

section \<open>The registry client against the mock registry\<close>

text \<open>
  \<^verbatim>\<open>manifestStore.Resolve\<close> of the client library: a HEAD request, whose answer is turned into a descriptor.
  \<open>mediaOK\<close> says which \<^verbatim>\<open>Content-Type\<close> values parse.
\<close>

definition generateDescriptor :: "(string \<Rightarrow> bool) \<Rightarrow> response \<Rightarrow> Reference \<Rightarrow> resolve_res" where
  "generateDescriptor mediaOK resp ref =
    (if \<not> mediaOK (go_str (rsHeaders resp) ''Content-Type'') then ResolveFail
     else if go_get (rsHeaders resp) ''Content-Length'' = None then ResolveFail
     else let refDigest = (case digest_Parse (rfReference ref) of Inr _ \<Rightarrow> rfReference ref | Inl _ \<Rightarrow> []);
              serverHeaderDigest = go_str (rsHeaders resp) ''Docker-Content-Digest'' in
     if serverHeaderDigest \<noteq> [] \<and> \<not> valid_digest serverHeaderDigest then ResolveFail
     else if serverHeaderDigest = [] then (if refDigest = [] then ResolveFail else ResolveOK refDigest)
     else if refDigest \<noteq> [] \<and> refDigest \<noteq> serverHeaderDigest then ResolveFail
     else ResolveOK serverHeaderDigest)"

definition manifestStore_Resolve :: "(string \<Rightarrow> bool) \<Rightarrow> (http_method \<Rightarrow> string \<Rightarrow> response) \<Rightarrow> Reference \<Rightarrow> resolve_res" where
  "manifestStore_Resolve mediaOK server ref =
    (let resp = server HEAD (''/v2/'' @ rfRepository ref @ ''/manifests/'' @ rfReference ref) in
     if rsStatus resp = 200 then generateDescriptor mediaOK resp ref
     else if rsStatus resp = 404 then ResolveNotFound else ResolveFail)"

definition mock_remote :: "(string \<Rightarrow> bool) \<Rightarrow> contentStore \<Rightarrow> remote" where
  "mock_remote mediaOK st repoName tag =
    (case ParseReference repoName of
       Inl _ \<Rightarrow> ResolveFail
     | Inr r \<Rightarrow> manifestStore_Resolve mediaOK (oci_handler st) (r\<lparr>rfReference := tag\<rparr>))"

lemma mock_remote_tag:
  assumes "valid_host h" "repositoryRegexp r" "routable r" "tagRegexp t" "mediaOK ociManifestMediaType" "\<And>x. length (sha x) = 32"
  shows "mock_remote mediaOK (addArtifact sha r tags layers s) (h @ ''/'' @ r) t =
    (if t \<in> set tags then ResolveOK (computeDigest sha (json_text (manifest_json (artifact_manifest sha layers)))) else ResolveNotFound)"
proof -
  let ?m = "json_text (manifest_json (artifact_manifest sha layers))"
  let ?a = "manifest_artifact sha (artifact_manifest sha layers)"
  let ?st = "addArtifact sha r tags layers s"
  have t: "CHR ''/'' \<notin> set t" "t \<noteq> []" using tagRegexp_no(3)[OF assms(4)] assms(4) by auto
  have nd: "\<not> valid_digest t" using tag_not_digest[OF assms(4)] .
  have v: "valid_digest (computeDigest sha ?m)" using computeDigest_valid assms(6) by blast
  with nd have "mock_resolve \<lparr>rpTags = tag_all tags ?a, rpBlobs = bs\<rparr> t = (if t \<in> set tags then Some ?a else None)" for bs
    using tag_all_find[of t tags ?a]
    by (cases "t \<in> set tags") (auto simp: mock_resolve_def tag_all_get manifest_artifact_def Let_def)
  then have s: "serveManifest HEAD ?st r t = (if t \<in> set tags then
      \<lparr>rsStatus = 200, rsHeaders = [(''Content-Type'', ociManifestMediaType), (''Docker-Content-Digest'', computeDigest sha ?m),
        (''Content-Length'', show_nat (length ?m)), (''Docker-Distribution-API-Version'', ''registry/2.0'')], rsBody = []\<rparr>
      else writeOCIError 404 ''MANIFEST_UNKNOWN'' (''manifest '' @ quoted t @ '' not found''))"
    by (simp add: serveManifest_def addArtifact_eq manifest_artifact_def Let_def)
  obtain e where dp: "digest_Parse t = Inl e" using nd by (cases "digest_Parse t") (auto simp: digest_Parse_def split: option.splits)
  show ?thesis using v assms(5) ParseReference_plain[OF assms(1,2)] handler_manifest[OF assms(3) t, of ?st HEAD] valid_digest_ne[OF v]
    by (simp add: mock_remote_def manifestStore_Resolve_def s generateDescriptor_def dp go_str_def go_get_Cons
        writeOCIError_def json_response_def Let_def)
qed

lemma DefinitionVersion_eq:
  assumes "valid_host h" "repositoryRegexp r" "v = [] \<or> tagRegexp v \<or> valid_digest v"
    and "sch \<in> {[], ''http://'', ''https://''}"
  shows "DefinitionVersion rm (NewClient (sch @ h)) (BuildLookupRef [] r (fst (classifyVersion v)) (snd (classifyVersion v))) =
    (let l = BuildLookupRef [] r (fst (classifyVersion v)) (snd (classifyVersion v)) in
     case rm (h @ ''/'' @ r) (wanted v) of
       ResolveOK d \<Rightarrow> Inr (d, wanted v)
     | ResolveNotFound \<Rightarrow> Inl (RVersionNotFound (buildRef h l) (wanted v))
     | ResolveFail \<Rightarrow> Inl (RFetchVersion l (RCommunication (buildRef h l))))"
proof -
  let ?l = "BuildLookupRef [] r (fst (classifyVersion v)) (snd (classifyVersion v))"
  have ne: "?l \<noteq> []" using repositoryRegexp_nonempty[OF assms(2)] by (simp add: BuildLookupRef_def Let_def)
  have nh: "NormalizeHost (sch @ h) = h"
    using NormalizeHost_valid[OF assms(1) host_no_scheme[OF assms(1)] assms(4)] .
  have w: "(if wanted v = [] then ''latest'' else wanted v) = wanted v" by (auto simp: wanted_def)
  show ?thesis
    using fetchVersion_ok[OF assms(1,2) buildRef_lookup[OF assms(1-3)], of rm] ne nh
    by (auto simp: DefinitionVersion_def NewClient_def w Let_def split: resolve_res.splits)
qed



section \<open>The mounted directory\<close>

text \<open>The files of a subdirectory that may be published.\<close>

definition mounted_bundle ::
    "(fdata \<Rightarrow> string) \<Rightarrow> (path \<Rightarrow> bool) \<Rightarrow> faults \<Rightarrow> fs \<Rightarrow> path \<Rightarrow> string \<Rightarrow> string \<Rightarrow> (string \<times> string) option" where
  "mounted_bundle bytes link flt fsys cwd dir name =
    (let d = filepath_Join [dir, name] in
     if link (os_path cwd d) \<or> \<not> validBundleName name then None
     else case (readFileLimited bytes link flt fsys (os_path cwd (filepath_Join [d, ''catalog.yaml''])) maxPolicyFileSize,
                readFileLimited bytes link flt fsys (os_path cwd (filepath_Join [d, ''policy.yaml''])) maxPolicyFileSize) of
       (Inr c, Inr p) \<Rightarrow> Some (c, p)
     | _ \<Rightarrow> None)"

lemma readFileLimited_Inr:
  "readFileLimited bytes link flt fsys p maxSize = Inr d \<Longrightarrow>
   \<not> link p \<and> length d \<le> maxSize \<and> (\<exists>f. go_get fsys p = Some (File f) \<and> d = file_bytes bytes f)"
  by (auto simp: readFileLimited_def fs_ReadFile_def split: if_splits option.splits node.splits)

lemma seed_entries_step:
  "fst (seed_entries sha bytes link flt fsys cwd dir ((name, n) # es) s) =
    fst (seed_entries sha bytes link flt fsys cwd dir es
      (case (n, mounted_bundle bytes link flt fsys cwd dir name) of
         (Dir, Some (c, p)) \<Rightarrow> addArtifact sha (''policies/'' @ name) [''latest''] (policy_layers c p) s
       | _ \<Rightarrow> s))"
  by (auto simp: mounted_bundle_def Let_def split_beta split: node.splits sum.splits)

text \<open>What a bundle becomes in the store.\<close>

definition bundle_repo :: "(string \<Rightarrow> string) \<Rightarrow> string \<times> string \<Rightarrow> repository" where
  "bundle_repo sha b = the (go_get (addArtifact sha [] [''latest''] (policy_layers (fst b) (snd b)) []) [])"

lemma addArtifact_bundle:
  "go_get (addArtifact sha n [''latest''] (policy_layers c p) s) m = (if m = n then Some (bundle_repo sha (c, p)) else go_get s m)"
  by (simp add: bundle_repo_def addArtifact_eq)

lemma seed_entries_get:
  "go_get (fst (seed_entries sha bytes link flt fsys cwd dir es s)) (''policies/'' @ name) =
    (if (name, Dir) \<in> set es \<and> mounted_bundle bytes link flt fsys cwd dir name \<noteq> None
     then map_option (bundle_repo sha) (mounted_bundle bytes link flt fsys cwd dir name)
     else go_get s (''policies/'' @ name))"
proof (induction es arbitrary: s)
  case (Cons e es)
  obtain x n where e: "e = (x, n)" by (cases e)
  show ?case unfolding e seed_entries_step Cons.IH
    by (cases n; cases "mounted_bundle bytes link flt fsys cwd dir x"; cases "x = name")
      (auto simp: addArtifact_bundle simp del: append_Cons)
qed simp

lemma seed_entries_other:
  "\<not> HasPrefix m ''policies/'' \<Longrightarrow> go_get (fst (seed_entries sha bytes link flt fsys cwd dir es s)) m = go_get s m"
proof (induction es arbitrary: s)
  case (Cons e es)
  obtain x n where e: "e = (x, n)" by (cases e)
  have "m \<noteq> ''policies/'' @ x" using Cons.prems HasPrefix_append by metis
  then show ?case unfolding e seed_entries_step
    by (cases n; cases "mounted_bundle bytes link flt fsys cwd dir x")
      (auto simp: Cons.IH[OF Cons.prems] addArtifact_bundle)
qed simp

text \<open>
  What the mounted directory adds to the mock registry: exactly the subdirectories with an
  acceptable name and readable \<^verbatim>\<open>catalog.yaml\<close> and \<^verbatim>\<open>policy.yaml\<close> become the repository
  \<^verbatim>\<open>policies/<name>\<close>, with the tag \<^verbatim>\<open>latest\<close> only (a default of the same name, with its \<^verbatim>\<open>v1.0.0\<close> tag, is
  replaced); every other repository is kept. What is published comes from regular files of at most
  10 MB that are not symbolic links, in a subdirectory that is none either.
\<close>

theorem seedFromDirectory_exact:
  assumes "fs_ReadDir flt (os_path cwd dir) fsys = Entries es"
  shows "let s' = fst (seedFromDirectory sha bytes link flt fsys cwd dir s); b = mounted_bundle bytes link flt fsys cwd dir name in
    go_get s' (''policies/'' @ name) =
      (if (name, Dir) \<in> set es \<and> b \<noteq> None then map_option (bundle_repo sha) b else go_get s (''policies/'' @ name)) \<and>
    (\<not> HasPrefix m ''policies/'' \<longrightarrow> go_get s' m = go_get s m) \<and>
    (\<forall>c p. b = Some (c, p) \<longrightarrow> validBundleName name \<and> length c \<le> 10485760 \<and> length p \<le> 10485760 \<and>
       \<not> link (os_path cwd (filepath_Join [dir, name])) \<and>
       (\<forall>f \<in> {''catalog.yaml'', ''policy.yaml''}. \<not> link (os_path cwd (filepath_Join [filepath_Join [dir, name], f])) \<and>
          is_file (go_get fsys (os_path cwd (filepath_Join [filepath_Join [dir, name], f])))))"
proof -
  have s: "fst (seedFromDirectory sha bytes link flt fsys cwd dir s) = fst (seed_entries sha bytes link flt fsys cwd dir es s)"
    by (simp add: seedFromDirectory_def assms)
  have "validBundleName name \<and> length c \<le> 10485760 \<and> length p \<le> 10485760 \<and>
       \<not> link (os_path cwd (filepath_Join [dir, name])) \<and>
       (\<forall>f \<in> {''catalog.yaml'', ''policy.yaml''}. \<not> link (os_path cwd (filepath_Join [filepath_Join [dir, name], f])) \<and>
          is_file (go_get fsys (os_path cwd (filepath_Join [filepath_Join [dir, name], f]))))"
    if "mounted_bundle bytes link flt fsys cwd dir name = Some (c, p)" for c p
    using that
    by (auto simp: mounted_bundle_def Let_def maxPolicyFileSize_def split: if_splits sum.splits dest!: readFileLimited_Inr)
  then show ?thesis unfolding Let_def s 
    using seed_entries_get[of sha bytes link flt fsys cwd dir es s name] seed_entries_other[of m sha bytes link flt fsys cwd dir es s]
    by (intro conjI[of "go_get _ _ = _"] conjI[of "_ \<longrightarrow> _"] impI allI)
qed

theorem seedFromDirectory_exact_witness:
  "let fsys = [([''bundles''], Dir), ([''bundles'', ''p''], Dir), ([''bundles'', ''p'', ''catalog.yaml''], File (Raw ''c'')),
      ([''bundles'', ''p'', ''policy.yaml''], File (Raw ''p''))] in
   go_get (fst (seedFromDirectory no_sha (\<lambda>_. []) (\<lambda>_. False) no_faults fsys [] ''/bundles'' [])) ''policies/p'' =
     Some (bundle_repo no_sha (''c'', ''p''))"
proof -
  let ?fs = "[([''bundles''], Dir), ([''bundles'', ''p''], Dir), ([''bundles'', ''p'', ''catalog.yaml''], File (Raw ''c'')),
      ([''bundles'', ''p'', ''policy.yaml''], File (Raw ''p''))]"
  have r: "fs_ReadDir no_faults (os_path [] ''/bundles'') ?fs = Entries [(''p'', Dir)]" by code_simp
  have p: "os_path [] (filepath_Join [filepath_Join [''/bundles'', ''p''], ''catalog.yaml'']) = [''bundles'', ''p'', ''catalog.yaml'']"
    "os_path [] (filepath_Join [filepath_Join [''/bundles'', ''p''], ''policy.yaml'']) = [''bundles'', ''p'', ''policy.yaml'']" by code_simp+
  have v: "validBundleName ''p''" by code_simp
  have b: "mounted_bundle (\<lambda>_. []) (\<lambda>_. False) no_faults ?fs [] ''/bundles'' ''p'' = Some (''c'', ''p'')"
    by (simp add: mounted_bundle_def p v readFileLimited_def fs_exists_def go_has_get go_get_Cons fs_ReadFile_def maxPolicyFileSize_def del: go_has_keys)
  show ?thesis using seedFromDirectory_exact[OF r, of no_sha "\<lambda>_. []" "\<lambda>_. False" "[]" "''p''"] by (simp add: b Let_def)
qed

end
