(* ===== verification/Test_Doubles.thy ===== *)
theory Test_Doubles
  imports Scan Sync_Loader Mock_Registry
begin

text \<open>
  The stand-ins the repository's tests run the program against: the provider of the end-to-end tests
  (\<^verbatim>\<open>cmd/test-provider/main.go\<close>) and the policy sources of the cache tests
  (\<^verbatim>\<open>internal/cache/cachetest/mock_source.go\<close>). The properties compose them with the provider manager,
  the evaluator, the scan, the sync and the loader.
\<close>

section \<open>The test provider\<close>

record testEvaluator =
  teMatchIDs :: "string list"

definition te_Describe :: "string + DescribeResponse" where
  "te_Describe = Inr \<lparr>drHealthy = True, drVersion = ''test-v0.1.0'', drErrorMessage = [],
     drRequiredGlobalVariables = [''workspace''], drRequiredTargetVariables = [], drOptionalTargetVariableGroups = []\<rparr>"

text \<open>The log line of \<^verbatim>\<open>logComplypackPath\<close>, if any.\<close>

definition logComplypackPath :: "string \<Rightarrow> (string \<times> string \<times> string) option" where
  "logComplypackPath path =
    (if path \<noteq> [] then Some (''complypack content path received'', ''complypack_content_path'', path) else None)"

definition te_Generate :: "GenerateRequest \<Rightarrow> testEvaluator \<Rightarrow>
    testEvaluator \<times> (string \<times> string \<times> string) option \<times> (string + GenerateResponse)" where
  "te_Generate req t =
    (t\<lparr>teMatchIDs := map MatchID (grConfiguration req)\<rparr>, logComplypackPath (grComplypackContentPath req),
     Inr \<lparr>gpSuccess = True, gpErrorMessage = []\<rparr>)"

definition te_assessment :: "string \<Rightarrow> string \<Rightarrow> AssessmentLog" where
  "te_assessment now matchID =
    \<lparr>alPlanID = matchID, alRequirementID = [],
     alSteps = [\<lparr>stpName = ''test-check'', stpResult = ResultPassed, stpMessage = ''predefined pass from test-provider''\<rparr>],
     alMessage = ''all checks passed'', alConfidence = 4,
     alEvidence = [\<lparr>evID = ''ev-'' @ matchID, evType = ''log'', evDescription = ''test evidence for '' @ matchID,
       evPayload = ''sample payload'', evCollectedAt = now,
       evSource = Some \<lparr>esReferenceID = ''test-policy'', esCoordinate = ''/checks/'' @ matchID, esEntryID = [],
         esDigest = ''sha256:e3b0c44298fc1c149afbf4c8996fb92427ae41e4649b934ca495991b7852b855'', esRemarks = []\<rparr>\<rparr>],
     alRecommendation = ''No action needed''\<rparr>"

definition te_Scan :: "string \<Rightarrow> testEvaluator \<Rightarrow> Target list \<Rightarrow> string + ScanResponse" where
  "te_Scan now t targets =
    Inr \<lparr>srAssessments = map (te_assessment now) (teMatchIDs t), srErrors = [],
      srMappingReferences = [\<lparr>mrID = ''test-source'', mrTitle = ''Test Data Source'', mrVersion = [], mrDescription = [], mrURL = []\<rparr>]\<rparr>"

text \<open>The running provider in a state, behind the two sides of the wire.\<close>

definition te_provider :: "string \<Rightarrow> testEvaluator \<Rightarrow> Provider" where
  "te_provider now t = \<lparr>pvDescribe = te_Describe, pvGenerate = (\<lambda>req. snd (snd (te_Generate req t))), pvScan = te_Scan now t\<rparr>"

definition over_wire :: "Provider \<Rightarrow> Provider" where
  "over_wire impl = \<lparr>pvDescribe = client_Describe (server_Describe impl),
     pvGenerate = client_Generate (server_Generate impl), pvScan = client_Scan (server_Scan impl)\<rparr>"

lemma te_assessment_wire [simp]: "nf_log (te_assessment now i) = te_assessment now i"
  by (simp add: nf_log_def te_assessment_def nf_step_def nf_enum_def result_codes)

lemma te_scan_wire: "pvScan (over_wire (te_provider now t)) targets = te_Scan now t targets"
  by (simp add: over_wire_def client_Scan_def server_Scan_def target_copies cl.dec_enc cm.dec_enc te_provider_def te_Scan_def)

lemma te_assessment_passed [simp]: "aggregateResultFromSteps (alSteps (te_assessment now i)) = Passed"
  by (simp add: te_assessment_def aggregateResultFromSteps_def providerResultToGemara_def result_codes UpdateAggregateResult_def)

lemma te_route:
  assumes "ev \<noteq> []" "GetProvider m ev = Inr \<lparr>lpInfo = info, lpClient = over_wire (te_provider now t)\<rparr>"
  shows "RouteScanResult deadline m ev targets = Inr (empty_scan\<lparr>rsAssessments := map (te_assessment now) (teMatchIDs t),
     rsMappingReferences := [\<lparr>mrID = ''test-source'', mrTitle = ''Test Data Source'', mrVersion = [], mrDescription = [], mrURL = []\<rparr>]\<rparr>)"
  using assms by (simp add: RouteScanResult_def te_scan_wire te_Scan_def empty_scan_def)

text \<open>What arrives of a generate request.\<close>

definition received :: "GenerateRequest \<Rightarrow> GenerateRequest" where
  "received req = req\<lparr>grConfiguration := map (\<lambda>c. c\<lparr>acEvaluatorID := []\<rparr>) (grConfiguration req)\<rparr>"

lemma te_match_ids: "teMatchIDs (fst (te_Generate (received req) t)) = map MatchID (grConfiguration req)"
  by (simp add: te_Generate_def received_def comp_def MatchID_def)

text \<open>
  The end-to-end contract of the test provider: a scan through the manager and the wire
  after a generate request (whatever was generated before) returns no error and exactly one assessment
  per configuration of that request, in order and named by the plan ID or else the requirement ID; the
  evaluation log made of them is Passed, or not applicable when there was no configuration.
\<close>

theorem test_provider_scan:
  assumes "ev \<noteq> []" "GetProvider m ev = Inr \<lparr>lpInfo = info, lpClient = over_wire (te_provider now (fst (te_Generate (received req) t)))\<rparr>"
  shows "\<exists>r. RouteScanResult deadline m ev targets = Inr r \<and> rsErrors r = [] \<and>
    map alPlanID (rsAssessments r) = map MatchID (grConfiguration req) \<and>
    elResult (GemaraLog (AddTarget ts (NewEvaluator p tid rc rp rr mr) (rsAssessments r))) =
      (if grConfiguration req = [] then NotApplicable else Passed)"
proof -
  let ?as = "map (te_assessment now) (map MatchID (grConfiguration req))"
  have "elResult (GemaraLog (AddTarget ts (NewEvaluator p tid rc rp rr mr) ?as)) =
      (if ?as = [] then NotApplicable else Max (insert NotRun (set (map (\<lambda>a. aggregateResultFromSteps (alSteps a)) ?as))))"
    by (rule represents_result[OF AddTarget_represents])
  also have "set (map (\<lambda>a. aggregateResultFromSteps (alSteps a)) ?as) = (if grConfiguration req = [] then {} else {Passed})"
    by (cases "grConfiguration req") (auto simp: image_image)
  finally have "elResult (GemaraLog (AddTarget ts (NewEvaluator p tid rc rp rr mr) ?as)) =
      (if grConfiguration req = [] then NotApplicable else Passed)"
    by (simp add: max_def less_eq_result_def)
  moreover have "map alPlanID ?as = map MatchID (grConfiguration req)" by (simp add: te_assessment_def comp_def)
  ultimately show ?thesis using te_route[OF assms, of deadline targets] by (simp add: te_match_ids empty_scan_def)
qed

subsection \<open>Scanning again\<close>

definition idle_test_provider :: "string \<Rightarrow> manager \<Rightarrow> string \<Rightarrow> bool" where
  "idle_test_provider now m ev \<longleftrightarrow> ev \<noteq> [] \<and>
    (\<exists>info. GetProvider m ev = Inr \<lparr>lpInfo = info, lpClient = over_wire (te_provider now \<lparr>teMatchIDs = []\<rparr>)\<rparr>)"

lemma idle_route: "idle_test_provider now m ev \<Longrightarrow> \<exists>r. RouteScanResult deadline m ev targets = Inr r \<and> rsAssessments r = [] \<and> rsErrors r = []"
  using te_route by (fastforce simp: idle_test_provider_def empty_scan_def)

lemma idle_evaluators:
  assumes "\<forall>ev \<in> set evs. idle_test_provider now m ev"
  shows "\<exists>refs'. scan_evaluators deadline m targets evs (as, es, refs) = Inr (as, es, refs')"
  using assms
proof (induction evs arbitrary: refs)
  case (Cons ev evs)
  obtain r where "RouteScanResult deadline m ev targets = Inr r" "rsAssessments r = []" "rsErrors r = []"
    using idle_route[of now m ev deadline targets] Cons.prems by auto
  then show ?case using Cons by simp
qed simp

lemma idle_targets:
  assumes "\<forall>ev \<in> set (map fst groups). idle_test_provider now m ev"
  shows "\<exists>out'. scanAllTargets_loop deadline m groups ts out = Inr out' \<and> soAssessments out' = soAssessments out \<and>
    soErrors out' = soErrors out"
proof (induction ts arbitrary: out)
  case (Cons t ts)
  have "\<forall>ev \<in> set (sort (map fst groups)). idle_test_provider now m ev" using assms by simp
  from idle_evaluators[OF this] obtain refs where "scanSingleTarget deadline m groups t = Inr ([], [], refs)"
    unfolding scanSingleTarget_def by blast
  then show ?case
    using Cons.IH[of "out\<lparr>soAssessments := soAssessments out @ [], soAssessmentTargets := soAssessmentTargets out @ replicate (length []) (tcID t),
        soErrors := soErrors out @ [], soMappingReferences := go_put (tcID t)
          ((case go_get (soMappingReferences out) (tcID t) of Some rs \<Rightarrow> rs | None \<Rightarrow> []) @ refs) (soMappingReferences out)\<rparr>"]
    by (simp add: Let_def)
qed simp

text \<open>
  The test provider keeps the configurations of the last generate request in its process only. It writes
  no artifacts, and generation is only skipped when every evaluator has some, so it is asked to generate
  in every run. Were generation skipped all the same, because something else is in the evaluator's
  directory, the freshly started provider assesses nothing and the scan ends with an error instead of a
  success, whatever the targets and the output format.
\<close>

lemma artifacts_missing_regenerates:
  assumes "LoadState flt dataDir s = Inr st" "LoadGenerationState flt base repo s = Inr (Some g)" "ev \<in> set (gsEvaluatorIDs g)"
    and "go_get s (fp_join base [WorkspaceDir, ev]) = None \<or> fs_children (fp_join base [WorkspaceDir, ev]) s = []"
  shows "checkGenerationFreshness flt dataDir base repo s = Inr (True, state_digest st repo, complypackDigestsByEvaluator st)"
proof -
  let ?d = "fp_join base [WorkspaceDir, ev]"
  have "\<not> (is_dir (go_get s ?d) \<and> (case fs_ReadDir flt ?d s of Entries (_ # _) \<Rightarrow> True | _ \<Rightarrow> False))"
    using assms(4) by (auto simp: fs_ReadDir_def split: option.splits node.splits)
  then have "\<not> evaluatorArtifactsExist flt base (gsEvaluatorIDs g) s"
    using assms(3) unfolding evaluatorArtifactsExist_def list_all_iff Let_def by blast
  then show ?thesis using assms(1,2) by (simp add: checkGenerationFreshness_def needsRegeneration_def Let_def)
qed

lemma idle_provider_scan_fails:
  assumes "checkGenerationFreshness flt dataDir base repo s = Inr (False, d, cp)"
    and "\<forall>ev \<in> set (map fst groups). idle_test_provider now mgr ev"
  shows "ensureGenerated flt env time cacheDir dataDir base mgr groups policyTargets vars repo ids s = (s, None) \<and>
    (case snd (snd (runScanAndReport x flt formats logFormat mgr groups refs ts repo eid graph tids base showPassing s)) of
       None \<Rightarrow> False | Some e \<Rightarrow> e = SNothingAssessed \<or> (\<exists>w. e = SWriteLog w))"
proof -
  obtain out where o: "scanAllTargets (sxDeadline x) mgr groups (injectWorkspaceIntoTargets ts (path_string base)) = Inr out"
    "soAssessments out = []" "soErrors out = []"
    using idle_targets[OF assms(2), of "sxDeadline x" "injectWorkspaceIntoTargets ts (path_string base)" empty_output]
    by (auto simp: scanAllTargets_def empty_output_def)
  have "ensureGenerated flt env time cacheDir dataDir base mgr groups policyTargets vars repo ids s = (s, None)"
    by (simp add: ensureGenerated_def assms(1))
  moreover have "NothingAssessed []" by (simp add: NothingAssessed_def)
  ultimately show ?thesis
    by (simp add: runScanAndReport_def o Let_def processScanOutput_def resolveAssessmentIDs_def checkOperationalErrors_def
        checkNothingAssessed_def err_seq_def split: prod.splits option.splits)
qed

section \<open>The mock policy source\<close>

record mockPolicyData =
  mdDigest :: string
  mdVersion :: string

record MockPolicySource =
  mpPolicies :: "(string, mockPolicyData) gomap"
  mpErrors :: "(string, reg_err) gomap"
  mpLastLookupRef :: string

definition NewMockPolicySource :: MockPolicySource where
  "NewMockPolicySource = \<lparr>mpPolicies = [], mpErrors = [], mpLastLookupRef = []\<rparr>"

definition SetError :: "string \<Rightarrow> reg_err \<Rightarrow> MockPolicySource \<Rightarrow> MockPolicySource" where
  "SetError policyID err m = m\<lparr>mpErrors := go_put policyID err (mpErrors m)\<rparr>"

definition SeedPolicy :: "string \<Rightarrow> string \<Rightarrow> string \<Rightarrow> MockPolicySource \<Rightarrow> MockPolicySource" where
  "SeedPolicy policyID version digestStr m =
    (let d = \<lparr>mdDigest = digestStr, mdVersion = version\<rparr> in
     m\<lparr>mpPolicies := go_put (policyID @ '':'' @ version) d (go_put policyID d (mpPolicies m))\<rparr>)"

text \<open>The result, and the source that has recorded the reference.\<close>

definition mock_DefinitionVersion :: "string \<Rightarrow> MockPolicySource \<Rightarrow> MockPolicySource \<times> (reg_err + string \<times> string)" where
  "mock_DefinitionVersion lookupRef m =
    (m\<lparr>mpLastLookupRef := lookupRef\<rparr>,
     case go_get (mpErrors m) lookupRef of
       Some injected \<Rightarrow> Inl injected
     | None \<Rightarrow>
        (case go_get (mpPolicies m) lookupRef of
           None \<Rightarrow> Inl (RVersionNotFound lookupRef [])
         | Some p \<Rightarrow> Inr (mdDigest p, mdVersion p)))"

text \<open>
  Pushing into and tagging in a layout store: a blob that is there already is an error of its own, which
  the mock ignores (\<^verbatim>\<open>isDuplicateErr\<close>); a tag needs a name and a stored blob.
\<close>

datatype push_res = Pushed | AlreadyExists

definition oci_Push :: "Descriptor \<Rightarrow> blob \<Rightarrow> OciStore \<Rightarrow> OciStore \<times> push_res" where
  "oci_Push d b st =
    (if go_has (ocBlobs st) (dsDigest d) then (st, AlreadyExists)
     else (st\<lparr>ocBlobs := go_put (dsDigest d) b (ocBlobs st)\<rparr>, Pushed))"

definition oci_Tag :: "Descriptor \<Rightarrow> string \<Rightarrow> OciStore \<Rightarrow> OciStore \<times> bool" where
  "oci_Tag d reference st =
    (if reference = [] \<or> \<not> go_has (ocBlobs st) (dsDigest d) then (st, False)
     else (st\<lparr>ocTags := go_put reference d (ocTags st)\<rparr>, True))"

definition isDuplicateErr :: "push_res \<Rightarrow> bool" where
  "isDuplicateErr r = (r = AlreadyExists)"

definition mock_layer :: "string \<Rightarrow> string" where
  "mock_layer policyID = ''{'' @ quoted ''policy_id'' @ '': '' @ quoted policyID @ '', '' @ quoted ''type'' @ '': '' @ quoted ''test-layer'' @ ''}''"

text \<open>\<open>dg\<close> is the digest of the bytes of a blob.\<close>

definition mock_config_desc :: "(blob \<Rightarrow> string) \<Rightarrow> Descriptor" where
  "mock_config_desc dg = \<lparr>dsMediaType = ociEmptyConfigType, dsDigest = dg (BBytes ''{}''), dsArtifactType = []\<rparr>"

definition mock_layer_desc :: "(blob \<Rightarrow> string) \<Rightarrow> string \<Rightarrow> Descriptor" where
  "mock_layer_desc dg policyID = \<lparr>dsMediaType = gemaraPolicyType, dsDigest = dg (BBytes (mock_layer policyID)), dsArtifactType = []\<rparr>"

definition mock_manifest :: "(blob \<Rightarrow> string) \<Rightarrow> string \<Rightarrow> Manifest" where
  "mock_manifest dg policyID = \<lparr>mfConfigMediaType = ociEmptyConfigType, mfLayers = [mock_layer_desc dg policyID], mfArtifactType = []\<rparr>"

definition mock_CopyPolicy :: "(blob \<Rightarrow> string) \<Rightarrow> MockPolicySource \<Rightarrow> string \<Rightarrow> string \<Rightarrow> OciStore \<Rightarrow> OciStore \<times> (string + Descriptor)" where
  "mock_CopyPolicy dg m policyID tag dst =
    (if \<not> go_has (mpPolicies m) policyID then (dst, Inl (''policy '' @ policyID))
     else let (st1, r1) = oci_Push (mock_config_desc dg) (BBytes ''{}'') dst in
     if r1 \<noteq> Pushed \<and> \<not> isDuplicateErr r1 then (st1, Inl ''failed to push complytime'')
     else let (st2, r2) = oci_Push (mock_layer_desc dg policyID) (BBytes (mock_layer policyID)) st1 in
     if r2 \<noteq> Pushed \<and> \<not> isDuplicateErr r2 then (st2, Inl ''failed to push layer'')
     else let manifest = BManifest (mock_manifest dg policyID);
              manifestDesc = \<lparr>dsMediaType = ociManifestMediaType, dsDigest = dg manifest, dsArtifactType = []\<rparr>;
              (st3, r3) = oci_Push manifestDesc manifest st2 in
     if r3 \<noteq> Pushed \<and> \<not> isDuplicateErr r3 then (st3, Inl ''failed to push manifest'')
     else case oci_Tag manifestDesc tag st3 of
       (st4, False) \<Rightarrow> (st4, Inl ''failed to tag manifest'')
     | (st4, True) \<Rightarrow> (st4, Inr manifestDesc))"

definition mock_source :: "(blob \<Rightarrow> string) \<Rightarrow> MockPolicySource \<Rightarrow> PolicySource" where
  "mock_source dg m = \<lparr>srDefinitionVersion = (\<lambda>ref. snd (mock_DefinitionVersion ref m)), srCopy = mock_CopyPolicy dg m\<rparr>"

section \<open>The mock bundle source\<close>

record MockBundlePolicySource =
  mbpPolicies :: "(string, mockPolicyData) gomap"
  mbpBundles :: "(string, Bundle) gomap"

definition NewMockBundlePolicySource :: MockBundlePolicySource where
  "NewMockBundlePolicySource = \<lparr>mbpPolicies = [], mbpBundles = []\<rparr>"

definition SeedBundlePolicy :: "string \<Rightarrow> string \<Rightarrow> string \<Rightarrow> bundle_file list \<Rightarrow> MockBundlePolicySource \<Rightarrow> MockBundlePolicySource" where
  "SeedBundlePolicy policyID version digestStr files m =
    (let b = \<lparr>buArtifacts = [],
        buSource = (case files of f # _ \<Rightarrow> f | [] \<Rightarrow> \<lparr>bfName = [], bfType = [], bfData = []\<rparr>),
        buImports = (case files of _ # fs \<Rightarrow> fs | [] \<Rightarrow> [])\<rparr> in
     m\<lparr>mbpPolicies := go_put policyID \<lparr>mdDigest = digestStr, mdVersion = version\<rparr> (mbpPolicies m),
       mbpBundles := go_put policyID b (mbpBundles m)\<rparr>)"

definition bundle_DefinitionVersion :: "MockBundlePolicySource \<Rightarrow> string \<Rightarrow> reg_err + string \<times> string" where
  "bundle_DefinitionVersion m lookupRef =
    (case go_get (mbpPolicies m) lookupRef of
       None \<Rightarrow> Inl (RVersionNotFound lookupRef [])
     | Some p \<Rightarrow> Inr (mdDigest p, mdVersion p))"

text \<open>\<open>pack\<close> is \<^verbatim>\<open>bundle.Pack\<close> of the vendored library.\<close>

definition bundle_CopyPolicy ::
    "(OciStore \<Rightarrow> Bundle \<Rightarrow> OciStore \<times> (string + Descriptor)) \<Rightarrow> MockBundlePolicySource \<Rightarrow> string \<Rightarrow> string \<Rightarrow> OciStore \<Rightarrow> OciStore \<times> (string + Descriptor)" where
  "bundle_CopyPolicy pack m policyID tag dst =
    (case go_get (mbpBundles m) policyID of
       None \<Rightarrow> (dst, Inl (''bundle policy '' @ policyID @ '' not found in mock''))
     | Some b \<Rightarrow>
        (case pack dst b of
           (st1, Inl e) \<Rightarrow> (st1, Inl (''bundle pack: '' @ e))
         | (st1, Inr desc) \<Rightarrow>
            (case oci_Tag desc tag st1 of
               (st2, False) \<Rightarrow> (st2, Inl ''failed to tag bundle manifest'')
             | (st2, True) \<Rightarrow> (st2, Inr desc))))"

definition bundle_source ::
    "(OciStore \<Rightarrow> Bundle \<Rightarrow> OciStore \<times> (string + Descriptor)) \<Rightarrow> MockBundlePolicySource \<Rightarrow> PolicySource" where
  "bundle_source pack m = \<lparr>srDefinitionVersion = bundle_DefinitionVersion m, srCopy = bundle_CopyPolicy pack m\<rparr>"

section \<open>From the mock source through the sync to the loader\<close>

definition addressed :: "(blob \<Rightarrow> string) \<Rightarrow> OciStore \<Rightarrow> bool" where
  "addressed dg st \<longleftrightarrow> (\<forall>d b. go_get (ocBlobs st) d = Some b \<longrightarrow> dg b = d)"

lemma push_addressed:
  assumes "addressed dg st" "inj dg" "dsDigest d = dg b"
  shows "addressed dg (fst (oci_Push d b st))" "go_get (ocBlobs (fst (oci_Push d b st))) (dg b) = Some b"
    "go_get (ocBlobs st) x = Some c \<Longrightarrow> go_get (ocBlobs (fst (oci_Push d b st))) x = Some c"
    "ocTags (fst (oci_Push d b st)) = ocTags st"
proof -
  have "b' = b" if "go_get (ocBlobs st) (dg b) = Some b'" for b'
    using that assms(1,2) by (auto simp: addressed_def inj_def)
  then show "go_get (ocBlobs (fst (oci_Push d b st))) (dg b) = Some b"
    using assms(3) by (auto simp: oci_Push_def go_has_get simp del: go_has_keys)
  show "addressed dg (fst (oci_Push d b st))"
    using assms by (auto simp: oci_Push_def addressed_def)
  show "go_get (ocBlobs st) x = Some c \<Longrightarrow> go_get (ocBlobs (fst (oci_Push d b st))) x = Some c"
    by (auto simp: oci_Push_def go_has_get simp del: go_has_keys)
  show "ocTags (fst (oci_Push d b st)) = ocTags st" by (simp add: oci_Push_def)
qed

lemma mock_copy:
  assumes "addressed dg dst" "inj dg" "go_has (mpPolicies m) pid" "tag \<noteq> []"
  obtains st' where
    "mock_CopyPolicy dg m pid tag dst = (st', Inr \<lparr>dsMediaType = ociManifestMediaType, dsDigest = dg (BManifest (mock_manifest dg pid)), dsArtifactType = []\<rparr>)"
    "resolveManifest st' pid tag = Inr (mock_manifest dg pid)"
    "oci_Fetch st' (mock_layer_desc dg pid) = Some (BBytes (mock_layer pid))"
proof -
  let ?M = "BManifest (mock_manifest dg pid)" and ?L = "BBytes (mock_layer pid)"
  let ?md = "\<lparr>dsMediaType = ociManifestMediaType, dsDigest = dg ?M, dsArtifactType = []\<rparr>"
  define s1 where "s1 = fst (oci_Push (mock_config_desc dg) (BBytes ''{}'') dst)"
  define s2 where "s2 = fst (oci_Push (mock_layer_desc dg pid) ?L s1)"
  define s3 where "s3 = fst (oci_Push ?md ?M s2)"
  have a1: "addressed dg s1" unfolding s1_def by (rule push_addressed(1)[OF assms(1,2)]) (simp add: mock_config_desc_def)
  have d2: "dsDigest (mock_layer_desc dg pid) = dg ?L" by (simp add: mock_layer_desc_def)
  have a2: "addressed dg s2" "go_get (ocBlobs s2) (dg ?L) = Some ?L"
    unfolding s2_def using push_addressed(1,2)[OF a1 assms(2) d2] by blast+
  have d3: "dsDigest ?md = dg ?M" by simp
  have a3: "go_get (ocBlobs s3) (dg ?M) = Some ?M" "go_get (ocBlobs s3) (dg ?L) = Some ?L"
    unfolding s3_def using push_addressed(2,3)[OF a2(1) assms(2) d3] a2(2) by blast+
  define s4 where "s4 = s3\<lparr>ocTags := go_put tag ?md (ocTags s3)\<rparr>"
  have dup: "\<not> (r \<noteq> Pushed \<and> \<not> isDuplicateErr r)" for r by (cases r) (simp_all add: isDuplicateErr_def)
  have "oci_Tag ?md tag s3 = (s4, True)" using a3(1) assms(4) by (simp add: oci_Tag_def s4_def go_has_get del: go_has_keys)
  then have c: "mock_CopyPolicy dg m pid tag dst = (s4, Inr ?md)"
    using assms(3) dup unfolding mock_CopyPolicy_def Let_def split_beta s1_def[symmetric] s2_def[symmetric] s3_def[symmetric]
    by simp
  have "resolveManifest s4 pid tag = Inr (mock_manifest dg pid)" "oci_Fetch s4 (mock_layer_desc dg pid) = Some ?L"
    using a3 assms(4) d2 by (simp_all add: resolveManifest_def oci_Resolve_def oci_Fetch_def s4_def)
  with c that show ?thesis by blast
qed

lemma mock_copy_ok:
  assumes "go_has (mpPolicies m) pid" "tag \<noteq> []"
  shows "\<exists>desc. snd (mock_CopyPolicy dg m pid tag dst) = Inr desc"
proof -
  have dup: "\<not> (r \<noteq> Pushed \<and> \<not> isDuplicateErr r)" for r by (cases r) (simp_all add: isDuplicateErr_def)
  have p: "go_has (ocBlobs (fst (oci_Push d b st))) (dsDigest d)" for d b st
    by (simp add: oci_Push_def go_has_get del: go_has_keys)
  have t: "snd (oci_Tag d tag (fst (oci_Push d b st)))" for d b st
    using p[of d b st] assms(2) by (simp add: oci_Tag_def del: go_has_keys)
  show ?thesis
    using assms(1) dup t unfolding mock_CopyPolicy_def Let_def split_beta
    by (auto simp del: go_has_keys split: prod.splits bool.splits)
qed

text \<open>
  From the mock source to the loader: a policy seeded into \<^verbatim>\<open>MockPolicySource\<close> is synced by
  \<^verbatim>\<open>SyncPolicy\<close> on a healthy cache, for no version, \<^verbatim>\<open>latest\<close> or the seeded tag, without an error and
  recorded with the seeded digest; when the sync fetched, the loader returns the layer of the policy,
  at the seeded version, from the store the sync has written. No error is injected for the policy, the
  store was content addressed before and digests do not collide.
\<close>

theorem mock_seed_sync_load:
  assumes "apart rnd (syDataDir sy) stores" "healthy rnd (syDataDir sy) stores s" "PolicyStorePath (syCacheDir sy) pid \<in> stores"
    and "pid \<noteq> []" "syVerifier sy = None" "sySource sy = mock_source dg (SeedPolicy pid ver d m)"
    and "v \<in> {[], ''latest'', ver}" "ver \<noteq> []" "\<not> valid_digest ver" "digest_ok d" "inj dg"
    and "go_get (mpErrors m) pid = None" "go_get (mpErrors m) (pid @ '':'' @ ver) = None"
    and "\<forall>store. go_get s (PolicyStorePath (syCacheDir sy) pid @ [oci_index_file]) = Some (File (OciDoc store)) \<longrightarrow> addressed dg store"
  shows "\<exists>st' s' b e. SyncPolicy no_faults rnd now sy pid v (st, s) = ((st', s'), Inr b) \<and>
    GetPolicyState st' = (GetPolicyState st)(pid \<mapsto> e) \<and> psDigest e = d \<and>
    (b \<longrightarrow> snd (LoadLayerByMediaType no_faults (syCacheDir sy) pid ver gemaraPolicyType s') = Inr (mock_layer pid))"
proof -
  have nl: "\<not> valid_digest ''latest''" using tag_not_digest[OF tag_latest] .
  then have "\<not> valid_digest v" using assms(7,9) valid_digest_nonempty by blast
  then have c: "classifyVersion v = (v, [])" by (rule classifyVersion_tag)
  have l: "BuildLookupRef [] pid v [] = (if v = [] \<or> v = ''latest'' then pid else pid @ '':'' @ v)" by (simp add: BuildLookupRef_def)
  have q: "srDefinitionVersion (sySource sy) (BuildLookupRef [] pid v []) = Inr (d, ver)"
    using assms(6,7,12,13) unfolding l by (auto simp: mock_source_def mock_DefinitionVersion_def SeedPolicy_def Let_def)
  have vv: "(if v = [] \<or> v = ''latest'' then ver else v) = ver" using assms(7) by auto
  have has: "go_has (mpPolicies (SeedPolicy pid ver d m)) pid" by (simp add: SeedPolicy_def Let_def go_has_get del: go_has_keys)
  have cp: "\<exists>desc. snd (srCopy (sySource sy) pid (if v = [] \<or> v = ''latest'' then ver else v) store) = Inr desc" for store
    unfolding vv using mock_copy_ok[OF has assms(8)] assms(6) by (simp add: mock_source_def)
  have rv: "run_verifier sy pid v [] = Inr None" using assms(5) by (simp add: run_verifier_def)
  obtain st' s' b e where r: "SyncPolicy no_faults rnd now sy pid v (st, s) = ((st', s'), Inr b)"
    "GetPolicyState st' = (GetPolicyState st)(pid \<mapsto> e)" "psDigest e = d"
    by (rule SyncPolicy_progress[OF assms(1-4) disjI1[OF assms(5)] c q assms(10) rv cp, of now st])
  have "snd (LoadLayerByMediaType no_faults (syCacheDir sy) pid ver gemaraPolicyType s') = Inr (mock_layer pid)" if b
  proof -
    have r': "SyncPolicy no_faults rnd now sy pid v (st, s) = ((st', s'), Inr True)" using r(1) that by simp
    obtain rv' d' store store' desc where
      k: "srDefinitionVersion (sySource sy) (BuildLookupRef [] pid (fst (classifyVersion v)) (snd (classifyVersion v))) = Inr (d', rv')"
      "store = empty_oci \<or> go_get s (PolicyStorePath (syCacheDir sy) pid @ [oci_index_file]) = Some (File (OciDoc store))"
      "srCopy (sySource sy) pid (if v = [] \<or> v = ''latest'' then rv' else v) store = (store', Inr desc)"
      "snd (NewPolicyStore no_faults (syCacheDir sy) pid s') = Inr store'"
      by (rule SyncPolicy_store[OF assms(1-3) r'])
    have "rv' = ver" using k(1) q c by simp
    then have "srCopy (sySource sy) pid ver store = (store', Inr desc)" using k(3) unfolding vv by (simp only: vv)
    then have cpy: "mock_CopyPolicy dg (SeedPolicy pid ver d m) pid ver store = (store', Inr desc)" by (simp add: assms(6) mock_source_def)
    have ad: "addressed dg store" using k(2) assms(14) by (auto simp: addressed_def empty_oci_def)
    obtain st2 where "mock_CopyPolicy dg (SeedPolicy pid ver d m) pid ver store = (st2, Inr \<lparr>dsMediaType = ociManifestMediaType,
        dsDigest = dg (BManifest (mock_manifest dg pid)), dsArtifactType = []\<rparr>)"
      "resolveManifest st2 pid ver = Inr (mock_manifest dg pid)" "oci_Fetch st2 (mock_layer_desc dg pid) = Some (BBytes (mock_layer pid))"
      by (rule mock_copy[OF ad assms(11) has assms(8)])
    with cpy have m: "resolveManifest store' pid ver = Inr (mock_manifest dg pid)" "oci_Fetch store' (mock_layer_desc dg pid) = Some (BBytes (mock_layer pid))"
      by auto
    have f: "List.find (\<lambda>l. dsMediaType l = gemaraPolicyType) (mfLayers (mock_manifest dg pid)) = Some (mock_layer_desc dg pid)"
      by (simp add: mock_manifest_def mock_layer_desc_def)
    have "gemaraPolicyType \<noteq> []" by (simp add: gemaraPolicyType_def)
    from LoadLayer_of_store[OF k(4) assms(4,8) this m(1) f m(2)] show ?thesis .
  qed
  with r show ?thesis by blast
qed

text \<open>A digest function without collisions, for the instances: it spells the blob out.\<close>

fun spell :: "string \<Rightarrow> string" where
  "spell [] = ''.''"
| "spell (c # s) = ''c'' @ [c] @ spell s"

lemma spell_inj: "spell a @ x = spell b @ y \<Longrightarrow> a = b \<and> x = y"
  by (induction a arbitrary: b; case_tac b; auto)

definition spell_desc :: "Descriptor \<Rightarrow> string" where
  "spell_desc d = spell (dsMediaType d) @ spell (dsDigest d) @ spell (dsArtifactType d)"

lemma spell_desc_inj: "spell_desc a @ x = spell_desc b @ y \<Longrightarrow> a = b \<and> x = y"
  by (cases a; cases b) (auto simp: spell_desc_def dest!: spell_inj)

fun spell_descs :: "Descriptor list \<Rightarrow> string" where
  "spell_descs [] = ''.''"
| "spell_descs (d # ds) = ''d'' @ spell_desc d @ spell_descs ds"

lemma spell_descs_inj: "spell_descs a @ x = spell_descs b @ y \<Longrightarrow> a = b \<and> x = y"
proof (induction a arbitrary: b)
  case Nil
  then show ?case by (cases b) auto
next
  case (Cons d ds)
  then show ?case by (cases b) (auto dest!: spell_desc_inj)
qed

fun spell_blob :: "blob \<Rightarrow> string" where
  "spell_blob (BBytes s) = ''b'' @ s"
| "spell_blob (BManifest m) = ''m'' @ spell (mfConfigMediaType m) @ spell_descs (mfLayers m) @ mfArtifactType m"

lemma spell_blob_inj: "inj spell_blob"
proof (rule injI)
  fix a b assume "spell_blob a = spell_blob b"
  then show "a = b"
    by (cases a; cases b) (auto dest!: spell_inj spell_descs_inj intro: Manifest.equality)
qed

definition mock_sync :: SyncCfg where
  "mock_sync = \<lparr>syCacheDir = [''c''], sySource = mock_source spell_blob (SeedPolicy ''p'' ''v1'' demo_digest NewMockPolicySource),
     syVerifier = None, syRegistryHost = [], syInsecure = False, syDataDir = [''d'']\<rparr>"

theorem mock_seed_sync_load_witness:
  "\<exists>st' s' b e. SyncPolicy no_faults ''1'' 1 mock_sync ''p'' [] (empty_state, []) = ((st', s'), Inr b) \<and>
    GetPolicyState st' = (GetPolicyState empty_state)(''p'' \<mapsto> e) \<and> psDigest e = demo_digest \<and>
    (b \<longrightarrow> snd (LoadLayerByMediaType no_faults [''c''] ''p'' ''v1'' gemaraPolicyType s') = Inr (mock_layer ''p''))"
proof -
  have p: "PolicyStorePath [''c''] ''p'' = [''c'', ''policies'', ''p'']" by code_simp
  have f: "syCacheDir mock_sync = [''c'']" "syDataDir mock_sync = [''d'']" "syVerifier mock_sync = None"
    "sySource mock_sync = mock_source spell_blob (SeedPolicy ''p'' ''v1'' demo_digest NewMockPolicySource)"
    by (simp_all add: mock_sync_def)
  have a: "apart ''1'' (syDataDir mock_sync) {[''c'', ''policies'', ''p'']}"
    unfolding f by (auto simp: apart_def dir_files_def plain_comp_def under_def)
  have h: "healthy ''1'' (syDataDir mock_sync) {[''c'', ''policies'', ''p'']} []"
    unfolding f by (simp add: healthy_def usable_def store_broken_def)
  have m: "PolicyStorePath (syCacheDir mock_sync) ''p'' \<in> {[''c'', ''policies'', ''p'']}" unfolding f p by simp
  have d: "\<not> valid_digest ''v1''" "digest_ok demo_digest" by code_simp+
  show ?thesis
    using mock_seed_sync_load[OF a h m _ f(3,4) _ _ d spell_blob_inj, of "[]" 1 empty_state] unfolding f
    by (simp add: NewMockPolicySource_def)
qed

theorem test_provider_scan_witness:
  "\<exists>r. RouteScanResult False [(''t'', \<lparr>lpInfo = \<lparr>piProviderID = ''t'', piEvaluatorID = ''t'', piExecutablePath = ''/t''\<rparr>,
      lpClient = over_wire (te_provider ''now'' (fst (te_Generate (received \<lparr>grGlobalVariables = [],
        grConfiguration = [\<lparr>acPlanID = ''p1'', acRequirementID = ''r1'', acParameters = [], acEvaluatorID = ''t''\<rparr>],
        grTargetVariables = [], grComplypackContentPath = []\<rparr>) \<lparr>teMatchIDs = [''old'']\<rparr>)))\<rparr>)] ''t'' [] = Inr r \<and>
    map alPlanID (rsAssessments r) = [''p1'']"
proof -
  let ?req = "\<lparr>grGlobalVariables = [], grConfiguration = [\<lparr>acPlanID = ''p1'', acRequirementID = ''r1'', acParameters = [], acEvaluatorID = ''t''\<rparr>],
        grTargetVariables = [], grComplypackContentPath = []\<rparr>"
  let ?lp = "\<lparr>lpInfo = \<lparr>piProviderID = ''t'', piEvaluatorID = ''t'', piExecutablePath = ''/t''\<rparr>,
      lpClient = over_wire (te_provider ''now'' (fst (te_Generate (received ?req) \<lparr>teMatchIDs = [''old'']\<rparr>)))\<rparr>"
  have "GetProvider [(''t'', ?lp)] ''t'' = Inr ?lp" by (simp add: GetProvider_def go_get_def)
  from test_provider_scan[OF _ this, of False "[]" "[]" "[]" "[]" "[]" "[]" "[]" "[]"] show ?thesis by (auto simp: MatchID_def)
qed

end
