(* ===== verification/Behavioral_Report.thy ===== *)
theory Behavioral_Report
  imports Evaluation Workspace
begin

text \<open>
  The report over the behavioural controls (\<^verbatim>\<open>cmd/behavioral-report/main.go\<close>): it evaluates every plan in a
  fresh home and working directory, aggregates the results and writes an evaluation log and a SARIF
  file. Running the steps of a plan (which start the built program), loading the control catalog, the
  YAML encoder and the SARIF conversion are parameters. Times and random names are arguments.
\<close>

section \<open>Data\<close>

record BehavioralContext =
  bcBinary :: string
  bcTestProviderBinary :: string
  bcHomeDir :: path
  bcWorkDir :: path
  bcEnv :: "string list"
  bcPolicyID :: string
  bcRegistryURL :: string

record report_ext =
  rxEvaluate :: "string \<Rightarrow> BehavioralContext \<Rightarrow> fs \<Rightarrow> fs \<times> result \<times> string \<times> GemaraAssessmentLog list"
  rxLoadCatalog :: "string \<Rightarrow> string option"
  rxYaml :: "EvaluationLog \<Rightarrow> string option"
  rxSarif :: "EvaluationLog \<Rightarrow> string \<Rightarrow> string option \<Rightarrow> result list \<Rightarrow> string option"
  rxEnviron :: "string list"
  rxTempDir :: path
  rxRandom :: "string \<Rightarrow> string"
  rxSchemaVersion :: string

record report_flags =
  rfBinary :: string
  rfTestProvider :: string
  rfCatalog :: string
  rfOut :: string
  rfArtifactURI :: string
  rfPolicyID :: string

datatype report_err = REAbs string | RENoBinary string | REOutDir | REMarshal | REWriteLog | RESarif | REWriteSarif

section \<open>Operations\<close>

definition toFileURI :: "osenv \<Rightarrow> string \<Rightarrow> string" where
  "toFileURI os path =
    (if HasPrefix path ''file:///'' \<or> HasPrefix path ''https://'' then path
     else ''file://'' @ (case filepath_Abs os path of None \<Rightarrow> path | Some a \<Rightarrow> a))"

definition sortedKeys :: "string list \<Rightarrow> string list" where
  "sortedKeys keys = sort keys"

text \<open>A pointer to an evaluation may be nil.\<close>

fun aggregate_loop :: "ControlEvaluation option list \<Rightarrow> result \<Rightarrow> result" where
  "aggregate_loop [] r = r"
| "aggregate_loop (None # es) r = aggregate_loop es r"
| "aggregate_loop (Some e # es) r = aggregate_loop es (UpdateAggregateResult r (ceResult e))"

definition aggregateResult :: "ControlEvaluation option list \<Rightarrow> result" where
  "aggregateResult evals = (let r = aggregate_loop evals NotRun in if evals = [] then NotApplicable else r)"

definition printSummary :: "ControlEvaluation list \<Rightarrow> nat \<times> nat \<times> nat" where
  "printSummary evals =
    foldl (\<lambda>(passed, failed, other) e.
       if ceResult e = Passed then (passed + 1, failed, other)
       else if ceResult e = Failed then (passed, failed + 1, other)
       else (passed, failed, other + 1)) (0, 0, 0) evals"

definition summary_text :: "ControlEvaluation list \<Rightarrow> string" where
  "summary_text evals =
    (let (passed, failed, other) = printSummary evals in
     [nl] @ ''behavioral assessment: '' @ show_nat (passed + failed + other) @ '' total, '' @ show_nat passed @ '' passed, '' @
     show_nat failed @ '' failed, '' @ show_nat other @ '' other'' @ [nl])"

definition BuildEnv :: "string list \<Rightarrow> path \<Rightarrow> string list" where
  "BuildEnv environ homeDir =
    filter (\<lambda>e. \<not> (HasPrefix e ''HOME='' \<or> HasPrefix e ''XDG_CACHE_HOME='' \<or> HasPrefix e ''XDG_DATA_HOME='')) environ @
    [''HOME='' @ path_string homeDir]"

definition ControlForRequirement :: "string \<Rightarrow> string" where
  "ControlForRequirement requirementID =
    (let parts = Split CHR ''.'' requirementID in
     if length parts < 4 then requirementID else Join ''.'' (take 3 parts))"

text \<open>One plan; without its directories it is left out of the report.\<close>

definition evaluate_plan ::
    "report_ext \<Rightarrow> faults \<Rightarrow> string \<Rightarrow> string \<Rightarrow> string \<Rightarrow> string \<Rightarrow> string \<Rightarrow> fs \<Rightarrow> fs \<times> ControlEvaluation option" where
  "evaluate_plan x flt binary testProvider registryURL targetPolicyID reqID s =
    (case fs_MkdirTemp flt (rxTempDir x) (''behavioral-home-'' @ rxRandom x reqID) s of
       (s1, None) \<Rightarrow> (s1, None)
     | (s1, Some homeDir) \<Rightarrow>
        (case fs_MkdirTemp flt (rxTempDir x) (''behavioral-work-'' @ rxRandom x reqID) s1 of
           (s2, None) \<Rightarrow> (s2, None)
         | (s2, Some workDir) \<Rightarrow>
            (let ctx = \<lparr>bcBinary = binary, bcTestProviderBinary = testProvider, bcHomeDir = homeDir, bcWorkDir = workDir,
                   bcEnv = BuildEnv (rxEnviron x) homeDir, bcPolicyID = targetPolicyID, bcRegistryURL = registryURL\<rparr>;
                 (s3, res, msg, logs) = rxEvaluate x reqID ctx s2;
                 eval = \<lparr>ceName = reqID, ceResult = res, ceMessage = msg,
                   ceControl = \<lparr>emReferenceId = [], emEntryId = ControlForRequirement reqID\<rparr>, ceAssessmentLogs = logs\<rparr>;
                 s4 = fst (fs_RemoveAll flt homeDir s3);
                 s5 = fst (fs_RemoveAll flt workDir s4) in
             (s5, Some eval))))"

fun evaluate_plans ::
    "report_ext \<Rightarrow> faults \<Rightarrow> string \<Rightarrow> string \<Rightarrow> string \<Rightarrow> string \<Rightarrow> string list \<Rightarrow> fs \<Rightarrow> fs \<times> ControlEvaluation list" where
  "evaluate_plans x flt binary testProvider registryURL targetPolicyID [] s = (s, [])"
| "evaluate_plans x flt binary testProvider registryURL targetPolicyID (reqID # reqIDs) s =
    (let (s1, e) = evaluate_plan x flt binary testProvider registryURL targetPolicyID reqID s;
         (s2, es) = evaluate_plans x flt binary testProvider registryURL targetPolicyID reqIDs s1 in
     (s2, (case e of None \<Rightarrow> es | Some ev \<Rightarrow> ev # es)))"

definition runEvaluations ::
    "report_ext \<Rightarrow> faults \<Rightarrow> string \<Rightarrow> string \<Rightarrow> string \<Rightarrow> string \<Rightarrow> string list \<Rightarrow> fs \<Rightarrow> fs \<times> ControlEvaluation list" where
  "runEvaluations x flt binary testProvider registryURL targetPolicyID plans s =
    evaluate_plans x flt binary testProvider registryURL targetPolicyID (sortedKeys plans) s"

definition write_evaluation_log :: "report_ext \<Rightarrow> faults \<Rightarrow> EvaluationLog \<Rightarrow> path \<Rightarrow> fs \<Rightarrow> fs \<times> report_err option" where
  "write_evaluation_log x flt evalLog outDir s =
    (case rxYaml x evalLog of
       None \<Rightarrow> (s, Some REMarshal)
     | Some d \<Rightarrow>
        (case fs_WriteFile flt (fp_join outDir [''evaluation-log.yaml'']) (Raw d) s of
           (s1, True) \<Rightarrow> (s1, None)
         | (s1, False) \<Rightarrow> (s1, Some REWriteLog)))"

definition writeSARIF :: "report_ext \<Rightarrow> faults \<Rightarrow> EvaluationLog \<Rightarrow> string \<Rightarrow> path \<Rightarrow> string option \<Rightarrow> fs \<Rightarrow> fs \<times> report_err option" where
  "writeSARIF x flt evalLog artifactURI outDir catalog s =
    (case rxSarif x evalLog artifactURI catalog [Passed] of
       None \<Rightarrow> (s, Some RESarif)
     | Some d \<Rightarrow>
        (case fs_WriteFile flt (fp_join outDir [''behavioral-report.sarif.json'']) (Raw d) s of
           (s1, True) \<Rightarrow> (s1, None)
         | (s1, False) \<Rightarrow> (s1, Some REWriteSarif)))"

definition report_log :: "report_ext \<Rightarrow> ControlEvaluation list \<Rightarrow> EvaluationLog" where
  "report_log x evals =
    \<lparr>elEvaluations = evals, elResult = aggregateResult (map Some evals),
     elMetadata = \<lparr>lmId = ''CT.COMPLYCTL.CTRL'', lmType = [], lmGemaraVersion = rxSchemaVersion x,
       lmDescription = ''Behavioral test evaluation of CT.COMPLYCTL control catalog'', lmMappingReferences = [],
       lmAuthorId = ''complytime-behavioral'', lmAuthorName = ''complytime-behavioral'', lmAuthorVersion = ''0.1.0'',
       lmAuthorUri = ''https://github.com/complytime/complytime''\<rparr>,
     elTarget = \<lparr>ltId = [], ltName = []\<rparr>\<rparr>"

text \<open>The whole report: the files, the summary if it is reached, and the error that ends it.\<close>

definition report_main ::
    "report_ext \<Rightarrow> faults \<Rightarrow> osenv \<Rightarrow> path \<Rightarrow> report_flags \<Rightarrow> string \<Rightarrow> string list \<Rightarrow> fs \<Rightarrow> fs \<times> string option \<times> report_err option" where
  "report_main x flt os cwd f registryURL plans s =
    (case filepath_Abs os (rfBinary f) of
       None \<Rightarrow> (s, None, Some (REAbs (rfBinary f)))
     | Some binaryAbs \<Rightarrow>
        (case filepath_Abs os (rfTestProvider f) of
           None \<Rightarrow> (s, None, Some (REAbs (rfTestProvider f)))
         | Some testProviderAbs \<Rightarrow>
            if \<not> stat_ok os binaryAbs then (s, None, Some (RENoBinary binaryAbs))
            else let catalog = (if rfCatalog f \<noteq> [] then rxLoadCatalog x (toFileURI os (rfCatalog f)) else None);
                     (s1, evals) = runEvaluations x flt binaryAbs testProviderAbs registryURL (rfPolicyID f) plans s;
                     evalLog = report_log x evals;
                     outDir = os_path cwd (rfOut f) in
            (case fs_MkdirAll flt outDir s1 of
               (s2, False) \<Rightarrow> (s2, None, Some REOutDir)
             | (s2, True) \<Rightarrow>
                (case write_evaluation_log x flt evalLog outDir s2 of
                   (s3, Some e) \<Rightarrow> (s3, None, Some e)
                 | (s3, None) \<Rightarrow>
                    (case writeSARIF x flt evalLog (rfArtifactURI f) outDir catalog s3 of
                       (s4, Some e) \<Rightarrow> (s4, None, Some e)
                     | (s4, None) \<Rightarrow> (s4, Some (summary_text evals), None))))))"

section \<open>The result of a report\<close>

lemma aggregate_loop_fold: "aggregate_loop (map Some es) r = foldl UpdateAggregateResult r (map ceResult es)"
  by (induction es arbitrary: r) auto

lemma printSummary_counts:
  "printSummary es = (length (filter (\<lambda>e. ceResult e = Passed) es), length (filter (\<lambda>e. ceResult e = Failed) es),
     length (filter (\<lambda>e. ceResult e \<noteq> Passed \<and> ceResult e \<noteq> Failed) es))"
  unfolding printSummary_def by (induction es rule: rev_induct) (auto simp: split_beta)

lemma split_counts: "length (filter P es) + length (filter Q es) + length (filter (\<lambda>e. \<not> P e \<and> \<not> Q e) es) = length es"
  if "\<And>e. \<not> (P e \<and> Q e)"
  using that by (induction es) auto

lemma summary_total: "(let (p, f, oth) = printSummary es in p + f + oth) = length es"
  unfolding printSummary_counts
  using split_counts[of "\<lambda>e. ceResult e = Passed" "\<lambda>e. ceResult e = Failed" es] by simp

lemma aggregate_failed: "aggregateResult (map Some es) = Failed \<longleftrightarrow> (\<exists>e \<in> set es. ceResult e = Failed)"
proof (cases "es = []")
  case False
  then have "aggregateResult (map Some es) = foldl UpdateAggregateResult NotRun (map ceResult es)"
    by (simp add: aggregateResult_def aggregate_loop_fold)
  then show ?thesis using wr.fold_eq_iff[OF Failed_greatest, of "map ceResult es"] by (auto simp: image_iff) (metis+)?
qed (simp add: aggregateResult_def)

text \<open>
  The behavioural report does not depend on the order in which the plans are visited, and its
  summary agrees with its log: every evaluated control is counted once, the log's result is the
  worst result of the controls, and the summary counts a failed control exactly when the log's result
  is Failed.
\<close>

theorem behavioral_report_result:
  assumes "mset plans = mset plans'"
  shows "let (s', evals) = runEvaluations x flt b t u p plans s; (passed, failed, other) = printSummary evals;
      log = report_log x evals in
    runEvaluations x flt b t u p plans' s = (s', evals) \<and> passed + failed + other = length evals \<and>
    elResult log = (if evals = [] then NotApplicable else Max (set (map ceResult evals))) \<and>
    (failed \<noteq> 0 \<longleftrightarrow> elResult log = Failed)"
proof -
  have s: "sortedKeys plans = sortedKeys plans'" unfolding sortedKeys_def using assms by (simp add: properties_for_sort)
  obtain s' evals where r: "runEvaluations x flt b t u p plans s = (s', evals)" by fastforce
  have r': "runEvaluations x flt b t u p plans' s = (s', evals)" using r unfolding runEvaluations_def s .
  have "elResult (report_log x evals) = (if evals = [] then NotApplicable else Max (set (map ceResult evals)))"
    using wr.fold_zero[of "map ceResult evals"]
    by (simp add: report_log_def aggregateResult_def aggregate_loop_fold)
  moreover have "length (filter (\<lambda>e. ceResult e = Failed) evals) \<noteq> 0 \<longleftrightarrow> elResult (report_log x evals) = Failed"
    using aggregate_failed[of evals] by (simp add: report_log_def filter_empty_conv)
  moreover have "(let (p, f, oth) = printSummary evals in p + f + oth) = length evals" by (rule summary_total)
  ultimately show ?thesis using r r' unfolding Let_def printSummary_counts by (simp del: length_0_conv)
qed

definition demo_report :: report_ext where
  "demo_report = \<lparr>rxEvaluate = (\<lambda>i ctx s. (s, if i = ''CT.X.CTRL01.AR01'' then Failed else Passed, [], [])), rxLoadCatalog = (\<lambda>_. None),
     rxYaml = (\<lambda>_. Some []), rxSarif = (\<lambda>_ _ _ _. Some []), rxEnviron = [], rxTempDir = [''tmp''], rxRandom = (\<lambda>i. i), rxSchemaVersion = ''1''\<rparr>"

theorem behavioral_report_result_witness:
  "elResult (report_log demo_report (snd (runEvaluations demo_report no_faults ''/b'' ''/t'' ''u'' ''p'' [''CT.X.CTRL02.AR01'', ''CT.X.CTRL01.AR01''] []))) = Failed"
proof -
  let ?a = "[''CT.X.CTRL02.AR01'', ''CT.X.CTRL01.AR01'']" and ?b = "[''CT.X.CTRL01.AR01'', ''CT.X.CTRL02.AR01'']"
  have m: "mset ?a = mset ?b" by simp
  have "fst (snd (printSummary (snd (runEvaluations demo_report no_faults ''/b'' ''/t'' ''u'' ''p'' ?a [])))) \<noteq> 0" by code_simp
  then show ?thesis
    using behavioral_report_result[OF m, of demo_report no_faults "''/b''" "''/t''" "''u''" "''p''" "[]"]
    by (auto simp: Let_def split_beta)
qed

end
