(* ===== verification/Behavioral_Steps.thy ===== *)
theory Behavioral_Steps
  imports Behavioral_Report Registry Logging
begin

text \<open>
  The steps of the behavioural plans (\<^verbatim>\<open>tests/behavioral\<close>) and the loop of the vendored gemara library that
  runs a plan. A step runs the built program and looks at its output and at the files it left; the
  program is a parameter, and so is the text of a document. Results and confidence are modelled, messages
  are not.
\<close>

section \<open>Context\<close>

text \<open>\<^verbatim>\<open>bxRun binary args dir env\<close>: the files afterwards, the combined output and whether the exit code is 0.\<close>

record steps_ext =
  bxRun :: "string \<Rightarrow> string list \<Rightarrow> path \<Rightarrow> string list \<Rightarrow> fs \<Rightarrow> fs \<times> string \<times> bool"
  bxText :: "fdata \<Rightarrow> string"

datatype payload = Ctx BehavioralContext | OtherPayload

type_synonym step_fun = "payload \<Rightarrow> fs \<Rightarrow> payload \<times> fs \<times> result \<times> confidence"

definition verifyContext :: "payload \<Rightarrow> BehavioralContext option" where
  "verifyContext p = (case p of Ctx c \<Rightarrow> Some c | OtherPayload \<Rightarrow> None)"

text \<open>The beginning of every step.\<close>

definition with_context :: "(BehavioralContext \<Rightarrow> fs \<Rightarrow> fs \<times> result \<times> confidence) \<Rightarrow> step_fun" where
  "with_context f p s = (case verifyContext p of
     None \<Rightarrow> (p, s, Unknown, Undetermined)
   | Some c \<Rightarrow> (let (s', r, conf) = f c s in (p, s', r, conf)))"

definition RunBinary :: "steps_ext \<Rightarrow> BehavioralContext \<Rightarrow> string list \<Rightarrow> fs \<Rightarrow> fs \<times> string \<times> bool" where
  "RunBinary x c args s = bxRun x (bcBinary c) args (bcWorkDir c) (bcEnv c) s"

definition step_cacheDir :: "path \<Rightarrow> path" where
  "step_cacheDir homeDir = fp_join homeDir [''.cache'', ''complytime'']"

definition step_dataDir :: "path \<Rightarrow> path" where
  "step_dataDir homeDir = fp_join homeDir [''.local'', ''share'', ''complytime'']"

section \<open>Preconditions\<close>

definition ensureConfigPath :: "faults \<Rightarrow> path \<Rightarrow> fs \<Rightarrow> fs \<times> path option" where
  "ensureConfigPath flt workDir s =
    (let configDir = fp_join workDir [WorkspaceDir] in
     case fs_MkdirAll flt configDir s of
       (s1, False) \<Rightarrow> (s1, None)
     | (s1, True) \<Rightarrow> (s1, Some (fp_join configDir [WorkspaceConfigFile])))"

definition yaml_lines :: "string list \<Rightarrow> string" where
  "yaml_lines ls = concat (map (\<lambda>l. l @ [nl]) ls)"

text \<open>The configurations the steps write: the policy with a target and one variable, or without.\<close>

definition policy_lines :: "string \<Rightarrow> BehavioralContext \<Rightarrow> string list" where
  "policy_lines url c = [''policies:'', ''  - url: '' @ url @ ''/'' @ bcPolicyID c, ''    id: '' @ bcPolicyID c]"

definition target_lines :: "string \<Rightarrow> BehavioralContext \<Rightarrow> string list" where
  "target_lines target c = [''targets:'', ''  - id: '' @ target, ''    policies:'', ''      - '' @ bcPolicyID c]"

definition var_config :: "string \<Rightarrow> string \<Rightarrow> BehavioralContext \<Rightarrow> string" where
  "var_config target var c = yaml_lines (policy_lines (bcRegistryURL c) c @ target_lines target c @ [''    variables:'', ''      '' @ var])"

text \<open>Writing a configuration, and what to do then.\<close>

definition write_config_then ::
    "faults \<Rightarrow> BehavioralContext \<Rightarrow> string \<Rightarrow> (fs \<Rightarrow> fs \<times> result \<times> confidence) \<Rightarrow> fs \<Rightarrow> fs \<times> result \<times> confidence" where
  "write_config_then flt c text k s =
    (case ensureConfigPath flt (bcWorkDir c) s of
       (s1, None) \<Rightarrow> (s1, Unknown, Undetermined)
     | (s1, Some path) \<Rightarrow>
        (case fs_WriteFile flt path (Raw text) s1 of
           (s2, False) \<Rightarrow> (s2, Unknown, Undetermined)
         | (s2, True) \<Rightarrow> k s2))"

definition WriteConfig :: "faults \<Rightarrow> step_fun" where
  "WriteConfig flt = with_context (\<lambda>c. write_config_then flt c (var_config ''e2e-target'' ''env: test'' c) (\<lambda>s. (s, Passed, High)))"

definition SyncPolicy_step :: "steps_ext \<Rightarrow> step_fun" where
  "SyncPolicy_step x = with_context (\<lambda>c s.
    (case RunBinary x c [''get''] s of
       (s1, output, False) \<Rightarrow> (s1, Failed, High)
     | (s1, output, True) \<Rightarrow> if Contains output ''Synchronization completed.'' then (s1, Passed, High) else (s1, Passed, High)))"

definition InstallTestPlugin :: "faults \<Rightarrow> step_fun" where
  "InstallTestPlugin flt = with_context (\<lambda>c s.
    (let src = os_path (bcWorkDir c) (bcTestProviderBinary c) in
     if bcTestProviderBinary c = [] then (s, Unknown, Undetermined)
     else if \<not> fs_exists flt src s then (s, Unknown, Undetermined)
     else let providerDir = fp_join (step_dataDir (bcHomeDir c)) [''providers''] in
     case fs_MkdirAll flt providerDir s of
       (s1, False) \<Rightarrow> (s1, Unknown, Undetermined)
     | (s1, True) \<Rightarrow>
        (case fs_ReadFile flt src s1 of
           Doc d \<Rightarrow>
             (case fs_WriteFile flt (fp_join providerDir [''complyctl-provider-test'']) d s1 of
                (s2, False) \<Rightarrow> (s2, Unknown, Undetermined)
              | (s2, True) \<Rightarrow> (s2, Passed, High))
         | _ \<Rightarrow> (s1, Unknown, Undetermined))))"

section \<open>Evaluators\<close>

definition SignatureVerified :: "steps_ext \<Rightarrow> faults \<Rightarrow> step_fun" where
  "SignatureVerified x flt = with_context (\<lambda>c s.
    (case RunBinary x c [''get''] s of
       (s1, output, False) \<Rightarrow> (s1, Failed, High)
     | (s1, output, True) \<Rightarrow>
        if Contains output ''signature verified'' \<or> Contains output ''signature valid'' then (s1, Passed, High)
        else (case fs_ReadFile flt (fp_join (step_dataDir (bcHomeDir c)) [StateFileName]) s1 of
                Doc d \<Rightarrow> if Contains (bxText x d) ''signature'' then (s1, Passed, High) else (s1, Failed, High)
              | _ \<Rightarrow> (s1, Failed, High))))"

text \<open>The decoded state has the policies under their repositories; any other document is not one.\<close>

definition DigestRecordedInState :: "faults \<Rightarrow> step_fun" where
  "DigestRecordedInState flt = with_context (\<lambda>c s.
    (case fs_ReadFile flt (fp_join (step_dataDir (bcHomeDir c)) [StateFileName]) s of
       Doc (StateDoc st) \<Rightarrow>
         (case GetPolicyState st (bcPolicyID c) of
            None \<Rightarrow> (s, Failed, High)
          | Some ps \<Rightarrow> if \<not> HasPrefix (psDigest ps) ''sha256:'' then (s, Failed, High) else (s, Passed, High))
     | _ \<Rightarrow> (s, Failed, High)))"

definition OCILayoutExists :: "faults \<Rightarrow> step_fun" where
  "OCILayoutExists flt = with_context (\<lambda>c s.
    (let storePath = fp_join (step_cacheDir (bcHomeDir c)) [''policies'', bcPolicyID c] in
     if \<not> fs_exists flt storePath s then (s, Failed, High)
     else if \<not> fs_exists flt (fp_join storePath [oci_layout_file]) s then (s, Failed, High)
     else (s, Passed, High)))"

definition UnsetEnvVarFails :: "steps_ext \<Rightarrow> faults \<Rightarrow> step_fun" where
  "UnsetEnvVarFails x flt = with_context (\<lambda>c.
    write_config_then flt c (var_config ''e2e-target'' ''secret_token: ${COMPLYTIME_E2E_NONEXISTENT_VAR}'' c) (\<lambda>s.
      case RunBinary x c [''get''] s of
        (s1, output, True) \<Rightarrow> (s1, Failed, High)
      | (s1, output, False) \<Rightarrow>
          if Contains output ''COMPLYTIME_E2E_NONEXISTENT_VAR'' then (s1, Passed, High) else (s1, Failed, High)))"

definition EnvVarResolution :: "steps_ext \<Rightarrow> faults \<Rightarrow> step_fun" where
  "EnvVarResolution x flt = with_context (\<lambda>c.
    write_config_then flt c (var_config ''e2e-target'' ''env: ${COMPLYTIME_E2E_TEST_ENV}'' c) (\<lambda>s.
      case RunBinary x (c\<lparr>bcEnv := bcEnv c @ [''COMPLYTIME_E2E_TEST_ENV=staging'']\<rparr>) [''get''] s of
        (s1, output, False) \<Rightarrow> (s1, Failed, High)
      | (s1, output, True) \<Rightarrow>
          if Contains output ''Synchronization completed.'' then (s1, Passed, High) else (s1, Failed, High)))"

definition MatchedEvaluatorRouting :: "steps_ext \<Rightarrow> step_fun" where
  "MatchedEvaluatorRouting x = with_context (\<lambda>c s.
    (case RunBinary x c [''generate'', ''--policy-id'', bcPolicyID c] s of
       (s1, output, False) \<Rightarrow> (s1, Failed, High)
     | (s1, output, True) \<Rightarrow> if Contains output ''Generation completed.'' then (s1, Passed, High) else (s1, Failed, High)))"

definition test_provider_path :: "BehavioralContext \<Rightarrow> string \<Rightarrow> path" where
  "test_provider_path c name = fp_join (fp_join (step_dataDir (bcHomeDir c)) [''providers'']) [name]"

definition EvaluatorMismatchRejected :: "steps_ext \<Rightarrow> faults \<Rightarrow> step_fun" where
  "EvaluatorMismatchRejected x flt = with_context (\<lambda>c s.
    (case fs_Rename flt (test_provider_path c ''complyctl-provider-test'') (test_provider_path c ''complyctl-provider-other'') s of
       (s1, False) \<Rightarrow> (s1, Unknown, Undetermined)
     | (s1, True) \<Rightarrow>
        (case RunBinary x c [''generate'', ''--policy-id'', bcPolicyID c] s1 of
           (s2, output, True) \<Rightarrow> (s2, Failed, High)
         | (s2, output, False) \<Rightarrow>
            if Contains output ''no provider registered for evaluator'' then (s2, Passed, High) else (s2, Failed, High))))"

text \<open>The last byte inverted.\<close>

definition tamper :: "string \<Rightarrow> string" where
  "tamper data = (if data = [] then [] else butlast data @ [char_of (255 - of_char (last data) :: nat)])"

definition PluginBinaryIntegrityCheck :: "steps_ext \<Rightarrow> faults \<Rightarrow> step_fun" where
  "PluginBinaryIntegrityCheck x flt = with_context (\<lambda>c s.
    (let providerPath = test_provider_path c ''complyctl-provider-test'' in
     case fs_ReadFile flt providerPath s of
       Doc d \<Rightarrow>
         (case fs_WriteFile flt providerPath (Raw (tamper (bxText x d))) s of
            (s1, False) \<Rightarrow> (s1, Unknown, Undetermined)
          | (s1, True) \<Rightarrow>
             (case RunBinary x c [''generate'', ''--policy-id'', bcPolicyID c] s1 of
                (s2, output, ok) \<Rightarrow> if \<not> ok \<and> Contains output ''integrity'' then (s2, Passed, High) else (s2, Failed, High)))
     | _ \<Rightarrow> (s, Unknown, Undetermined)))"

definition PluginSubprocessIsolation :: step_fun where
  "PluginSubprocessIsolation = with_context (\<lambda>c s. (s, Failed, High))"

definition HTTPSchemeRejected :: "steps_ext \<Rightarrow> faults \<Rightarrow> step_fun" where
  "HTTPSchemeRejected x flt = with_context (\<lambda>c.
    write_config_then flt c (yaml_lines (policy_lines ''http://evil.example.com/policies'' c)) (\<lambda>s.
      case RunBinary x c [''get''] s of
        (s1, output, True) \<Rightarrow> (s1, Failed, High)
      | (s1, output, False) \<Rightarrow>
          if Contains output ''http://'' \<or> Contains output ''insecure'' then (s1, Passed, High) else (s1, Failed, High)))"

definition HTTPSSchemeNoPlainHTTP :: "steps_ext \<Rightarrow> faults \<Rightarrow> step_fun" where
  "HTTPSSchemeNoPlainHTTP x flt = with_context (\<lambda>c.
    write_config_then flt c (yaml_lines (policy_lines ''https://registry.example.com'' c @ target_lines ''test-target'' c)) (\<lambda>s.
      case RunBinary x c [''get''] s of
        (s1, output, _) \<Rightarrow>
          if Contains output ''plainHTTP'' \<or> Contains output ''plain HTTP'' then (s1, Failed, High) else (s1, Passed, High)))"

text \<open>This step leaves the credential in the environment of the context.\<close>

definition LogCredentialRedaction :: "steps_ext \<Rightarrow> faults \<Rightarrow> step_fun" where
  "LogCredentialRedaction x flt p s = (case verifyContext p of
     None \<Rightarrow> (p, s, Unknown, Undetermined)
   | Some c0 \<Rightarrow>
      (let secretValue = ''SUPER_SECRET_TOKEN_12345'';
           c = c0\<lparr>bcEnv := bcEnv c0 @ [''TEST_CREDENTIAL='' @ secretValue]\<rparr>;
           (s', r, conf) = write_config_then flt c (var_config ''log-test-target'' ''auth_token: ${TEST_CREDENTIAL}'' c) (\<lambda>s.
             let s1 = fst (RunBinary x c [''get''] s);
                 s2 = fst (RunBinary x c [''generate'', ''--policy-id'', bcPolicyID c] s1) in
             case fs_ReadFile flt (fp_join (bcWorkDir c) [WorkspaceDir, LogFileName]) s2 of
               Doc d \<Rightarrow> if Contains (bxText x d) secretValue then (s2, Failed, High) else (s2, Passed, High)
             | _ \<Rightarrow> (s2, Unknown, Undetermined)) s in
       (Ctx c, s', r, conf)))"

definition findFile :: "faults \<Rightarrow> path \<Rightarrow> string \<Rightarrow> string \<Rightarrow> fs \<Rightarrow> path option" where
  "findFile flt dir pre suf s = (case fs_ReadDir flt dir s of
     Entries es \<Rightarrow> map_option (\<lambda>(name, _). fp_join dir [name]) (List.find (\<lambda>(name, _). HasPrefix name pre \<and> HasSuffix name suf) es)
   | _ \<Rightarrow> None)"

definition step_outDir :: "BehavioralContext \<Rightarrow> path" where
  "step_outDir c = fp_join (bcWorkDir c) [WorkspaceDir, ''scan'']"

definition EvaluationLogProduced :: "steps_ext \<Rightarrow> faults \<Rightarrow> step_fun" where
  "EvaluationLogProduced x flt = with_context (\<lambda>c s.
    (case RunBinary x c [''scan'', ''--policy-id'', bcPolicyID c] s of
       (s1, output, False) \<Rightarrow> (s1, Failed, High)
     | (s1, output, True) \<Rightarrow>
        (case findFile flt (step_outDir c) ''evaluation-log-'' ''.yaml'' s1 of
           None \<Rightarrow> (s1, Failed, High)
         | Some evalLog \<Rightarrow>
            (case fs_ReadFile flt evalLog s1 of
               Doc d \<Rightarrow> if bxText x d = [] then (s1, Failed, High) else (s1, Passed, High)
             | _ \<Rightarrow> (s1, Failed, High)))))"

definition OSCALResultProduced :: "steps_ext \<Rightarrow> faults \<Rightarrow> step_fun" where
  "OSCALResultProduced x flt = with_context (\<lambda>c s.
    (case RunBinary x c [''scan'', ''--policy-id'', bcPolicyID c, ''--format'', ''oscal''] s of
       (s1, output, False) \<Rightarrow> (s1, Failed, High)
     | (s1, output, True) \<Rightarrow>
        (case findFile flt (step_outDir c) ''assessment-results-'' ''.json'' s1 of
           None \<Rightarrow> (s1, Failed, High)
         | Some oscalFile \<Rightarrow>
            (case fs_ReadFile flt oscalFile s1 of
               Doc d \<Rightarrow>
                 if Contains (bxText x d) ''assessment-results'' \<or> Contains (bxText x d) ''results'' then (s1, Passed, High)
                 else (s1, Failed, High)
             | _ \<Rightarrow> (s1, Failed, High)))))"

section \<open>Plans\<close>

definition Plans :: "steps_ext \<Rightarrow> faults \<Rightarrow> (string, step_fun list) gomap" where
  "Plans x flt =
    [(''CT.COMPLYCTL.CTRL01.AR01'', [WriteConfig flt, SyncPolicy_step x, SignatureVerified x flt]),
     (''CT.COMPLYCTL.CTRL02.AR01'', [WriteConfig flt, SyncPolicy_step x, DigestRecordedInState flt]),
     (''CT.COMPLYCTL.CTRL02.AR02'', [WriteConfig flt, SyncPolicy_step x, OCILayoutExists flt]),
     (''CT.COMPLYCTL.CTRL03.AR01'', [UnsetEnvVarFails x flt]),
     (''CT.COMPLYCTL.CTRL03.AR02'', [EnvVarResolution x flt]),
     (''CT.COMPLYCTL.CTRL04.AR01'', [WriteConfig flt, InstallTestPlugin flt, SyncPolicy_step x, MatchedEvaluatorRouting x]),
     (''CT.COMPLYCTL.CTRL04.AR02'', [WriteConfig flt, InstallTestPlugin flt, SyncPolicy_step x, EvaluatorMismatchRejected x flt]),
     (''CT.COMPLYCTL.CTRL05.AR01'', [HTTPSchemeRejected x flt]),
     (''CT.COMPLYCTL.CTRL05.AR02'', [HTTPSSchemeNoPlainHTTP x flt]),
     (''CT.COMPLYCTL.CTRL07.AR01'', [WriteConfig flt, InstallTestPlugin flt, SyncPolicy_step x, PluginBinaryIntegrityCheck x flt]),
     (''CT.COMPLYCTL.CTRL08.AR01'', [WriteConfig flt, InstallTestPlugin flt, PluginSubprocessIsolation]),
     (''CT.COMPLYCTL.CTRL09.AR01'', [LogCredentialRedaction x flt]),
     (''CT.COMPLYCTL.CTRL06.AR01'', [WriteConfig flt, InstallTestPlugin flt, SyncPolicy_step x, EvaluationLogProduced x flt]),
     (''CT.COMPLYCTL.CTRL06.AR02'', [WriteConfig flt, InstallTestPlugin flt, SyncPolicy_step x, OSCALResultProduced x flt])]"

text \<open>\<^verbatim>\<open>AssessmentLog.Run\<close> of the vendored library, for a log that passes its own check: the steps in order, until one fails or does not apply.\<close>

fun run_steps :: "step_fun list \<Rightarrow> payload \<Rightarrow> fs \<Rightarrow> result \<Rightarrow> payload \<times> fs \<times> result" where
  "run_steps [] p s acc = (p, s, acc)"
| "run_steps (step # steps) p s acc =
    (let (p1, s1, r, conf) = step p s; acc1 = UpdateAggregateResult acc r in
     if r = Failed then (p1, s1, acc1)
     else if r = NotApplicable then (p1, s1, NotApplicable)
     else run_steps steps p1 s1 acc1)"

definition AssessmentLog_Run :: "step_fun list \<Rightarrow> payload \<Rightarrow> fs \<Rightarrow> payload \<times> fs \<times> result" where
  "AssessmentLog_Run steps p s = (if steps = [] then (p, s, Unknown) else run_steps steps p s NotRun)"

section \<open>What a verdict means\<close>

text \<open>The results of all steps, were none to end the plan.\<close>

fun step_results :: "step_fun list \<Rightarrow> payload \<Rightarrow> fs \<Rightarrow> result list" where
  "step_results [] p s = []"
| "step_results (step # steps) p s = (let (p1, s1, r, conf) = step p s in r # step_results steps p1 s1)"

lemma run_steps_passed:
  "acc \<noteq> NotApplicable \<Longrightarrow> snd (snd (run_steps steps p s acc)) = Passed \<longleftrightarrow>
    set (step_results steps p s) \<subseteq> {NotRun, Passed} \<and> (acc = Passed \<or> acc = NotRun \<and> Passed \<in> set (step_results steps p s))"
proof (induction steps arbitrary: p s acc)
  case (Cons step steps)
  obtain p1 s1 r conf where r: "step p s = (p1, s1, r, conf)" by (rule prod_cases4)
  show ?case
  proof (cases "r \<in> {Failed, NotApplicable}")
    case False
    then have "UpdateAggregateResult acc r \<noteq> NotApplicable"
      using Cons.prems by (cases acc; cases r) (simp_all add: UpdateAggregateResult_def)
    from Cons.IH[OF this] r False Cons.prems show ?thesis
      by (cases acc; cases r) (auto simp: UpdateAggregateResult_def Let_def)
  qed (use r in \<open>auto simp: UpdateAggregateResult_def Let_def\<close>)
qed auto

text \<open>A plan reports Passed exactly when some step passed and every other passed or did not run.\<close>

lemma plan_passed_iff:
  "snd (snd (AssessmentLog_Run steps p s)) = Passed \<longleftrightarrow>
    Passed \<in> set (step_results steps p s) \<and> set (step_results steps p s) \<subseteq> {NotRun, Passed}"
  using run_steps_passed[of NotRun steps p s] by (auto simp: AssessmentLog_Run_def)

text \<open>When no step fails or does not apply, the plan goes through all of them.\<close>

fun steps_end :: "step_fun list \<Rightarrow> payload \<Rightarrow> fs \<Rightarrow> fs" where
  "steps_end [] p s = s"
| "steps_end (step # steps) p s = (let (p1, s1, r, conf) = step p s in steps_end steps p1 s1)"

lemma run_steps_end:
  "set (step_results steps p s) \<subseteq> {NotRun, Passed} \<Longrightarrow> fst (snd (run_steps steps p s acc)) = steps_end steps p s"
proof (induction steps arbitrary: p s acc)
  case (Cons step steps)
  obtain p1 s1 r conf where r: "step p s = (p1, s1, r, conf)" by (rule prod_cases4)
  then have "set (step_results steps p1 s1) \<subseteq> {NotRun, Passed}" "r = NotRun \<or> r = Passed" using Cons.prems by simp_all
  with Cons.IH[OF this(1)] r show ?case by auto
qed simp

lemma digest_step:
  assumes "DigestRecordedInState flt (Ctx c) s = (p, s', r, k)" "r \<in> {NotRun, Passed}"
  shows "s' = s \<and> (\<exists>st ps. go_get s (fp_join (step_dataDir (bcHomeDir c)) [StateFileName]) = Some (File (StateDoc st)) \<and>
    GetPolicyState st (bcPolicyID c) = Some ps \<and> HasPrefix (psDigest ps) ''sha256:'')"
proof (cases "fs_ReadFile flt (fp_join (step_dataDir (bcHomeDir c)) [StateFileName]) s")
  case (Doc d)
  then have g: "go_get s (fp_join (step_dataDir (bcHomeDir c)) [StateFileName]) = Some (File d)"
    by (simp add: fs_ReadFile_def split: if_splits option.splits node.splits)
  show ?thesis
  proof (cases d)
    case (StateDoc st)
    then show ?thesis using assms Doc g
      by (cases "GetPolicyState st (bcPolicyID c)"; cases "HasPrefix (psDigest (the (GetPolicyState st (bcPolicyID c)))) ''sha256:''")
         (auto simp: DigestRecordedInState_def with_context_def verifyContext_def)
  qed (use assms Doc in \<open>auto simp: DigestRecordedInState_def with_context_def verifyContext_def\<close>)
qed (use assms in \<open>auto simp: DigestRecordedInState_def with_context_def verifyContext_def\<close>)

text \<open>The verdict on the recorded digest is sound: Passed means that the state holds a SHA-256 digest of the policy.\<close>

lemma digest_plan_sound:
  assumes "AssessmentLog_Run [WriteConfig flt, SyncPolicy_step x, DigestRecordedInState flt] (Ctx c) s = (p', s', Passed)"
  shows "\<exists>st ps. go_get s' (fp_join (step_dataDir (bcHomeDir c)) [StateFileName]) = Some (File (StateDoc st)) \<and>
    GetPolicyState st (bcPolicyID c) = Some ps \<and> HasPrefix (psDigest ps) ''sha256:''"
proof -
  let ?steps = "[WriteConfig flt, SyncPolicy_step x, DigestRecordedInState flt]"
  have r: "set (step_results ?steps (Ctx c) s) \<subseteq> {NotRun, Passed}"
    using plan_passed_iff[of ?steps "Ctx c" s] unfolding assms fst_conv snd_conv by blast
  have ctx: "\<exists>s1 r k. with_context f (Ctx c) u = (Ctx c, s1, r, k)" for f u
    by (cases "f c u") (simp add: with_context_def verifyContext_def)
  obtain s1 r1 k1 where 1: "WriteConfig flt (Ctx c) s = (Ctx c, s1, r1, k1)" unfolding WriteConfig_def using ctx by blast
  obtain s2 r2 k2 where 2: "SyncPolicy_step x (Ctx c) s1 = (Ctx c, s2, r2, k2)" unfolding SyncPolicy_step_def using ctx by blast
  obtain s3 r3 k3 where 3: "DigestRecordedInState flt (Ctx c) s2 = (Ctx c, s3, r3, k3)" unfolding DigestRecordedInState_def using ctx by blast
  have "run_steps ?steps (Ctx c) s NotRun = (p', s', Passed)" using assms by (simp only: AssessmentLog_Run_def list.simps if_False)
  then have "s' = steps_end ?steps (Ctx c) s" using run_steps_end[OF r, of NotRun] by (simp only: fst_conv snd_conv)
  then have "s' = s3" by (simp only: steps_end.simps 1 2 3 Let_def prod.case)
  moreover have "r3 \<in> {NotRun, Passed}" using r by (simp only: step_results.simps 1 2 3 Let_def prod.case) simp
  ultimately show ?thesis using digest_step[OF 3] by simp
qed

section \<open>Verdicts that do not say what they should\<close>

text \<open>
  The requirement CTRL05.AR01 asks that an \<^verbatim>\<open>http://\<close> URL enables plain HTTP; the program does so, and its step
  \<^verbatim>\<open>HTTPSchemeRejected\<close> fails whenever such a get succeeds and passes whenever it fails for any reason with
  the URL in its output.
\<close>

definition http_context :: BehavioralContext where
  "http_context = \<lparr>bcBinary = ''/b'', bcTestProviderBinary = [], bcHomeDir = [''h''], bcWorkDir = [''w''], bcEnv = [],
     bcPolicyID = ''nist'', bcRegistryURL = []\<rparr>"

lemma http_url_enables_plain_http:
  "case ParsePolicyRef (''http://evil.example.com/policies/'' @ bcPolicyID http_context) of
     Inl _ \<Rightarrow> False | Inr ref \<Rightarrow> clPlainHTTP (NewClient (prRegistry ref))"
  by code_simp

lemma http_step_verdict:
  assumes "ensureConfigPath no_faults [''w''] s = (s1, Some q)" "fs_WriteFile no_faults q
      (Raw (yaml_lines (policy_lines ''http://evil.example.com/policies'' http_context))) s1 = (s2, True)"
  shows "snd (snd (AssessmentLog_Run [HTTPSchemeRejected \<lparr>bxRun = \<lambda>_ _ _ _ s. (s, output, ok), bxText = t\<rparr> no_faults] (Ctx http_context) s)) =
    (if \<not> ok \<and> (Contains output ''http://'' \<or> Contains output ''insecure'') then Passed else Failed)"
  using assms
  by (cases ok) (simp_all add: AssessmentLog_Run_def HTTPSchemeRejected_def with_context_def verifyContext_def write_config_then_def http_context_def
      RunBinary_def UpdateAggregateResult_def)

text \<open>The step of CTRL05.AR02 passes for every output without these words, also when the get fails before any connection is made.\<close>

lemma https_step_verdict:
  assumes "ensureConfigPath no_faults [''w''] s = (s1, Some q)" "fs_WriteFile no_faults q
      (Raw (yaml_lines (policy_lines ''https://registry.example.com'' http_context @ target_lines ''test-target'' http_context))) s1 = (s2, True)"
    and "\<not> Contains output ''plainHTTP''" "\<not> Contains output ''plain HTTP''"
  shows "snd (snd (AssessmentLog_Run [HTTPSSchemeNoPlainHTTP \<lparr>bxRun = \<lambda>_ _ _ _ s. (s, output, ok), bxText = t\<rparr> no_faults] (Ctx http_context) s)) = Passed"
  using assms
  by (simp add: AssessmentLog_Run_def HTTPSSchemeNoPlainHTTP_def with_context_def verifyContext_def write_config_then_def http_context_def
      RunBinary_def UpdateAggregateResult_def)

end
