(* ===== verification/Flags.thy ===== *)
theory Flags
  imports Scan
begin

text \<open>
  Flags of the command line: the values of a flag, how the vendored flag library parses them and the
  argument list (\<^verbatim>\<open>vendor/github.com/spf13/pflag\<close>), with what it uses of the standard library. The text of
  an error is left out. Rounding of the fraction of a duration is floating point and a parameter.
\<close>

section \<open>Values\<close>

text \<open>\<^verbatim>\<open>csv.Reader.Read\<close> on one record: line ends are normalised, empty lines skipped.\<close>

definition cr :: char where "cr = CHR 0x0D"

fun csv_normal :: "string \<Rightarrow> string" where
  "csv_normal [] = []"
| "csv_normal (c # s) = (if c = cr \<and> (case s of [] \<Rightarrow> True | d # _ \<Rightarrow> d = nl) then csv_normal s else c # csv_normal s)"

datatype csv_mode = FieldStart | Plain | Quoted | QuoteInQuoted

fun csv_run :: "csv_mode \<Rightarrow> string \<Rightarrow> string \<Rightarrow> string list option" where
  "csv_run m f [] = (if m = Quoted then None else Some [f])"
| "csv_run m f (c # s) =
    (if m = Quoted then (if c = CHR 0x22 then csv_run QuoteInQuoted f s else csv_run Quoted (f @ [c]) s)
     else if c = CHR '','' then map_option ((#) f) (csv_run FieldStart [] s)
     else if c = nl then Some [f]
     else if m = QuoteInQuoted then (if c = CHR 0x22 then csv_run Quoted (f @ [c]) s else None)
     else if c = CHR 0x22 then (if m = FieldStart then csv_run Quoted f s else None)
     else csv_run Plain (f @ [c]) s)"

definition readAsCSV :: "string \<Rightarrow> string list option" where
  "readAsCSV val =
    (if val = [] then Some []
     else let s = dropWhile (\<lambda>c. c = nl) (csv_normal val) in if s = [] then None else csv_run FieldStart [] s)"

text \<open>\<^verbatim>\<open>time.ParseDuration\<close>, in nanoseconds; \<^verbatim>\<open>frac f scale unit\<close> is the rounded product of the fraction.\<close>

fun leadingInt :: "int \<Rightarrow> string \<Rightarrow> (int \<times> string) option" where
  "leadingInt x [] = Some (x, [])"
| "leadingInt x (c # s) =
    (if \<not> is_digit c then Some (x, c # s)
     else if x > 922337203685477580 then None
     else let y = x * 10 + int (digit_val c) in if y > 9223372036854775808 then None else leadingInt y s)"

fun leadingFraction :: "int \<Rightarrow> int \<Rightarrow> bool \<Rightarrow> string \<Rightarrow> int \<times> int \<times> string" where
  "leadingFraction x scale overflow [] = (x, scale, [])"
| "leadingFraction x scale overflow (c # s) =
    (if \<not> is_digit c then (x, scale, c # s)
     else if overflow \<or> x > 922337203685477580 then leadingFraction x scale True s
     else let y = x * 10 + int (digit_val c) in
       if y > 9223372036854775808 then leadingFraction x scale True s else leadingFraction y (scale * 10) False s)"

definition unitMap :: "(string, int) gomap" where
  "unitMap = [(''ns'', 1), (''us'', 1000), ([CHR 0xC2, CHR 0xB5, CHR ''s''], 1000), ([CHR 0xCE, CHR 0xBC, CHR ''s''], 1000),
     (''ms'', 1000000), (''s'', 1000000000), (''m'', 60000000000), (''h'', 3600000000000)]"

type_synonym fraction = "int \<Rightarrow> int \<Rightarrow> int \<Rightarrow> int"

text \<open>The fraction behind a point, if there is one, and whether it has digits.\<close>

definition fraction_part :: "string \<Rightarrow> int \<times> int \<times> string \<times> bool" where
  "fraction_part s =
    (case s of
       c # s1 \<Rightarrow>
         if c = CHR ''.'' then (let (f, scale, s2) = leadingFraction 0 1 False s1 in (f, scale, s2, length s2 \<noteq> length s1))
         else (0, 1, s, False)
     | [] \<Rightarrow> (0, 1, s, False))"

text \<open>One number with its unit: the nanoseconds and the rest.\<close>

definition duration_unit :: "string \<Rightarrow> string" where
  "duration_unit s = takeWhile (\<lambda>c. \<not> (c = CHR ''.'' \<or> is_digit c)) s"

definition duration_part :: "fraction \<Rightarrow> string \<Rightarrow> (int \<times> string) option" where
  "duration_part frac s =
    (if s = [] \<or> \<not> (hd s = CHR ''.'' \<or> is_digit (hd s)) then None
     else case leadingInt 0 s of None \<Rightarrow> None | Some (v, s1) \<Rightarrow>
       (let pre = (length s1 \<noteq> length s); (f, scale, s2, post) = fraction_part s1; u = duration_unit s2 in
        if (\<not> pre \<and> \<not> post) \<or> u = [] then None
        else case go_get unitMap u of None \<Rightarrow> None | Some unit \<Rightarrow>
          if v > 9223372036854775808 div unit then None
          else let w = v * unit + (if f > 0 then frac f scale unit else 0) in
            if f > 0 \<and> w > 9223372036854775808 then None else Some (w, drop (length u) s2)))"

lemma leadingInt_length: "leadingInt x s = Some (v, r) \<Longrightarrow> length r \<le> length s"
proof (induction x s rule: leadingInt.induct)
  case (2 x c s)
  then show ?case by (auto simp: Let_def split: if_splits intro: le_SucI)
qed simp

lemma leadingFraction_length: "leadingFraction x sc b s = (v, sc', r) \<Longrightarrow> length r \<le> length s"
proof (induction x sc b s rule: leadingFraction.induct)
  case (2 x sc b c s)
  then show ?case by (auto simp: Let_def split: if_splits intro: le_SucI)
qed simp

lemma fraction_part_length: "fraction_part s = (f, scale, r, post) \<Longrightarrow> length r \<le> length s"
  by (cases s) (auto simp: fraction_part_def dest!: leadingFraction_length split: if_splits prod.splits)

lemma duration_part_shrinks:
  assumes "duration_part frac s = Some (w, r)"
  shows "length r < length s"
proof -
  obtain v s1 where s: "leadingInt 0 s = Some (v, s1)"
    using assms by (cases "leadingInt 0 s") (auto simp: duration_part_def split: if_splits)
  obtain f scale s2 post where p: "fraction_part s1 = (f, scale, s2, post)" by (metis prod_cases4)
  have "r = drop (length (duration_unit s2)) s2" "duration_unit s2 \<noteq> []"
    using assms by (auto simp: duration_part_def s p Let_def split: if_splits option.splits)
  then have "length r < length s2" by (cases s2) (auto simp: duration_unit_def)
  then show ?thesis using leadingInt_length[OF s] fraction_part_length[OF p] by simp
qed

function duration_sum :: "fraction \<Rightarrow> int \<Rightarrow> string \<Rightarrow> int option" where
  "duration_sum frac d s =
    (if s = [] then Some d
     else case duration_part frac s of
       None \<Rightarrow> None
     | Some (v, r) \<Rightarrow> if d + v > 9223372036854775808 then None else duration_sum frac (d + v) r)"
  by pat_completeness auto
termination by (relation "measure (\<lambda>(_, _, s). length s)") (auto dest: duration_part_shrinks)

declare duration_sum.simps [simp del]

definition ParseDuration :: "fraction \<Rightarrow> string \<Rightarrow> int option" where
  "ParseDuration frac orig =
    (let signed = orig \<noteq> [] \<and> (hd orig = CHR ''-'' \<or> hd orig = CHR ''+'');
         neg = (signed \<and> hd orig = CHR ''-'');
         s = (if signed then tl orig else orig) in
     if s = ''0'' then Some 0
     else if s = [] then None
     else case duration_sum frac 0 s of
       None \<Rightarrow> None
     | Some d \<Rightarrow> if neg then Some (- d) else if d > 9223372036854775807 then None else Some d)"

section \<open>Flags\<close>

datatype flag_kind = KBool | KString | KStringSlice | KDuration

datatype flag_val = VBool bool | VString string | VSlice "string list" | VDuration int

text \<open>A declared flag; only a boolean flag may be given without a value. \<^verbatim>\<open>fdComplete\<close> is the list registered for completion.\<close>

record flag_decl =
  fdName :: string
  fdShort :: string
  fdKind :: flag_kind
  fdDefault :: flag_val
  fdComplete :: "string list option"

datatype flag_err =
    BadSyntax string
  | UnknownFlag string
  | UnknownShorthand char string
  | NeedsArgument string
  | InvalidValue string string
  | HelpUndefined

definition no_opt_val :: "flag_decl \<Rightarrow> bool" where "no_opt_val d \<longleftrightarrow> fdKind d = KBool"

definition flag_Lookup :: "flag_decl list \<Rightarrow> string \<Rightarrow> flag_decl option" where
  "flag_Lookup fs name = find (\<lambda>d. fdName d = name) fs"

definition ShorthandLookup :: "flag_decl list \<Rightarrow> char \<Rightarrow> flag_decl option" where
  "ShorthandLookup fs c = find (\<lambda>d. fdShort d = [c]) fs"

text \<open>\<^verbatim>\<open>AddFlagSet\<close>: a flag that is already there is ignored.\<close>

definition AddFlagSet :: "flag_decl list \<Rightarrow> flag_decl list \<Rightarrow> flag_decl list" where
  "AddFlagSet new fs = fs @ filter (\<lambda>d. flag_Lookup fs (fdName d) = None) new"

text \<open>The flags that were set, and the arguments that are no flags.\<close>

record parsed =
  paVals :: "(string, flag_val) gomap"
  paArgs :: "string list"

text \<open>\<^verbatim>\<open>Value.Set\<close>: a slice is replaced the first time and extended from then on.\<close>

fun parse_value :: "fraction \<Rightarrow> flag_kind \<Rightarrow> flag_val option \<Rightarrow> string \<Rightarrow> flag_val option" where
  "parse_value frac KBool old v = map_option VBool (ParseBool v)"
| "parse_value frac KString old v = Some (VString v)"
| "parse_value frac KStringSlice old v =
    map_option (\<lambda>vs. VSlice ((case old of Some (VSlice us) \<Rightarrow> us | _ \<Rightarrow> []) @ vs)) (readAsCSV v)"
| "parse_value frac KDuration old v = map_option VDuration (ParseDuration frac v)"

definition flag_Set :: "fraction \<Rightarrow> flag_decl \<Rightarrow> string \<Rightarrow> parsed \<Rightarrow> flag_err + parsed" where
  "flag_Set frac d v p =
    (case parse_value frac (fdKind d) (go_get (paVals p) (fdName d)) v of
       None \<Rightarrow> Inl (InvalidValue (fdName d) v)
     | Some x \<Rightarrow> Inr (p\<lparr>paVals := go_put (fdName d) x (paVals p)\<rparr>))"

section \<open>The argument list\<close>

definition flag_then :: "string list \<Rightarrow> flag_err + parsed \<Rightarrow> flag_err + string list \<times> parsed" where
  "flag_then a r = (case r of Inl e \<Rightarrow> Inl e | Inr p \<Rightarrow> Inr (a, p))"

definition parseLongArg :: "fraction \<Rightarrow> flag_decl list \<Rightarrow> string \<Rightarrow> string list \<Rightarrow> parsed \<Rightarrow> flag_err + string list \<times> parsed" where
  "parseLongArg frac fs s a p =
    (let name0 = drop 2 s in
     if name0 = [] \<or> hd name0 = CHR ''-'' \<or> hd name0 = CHR ''='' then Inl (BadSyntax s)
     else let (name, val) = (case cut_first (CHR ''='') name0 of None \<Rightarrow> (name0, None) | Some (n, v) \<Rightarrow> (n, Some v)) in
     case flag_Lookup fs name of
       None \<Rightarrow> Inl (if name = ''help'' then HelpUndefined else UnknownFlag name)
     | Some d \<Rightarrow>
        (case val of
           Some v \<Rightarrow> flag_then a (flag_Set frac d v p)
         | None \<Rightarrow>
            if no_opt_val d then flag_then a (flag_Set frac d ''true'' p)
            else case a of
              v # a' \<Rightarrow> flag_then a' (flag_Set frac d v p)
            | [] \<Rightarrow> Inl (NeedsArgument name)))"

text \<open>\<^verbatim>\<open>parseShortArg\<close>: a series of letters, of which the last may take the rest or the next argument.\<close>

fun parseShortArg :: "fraction \<Rightarrow> flag_decl list \<Rightarrow> string \<Rightarrow> string list \<Rightarrow> parsed \<Rightarrow> flag_err + string list \<times> parsed" where
  "parseShortArg frac fs [] a p = Inr (a, p)"
| "parseShortArg frac fs (c # cs) a p =
    (if HasPrefix (c # cs) ''test.'' then Inr (a, p)
     else case ShorthandLookup fs c of
       None \<Rightarrow> Inl (if c = CHR ''h'' then HelpUndefined else UnknownShorthand c (c # cs))
     | Some d \<Rightarrow>
        if length cs > 1 \<and> hd cs = CHR ''='' then flag_then a (flag_Set frac d (tl cs) p)
        else if no_opt_val d then
          (case flag_Set frac d ''true'' p of Inl e \<Rightarrow> Inl e | Inr p' \<Rightarrow> parseShortArg frac fs cs a p')
        else if cs \<noteq> [] then flag_then a (flag_Set frac d cs p)
        else case a of
          v # a' \<Rightarrow> flag_then a' (flag_Set frac d v p)
        | [] \<Rightarrow> Inl (NeedsArgument [c]))"

definition is_flag_arg :: "string \<Rightarrow> bool" where
  "is_flag_arg s \<longleftrightarrow> \<not> (s = [] \<or> hd s \<noteq> CHR ''-'' \<or> length s = 1)"

lemma flag_then_rest: "flag_then a r = Inr (a', p) \<Longrightarrow> a' = a"
  by (auto simp: flag_then_def split: sum.splits)

lemma parseLongArg_length: "parseLongArg frac fs s a p = Inr (a', p') \<Longrightarrow> length a' \<le> length a"
  by (auto simp: parseLongArg_def Let_def dest!: flag_then_rest split: if_splits option.splits list.splits prod.splits)

lemma parseShortArg_length: "parseShortArg frac fs cs a p = Inr (a', p') \<Longrightarrow> length a' \<le> length a"
  by (induction frac fs cs a p rule: parseShortArg.induct)
    (auto dest!: flag_then_rest split: if_splits option.splits list.splits sum.splits)

function (sequential) parseArgs :: "fraction \<Rightarrow> flag_decl list \<Rightarrow> string list \<Rightarrow> parsed \<Rightarrow> flag_err + parsed" where
  "parseArgs frac fs [] p = Inr p"
| "parseArgs frac fs (s # args) p =
    (if \<not> is_flag_arg s then parseArgs frac fs args (p\<lparr>paArgs := paArgs p @ [s]\<rparr>)
     else if s = ''--'' then Inr (p\<lparr>paArgs := paArgs p @ args\<rparr>)
     else case (if s ! 1 = CHR ''-'' then parseLongArg frac fs s args p else parseShortArg frac fs (tl s) args p) of
       Inl e \<Rightarrow> Inl e
     | Inr (args', p') \<Rightarrow> parseArgs frac fs args' p')"
  by pat_completeness auto
termination
  by (relation "measure (\<lambda>(_, _, args, _). length args)")
    (auto split: if_splits dest: parseLongArg_length parseShortArg_length)

definition flag_Parse :: "fraction \<Rightarrow> flag_decl list \<Rightarrow> string list \<Rightarrow> flag_err + parsed" where
  "flag_Parse frac fs args = parseArgs frac fs args \<lparr>paVals = [], paArgs = []\<rparr>"


section \<open>Every spelling of a setting means the same\<close>

text \<open>
  The settings and arguments of a command line, what they mean in their order, and the ways to write
  each: \<^verbatim>\<open>--name=value\<close>, \<^verbatim>\<open>--name value\<close>, \<^verbatim>\<open>-c=value\<close>, \<^verbatim>\<open>-c value\<close>, \<^verbatim>\<open>-cvalue\<close>, and \<^verbatim>\<open>--name\<close> or \<^verbatim>\<open>-c\<close> for a
  boolean flag. The library takes an empty value after \<^verbatim>\<open>-c=\<close> for the sign itself, a joined value that
  begins with the sign for the rest, and anything that begins with \<^verbatim>\<open>-test.\<close> for a flag of the Go tests.
\<close>

datatype item = Positional string | Setting flag_decl string

fun apply_items :: "fraction \<Rightarrow> item list \<Rightarrow> parsed \<Rightarrow> flag_err + parsed" where
  "apply_items frac [] p = Inr p"
| "apply_items frac (Positional s # is) p = apply_items frac is (p\<lparr>paArgs := paArgs p @ [s]\<rparr>)"
| "apply_items frac (Setting d v # is) p = (case flag_Set frac d v p of Inl e \<Rightarrow> Inl e | Inr p' \<Rightarrow> apply_items frac is p')"

definition proper_name :: "string \<Rightarrow> bool" where
  "proper_name n \<longleftrightarrow> n \<noteq> [] \<and> hd n \<noteq> CHR ''-'' \<and> CHR ''='' \<notin> set n"

definition declared :: "flag_decl list \<Rightarrow> flag_decl \<Rightarrow> bool" where
  "declared fs d \<longleftrightarrow> flag_Lookup fs (fdName d) = Some d \<and> proper_name (fdName d) \<and>
     (case fdShort d of [c] \<Rightarrow> ShorthandLookup fs c = Some d \<and> c \<noteq> CHR ''-'' \<and> c \<noteq> CHR ''='' | _ \<Rightarrow> True)"

inductive spells :: "flag_decl list \<Rightarrow> item \<Rightarrow> string list \<Rightarrow> bool" for fs where
  positional: "\<not> is_flag_arg s \<Longrightarrow> spells fs (Positional s) [s]"
| long_eq: "declared fs d \<Longrightarrow> spells fs (Setting d v) [''--'' @ fdName d @ ''='' @ v]"
| long_sep: "declared fs d \<Longrightarrow> \<not> no_opt_val d \<Longrightarrow> spells fs (Setting d v) [''--'' @ fdName d, v]"
| long_bool: "declared fs d \<Longrightarrow> no_opt_val d \<Longrightarrow> spells fs (Setting d ''true'') [''--'' @ fdName d]"
| short_eq: "declared fs d \<Longrightarrow> fdShort d = [c] \<Longrightarrow> v \<noteq> [] \<Longrightarrow> spells fs (Setting d v) [''-'' @ [c] @ ''='' @ v]"
| short_sep: "declared fs d \<Longrightarrow> fdShort d = [c] \<Longrightarrow> \<not> no_opt_val d \<Longrightarrow> spells fs (Setting d v) [''-'' @ [c], v]"
| short_join: "declared fs d \<Longrightarrow> fdShort d = [c] \<Longrightarrow> \<not> no_opt_val d \<Longrightarrow> v \<noteq> [] \<Longrightarrow> hd v \<noteq> CHR ''='' \<Longrightarrow>
    \<not> HasPrefix (c # v) ''test.'' \<Longrightarrow> spells fs (Setting d v) [''-'' @ [c] @ v]"
| short_bool: "declared fs d \<Longrightarrow> fdShort d = [c] \<Longrightarrow> no_opt_val d \<Longrightarrow> spells fs (Setting d ''true'') [''-'' @ [c]]"

lemma parseLongArg_eq:
  assumes "declared fs d"
  shows "parseLongArg frac fs (''--'' @ fdName d @ ''='' @ v) a p = flag_then a (flag_Set frac d v p)"
proof -
  have "fdName d \<noteq> []" "hd (fdName d) \<noteq> CHR ''-''" "CHR ''='' \<notin> set (fdName d)" "hd (fdName d) \<noteq> CHR ''=''"
    using assms by (auto simp: declared_def proper_name_def dest: hd_in_set)
  then show ?thesis using assms
    by (simp add: parseLongArg_def Let_def declared_def)
qed

lemma parseLongArg_plain:
  assumes "declared fs d"
  shows "parseLongArg frac fs (''--'' @ fdName d) a p =
    (if no_opt_val d then flag_then a (flag_Set frac d ''true'' p)
     else case a of v # a' \<Rightarrow> flag_then a' (flag_Set frac d v p) | [] \<Rightarrow> Inl (NeedsArgument (fdName d)))"
proof -
  have "fdName d \<noteq> []" "hd (fdName d) \<noteq> CHR ''-''" "CHR ''='' \<notin> set (fdName d)" "hd (fdName d) \<noteq> CHR ''=''"
    using assms by (auto simp: declared_def proper_name_def dest: hd_in_set)
  moreover from this(3) have n: "cut_first (CHR ''='') (fdName d) = None" by simp
  ultimately show ?thesis using assms by (simp add: parseLongArg_def Let_def declared_def n)
qed

lemma parseArgs_flag:
  assumes "is_flag_arg s" "s \<noteq> ''--''" "(if s ! 1 = CHR ''-'' then parseLongArg frac fs s a p else parseShortArg frac fs (tl s) a p) = flag_then a' r"
  shows "parseArgs frac fs (s # a) p = (case r of Inl e \<Rightarrow> Inl e | Inr p' \<Rightarrow> parseArgs frac fs a' p')"
  using assms by (cases r) (simp_all add: flag_then_def)

lemma parseArgs_item:
  assumes "spells fs i toks"
  shows "parseArgs frac fs (toks @ tail) p = (case apply_items frac [i] p of Inl e \<Rightarrow> Inl e | Inr p' \<Rightarrow> parseArgs frac fs tail p')"
proof -
  have short: "ShorthandLookup fs c = Some d" "c \<noteq> CHR ''-''" if "declared fs d" "fdShort d = [c]" for d c
    using that by (auto simp: declared_def)
  have name: "fdName d \<noteq> []" if "declared fs d" for d using that by (auto simp: declared_def proper_name_def)
  have set: "(case apply_items frac [Setting d v] p of Inl e \<Rightarrow> Inl e | Inr p' \<Rightarrow> parseArgs frac fs tail p') =
      (case flag_Set frac d v p of Inl e \<Rightarrow> Inl e | Inr p' \<Rightarrow> parseArgs frac fs tail p')" for d v
    by (cases "flag_Set frac d v p") simp_all
  have go: "parseArgs frac fs (toks @ tail) p = (case apply_items frac [Setting d v] p of Inl e \<Rightarrow> Inl e | Inr p' \<Rightarrow> parseArgs frac fs tail p')"
    if "toks @ tail = s # a" "is_flag_arg s" "s \<noteq> ''--''"
      "(if s ! 1 = CHR ''-'' then parseLongArg frac fs s a p else parseShortArg frac fs (tl s) a p) = flag_then tail (flag_Set frac d v p)"
    for s a d v
    unfolding that(1) set by (rule parseArgs_flag[OF that(2-4)])
  show ?thesis using assms
  proof cases
    case (positional s)
    then show ?thesis by simp
  next
    case (long_eq d v)
    show ?thesis unfolding long_eq(1)
      by (rule go[of "''--'' @ fdName d @ ''='' @ v" tail]) (use long_eq(2) parseLongArg_eq[OF long_eq(3)] in \<open>simp_all add: is_flag_arg_def\<close>)
  next
    case (long_sep d v)
    show ?thesis unfolding long_sep(1)
      by (rule go[of "''--'' @ fdName d" "v # tail"])
        (use long_sep(2,4) parseLongArg_plain[OF long_sep(3)] name[OF long_sep(3)] in \<open>simp_all add: is_flag_arg_def\<close>)
  next
    case (long_bool d)
    show ?thesis unfolding long_bool(1)
      by (rule go[of "''--'' @ fdName d" tail])
        (use long_bool(2,4) parseLongArg_plain[OF long_bool(3)] name[OF long_bool(3)] in \<open>simp_all add: is_flag_arg_def\<close>)
  next
    case (short_eq d c v)
    show ?thesis unfolding short_eq(1)
      by (rule go[of "''-'' @ [c] @ ''='' @ v" tail])
        (use short_eq(2,5) short[OF short_eq(3,4)] in \<open>simp_all add: is_flag_arg_def\<close>)
  next
    case (short_sep d c v)
    show ?thesis unfolding short_sep(1)
      by (rule go[of "''-'' @ [c]" "v # tail"]) (use short_sep(2,5) short[OF short_sep(3,4)] in \<open>simp_all add: is_flag_arg_def\<close>)
  next
    case (short_join d c v)
    show ?thesis unfolding short_join(1)
      by (rule go[of "''-'' @ [c] @ v" tail])
        (use short_join(2,5-) short[OF short_join(3,4)] in \<open>auto simp: is_flag_arg_def\<close>)
  next
    case (short_bool d c)
    have "parseShortArg frac fs [c] tail p = flag_then tail (flag_Set frac d ''true'' p)"
      using short_bool(5) short[OF short_bool(3,4)] by (simp add: flag_then_def split: sum.split)
    then show ?thesis unfolding short_bool(1)
      by (intro go[of "''-'' @ [c]" tail]) (use short_bool(2) short[OF short_bool(3,4)] in \<open>simp_all add: is_flag_arg_def\<close>)
  qed
qed

lemma parseArgs_items:
  assumes "list_all2 (spells fs) is toks"
  shows "parseArgs frac fs (concat toks @ tail) p = (case apply_items frac is p of Inl e \<Rightarrow> Inl e | Inr p' \<Rightarrow> parseArgs frac fs tail p')"
  using assms
proof (induction arbitrary: p rule: list_all2_induct)
  case (Cons i "is" t toks)
  have a: "apply_items frac (i # is) p = (case apply_items frac [i] p of Inl e \<Rightarrow> Inl e | Inr p' \<Rightarrow> apply_items frac is p')"
    by (cases i) (auto split: sum.split)
  show ?case unfolding a using parseArgs_item[OF Cons.hyps(1), of frac "concat toks @ tail" p] Cons.IH
    by (auto split: sum.splits)
qed simp

lemma spells_mono: "spells fs i t \<Longrightarrow> (\<And>d. declared fs d \<Longrightarrow> declared gs d) \<Longrightarrow> spells gs i t"
proof (induction rule: spells.induct)
qed (blast intro: spells.intros)+

text \<open>What follows \<^verbatim>\<open>--\<close> are arguments.\<close>

lemma parseArgs_dashes: "parseArgs frac fs (''--'' # xs) p = Inr (p\<lparr>paArgs := paArgs p @ xs\<rparr>)"
  by (simp add: is_flag_arg_def)

lemma apply_positionals: "apply_items frac (map Positional xs) p = Inr (p\<lparr>paArgs := paArgs p @ xs\<rparr>)"
  by (induction xs arbitrary: p) simp_all

lemma apply_items_err: "apply_items frac is p = Inl e \<Longrightarrow> \<exists>n v. e = InvalidValue n v"
  by (induction frac "is" p rule: apply_items.induct) (auto simp: flag_Set_def split: sum.splits option.splits)

lemma apply_items_append:
  "apply_items frac (is @ js) p = (case apply_items frac is p of Inl e \<Rightarrow> Inl e | Inr p' \<Rightarrow> apply_items frac js p')"
  by (induction frac "is" p rule: apply_items.induct) (auto split: sum.split)

end
