(* ===== verification/Command_Line.thy ===== *)
theory Command_Line
  imports Flags Logging Commands Doctor_Report Get
begin

text \<open>
  The command line: how the vendored library finds and executes a command of a tree
  (\<^verbatim>\<open>vendor/github.com/spf13/cobra\<close>), the tree that \<^verbatim>\<open>cli.New\<close> builds (\<^verbatim>\<open>cmd/complyctl/cli\<close>), and the call of
  the command with what was parsed.
\<close>

section \<open>Finding and executing a command\<close>

text \<open>\<^verbatim>\<open>Args\<close> of a command; \<open>AnyArgs\<close> when it is not set.\<close>

datatype arg_policy = AnyArgs | NoArgs | MaximumNArgs nat | MinimumNArgs nat

record command_info =
  ciUse :: string
  ciAliases :: "string list"
  ciArgs :: arg_policy
  ciFlags :: "flag_decl list"
  ciPersistent :: "flag_decl list"
  ciRequired :: "string list"
  ciRunnable :: bool
  ciNoParse :: bool
  ciVersion :: bool

datatype command = Command (cmInfo: command_info) (cmCommands: "command list")

datatype cli_err =
    CFlag flag_err
  | CUnknownCommand string "string list"
  | CTooManyArgs nat nat
  | CTooFewArgs nat nat

definition command_Name :: "command \<Rightarrow> string" where
  "command_Name c = takeWhile (\<lambda>x. x \<noteq> CHR '' '') (ciUse (cmInfo c))"

text \<open>\<^verbatim>\<open>mergePersistentFlags\<close>: the flags of a command with its own persistent ones and those of its parents.\<close>

definition merged_flags :: "flag_decl list \<Rightarrow> command \<Rightarrow> flag_decl list" where
  "merged_flags inherited c = AddFlagSet inherited (AddFlagSet (ciPersistent (cmInfo c)) (ciFlags (cmInfo c)))"

definition hasNoOptDefVal :: "string \<Rightarrow> flag_decl list \<Rightarrow> bool" where
  "hasNoOptDefVal name fs = (case flag_Lookup fs name of None \<Rightarrow> False | Some d \<Rightarrow> no_opt_val d)"

definition shortHasNoOptDefVal :: "string \<Rightarrow> flag_decl list \<Rightarrow> bool" where
  "shortHasNoOptDefVal name fs =
    (case name of [] \<Rightarrow> False | c # _ \<Rightarrow> (case ShorthandLookup fs c of None \<Rightarrow> False | Some d \<Rightarrow> no_opt_val d))"

text \<open>The condition under which the next argument is taken for the value of a flag.\<close>

definition takes_next :: "flag_decl list \<Rightarrow> string \<Rightarrow> bool" where
  "takes_next fs s \<longleftrightarrow> CHR ''='' \<notin> set s \<and>
     ((HasPrefix s ''--'' \<and> \<not> hasNoOptDefVal (drop 2 s) fs) \<or>
      (HasPrefix s ''-'' \<and> length s = 2 \<and> \<not> shortHasNoOptDefVal (tl s) fs))"

fun stripFlags :: "flag_decl list \<Rightarrow> string list \<Rightarrow> string list" where
  "stripFlags fs [] = []"
| "stripFlags fs (s # args) =
    (if s = ''--'' then []
     else if takes_next fs s then (if length args \<le> 1 then [] else stripFlags fs (tl args))
     else if s \<noteq> [] \<and> \<not> HasPrefix s ''-'' then s # stripFlags fs args
     else stripFlags fs args)"

fun argsMinusFirstX :: "flag_decl list \<Rightarrow> string list \<Rightarrow> string \<Rightarrow> string list" where
  "argsMinusFirstX fs [] x = []"
| "argsMinusFirstX fs (s # args) x =
    (if s = ''--'' then s # args
     else if takes_next fs s then (case args of [] \<Rightarrow> [s] | v # rest \<Rightarrow> s # v # argsMinusFirstX fs rest x)
     else if \<not> HasPrefix s ''-'' \<and> s = x then args
     else s # argsMinusFirstX fs args x)"

definition findNext :: "command \<Rightarrow> string \<Rightarrow> command option" where
  "findNext c next = find (\<lambda>d. command_Name d = next \<or> next \<in> set (ciAliases (cmInfo d))) (cmCommands c)"

lemma findNext_size: "findNext c next = Some d \<Longrightarrow> size d < size c"
proof -
  assume "findNext c next = Some d"
  then have "d \<in> set (cmCommands c)" by (auto simp: findNext_def find_Some_iff)
  then have "size d \<le> size_list size (cmCommands c)" by (induction "cmCommands c" arbitrary: c) (auto simp: size_list_estimation')
  then show ?thesis by (cases c) simp
qed

text \<open>The command found, the flags it inherits, its path and the arguments without the names on the path.\<close>

type_synonym found = "command \<times> flag_decl list \<times> string list \<times> string list"

function innerfind :: "flag_decl list \<Rightarrow> string list \<Rightarrow> command \<Rightarrow> string list \<Rightarrow> found" where
  "innerfind inherited path c args =
    (let fs = merged_flags inherited c in
     case stripFlags fs args of
       [] \<Rightarrow> (c, inherited, path, args)
     | next # _ \<Rightarrow>
        (case findNext c next of
           None \<Rightarrow> (c, inherited, path, args)
         | Some d \<Rightarrow> innerfind (AddFlagSet (ciPersistent (cmInfo c)) inherited) (path @ [command_Name d]) d (argsMinusFirstX fs args next)))"
  by pat_completeness auto
termination by (relation "measure (\<lambda>(_, _, c, _). size c)") (auto dest: findNext_size)

declare innerfind.simps [simp del]

definition command_Find :: "command \<Rightarrow> string list \<Rightarrow> cli_err + found" where
  "command_Find root args =
    (let (c, inherited, path, a) = innerfind [] [command_Name root] root args;
         rest = stripFlags (merged_flags inherited c) a in
     if ciArgs (cmInfo c) = AnyArgs \<and> cmCommands c \<noteq> [] \<and> length path = 1 \<and> rest \<noteq> []
     then Inl (CUnknownCommand (hd rest) path)
     else Inr (c, inherited, path, a))"

fun ValidateArgs :: "arg_policy \<Rightarrow> string list \<Rightarrow> string list \<Rightarrow> cli_err option" where
  "ValidateArgs AnyArgs path args = None"
| "ValidateArgs NoArgs path args = (if args = [] then None else Some (CUnknownCommand (hd args) path))"
| "ValidateArgs (MaximumNArgs n) path args = (if length args > n then Some (CTooManyArgs n (length args)) else None)"
| "ValidateArgs (MinimumNArgs n) path args = (if length args < n then Some (CTooFewArgs n (length args)) else None)"

text \<open>
  What executing a line comes to: help or the version is printed, the line is rejected before any hook
  runs, required flags are missing (after the hooks), or the command runs.
\<close>

datatype execution =
    XHelp "string list"
  | XVersion
  | XReject cli_err
  | XRequired "string list" parsed
  | XRun "string list" parsed

definition flag_is_true :: "parsed \<Rightarrow> string \<Rightarrow> bool" where
  "flag_is_true p name \<longleftrightarrow> go_get (paVals p) name = Some (VBool True)"

text \<open>\<^verbatim>\<open>execute\<close> after the flags are parsed.\<close>

definition execute_parsed :: "command \<Rightarrow> string list \<Rightarrow> parsed \<Rightarrow> execution" where
  "execute_parsed c path p =
    (if flag_is_true p ''help'' then XHelp path
     else if ciVersion (cmInfo c) \<and> flag_is_true p ''version'' then XVersion
     else if \<not> ciRunnable (cmInfo c) then XHelp path
     else case ValidateArgs (ciArgs (cmInfo c)) path (paArgs p) of
       Some e \<Rightarrow> XReject e
     | None \<Rightarrow>
        (let missing = filter (\<lambda>n. \<not> go_has (paVals p) n) (ciRequired (cmInfo c)) in
         if missing \<noteq> [] then XRequired missing p else XRun path p))"

definition help_flag :: flag_decl where
  "help_flag = \<lparr>fdName = ''help'', fdShort = ''h'', fdKind = KBool, fdDefault = VBool False, fdComplete = None\<rparr>"

definition execute_flags :: "flag_decl list \<Rightarrow> command \<Rightarrow> flag_decl list" where
  "execute_flags inherited c = AddFlagSet [help_flag] (merged_flags inherited c)"

definition command_execute :: "fraction \<Rightarrow> found \<Rightarrow> execution" where
  "command_execute frac f =
    (let (c, inherited, path, a) = f in
     if ciNoParse (cmInfo c) then execute_parsed c path \<lparr>paVals = [], paArgs = a\<rparr>
     else case flag_Parse frac (execute_flags inherited c) a of
       Inl HelpUndefined \<Rightarrow> XHelp path
     | Inl e \<Rightarrow> XReject (CFlag e)
     | Inr p \<Rightarrow> execute_parsed c path p)"

definition ExecuteC :: "fraction \<Rightarrow> command \<Rightarrow> string list \<Rightarrow> execution" where
  "ExecuteC frac root args = (case command_Find root args of Inl e \<Rightarrow> XReject e | Inr f \<Rightarrow> command_execute frac f)"


section \<open>The tree of complyctl\<close>

definition bool_flag :: "string \<Rightarrow> string \<Rightarrow> bool \<Rightarrow> flag_decl" where
  "bool_flag name short def = \<lparr>fdName = name, fdShort = short, fdKind = KBool, fdDefault = VBool def, fdComplete = None\<rparr>"

definition string_flag :: "string \<Rightarrow> string \<Rightarrow> string \<Rightarrow> string list option \<Rightarrow> flag_decl" where
  "string_flag name short def complete =
    \<lparr>fdName = name, fdShort = short, fdKind = KString, fdDefault = VString def, fdComplete = complete\<rparr>"

definition slice_flag :: "string \<Rightarrow> string \<Rightarrow> string list option \<Rightarrow> flag_decl" where
  "slice_flag name short complete =
    \<lparr>fdName = name, fdShort = short, fdKind = KStringSlice, fdDefault = VSlice [], fdComplete = complete\<rparr>"

text \<open>Five minutes.\<close>

definition DefaultCommandTimeout :: int where "DefaultCommandTimeout = 300000000000"

definition timeout_flag :: flag_decl where
  "timeout_flag = \<lparr>fdName = ''timeout'', fdShort = ''t'', fdKind = KDuration, fdDefault = VDuration DefaultCommandTimeout, fdComplete = None\<rparr>"

definition leaf :: "string \<Rightarrow> arg_policy \<Rightarrow> flag_decl list \<Rightarrow> string list \<Rightarrow> command" where
  "leaf use args flags required =
    Command \<lparr>ciUse = use, ciAliases = [], ciArgs = args, ciFlags = flags, ciPersistent = [], ciRequired = required,
      ciRunnable = True, ciNoParse = False, ciVersion = False\<rparr> []"

definition version_command :: command where "version_command = leaf ''version'' NoArgs [] []"
definition init_command :: command where "init_command = leaf ''init'' NoArgs [] []"

definition get_command :: command where
  "get_command = leaf ''get [flags]'' NoArgs [timeout_flag, bool_flag ''skip-verify'' [] False] []"

definition scan_command :: command where
  "scan_command = leaf ''scan [target] [flags]'' (MaximumNArgs 1)
    [string_flag ''policy-id'' ''p'' [] (Some []),
     slice_flag ''format'' ''f'' (Some [''oscal'', ''pretty'', ''sarif'', ''all'']),
     timeout_flag,
     bool_flag ''show-passing'' [] True,
     string_flag ''log-format'' [] ''yaml'' (Some [''yaml'', ''json''])] []"

definition generate_command :: command where
  "generate_command = leaf ''generate [flags]'' NoArgs [string_flag ''policy-id'' ''p'' [] (Some []), timeout_flag] [''policy-id'']"

definition list_command :: command where
  "list_command = leaf ''list [flags]'' NoArgs [string_flag ''policy-id'' [] [] (Some [])] []"

definition providers_command :: command where "providers_command = leaf ''providers'' NoArgs [] []"

definition doctor_command :: command where
  "doctor_command = leaf ''doctor'' NoArgs
    [bool_flag ''verbose'' [] False, string_flag ''format'' ''f'' [] (Some [''human'', ''text'', ''json''])] []"

text \<open>\<^verbatim>\<open>BindFlags\<close>, and the commands the library adds: help, the completion scripts and the hidden request for completions.\<close>

definition common_flags :: "flag_decl list" where
  "common_flags = [bool_flag ''debug'' ''d'' False, string_flag ''workspace'' ''w'' [] None]"

definition help_command :: command where "help_command = leaf ''help [command]'' AnyArgs [] []"

definition completion_command :: command where
  "completion_command =
    Command \<lparr>ciUse = ''completion'', ciAliases = [], ciArgs = NoArgs, ciFlags = [], ciPersistent = [], ciRequired = [],
      ciRunnable = False, ciNoParse = False, ciVersion = False\<rparr>
    (map (\<lambda>shell. leaf shell NoArgs [bool_flag ''no-descriptions'' [] False] []) [''bash'', ''zsh'', ''fish'', ''powershell''])"

definition complete_command :: command where
  "complete_command =
    Command \<lparr>ciUse = ''__complete [command-line]'', ciAliases = [''__completeNoDesc''], ciArgs = MinimumNArgs 1, ciFlags = [],
      ciPersistent = [], ciRequired = [], ciRunnable = True, ciNoParse = True, ciVersion = False\<rparr> []"

text \<open>\<^verbatim>\<open>New\<close>: the root command, whose own flag is \<^verbatim>\<open>--version\<close>.\<close>

definition complyctl_commands :: "command list" where
  "complyctl_commands =
    [version_command, init_command, get_command, scan_command, generate_command, list_command, providers_command, doctor_command]"

definition complyctl_root :: command where
  "complyctl_root =
    Command \<lparr>ciUse = ''complyctl [command]'', ciAliases = [], ciArgs = AnyArgs, ciFlags = [bool_flag ''version'' [] False],
      ciPersistent = common_flags, ciRequired = [], ciRunnable = False, ciNoParse = False, ciVersion = True\<rparr>
    (complyctl_commands @ [help_command, complete_command, completion_command])"

section \<open>The call of the command\<close>

definition get_string :: "parsed \<Rightarrow> string \<Rightarrow> string" where
  "get_string p name = (case go_get (paVals p) name of Some (VString v) \<Rightarrow> v | _ \<Rightarrow> [])"

definition get_slice :: "parsed \<Rightarrow> string \<Rightarrow> string list" where
  "get_slice p name = (case go_get (paVals p) name of Some (VSlice vs) \<Rightarrow> vs | _ \<Rightarrow> [])"

definition changed_bool :: "parsed \<Rightarrow> string \<Rightarrow> bool option" where
  "changed_bool p name = (case go_get (paVals p) name of Some (VBool b) \<Rightarrow> Some b | _ \<Rightarrow> None)"

definition changed_string :: "parsed \<Rightarrow> string \<Rightarrow> string option" where
  "changed_string p name = (case go_get (paVals p) name of Some (VString v) \<Rightarrow> Some v | _ \<Rightarrow> None)"

definition common_of :: "parsed \<Rightarrow> Common" where
  "common_of p = \<lparr>coDebug = flag_is_true p ''debug'', coWorkspace = get_string p ''workspace''\<rparr>"

definition scan_flags_of :: "parsed \<Rightarrow> scan_flags" where
  "scan_flags_of p =
    \<lparr>sfArg = (case paArgs p of [] \<Rightarrow> None | a # _ \<Rightarrow> Some a), sfPolicyID = get_string p ''policy-id'',
     sfFormats = get_slice p ''format'', sfShowPassing = changed_bool p ''show-passing'',
     sfLogFormat = changed_string p ''log-format'', sfWorkspace = get_string p ''workspace''\<rparr>"


text \<open>What the commands take from outside, and the texts of help, completion and notes.\<close>

record program =
  pgScan :: scan_ext
  pgGet :: get_ext
  pgDoctor :: doctor_ext
  pgRemote :: remote
  pgEncode :: "diagnosticOutput \<Rightarrow> string option"
  pgMarshal :: "WorkspaceConfig \<Rightarrow> string option"
  pgTemplate :: string
  pgStdin :: stdin
  pgBuild :: build_info
  pgFrac :: fraction
  pgHelp :: "string list \<Rightarrow> string"
  pgLibrary :: "string list \<Rightarrow> parsed \<Rightarrow> string"
  pgNotes :: "get_note list \<Rightarrow> string"

datatype run_err =
    EUsage cli_err
  | ERequired "string list"
  | EScan scan_err
  | EGet "get_err list"
  | ECommand command_err
  | EDoctor doctor_err
  | EInit init_err

type_synonym machine = "osenv \<times> fs"

definition with_fs :: "osenv \<Rightarrow> ('e \<Rightarrow> run_err) \<Rightarrow> fs \<times> string \<times> 'e option \<Rightarrow> machine \<times> string \<times> run_err option" where
  "with_fs os err r = (let (s, out, e) = r in ((os, s), out, map_option err e))"

text \<open>The body of each command; the last case are the commands of the library.\<close>

definition run_command :: "program \<Rightarrow> faults \<Rightarrow> os_faults \<Rightarrow> string list \<Rightarrow> parsed \<Rightarrow> machine \<Rightarrow> machine \<times> string \<times> run_err option" where
  "run_command pg flt oflt path p m =
    (let (os, s) = m; ws = get_string p ''workspace''; pid = get_string p ''policy-id''; name = path ! 1 in
     if name = ''version'' then (m, WriteVersion (pgBuild pg), None)
     else if name = ''init'' then
       (let (os', e) = init_run (pgMarshal pg) (pgTemplate pg) oflt ws (pgStdin pg) os in ((os', s), [], map_option EInit e))
     else if name = ''get'' then
       (let (s', notes, errs) = getCmd (pgGet pg) flt os ws (flag_is_true p ''skip-verify'') s in
        ((os, s'), pgNotes pg notes, if errs = [] then None else Some (EGet errs)))
     else if name = ''scan'' then
       (let (s', out, e) = scanCmd (pgScan pg) flt os (scan_flags_of p) s in
        ((os, s'), (case out of None \<Rightarrow> [] | Some t \<Rightarrow> t), map_option EScan e))
     else if name = ''generate'' then with_fs os ECommand (generateCmd (pgScan pg) flt os ws pid s)
     else if name = ''list'' then
       (case listCmd (sxConfigYaml (pgScan pg)) flt os ws pid s of
          (s', Inl e) \<Rightarrow> ((os, s'), [], Some (ECommand e)) | (s', Inr out) \<Rightarrow> ((os, s'), out, None))
     else if name = ''providers'' then
       (case providersCmd (pgScan pg) flt os s of Inl e \<Rightarrow> (m, [], Some (ECommand e)) | Inr out \<Rightarrow> (m, out, None))
     else if name = ''doctor'' then
       with_fs os EDoctor (doctorCmd (pgDoctor pg) (sxYaml (pgScan pg)) (sxUnpack (pgScan pg)) (pgRemote pg) (pgEncode pg) flt os ws
         (flag_is_true p ''verbose'') (get_string p ''format'') s)
     else (m, pgLibrary pg path p, None))"

text \<open>A whole line, without the log: the machine, standard output and the error of the run.\<close>

definition run_line :: "program \<Rightarrow> faults \<Rightarrow> os_faults \<Rightarrow> string list \<Rightarrow> machine \<Rightarrow> machine \<times> string \<times> run_err option" where
  "run_line pg flt oflt args m =
    (case ExecuteC (pgFrac pg) complyctl_root args of
       XHelp path \<Rightarrow> (m, pgHelp pg path, None)
     | XVersion \<Rightarrow> (m, WriteVersion (pgBuild pg), None)
     | XReject e \<Rightarrow> (m, [], Some (EUsage e))
     | XRequired missing p \<Rightarrow> (m, [], Some (ERequired missing))
     | XRun path p \<Rightarrow> run_command pg flt oflt path p m)"

section \<open>Any spelling of a command line\<close>

lemma takes_next_plain: "\<not> HasPrefix s ''-'' \<Longrightarrow> \<not> takes_next fs s"
  by (cases s) (auto simp: takes_next_def)

lemma strip_setting:
  assumes "spells fs (Setting d v) toks"
  shows "stripFlags fs (toks @ tail) = stripFlags fs tail \<and> argsMinusFirstX fs (toks @ tail) x = toks @ argsMinusFirstX fs tail x"
proof -
  have l: "flag_Lookup fs (fdName d) = Some d" "fdName d \<noteq> []" "CHR ''='' \<notin> set (fdName d)" if "declared fs d"
    using that by (auto simp: declared_def proper_name_def)
  have sh: "ShorthandLookup fs c = Some d" "c \<noteq> CHR ''-''" "c \<noteq> CHR ''=''" if "declared fs d" "fdShort d = [c]" for c
    using that by (auto simp: declared_def)
  show ?thesis using assms
  proof cases
    case long_eq
    then show ?thesis by (simp add: takes_next_def)
  next
    case long_sep
    then show ?thesis using l[OF long_sep(2)] by (cases tail) (simp_all add: takes_next_def hasNoOptDefVal_def)
  next
    case long_bool
    then show ?thesis using l[OF long_bool(3)] by (simp add: takes_next_def hasNoOptDefVal_def)
  next
    case (short_eq c)
    then show ?thesis by (simp add: takes_next_def)
  next
    case (short_sep c)
    then show ?thesis using sh[OF short_sep(2,3)] by (cases tail) (simp_all add: takes_next_def shortHasNoOptDefVal_def)
  next
    case (short_join c)
    then show ?thesis using sh[OF short_join(2,3)] by (simp add: takes_next_def)
  next
    case (short_bool c)
    then show ?thesis using sh[OF short_bool(3,4)] by (simp add: takes_next_def shortHasNoOptDefVal_def)
  qed
qed

lemma strip_settings:
  assumes "list_all2 (\<lambda>(d, v). spells fs (Setting d v)) ds toks"
  shows "stripFlags fs (concat toks @ tail) = stripFlags fs tail \<and>
    argsMinusFirstX fs (concat toks @ tail) x = concat toks @ argsMinusFirstX fs tail x"
  using assms by (induction rule: list_all2_induct) (auto simp: strip_setting)

lemma AddFlagSet_Nil [simp]: "AddFlagSet fs [] = fs" "AddFlagSet [] fs = fs"
  by (simp_all add: AddFlagSet_def flag_Lookup_def)

lemma innerfind_leaf:
  assumes "cmCommands c = []"
  shows "innerfind inherited path c args = (c, inherited, path, args)"
  using assms by (subst innerfind.simps) (simp add: findNext_def Let_def split: list.split)

text \<open>The common flags keep their meaning among the flags of the root and of every command.\<close>

lemma declared_common: "declared common_flags d \<Longrightarrow> d \<in> set common_flags"
  by (auto simp: declared_def flag_Lookup_def find_Some_iff)

lemma common_everywhere:
  "\<forall>d \<in> set common_flags. declared (merged_flags [] complyctl_root) d \<and>
    (\<forall>c \<in> set complyctl_commands. declared (execute_flags common_flags c) d)"
  by code_simp

lemma complyctl_command_facts:
  "\<forall>c \<in> set complyctl_commands. cmCommands c = [] \<and> \<not> ciNoParse (cmInfo c) \<and> findNext complyctl_root (command_Name c) = Some c \<and>
    \<not> HasPrefix (command_Name c) ''-'' \<and> command_Name c \<noteq> []"
  by code_simp


text \<open>The arguments after the end of the flags.\<close>

fun after_dashes :: "string list option \<Rightarrow> string list" where
  "after_dashes None = []"
| "after_dashes (Some xs) = ''--'' # xs"

lemma flag_Parse_line:
  assumes "list_all2 (spells fs) is toks"
  shows "flag_Parse frac fs (concat toks @ after_dashes rest) =
    apply_items frac (is @ map Positional (case rest of None \<Rightarrow> [] | Some xs \<Rightarrow> xs)) \<lparr>paVals = [], paArgs = []\<rparr>"
proof (cases rest)
  case None
  then show ?thesis unfolding flag_Parse_def using parseArgs_items[OF assms, of frac "[]"]
    by (simp add: apply_items_append split: sum.split)
next
  case (Some xs)
  show ?thesis unfolding flag_Parse_def Some after_dashes.simps option.case apply_items_append apply_positionals
      parseArgs_items[OF assms] parseArgs_dashes ..
qed

lemma command_execute_leaf:
  assumes "\<not> ciNoParse (cmInfo c)" "list_all2 (spells (execute_flags inherited c)) is toks"
  shows "command_execute frac (c, inherited, path, concat toks @ after_dashes rest) =
    (case apply_items frac (is @ map Positional (case rest of None \<Rightarrow> [] | Some xs \<Rightarrow> xs)) \<lparr>paVals = [], paArgs = []\<rparr> of
       Inl e \<Rightarrow> XReject (CFlag e) | Inr p \<Rightarrow> execute_parsed c path p)"
proof (cases "apply_items frac (is @ map Positional (case rest of None \<Rightarrow> [] | Some xs \<Rightarrow> xs)) \<lparr>paVals = [], paArgs = []\<rparr>")
  case (Inl e)
  then obtain n v where "e = InvalidValue n v" using apply_items_err by blast
  with Inl show ?thesis using assms(1) flag_Parse_line[OF assms(2), of frac rest] by (simp add: command_execute_def)
next
  case (Inr p)
  then show ?thesis using assms(1) flag_Parse_line[OF assms(2), of frac rest] by (simp add: command_execute_def)
qed

lemma command_Find_line:
  assumes "c \<in> set complyctl_commands" "list_all2 (\<lambda>(d, v). spells common_flags (Setting d v)) ds dtoks"
  shows "command_Find complyctl_root (concat dtoks @ command_Name c # args) =
    Inr (c, common_flags, [''complyctl'', command_Name c], concat dtoks @ args)"
proof -
  let ?fs = "merged_flags [] complyctl_root" and ?n = "command_Name c"
  have c: "cmCommands c = []" "findNext complyctl_root ?n = Some c" "\<not> HasPrefix ?n ''-''" "?n \<noteq> []"
    using complyctl_command_facts assms(1) by auto
  have d: "list_all2 (\<lambda>(d, v). spells ?fs (Setting d v)) ds dtoks"
    using assms(2) by (rule list_all2_mono) (use common_everywhere declared_common in \<open>auto intro: spells_mono\<close>)
  have n: "?n \<noteq> ''--''" using c(3) by auto
  have s: "stripFlags ?fs (concat dtoks @ ?n # args) = ?n # stripFlags ?fs args"
    "argsMinusFirstX ?fs (concat dtoks @ ?n # args) ?n = concat dtoks @ args"
    using strip_settings[OF d, of "?n # args"] takes_next_plain[OF c(3), of ?fs] c(3,4) n by auto
  have r: "command_Name complyctl_root = ''complyctl''" by code_simp
  have p: "ciPersistent (cmInfo complyctl_root) = common_flags" by (simp add: complyctl_root_def)
  show ?thesis unfolding command_Find_def r
    by (subst innerfind.simps) (simp add: Let_def s c p innerfind_leaf)
qed

lemma command_line_run:
  assumes "c \<in> set complyctl_commands"
    and "list_all2 (\<lambda>(d, v). spells common_flags (Setting d v)) ds dtoks"
    and "list_all2 (spells (execute_flags common_flags c)) is toks"
  shows "ExecuteC frac complyctl_root (concat dtoks @ command_Name c # concat toks @ after_dashes rest) =
    (case apply_items frac (map (\<lambda>(d, v). Setting d v) ds @ is @ map Positional (case rest of None \<Rightarrow> [] | Some xs \<Rightarrow> xs))
            \<lparr>paVals = [], paArgs = []\<rparr> of
       Inl e \<Rightarrow> XReject (CFlag e)
     | Inr p \<Rightarrow> execute_parsed c [''complyctl'', command_Name c] p)"
proof -
  have "list_all2 (spells (execute_flags common_flags c)) (map (\<lambda>(d, v). Setting d v) ds) dtoks"
    unfolding list_all2_map1
    using assms(2) by (rule list_all2_mono) (use common_everywhere declared_common assms(1) in \<open>auto intro: spells_mono\<close>)
  then have l: "list_all2 (spells (execute_flags common_flags c)) (map (\<lambda>(d, v). Setting d v) ds @ is) (dtoks @ toks)"
    using assms(3) by (rule list_all2_appendI)
  have "\<not> ciNoParse (cmInfo c)" using complyctl_command_facts assms(1) by auto
  from command_execute_leaf[OF this l, of frac "[''complyctl'', command_Name c]" rest] show ?thesis
    unfolding ExecuteC_def command_Find_line[OF assms(1,2)] by simp
qed

text \<open>
  Property C36. Every spelling of a command line means the same: for a command of \<^verbatim>\<open>complyctl\<close>, with the common
  flags written before or after its name, its own flags after it, each in any of the forms of the library,
  mixed with arguments in any order and with more of them after \<^verbatim>\<open>--\<close>, executing the line applies the settings in
  their order (a repeated flag replaces its value, a list is extended), collects the arguments, and then
  does what the command does with them; the first value that does not parse rejects the line.
\<close>

theorem command_line_spellings:
  assumes "c \<in> set complyctl_commands"
    and "list_all2 (\<lambda>(d, v). spells common_flags (Setting d v)) ds dtoks"
    and "list_all2 (spells (execute_flags common_flags c)) is toks"
  shows "ExecuteC frac complyctl_root (concat dtoks @ command_Name c # concat toks @ after_dashes rest) =
    (case apply_items frac (map (\<lambda>(d, v). Setting d v) ds @ is @ map Positional (case rest of None \<Rightarrow> [] | Some xs \<Rightarrow> xs))
            \<lparr>paVals = [], paArgs = []\<rparr> of
       Inl e \<Rightarrow> XReject (CFlag e)
     | Inr p \<Rightarrow> execute_parsed c [''complyctl'', command_Name c] p)"
  using assms by (rule command_line_run)

theorem command_line_spellings_witness:
  "ExecuteC (\<lambda>_ _ _. 0) complyctl_root [''-wdir'', ''scan'', ''prod'', ''--policy-id=p'', ''-f'', ''oscal,sarif'', ''--debug''] =
    XRun [''complyctl'', ''scan'']
      \<lparr>paVals = [(''workspace'', VString ''dir''), (''policy-id'', VString ''p''), (''format'', VSlice [''oscal'', ''sarif'']),
         (''debug'', VBool True)], paArgs = [''prod'']\<rparr>"
proof -
  let ?fs = "execute_flags common_flags scan_command"
  let ?w = "string_flag ''workspace'' ''w'' [] None" and ?p = "string_flag ''policy-id'' ''p'' [] (Some [])"
    and ?f = "slice_flag ''format'' ''f'' (Some [''oscal'', ''pretty'', ''sarif'', ''all''])" and ?d = "bool_flag ''debug'' ''d'' False"
  have c: "scan_command \<in> set complyctl_commands" by (simp add: complyctl_commands_def)
  have d: "declared common_flags ?w" "declared ?fs ?p" "declared ?fs ?f" "declared ?fs ?d" by code_simp+
  have k: "\<not> no_opt_val ?w" "\<not> no_opt_val ?f" "no_opt_val ?d" "fdShort ?w = ''w''" "fdShort ?f = ''f''"
    "fdName ?p = ''policy-id''" "fdName ?d = ''debug''" by code_simp+
  have pre: "list_all2 (\<lambda>(d, v). spells common_flags (Setting d v)) [(?w, ''dir'')] [[''-wdir'']]"
    using short_join[OF d(1) k(4) k(1), of "''dir''"] by simp
  have items: "list_all2 (spells ?fs)
      [Positional ''prod'', Setting ?p ''p'', Setting ?f ''oscal,sarif'', Setting ?d ''true'']
      [[''prod''], [''--policy-id=p''], [''-f'', ''oscal,sarif''], [''--debug'']]"
    using long_eq[OF d(2), of "''p''"] short_sep[OF d(3) k(5) k(2), of "''oscal,sarif''"] long_bool[OF d(4) k(3)]
    by (simp add: k positional is_flag_arg_def)
  have n: "command_Name scan_command = ''scan''" by code_simp
  have "ExecuteC (\<lambda>_ _ _. 0) complyctl_root [''-wdir'', ''scan'', ''prod'', ''--policy-id=p'', ''-f'', ''oscal,sarif'', ''--debug''] =
     (case apply_items (\<lambda>_ _ _. 0) (map (\<lambda>(d, v). Setting d v) [(?w, ''dir'')] @
          [Positional ''prod'', Setting ?p ''p'', Setting ?f ''oscal,sarif'', Setting ?d ''true''] @ map Positional [])
            \<lparr>paVals = [], paArgs = []\<rparr> of
       Inl e \<Rightarrow> XReject (CFlag e)
     | Inr p \<Rightarrow> execute_parsed scan_command [''complyctl'', ''scan''] p)"
    using command_line_spellings[OF c pre items, where rest = None and frac = "\<lambda>_ _ _. 0"] unfolding n by simp
  also have "\<dots> = XRun [''complyctl'', ''scan'']
      \<lparr>paVals = [(''workspace'', VString ''dir''), (''policy-id'', VString ''p''), (''format'', VSlice [''oscal'', ''sarif'']),
         (''debug'', VBool True)], paArgs = [''prod'']\<rparr>" by code_simp
  finally show ?thesis .
qed


section \<open>Lists on the command line\<close>

definition plain_field :: "string \<Rightarrow> bool" where
  "plain_field f \<longleftrightarrow> f \<noteq> [] \<and> (\<forall>c \<in> set f. c \<noteq> CHR '','' \<and> c \<noteq> nl \<and> c \<noteq> cr \<and> c \<noteq> CHR 0x22)"

lemma csv_normal_id: "cr \<notin> set s \<Longrightarrow> csv_normal s = s"
  by (induction s) auto

lemma csv_run_plain:
  assumes "m = FieldStart \<or> m = Plain" "\<forall>c \<in> set f. c \<noteq> CHR '','' \<and> c \<noteq> nl \<and> c \<noteq> cr \<and> c \<noteq> CHR 0x22"
  shows "csv_run m g f = Some [g @ f] \<and> csv_run m g (f @ CHR '','' # s) = map_option ((#) (g @ f)) (csv_run FieldStart [] s)"
  using assms by (induction f arbitrary: m g) (auto simp: nl_def)

lemma csv_run_Join:
  assumes "\<forall>f \<in> set (x # xs). plain_field f"
  shows "csv_run FieldStart [] (Join '','' (x # xs)) = Some (x # xs)"
  using assms
proof (induction xs arbitrary: x)
  case Nil
  then show ?case using csv_run_plain[of FieldStart x "[]"] by (simp add: plain_field_def)
next
  case (Cons y ys)
  then show ?case using csv_run_plain[of FieldStart x "[]" "Join '','' (y # ys)"] by (simp add: plain_field_def)
qed

lemma Join_chars: "c \<in> set (Join sep xs) \<Longrightarrow> c \<in> set sep \<or> (\<exists>x \<in> set xs. c \<in> set x)"
  by (induction sep xs rule: Join.induct) auto

lemma readAsCSV_Join:
  assumes "fs \<noteq> []" "\<forall>f \<in> set fs. plain_field f"
  shows "readAsCSV (Join '','' fs) = Some fs"
proof -
  obtain x xs where fs: "fs = x # xs" using assms(1) by (cases fs) auto
  have x: "x \<noteq> []" "hd x \<noteq> nl" using assms(2) fs by (auto simp: plain_field_def)
  have j: "Join '','' fs \<noteq> []" "hd (Join '','' fs) = hd x" using x(1) unfolding fs by (cases xs; simp)+
  have "cr \<notin> set (Join '','' fs)" using Join_chars[of cr "'',''" fs] assms(2) by (auto simp: plain_field_def cr_def)
  moreover have "dropWhile (\<lambda>c. c = nl) (Join '','' fs) = Join '','' fs" using j x(2) by (cases "Join '','' fs") auto
  ultimately show ?thesis using j(1) csv_run_Join assms(2) by (simp add: readAsCSV_def csv_normal_id fs)
qed


lemma apply_slices:
  assumes "fdKind d = KStringSlice" "\<forall>f \<in> set fss. f \<noteq> [] \<and> (\<forall>x \<in> set f. plain_field x)"
    "go_get (paVals p) (fdName d) = None \<or> (\<exists>vs. go_get (paVals p) (fdName d) = Some (VSlice vs))"
  shows "\<exists>p'. apply_items frac (map (\<lambda>f. Setting d (Join '','' f)) fss) p = Inr p' \<and>
    get_slice p' (fdName d) = get_slice p (fdName d) @ concat fss \<and>
    (\<forall>k. k \<noteq> fdName d \<longrightarrow> go_get (paVals p') k = go_get (paVals p) k) \<and> paArgs p' = paArgs p"
  using assms(2,3)
proof (induction fss arbitrary: p)
  case (Cons f fss)
  let ?v = "VSlice (get_slice p (fdName d) @ f)"
  let ?p = "p\<lparr>paVals := go_put (fdName d) ?v (paVals p)\<rparr>"
  have s: "flag_Set frac d (Join '','' f) p = Inr ?p"
    using Cons.prems readAsCSV_Join[of f] by (auto simp: flag_Set_def assms(1) get_slice_def)
  have g: "get_slice ?p (fdName d) = get_slice p (fdName d) @ f" by (simp add: get_slice_def)
  obtain p' where "apply_items frac (map (\<lambda>f. Setting d (Join '','' f)) fss) ?p = Inr p'"
    "get_slice p' (fdName d) = get_slice ?p (fdName d) @ concat fss"
    "\<forall>k. k \<noteq> fdName d \<longrightarrow> go_get (paVals p') k = go_get (paVals ?p) k" "paArgs p' = paArgs ?p"
    using Cons.IH[of ?p] Cons.prems by auto
  then show ?case unfolding g by (simp add: s)
qed auto

text \<open>
  Property C37. A line of \<^verbatim>\<open>scan\<close> with a target, a policy and any number of comma-separated lists of formats runs
  the scan with exactly that target and policy and the lists appended in their order, and nothing else
  set: the environment decides on passing controls and the format of the log, as the scan documents.
\<close>

theorem scan_line_runs:
  assumes "\<not> is_flag_arg target" "\<forall>f \<in> set fss. f \<noteq> [] \<and> (\<forall>x \<in> set f. plain_field x)"
  shows "run_line pg flt oflt ([''scan'', target, ''--policy-id='' @ pid] @ concat (map (\<lambda>f. [''--format'', Join '','' f]) fss)) (os, s) =
    (let (s', out, e) = scanCmd (pgScan pg) flt os
           \<lparr>sfArg = Some target, sfPolicyID = pid, sfFormats = concat fss, sfShowPassing = None, sfLogFormat = None, sfWorkspace = []\<rparr> s in
     ((os, s'), (case out of None \<Rightarrow> [] | Some t \<Rightarrow> t), map_option EScan e))"
proof -
  let ?fs = "execute_flags common_flags scan_command"
  let ?p = "string_flag ''policy-id'' ''p'' [] (Some [])"
    and ?f = "slice_flag ''format'' ''f'' (Some [''oscal'', ''pretty'', ''sarif'', ''all''])"
  let ?is = "[Positional target, Setting ?p pid] @ map (\<lambda>f. Setting ?f (Join '','' f)) fss"
  let ?toks = "[[target], [''--policy-id='' @ pid]] @ map (\<lambda>f. [''--format'', Join '','' f]) fss"
  have c: "scan_command \<in> set complyctl_commands" by (simp add: complyctl_commands_def)
  have d: "declared ?fs ?p" "declared ?fs ?f" by code_simp+
  have k: "\<not> no_opt_val ?f" "fdName ?p = ''policy-id''" "fdKind ?f = KStringSlice" "fdName ?f = ''format''" "fdKind ?p = KString" by code_simp+
  have "list_all2 (spells ?fs) (map (\<lambda>f. Setting ?f (Join '','' f)) fss) (map (\<lambda>f. [''--format'', Join '','' f]) fss)"
    using long_sep[OF d(2) k(1)] by (simp add: list_all2_conv_all_nth k(4))
  then have items: "list_all2 (spells ?fs) ?is ?toks"
    using long_eq[OF d(1), of pid] positional[OF assms(1), of ?fs] by (simp add: k)
  let ?p0 = "\<lparr>paVals = [(''policy-id'', VString pid)], paArgs = [target]\<rparr>"
  obtain p where p: "apply_items (pgFrac pg) (map (\<lambda>f. Setting ?f (Join '','' f)) fss) ?p0 = Inr p"
    "get_slice p ''format'' = get_slice ?p0 ''format'' @ concat fss"
    "\<forall>k. k \<noteq> ''format'' \<longrightarrow> go_get (paVals p) k = go_get (paVals ?p0) k" "paArgs p = [target]"
    using apply_slices[OF k(3) assms(2), of ?p0 "pgFrac pg"] by (auto simp: k go_get_def)
  have a: "apply_items (pgFrac pg) ?is \<lparr>paVals = [], paArgs = []\<rparr> = Inr p"
    using p(1) by (simp add: flag_Set_def k go_put_def)
  have n: "command_Name scan_command = ''scan''" by code_simp
  have x: "execute_parsed scan_command [''complyctl'', ''scan''] p = XRun [''complyctl'', ''scan''] p"
    using p(3,4) by (simp add: execute_parsed_def flag_is_true_def scan_command_def leaf_def go_get_def)
  have e: "ExecuteC (pgFrac pg) complyctl_root ([''scan'', target, ''--policy-id='' @ pid] @ concat (map (\<lambda>f. [''--format'', Join '','' f]) fss))
      = XRun [''complyctl'', ''scan''] p"
  proof -
    have z: "map (\<lambda>(d, v). Setting d v) [] @ ?is @ map Positional (case None of None \<Rightarrow> [] | Some xs \<Rightarrow> xs) = ?is" by simp
    have "ExecuteC (pgFrac pg) complyctl_root (concat [] @ command_Name scan_command # concat ?toks @ after_dashes None) =
        XRun [''complyctl'', ''scan''] p"
      using command_line_run[OF c _ items, where ds = "[]" and dtoks = "[]" and rest = None and frac = "pgFrac pg"]
      unfolding z a n sum.case x by simp
    then show ?thesis unfolding n by simp
  qed
  have f: "scan_flags_of p = \<lparr>sfArg = Some target, sfPolicyID = pid, sfFormats = concat fss, sfShowPassing = None,
      sfLogFormat = None, sfWorkspace = []\<rparr>"
    using p(2-4) by (simp add: scan_flags_of_def get_string_def changed_bool_def changed_string_def go_get_def get_slice_def)
  show ?thesis unfolding run_line_def e by (simp add: run_command_def f split: prod.split)
qed


theorem scan_line_runs_witness:
  "\<forall>pg flt oflt os s.
    run_line pg flt oflt [''scan'', ''prod'', ''--policy-id=p'', ''--format'', ''oscal,pretty'', ''--format'', ''sarif''] (os, s) =
    (let (s', out, e) = scanCmd (pgScan pg) flt os
           \<lparr>sfArg = Some ''prod'', sfPolicyID = ''p'', sfFormats = [''oscal'', ''pretty'', ''sarif''], sfShowPassing = None,
            sfLogFormat = None, sfWorkspace = []\<rparr> s in
     ((os, s'), (case out of None \<Rightarrow> [] | Some t \<Rightarrow> t), map_option EScan e))"
proof (intro allI)
  fix pg flt oflt os s
  have h: "\<not> is_flag_arg ''prod''" "\<forall>f \<in> set [[''oscal'', ''pretty''], [''sarif'']]. f \<noteq> [] \<and> (\<forall>x \<in> set f. plain_field x)"
    by code_simp+
  show "run_line pg flt oflt [''scan'', ''prod'', ''--policy-id=p'', ''--format'', ''oscal,pretty'', ''--format'', ''sarif''] (os, s) =
    (let (s', out, e) = scanCmd (pgScan pg) flt os
           \<lparr>sfArg = Some ''prod'', sfPolicyID = ''p'', sfFormats = [''oscal'', ''pretty'', ''sarif''], sfShowPassing = None,
            sfLogFormat = None, sfWorkspace = []\<rparr> s in
     ((os, s'), (case out of None \<Rightarrow> [] | Some t \<Rightarrow> t), map_option EScan e))"
    using scan_line_runs[OF h, of pg flt oflt "''p''" os s] by simp
qed

section \<open>Completions\<close>

text \<open>The values offered for completion are exactly those the commands accept (each alone).\<close>

lemma offered_values_accepted:
  "(\<exists>d \<in> set (ciFlags (cmInfo scan_command)). fdName d = ''format'' \<and> (\<exists>vs. fdComplete d = Some vs \<and> (scan_validate [v] = None \<longleftrightarrow> v \<in> set vs)))"
  "(\<exists>d \<in> set (ciFlags (cmInfo scan_command)). fdName d = ''log-format'' \<and> (\<exists>vs. fdComplete d = Some vs \<and> (validateLogFormat v = None \<longleftrightarrow> v \<in> set vs)))"
  by (auto simp: scan_command_def leaf_def slice_flag_def string_flag_def timeout_flag_def bool_flag_def scan_validate_def
      validateLogFormat_def OutputFormatAll_def)

end
