(* ===== verification/Provider_Process.thy ===== *)
theory Provider_Process
  imports Scan
begin

text \<open>
  The processes of the providers: connecting to an executable (\<^verbatim>\<open>pkg/provider/initialization.go\<close>,
  \<^verbatim>\<open>plugin.go\<close>), closing the ones that are not registered and killing the rest (\<^verbatim>\<open>manager.go\<close>, \<^verbatim>\<open>cli/scan.go\<close>).
  The plugin library is a parameter: what connecting to an executable gives, and whether a process was
  started by the attempt; killing a client ends its process.
\<close>

section \<open>The plugin library\<close>

record HandshakeConfig =
  hsProtocolVersion :: nat
  hsMagicCookieKey :: string
  hsMagicCookieValue :: string

definition Handshake :: HandshakeConfig where
  "Handshake = \<lparr>hsProtocolVersion = 1, hsMagicCookieKey = ''COMPLYCTL_PLUGIN'',
     hsMagicCookieValue = ''ddff478d-578e-4d9d-8253-35e8ebf548d2''\<rparr>"

definition SupportedProviders :: "string list" where "SupportedProviders = [''evaluator'']"

record ClientConfig =
  ccHandshake :: HandshakeConfig
  ccManaged :: bool
  ccAutoMTLS :: bool
  ccAllowedProtocols :: "string list"
  ccCmd :: string
  ccPlugins :: "string list"

text \<open>The generated stub of the three calls, and what the library hands out for a plugin name.\<close>

record PluginClient =
  rpcDescribe :: "string + DescribeResponse"
  rpcGenerate :: "pbGenerateRequest \<Rightarrow> string + GenerateResponse"
  rpcScan :: "Target list \<Rightarrow> string + pbScanResponse"

datatype dispensed = AsPluginClient PluginClient | OtherClient

record plugin_peer =
  ppStarted :: bool
  ppConnect :: "string option"
  ppDispense :: "string \<Rightarrow> string + dispensed"

type_synonym goplugin = "ClientConfig \<Rightarrow> plugin_peer"

text \<open>The processes by number: those that run, the clients under management, and the next number.\<close>

record processes =
  psAlive :: "nat list"
  psManagedClients :: "nat list"
  psNext :: nat

definition goplugin_NewClient :: "ClientConfig \<Rightarrow> processes \<Rightarrow> processes \<times> nat" where
  "goplugin_NewClient config ps =
    (ps\<lparr>psManagedClients := (if ccManaged config then psManagedClients ps @ [psNext ps] else psManagedClients ps), psNext := Suc (psNext ps)\<rparr>,
     psNext ps)"

definition goplugin_start :: "plugin_peer \<Rightarrow> nat \<Rightarrow> processes \<Rightarrow> processes" where
  "goplugin_start peer n ps = (if ppStarted peer then ps\<lparr>psAlive := psAlive ps @ [n]\<rparr> else ps)"

definition goplugin_Kill :: "nat \<Rightarrow> processes \<Rightarrow> processes" where
  "goplugin_Kill n ps = ps\<lparr>psAlive := filter (\<lambda>k. k \<noteq> n) (psAlive ps)\<rparr>"

definition CleanupClients :: "processes \<Rightarrow> processes" where
  "CleanupClients ps = foldl (\<lambda>ps n. goplugin_Kill n ps) ps (psManagedClients ps)"

section \<open>Connecting\<close>

record provider_client =
  pcExecutablePath :: string
  pcProcess :: nat
  pcGrpcClient :: PluginClient

definition provider_Close :: "provider_client \<Rightarrow> processes \<Rightarrow> processes" where
  "provider_Close c ps = goplugin_Kill (pcProcess c) ps"

definition client_config :: "string \<Rightarrow> ClientConfig" where
  "client_config executablePath =
    \<lparr>ccHandshake = Handshake, ccManaged = True, ccAutoMTLS = True, ccAllowedProtocols = [''grpc''],
     ccCmd = executablePath, ccPlugins = SupportedProviders\<rparr>"

definition provider_NewClient :: "goplugin \<Rightarrow> string \<Rightarrow> processes \<Rightarrow> processes \<times> (string + provider_client)" where
  "provider_NewClient lib executablePath ps0 =
    (let config = client_config executablePath;
         (ps1, client) = goplugin_NewClient config ps0;
         peer = lib config;
         ps2 = goplugin_start peer client ps1 in
     case ppConnect peer of
       Some e \<Rightarrow> (goplugin_Kill client ps2, Inl (''failed to connect to provider '' @ executablePath @ '': '' @ e))
     | None \<Rightarrow>
        (case ppDispense peer ''evaluator'' of
           Inl e \<Rightarrow> (goplugin_Kill client ps2, Inl (''failed to dispense evaluator from provider '' @ executablePath @ '': '' @ e))
         | Inr OtherClient \<Rightarrow>
            (goplugin_Kill client ps2, Inl (''provider '' @ executablePath @ '' does not implement evaluator interface''))
         | Inr (AsPluginClient grpc) \<Rightarrow>
            (ps2, Inr \<lparr>pcExecutablePath = executablePath, pcProcess = client, pcGrpcClient = grpc\<rparr>)))"

text \<open>The client as a provider: its calls over the stub.\<close>

definition client_provider :: "provider_client \<Rightarrow> Provider" where
  "client_provider c =
    \<lparr>pvDescribe = client_Describe (rpcDescribe (pcGrpcClient c)),
     pvGenerate = client_Generate (rpcGenerate (pcGrpcClient c)),
     pvScan = client_Scan (rpcScan (pcGrpcClient c))\<rparr>"

text \<open>\<^verbatim>\<open>Serve\<close>, \<^verbatim>\<open>GRPCServer\<close> and \<^verbatim>\<open>GRPCClient\<close>: the stub of a served provider reaches its server adapter.\<close>

record ServeConfig =
  svHandshake :: HandshakeConfig
  svPlugins :: "(string, Provider) gomap"

definition Serve :: "Provider \<Rightarrow> ServeConfig" where
  "Serve impl = \<lparr>svHandshake = Handshake, svPlugins = [(''evaluator'', impl)]\<rparr>"

definition GRPCClient :: "Provider \<Rightarrow> PluginClient" where
  "GRPCClient impl = \<lparr>rpcDescribe = server_Describe impl, rpcGenerate = server_Generate impl, rpcScan = server_Scan impl\<rparr>"

section \<open>Loading with processes\<close>

type_synonym process_manager = "(string, ProviderInfo \<times> provider_client) gomap"

text \<open>\<^verbatim>\<open>NewManager\<close>; \<^verbatim>\<open>LoadProviders\<close> after discovery.\<close>

definition NewManager :: process_manager where "NewManager = []"

fun load_processes ::
    "goplugin \<Rightarrow> ProviderInfo list \<Rightarrow> process_manager \<Rightarrow> processes \<Rightarrow> (process_manager \<times> prov_err option) \<times> processes" where
  "load_processes lib [] m ps = ((m, None), ps)"
| "load_processes lib (info # infos) m ps =
    (case provider_NewClient lib (piExecutablePath info) ps of
       (ps1, Inl e) \<Rightarrow> ((m, Some (VClient (piProviderID info) e)), ps1)
     | (ps1, Inr client) \<Rightarrow>
        (case pvDescribe (client_provider client) of
           Inl _ \<Rightarrow> load_processes lib infos m (provider_Close client ps1)
         | Inr d \<Rightarrow>
            if \<not> drHealthy d then load_processes lib infos m (provider_Close client ps1)
            else load_processes lib infos (go_put (piEvaluatorID info) (info, client) m) ps1))"

text \<open>The manager without the processes.\<close>

definition forget_processes :: "process_manager \<Rightarrow> manager" where
  "forget_processes m = map (\<lambda>(k, info, c). (k, \<lparr>lpInfo = info, lpClient = client_provider c\<rparr>)) m"

text \<open>\<^verbatim>\<open>loadProviders\<close> of the scan and generate commands, which cleans up on every error.\<close>

definition load_or_cleanup ::
    "goplugin \<Rightarrow> (prov_err + ProviderInfo list) \<Rightarrow> processes \<Rightarrow> (scan_err + process_manager) \<times> processes" where
  "load_or_cleanup lib discovered ps =
    (case discovered of
       Inl e \<Rightarrow> (Inl (SProviders (VDiscover e)), CleanupClients ps)
     | Inr infos \<Rightarrow>
        (case load_processes lib infos NewManager ps of
           ((m, Some e), ps1) \<Rightarrow> (Inl (SProviders e), CleanupClients ps1)
         | ((m, None), ps1) \<Rightarrow>
            if ListProviders (forget_processes m) = [] then (Inl SNoProviders, CleanupClients ps1) else (Inr m, ps1)))"

definition no_processes :: processes where
  "no_processes = \<lparr>psAlive = [], psManagedClients = [], psNext = 0\<rparr>"

text \<open>Connecting as the manager without processes sees it.\<close>

definition provider_connect :: "goplugin \<Rightarrow> string \<Rightarrow> string + Provider" where
  "provider_connect lib path =
    (case snd (provider_NewClient lib path no_processes) of Inl e \<Rightarrow> Inl e | Inr c \<Rightarrow> Inr (client_provider c))"

section \<open>Loading with processes refines loading without\<close>

lemma go_put_map: "go_put k (f v) (map (\<lambda>(k, v). (k, f v)) m) = map (\<lambda>(k, v). (k, f v)) (go_put k v m)"
  by (induction m) (auto simp: go_put_def)

lemma forget_put:
  "forget_processes (go_put k (info, c) m) = go_put k \<lparr>lpInfo = info, lpClient = client_provider c\<rparr> (forget_processes m)"
proof -
  let ?f = "\<lambda>(info, c). \<lparr>lpInfo = info, lpClient = client_provider c\<rparr>"
  have "forget_processes m = map (\<lambda>(k, v). (k, ?f v)) m" for m
    by (auto simp: forget_processes_def)
  then show ?thesis using go_put_map[of k ?f "(info, c)" m] by simp
qed

lemma provider_connect_NewClient:
  "provider_connect lib path = (case snd (provider_NewClient lib path ps) of Inl e \<Rightarrow> Inl e | Inr c \<Rightarrow> Inr (client_provider c))"
  by (simp add: provider_connect_def provider_NewClient_def client_provider_def goplugin_NewClient_def Let_def
      split: option.split sum.split dispensed.split)

lemma load_processes_forget:
  "(case load_processes lib infos m ps of ((m', e), ps') \<Rightarrow> (forget_processes m', e)) =
    load_loop (provider_connect lib) infos (forget_processes m)"
proof (induction lib infos m ps rule: load_processes.induct)
  case (2 lib info infos m ps)
  obtain ps1 r where n: "provider_NewClient lib (piExecutablePath info) ps = (ps1, r)" by fastforce
  have c: "provider_connect lib (piExecutablePath info) = (case r of Inl e \<Rightarrow> Inl e | Inr c \<Rightarrow> Inr (client_provider c))"
    using provider_connect_NewClient[of lib "piExecutablePath info" ps] n by simp
  show ?case
  proof (cases r)
    case (Inl e)
    then show ?thesis using n c by simp
  next
    case (Inr client)
    then show ?thesis using 2[OF n[symmetric] Inr] n c
      by (cases "pvDescribe (client_provider client)") (simp_all add: forget_put)
  qed
qed simp

section \<open>No process is left behind\<close>

definition started :: "goplugin \<Rightarrow> provider_client \<Rightarrow> bool" where
  "started lib c \<longleftrightarrow> ppStarted (lib (client_config (pcExecutablePath c)))"

definition registered_processes :: "goplugin \<Rightarrow> process_manager \<Rightarrow> nat set" where
  "registered_processes lib m = {pcProcess c | k info c. (k, info, c) \<in> set m \<and> started lib c}"

definition processes_ok :: "goplugin \<Rightarrow> process_manager \<Rightarrow> processes \<Rightarrow> bool" where
  "processes_ok lib m ps \<longleftrightarrow> set (psAlive ps) = registered_processes lib m \<and> set (psAlive ps) \<subseteq> set (psManagedClients ps) \<and>
     (\<forall>n \<in> set (psManagedClients ps). n < psNext ps) \<and> (\<forall>(k, info, c) \<in> set m. pcProcess c < psNext ps)"

lemma kill_alive: "psAlive (foldl (\<lambda>ps n. goplugin_Kill n ps) ps ns) = filter (\<lambda>k. k \<notin> set ns) (psAlive ps)"
  by (induction ns arbitrary: ps) (auto simp: goplugin_Kill_def intro!: filter_cong)

lemma CleanupClients_alive: "set (psAlive ps) \<subseteq> set (psManagedClients ps) \<Longrightarrow> psAlive (CleanupClients ps) = []"
  by (auto simp: CleanupClients_def kill_alive filter_empty_conv)

text \<open>A failed connection and a closed client leave nothing; a client that is kept has its own process.\<close>

lemma NewClient_result:
  assumes "provider_NewClient lib path ps = (ps1, r)" "psNext ps \<notin> set (psAlive ps)"
  shows "psNext ps1 = Suc (psNext ps) \<and> psManagedClients ps1 = psManagedClients ps @ [psNext ps] \<and>
    (case r of
       Inl e \<Rightarrow> psAlive ps1 = psAlive ps
     | Inr c \<Rightarrow> pcProcess c = psNext ps \<and> psAlive ps1 = psAlive ps @ (if started lib c then [psNext ps] else []))"
proof -
  have f: "filter (\<lambda>k. k \<noteq> psNext ps) (psAlive ps) = psAlive ps" using assms(2) by (auto simp: filter_id_conv)
  have m: "ccManaged (client_config path)" by (simp add: client_config_def)
  let ?peer = "lib (client_config path)"
  show ?thesis
  proof (cases "ppConnect ?peer")
    case (Some e)
    then show ?thesis using assms(1) f m
      by (auto simp: provider_NewClient_def goplugin_NewClient_def goplugin_start_def goplugin_Kill_def Let_def)
  next
    case None
    show ?thesis
    proof (cases "ppDispense ?peer ''evaluator''")
      case (Inl e)
      then show ?thesis using assms(1) f m None
        by (auto simp: provider_NewClient_def goplugin_NewClient_def goplugin_start_def goplugin_Kill_def Let_def)
    next
      case (Inr d)
      then show ?thesis using assms(1) f m None
        by (cases d) (auto simp: provider_NewClient_def goplugin_NewClient_def goplugin_start_def goplugin_Kill_def Let_def started_def)
    qed
  qed
qed

lemma registered_put:
  "k \<notin> fst ` set m \<Longrightarrow> registered_processes lib (go_put k (info, c) m) =
    registered_processes lib m \<union> (if started lib c then {pcProcess c} else {})"
proof -
  have "k \<notin> fst ` set m \<Longrightarrow> set (go_put k v m) = insert (k, v) (set m)" for v :: "ProviderInfo \<times> provider_client"
    by (induction m) (auto simp: go_put_def)
  then show "k \<notin> fst ` set m \<Longrightarrow> ?thesis" by (auto simp: registered_processes_def)
qed

lemma NewClient_ok:
  assumes "processes_ok lib m ps" "provider_NewClient lib path ps = (ps1, r)"
  shows "case r of
      Inl e \<Rightarrow> processes_ok lib m ps1
    | Inr c \<Rightarrow> processes_ok lib m (provider_Close c ps1) \<and>
        (\<forall>k info. k \<notin> fst ` set m \<longrightarrow> processes_ok lib (go_put k (info, c) m) ps1)"
proof -
  have new: "psNext ps \<notin> set (psAlive ps)" using assms(1) by (auto simp: processes_ok_def)
  note n = NewClient_result[OF assms(2) new]
  show ?thesis
  proof (cases r)
    case (Inl e)
    then show ?thesis using n assms(1) by (auto simp: processes_ok_def less_SucI)
  next
    case (Inr c)
    have "processes_ok lib m (provider_Close c ps1)"
      using n Inr assms(1) new by (auto simp: processes_ok_def less_SucI provider_Close_def goplugin_Kill_def)
    moreover have "processes_ok lib (go_put k (info, c) m) ps1" if "k \<notin> fst ` set m" for k info
    proof -
      have "set (go_put k (info, c) m) = insert (k, info, c) (set m)" using that by (induction m) (auto simp: go_put_def)
      then show ?thesis using n Inr assms(1) registered_put[OF that, of lib info c]
        by (auto simp: processes_ok_def less_SucI)
    qed
    ultimately show ?thesis using Inr by simp
  qed
qed

lemma load_processes_ok:
  assumes "processes_ok lib m ps" "distinct (map piEvaluatorID infos)" "\<forall>i \<in> set infos. piEvaluatorID i \<notin> fst ` set m"
    "load_processes lib infos m ps = ((m', e), ps')"
  shows "processes_ok lib m' ps'"
  using assms
proof (induction lib infos m ps rule: load_processes.induct)
  case (2 lib info infos m ps)
  obtain ps1 r where n: "provider_NewClient lib (piExecutablePath info) ps = (ps1, r)" by fastforce
  note ok = NewClient_ok[OF "2.prems"(1) n]
  show ?case
  proof (cases r)
    case (Inl e)
    then show ?thesis using ok n "2.prems"(4) by simp
  next
    case (Inr c)
    have k: "processes_ok lib m (provider_Close c ps1)" "processes_ok lib (go_put (piEvaluatorID info) (info, c) m) ps1"
      using ok Inr "2.prems"(3) by auto
    have d: "distinct (map piEvaluatorID infos)" "\<forall>i \<in> set infos. piEvaluatorID i \<notin> fst ` set m"
      "\<forall>i \<in> set infos. piEvaluatorID i \<notin> fst ` set (go_put (piEvaluatorID info) (info, c) m)"
      using "2.prems"(2,3) by (auto simp: go_put_def dom_update image_iff)
    show ?thesis
    proof (cases "pvDescribe (client_provider c)")
      case (Inl e)
      show ?thesis by (rule "2.IH"(1)[OF n[symmetric] Inr Inl k(1) d(1,2)]) (use "2.prems"(4) n Inr Inl in simp)
    next
      case r: (Inr desc)
      show ?thesis
      proof (cases "drHealthy desc")
        case False
        then show ?thesis using "2.IH"(2)[OF n[symmetric] Inr r _ k(1) d(1,2)] "2.prems"(4) n Inr r by simp
      next
        case True
        then show ?thesis using "2.IH"(3)[OF n[symmetric] Inr r _ k(2) d(1,3)] "2.prems"(4) n Inr r by simp
      qed
    qed
  qed
qed simp


text \<open>
  Property C38. No provider process is left behind, and processes do not change what is loaded: loading the
  discovered providers for a scan or a generate gives the error or the manager of the model without
  processes, whatever the executables do; after an error no process runs, and otherwise exactly those
  of the registered providers do, until cleaning up at the end of the command ends them all.
\<close>

theorem no_provider_left_running:
  assumes "load_or_cleanup lib (DiscoverProviders (sxReadDir x) (osHomeDir os) providerDir (ResolveSystemProviderDir os)) no_processes = (r, ps)"
    and "good_listing (sxReadDir x (provider_expandPath (osHomeDir os) providerDir))" "good_listing (sxReadDir x (ResolveSystemProviderDir os))"
  shows "(case r of Inl e \<Rightarrow> Inl e | Inr m \<Rightarrow> Inr (forget_processes m)) =
      scan_loadProviders (x\<lparr>sxConnect := provider_connect lib\<rparr>) os providerDir \<and>
    (case r of
       Inl e \<Rightarrow> psAlive ps = []
     | Inr m \<Rightarrow> set (psAlive ps) = {pcProcess c | k info c. (k, info, c) \<in> set m \<and> started lib c} \<and>
         psAlive (CleanupClients ps) = [])"
proof (cases "DiscoverProviders (sxReadDir x) (osHomeDir os) providerDir (ResolveSystemProviderDir os)")
  case (Inl e)
  then show ?thesis using assms(1)
    by (auto simp: load_or_cleanup_def scan_loadProviders_def LoadProviders_def no_processes_def CleanupClients_def)
next
  case (Inr infos)
  have d: "distinct (map piEvaluatorID infos)" using DiscoverProviders_precedence[OF Inr assms(2,3)] by simp
  obtain m e ps1 where l: "load_processes lib infos NewManager no_processes = ((m, e), ps1)" by (metis prod_cases3 prod.collapse)
  have "processes_ok lib NewManager no_processes"
    by (simp add: processes_ok_def no_processes_def NewManager_def registered_processes_def)
  then have ok: "processes_ok lib m ps1" by (rule load_processes_ok[OF _ d _ l]) (simp add: NewManager_def)
  then have c: "psAlive (CleanupClients ps1) = []" unfolding processes_ok_def by (blast intro: CleanupClients_alive)
  have f: "load_loop (provider_connect lib) infos [] = (forget_processes m, e)"
    using load_processes_forget[of lib infos NewManager no_processes] l by (simp add: NewManager_def forget_processes_def)
  show ?thesis
  proof (cases e)
    case (Some er)
    then show ?thesis using assms(1) l f c by (auto simp: load_or_cleanup_def Inr scan_loadProviders_def LoadProviders_def)
  next
    case None
    show ?thesis
    proof (cases "ListProviders (forget_processes m) = []")
      case True
      then show ?thesis using assms(1) l f c None by (auto simp: load_or_cleanup_def Inr scan_loadProviders_def LoadProviders_def)
    next
      case False
      then have "r = Inr m" "ps = ps1" using assms(1) l None by (auto simp: load_or_cleanup_def Inr)
      then show ?thesis using l f c None False ok
        by (simp add: Inr scan_loadProviders_def LoadProviders_def processes_ok_def registered_processes_def)
    qed
  qed
qed

text \<open>A provider that serves with the library is connected, and its calls pass both adapters.\<close>

lemma served_provider_connects:
  assumes "lib (client_config path) = \<lparr>ppStarted = True, ppConnect = (if svHandshake (Serve impl) = Handshake then None else Some ''incompatible''),
      ppDispense = (\<lambda>n. case go_get (svPlugins (Serve impl)) n of None \<Rightarrow> Inl ''unknown'' | Some i \<Rightarrow> Inr (AsPluginClient (GRPCClient i)))\<rparr>"
  shows "provider_connect lib path =
    Inr \<lparr>pvDescribe = client_Describe (server_Describe impl), pvGenerate = client_Generate (server_Generate impl),
      pvScan = client_Scan (server_Scan impl)\<rparr>"
  by (simp add: provider_connect_def provider_NewClient_def assms goplugin_NewClient_def Let_def Serve_def go_get_def client_provider_def GRPCClient_def)

text \<open>Two executables: one serves, the other connects and fails to describe itself.\<close>

definition demo_lib :: goplugin where
  "demo_lib config =
    \<lparr>ppStarted = True, ppConnect = None,
     ppDispense = (\<lambda>_. Inr (AsPluginClient (GRPCClient (
       if ccCmd config = ''/usr/p/complyctl-provider-b'' then projr (demo_provider [])\<lparr>pvDescribe := Inl ''down''\<rparr>
       else projr (demo_provider (ccCmd config))))))\<rparr>"

definition demo_plugin_ext :: scan_ext where "demo_plugin_ext = demo_ext\<lparr>sxReadDir := demo_listing\<rparr>"

definition demo_plugin_os :: osenv where
  "demo_plugin_os = demo_os\<lparr>osHomeDir := Some ''/home/u'', osLookupEnv := [(''COMPLYTIME_SYSTEM_PROVIDER_DIR'', ''/usr/p'')]\<rparr>"

definition demo_loading :: "(scan_err + process_manager) \<times> processes" where
  "demo_loading = load_or_cleanup demo_lib
     (DiscoverProviders demo_listing (osHomeDir demo_plugin_os) ''~/p'' (ResolveSystemProviderDir demo_plugin_os)) no_processes"

theorem no_provider_left_running_witness:
  "psAlive (snd demo_loading) = [0] \<and> psAlive (CleanupClients (snd demo_loading)) = [] \<and>
   map fst (projr (scan_loadProviders (demo_plugin_ext\<lparr>sxConnect := provider_connect demo_lib\<rparr>) demo_plugin_os ''~/p'')) = [''a'']"
proof -
  have x: "sxReadDir demo_plugin_ext = demo_listing" by (simp add: demo_plugin_ext_def)
  have o: "osHomeDir demo_plugin_os = Some ''/home/u''" "ResolveSystemProviderDir demo_plugin_os = ''/usr/p''" by code_simp+
  have g: "good_listing (sxReadDir demo_plugin_ext (provider_expandPath (osHomeDir demo_plugin_os) ''~/p''))"
    "good_listing (sxReadDir demo_plugin_ext (ResolveSystemProviderDir demo_plugin_os))"
    using demo_good unfolding x o by auto
  have l: "load_or_cleanup demo_lib (DiscoverProviders (sxReadDir demo_plugin_ext) (osHomeDir demo_plugin_os) ''~/p''
      (ResolveSystemProviderDir demo_plugin_os)) no_processes = (fst demo_loading, snd demo_loading)"
    unfolding x by (simp add: demo_loading_def)
  have i: "isl (fst demo_loading) = False" "psAlive (snd demo_loading) = [0]" "map fst (projr (fst demo_loading)) = [''a'']"
    by code_simp+
  then obtain m where m: "fst demo_loading = Inr m" "map fst m = [''a'']" by (cases "fst demo_loading") auto
  note t = no_provider_left_running[OF l g, unfolded m(1) sum.case]
  have "map fst (forget_processes m) = [''a'']" using m(2) by (simp add: forget_processes_def comp_def case_prod_unfold)
  then have "map fst (projr (scan_loadProviders (demo_plugin_ext\<lparr>sxConnect := provider_connect demo_lib\<rparr>) demo_plugin_os ''~/p'')) = [''a'']"
    unfolding conjunct1[OF t, symmetric] by simp
  with conjunct2[OF t] i(2) show ?thesis by blast
qed

end
