(* ===== verification/Spinner.thy ===== *)
theory Spinner
  imports Prelude
begin

text \<open>
  The progress spinner (\<^verbatim>\<open>internal/terminal/spinner.go\<close>) with the parts of the vendored
  \<^verbatim>\<open>bubbles/spinner\<close> and \<^verbatim>\<open>bubbletea\<close> libraries that it drives: the pure model (update, view), the plain
  fallback, and the goroutines of a running program as a step relation. \<^verbatim>\<open>Start\<close> spawns the program and
  returns, so the command, the event loop, the goroutine that hands over the first command and those
  that send the messages of commands interleave.
\<close>

section \<open>The model of the program\<close>

text \<open>The messages of the program, and the commands by the message they send.\<close>

datatype spin_msg = StopMsg | QuitMsg | TickMsg nat nat

datatype spin_cmd = CmdQuit | CmdTick nat nat

fun cmd_msg :: "spin_cmd \<Rightarrow> spin_msg" where
  "cmd_msg CmdQuit = QuitMsg"
| "cmd_msg (CmdTick i t) = TickMsg i t"

record bubble =
  bbFrames :: "string list"
  bbFrame :: nat
  bbID :: nat
  bbTag :: nat

definition bubble_Update :: "bubble \<Rightarrow> spin_msg \<Rightarrow> bubble \<times> spin_cmd option" where
  "bubble_Update m msg = (case msg of
     TickMsg i t \<Rightarrow>
       if i > 0 \<and> i \<noteq> bbID m then (m, None)
       else if t > 0 \<and> t \<noteq> bbTag m then (m, None)
       else let f = bbFrame m + 1 in
         (m\<lparr>bbFrame := if f \<ge> length (bbFrames m) then 0 else f, bbTag := bbTag m + 1\<rparr>, Some (CmdTick (bbID m) (bbTag m + 1)))
   | _ \<Rightarrow> (m, None))"

text \<open>\<^verbatim>\<open>render\<close> is the style of the library.\<close>

definition bubble_View :: "(string \<Rightarrow> string) \<Rightarrow> bubble \<Rightarrow> string" where
  "bubble_View render m = (if bbFrame m \<ge> length (bbFrames m) then ''(error)'' else render (bbFrames m ! bbFrame m))"

definition bubble_Tick :: "bubble \<Rightarrow> spin_cmd" where
  "bubble_Tick m = CmdTick (bbID m) (bbTag m)"

record spinnerModel =
  smSpinner :: bubble
  smMessage :: string

definition spinnerModel_Init :: "spinnerModel \<Rightarrow> spin_cmd" where
  "spinnerModel_Init m = bubble_Tick (smSpinner m)"

definition spinnerModel_Update :: "spinnerModel \<Rightarrow> spin_msg \<Rightarrow> spinnerModel \<times> spin_cmd option" where
  "spinnerModel_Update m msg =
    (if msg = StopMsg then (m, Some CmdQuit)
     else let (s, cmd) = bubble_Update (smSpinner m) msg in (m\<lparr>smSpinner := s\<rparr>, cmd))"

definition spinnerModel_View :: "(string \<Rightarrow> string) \<Rightarrow> spinnerModel \<Rightarrow> string" where
  "spinnerModel_View render m = bubble_View render (smSpinner m) @ '' '' @ smMessage m"

section \<open>The spinner\<close>

text \<open>A writer by its file descriptor, if it has one; a terminal is recognised by the system.\<close>

record io_writer = wrFd :: "nat option"

definition isWriterTTY :: "(nat \<Rightarrow> bool) \<Rightarrow> io_writer \<Rightarrow> bool" where
  "isWriterTTY isTerminal w = (case wrFd w of Some fd \<Rightarrow> isTerminal fd | None \<Rightarrow> False)"

definition stdout_fd :: nat where "stdout_fd = 1"
definition stderr_fd :: nat where "stderr_fd = 2"

definition IsTTY :: "(nat \<Rightarrow> bool) \<Rightarrow> bool" where
  "IsTTY isTerminal = isTerminal stdout_fd"

record Spinner =
  spProgram :: "(spinnerModel \<times> io_writer) option"
  spWriter :: "io_writer option"
  spMessage :: string

text \<open>The frames of \<^verbatim>\<open>spinner.MiniDot\<close>, in UTF-8.\<close>

definition MiniDot :: "string list" where
  "MiniDot = map (\<lambda>c. [CHR 0xE2, CHR 0xA0, c])
     [CHR 0x8B, CHR 0x99, CHR 0xB9, CHR 0xB8, CHR 0xBC, CHR 0xB4, CHR 0xA6, CHR 0xA7, CHR 0x87, CHR 0x8F]"

text \<open>\<^verbatim>\<open>nextID\<close> is the number the library gives the new model, counted from 1.\<close>

definition NewSpinnerWriter :: "(nat \<Rightarrow> bool) \<Rightarrow> nat \<Rightarrow> string \<Rightarrow> io_writer option \<Rightarrow> Spinner" where
  "NewSpinnerWriter isTerminal nextID message w = (case w of
     None \<Rightarrow> \<lparr>spProgram = None, spWriter = None, spMessage = []\<rparr>
   | Some wr \<Rightarrow>
      if \<not> isWriterTTY isTerminal wr then \<lparr>spProgram = None, spWriter = Some wr, spMessage = message\<rparr>
      else let s = \<lparr>bbFrames = MiniDot, bbFrame = 0, bbID = nextID, bbTag = 0\<rparr> in
        \<lparr>spProgram = Some (\<lparr>smSpinner = s, smMessage = message\<rparr>, wr), spWriter = None, spMessage = []\<rparr>)"

definition NewSpinner :: "(nat \<Rightarrow> bool) \<Rightarrow> nat \<Rightarrow> string \<Rightarrow> Spinner" where
  "NewSpinner isTerminal nextID message = NewSpinnerWriter isTerminal nextID message (Some \<lparr>wrFd = Some stderr_fd\<rparr>)"

text \<open>What \<^verbatim>\<open>Start\<close> and \<^verbatim>\<open>Stop\<close> write themselves; with a program, they act on its goroutines.\<close>

definition Spinner_Start :: "Spinner \<Rightarrow> string" where
  "Spinner_Start s =
    (if spProgram s \<noteq> None then [] else if spWriter s \<noteq> None then spMessage s @ [CHR 0x0A] else [])"

definition Spinner_Stop :: "Spinner \<Rightarrow> string" where
  "Spinner_Stop s =
    (if spProgram s \<noteq> None then [] else if spWriter s \<noteq> None then ''done'' @ [CHR 0x0A] else [])"

section \<open>The running program\<close>

text \<open>
  The command is at its own work, in \<^verbatim>\<open>Send\<close>, in \<^verbatim>\<open>Wait\<close>, or back from \<^verbatim>\<open>Stop\<close>. The event loop has not been
  scheduled, waits for a message, hands a command over, has read the quit message, has cancelled the
  context, or has returned.
\<close>

datatype spin_caller = Working | Sending | Waiting | Back

datatype spin_phase = NotRun | Loop | Hand "spin_cmd option" | Quitting | Closing | Finished

record spin_world =
  swCaller :: spin_caller
  swPhase :: spin_phase
  swCtxDone :: bool
  swInit :: "spin_cmd option"
  swSends :: "spin_msg list"
  swModel :: spinnerModel
  swViews :: "string list"

definition spin_start :: "spinnerModel \<Rightarrow> spin_world" where
  "spin_start m = \<lparr>swCaller = Working, swPhase = NotRun, swCtxDone = False, swInit = None, swSends = [], swModel = m, swViews = []\<rparr>"

text \<open>
  The steps; the flag tells the steps of starting and stopping from those of the animation.
  A send on the channel of messages meets the event loop, or is dropped once the context is cancelled.
\<close>

inductive spin_step :: "(string \<Rightarrow> string) \<Rightarrow> bool \<Rightarrow> spin_world \<Rightarrow> spin_world \<Rightarrow> bool" for render where
  call_stop: "swCaller w = Working \<Longrightarrow> spin_step render True w (w\<lparr>swCaller := Sending\<rparr>)"
| run_fails: "swPhase w = NotRun \<Longrightarrow> spin_step render True w (w\<lparr>swPhase := Closing, swCtxDone := True\<rparr>)"
| run_starts: "swPhase w = NotRun \<Longrightarrow>
    spin_step render True w (w\<lparr>swPhase := Loop, swInit := Some (spinnerModel_Init (swModel w)), swViews := swViews w @ [spinnerModel_View render (swModel w)]\<rparr>)"
| init_cmd: "swInit w = Some c \<Longrightarrow> \<not> swCtxDone w \<Longrightarrow>
    spin_step render False w (w\<lparr>swInit := None, swSends := swSends w @ [cmd_msg c]\<rparr>)"
| init_drop: "swInit w = Some c \<Longrightarrow> swCtxDone w \<Longrightarrow> spin_step render False w (w\<lparr>swInit := None\<rparr>)"
| recv_stop: "swCaller w = Sending \<Longrightarrow> swPhase w = Loop \<Longrightarrow> spinnerModel_Update (swModel w) StopMsg = (m, c) \<Longrightarrow>
    spin_step render True w (w\<lparr>swCaller := Waiting, swModel := m, swPhase := Hand c\<rparr>)"
| recv_quit: "swPhase w = Loop \<Longrightarrow> swSends w = xs @ QuitMsg # ys \<Longrightarrow>
    spin_step render True w (w\<lparr>swSends := xs @ ys, swPhase := Quitting\<rparr>)"
| recv_msg: "swPhase w = Loop \<Longrightarrow> swSends w = xs @ msg # ys \<Longrightarrow> msg \<noteq> QuitMsg \<Longrightarrow> spinnerModel_Update (swModel w) msg = (m, c) \<Longrightarrow>
    spin_step render False w (w\<lparr>swSends := xs @ ys, swModel := m, swPhase := Hand c\<rparr>)"
| hand_over: "swPhase w = Hand c \<Longrightarrow>
    spin_step render (c = Some CmdQuit) w (w\<lparr>swPhase := Loop, swSends := swSends w @ map cmd_msg (case c of None \<Rightarrow> [] | Some x \<Rightarrow> [x]),
      swViews := swViews w @ [spinnerModel_View render (swModel w)]\<rparr>)"
| shut_down: "swPhase w = Quitting \<Longrightarrow>
    spin_step render True w (w\<lparr>swPhase := Closing, swCtxDone := True, swViews := swViews w @ [spinnerModel_View render (swModel w)]\<rparr>)"
| run_returns: "swPhase w = Closing \<Longrightarrow> spin_step render True w (w\<lparr>swPhase := Finished\<rparr>)"
| drop_send: "swCtxDone w \<Longrightarrow> swSends w = xs @ msg # ys \<Longrightarrow> spin_step render False w (w\<lparr>swSends := xs @ ys\<rparr>)"
| send_dropped: "swCaller w = Sending \<Longrightarrow> swCtxDone w \<Longrightarrow> spin_step render True w (w\<lparr>swCaller := Waiting\<rparr>)"
| wait_returns: "swCaller w = Waiting \<Longrightarrow> swPhase w = Finished \<Longrightarrow> spin_step render True w (w\<lparr>swCaller := Back\<rparr>)"

text \<open>A run with the flags of its steps.\<close>

inductive spin_run :: "(string \<Rightarrow> string) \<Rightarrow> bool list \<Rightarrow> spin_world \<Rightarrow> spin_world \<Rightarrow> bool" for render where
  refl: "spin_run render [] w w"
| snoc: "spin_run render bs w w1 \<Longrightarrow> spin_step render b w1 w2 \<Longrightarrow> spin_run render (bs @ [b]) w w2"

section \<open>The invariant\<close>

text \<open>The ticks in flight; there is one from the start of the loop to its end.\<close>

fun is_tick :: "spin_msg \<Rightarrow> bool" where
  "is_tick (TickMsg _ _) = True"
| "is_tick _ = False"

definition spin_pending :: "spin_world \<Rightarrow> spin_msg list" where
  "spin_pending w = (case swInit w of None \<Rightarrow> [] | Some c \<Rightarrow> [cmd_msg c]) @ swSends w @
     (case swPhase w of Hand (Some c) \<Rightarrow> [cmd_msg c] | _ \<Rightarrow> [])"

definition cur_tick :: "spin_world \<Rightarrow> spin_msg" where
  "cur_tick w = TickMsg (bbID (smSpinner (swModel w))) (bbTag (smSpinner (swModel w)))"

definition looping :: "spin_phase \<Rightarrow> bool" where
  "looping p \<longleftrightarrow> p \<noteq> NotRun \<and> p \<noteq> Closing \<and> p \<noteq> Finished"

definition spin_inv :: "spin_world \<Rightarrow> bool" where
  "spin_inv w \<longleftrightarrow>
    (swPhase w = NotRun \<longrightarrow> swInit w = None \<and> swSends w = [] \<and> swCaller w \<in> {Working, Sending}) \<and>
    (swCtxDone w \<longleftrightarrow> swPhase w \<in> {Closing, Finished}) \<and>
    (swCaller w = Back \<longrightarrow> swPhase w = Finished) \<and>
    swInit w \<noteq> Some CmdQuit \<and>
    (looping (swPhase w) \<longrightarrow> filter is_tick (spin_pending w) = [cur_tick w] \<and>
       filter (Not \<circ> is_tick) (spin_pending w) = (if swCaller w = Waiting \<and> swPhase w \<noteq> Quitting then [QuitMsg] else []) \<and>
       (swPhase w = Quitting \<longrightarrow> swCaller w = Waiting))"

lemma spin_invD:
  assumes "spin_inv w"
  shows "swPhase w = NotRun \<Longrightarrow> swInit w = None \<and> swSends w = [] \<and> swCaller w \<in> {Working, Sending}"
    "swCtxDone w \<longleftrightarrow> swPhase w = Closing \<or> swPhase w = Finished" "swCaller w = Back \<Longrightarrow> swPhase w = Finished"
    "looping (swPhase w) \<Longrightarrow> filter is_tick (spin_pending w) = [cur_tick w]"
    "looping (swPhase w) \<Longrightarrow> filter (Not \<circ> is_tick) (spin_pending w) = (if swCaller w = Waiting \<and> swPhase w \<noteq> Quitting then [QuitMsg] else [])"
    "swPhase w = Quitting \<Longrightarrow> swCaller w = Waiting" "swInit w \<noteq> Some CmdQuit"
  using assms unfolding spin_inv_def by (blast | simp add: looping_def)+

lemma tick_update:
  assumes "spinnerModel_Update m (TickMsg (bbID (smSpinner m)) (bbTag (smSpinner m))) = (m', c)"
  shows "c = Some (CmdTick (bbID (smSpinner m')) (bbTag (smSpinner m')))"
  using assms by (auto simp: spinnerModel_Update_def bubble_Update_def Let_def split: if_splits)

lemma stop_update: "spinnerModel_Update m StopMsg = (m', c) \<longleftrightarrow> m' = m \<and> c = Some CmdQuit"
  by (auto simp: spinnerModel_Update_def)

lemma init_tick: "cmd_msg (spinnerModel_Init m) = TickMsg (bbID (smSpinner m)) (bbTag (smSpinner m))"
  by (simp add: spinnerModel_Init_def bubble_Tick_def)

lemma cmd_msg_quit [simp]: "QuitMsg = cmd_msg c \<longleftrightarrow> c = CmdQuit" "cmd_msg c = QuitMsg \<longleftrightarrow> c = CmdQuit"
  by (cases c; auto)+

lemma spin_inv_start: "spin_inv (spin_start m)"
  by (simp add: spin_inv_def spin_start_def looping_def)

lemma recv_is_tick:
  assumes "spin_inv w" "swPhase w = Loop" "swSends w = xs @ msg # ys" "msg \<noteq> QuitMsg"
  shows "is_tick msg"
proof (rule ccontr)
  assume "\<not> is_tick msg"
  then have m: "msg \<in> set (filter (Not \<circ> is_tick) (spin_pending w))" using assms(3) by (simp add: spin_pending_def)
  have "filter (Not \<circ> is_tick) (spin_pending w) = (if swCaller w = Waiting then [QuitMsg] else [])"
    using spin_invD(5)[OF assms(1)] assms(2) by (simp add: looping_def)
  with m assms(4) show False by (metis empty_iff empty_set set_ConsD)
qed

lemma filter_move: "length (filter P (c # xs @ ys)) \<le> 1 \<Longrightarrow> filter P (xs @ c # ys) = filter P (c # xs @ ys)"
  by (cases "P c") auto

lemma done_not_looping: "spin_inv w \<Longrightarrow> swCtxDone w \<Longrightarrow> \<not> looping (swPhase w)"
  by (drule spin_invD(2)) (auto simp: looping_def)

lemma spin_inv_step:
  assumes "spin_step render b w w'" "spin_inv w"
  shows "spin_inv w'"
  using assms
proof cases
  case (recv_msg xs msg ys m c)
  have p: "spin_pending w = (case swInit w of None \<Rightarrow> [] | Some c \<Rightarrow> [cmd_msg c]) @ xs @ msg # ys"
    using recv_msg by (simp add: spin_pending_def)
  have i: "filter is_tick (spin_pending w) = [cur_tick w]"
    "filter (Not \<circ> is_tick) (spin_pending w) = (if swCaller w = Waiting then [QuitMsg] else [])"
    using assms(2) recv_msg by (auto simp: spin_inv_def looping_def)
  have t: "is_tick msg" by (rule recv_is_tick[OF assms(2) recv_msg(3-5)])
  let ?rest = "(case swInit w of None \<Rightarrow> [] | Some c \<Rightarrow> [cmd_msg c]) @ xs @ ys"
  have r: "msg = cur_tick w" "filter is_tick ?rest = []"
    using i(1) t unfolding p by (auto simp: append_eq_Cons_conv)
  have n: "filter (Not \<circ> is_tick) ?rest = (if swCaller w = Waiting then [QuitMsg] else [])"
    using i(2) t unfolding p by simp
  have c: "c = Some (CmdTick (bbID (smSpinner m)) (bbTag (smSpinner m)))"
    using recv_msg(6) unfolding r(1) cur_tick_def by (rule tick_update)
  have p': "spin_pending w' = ?rest @ [cur_tick w']"
    unfolding recv_msg(2) by (simp add: spin_pending_def cur_tick_def c)
  have "filter is_tick (spin_pending w') = [cur_tick w']" "filter (Not \<circ> is_tick) (spin_pending w') = (if swCaller w = Waiting then [QuitMsg] else [])"
    using r(2) n unfolding p' by (simp_all add: cur_tick_def)
  moreover have "swCtxDone w = False" "swCaller w \<noteq> Back" "swInit w' \<noteq> Some CmdQuit" using spin_invD(2,3,7)[OF assms(2)] recv_msg(2,3) by auto
  moreover have "swPhase w' = Hand c" "swCaller w' = swCaller w" "swCtxDone w' = swCtxDone w" unfolding recv_msg(2) by simp_all
  ultimately show ?thesis by (simp add: spin_inv_def looping_def)
next
  case (recv_quit xs ys)
  then show ?thesis using assms(2)
    by (auto simp: spin_inv_def looping_def spin_pending_def cur_tick_def append_eq_Cons_conv split: if_splits)
next
  case (hand_over c)
  then show ?thesis using assms(2)
    by (cases c) (auto simp: spin_inv_def looping_def spin_pending_def cur_tick_def split: if_splits)
next
  case (init_drop c)
  then show ?thesis using done_not_looping[OF assms(2)] spin_invD(1-3,7)[OF assms(2)] unfolding spin_inv_def by auto
next
  case (drop_send xs msg ys)
  then show ?thesis using done_not_looping[OF assms(2)] spin_invD(1-3,7)[OF assms(2)] unfolding spin_inv_def by auto
next
  case (init_cmd c)
  let ?x = "case swPhase w of Hand (Some c) \<Rightarrow> [cmd_msg c] | _ \<Rightarrow> []"
  have p: "spin_pending w = cmd_msg c # swSends w @ ?x" "spin_pending w' = swSends w @ cmd_msg c # ?x"
    unfolding init_cmd(2) spin_pending_def using init_cmd(3) by simp_all
  have "filter P (spin_pending w') = filter P (spin_pending w)"
    if "length (filter P (spin_pending w)) \<le> 1" for P
    using that unfolding p by (rule filter_move)
  then have "looping (swPhase w) \<Longrightarrow> filter is_tick (spin_pending w') = filter is_tick (spin_pending w) \<and>
      filter (Not \<circ> is_tick) (spin_pending w') = filter (Not \<circ> is_tick) (spin_pending w)"
    using spin_invD(4,5)[OF assms(2)] by simp
  moreover have "swPhase w' = swPhase w" "swCaller w' = swCaller w" "swCtxDone w' = swCtxDone w" "cur_tick w' = cur_tick w"
    unfolding init_cmd(2) by (simp_all add: cur_tick_def)
  moreover have "swPhase w \<noteq> NotRun" using spin_invD(1)[OF assms(2)] init_cmd(3) by auto
  moreover have "swInit w' = None" unfolding init_cmd(2) by simp
  ultimately show ?thesis using spin_invD[OF assms(2)] unfolding spin_inv_def by simp
qed (auto simp: spin_inv_def looping_def spin_pending_def cur_tick_def stop_update init_tick spinnerModel_Init_def bubble_Tick_def split: if_splits)

lemma spin_run_inv: "spin_run render bs w w' \<Longrightarrow> spin_inv w \<Longrightarrow> spin_inv w'"
  by (induction rule: spin_run.induct) (auto intro: spin_inv_step)

lemma spin_run_trans: "spin_run render bs a b \<Longrightarrow> spin_run render cs b c \<Longrightarrow> spin_run render (bs @ cs) a c"
  by (rotate_tac, induction rule: spin_run.induct) (auto simp flip: append_assoc intro: spin_run.snoc)

section \<open>Stopping\<close>

text \<open>What is left of starting and stopping: the steps of the animation leave it, the others lower it.\<close>

fun caller_rank :: "spin_caller \<Rightarrow> nat" where
  "caller_rank Working = 3" | "caller_rank Sending = 2" | "caller_rank Waiting = 1" | "caller_rank Back = 0"

definition phase_rank :: "spin_world \<Rightarrow> nat" where
  "phase_rank w = (case swPhase w of
     NotRun \<Rightarrow> 6 | Closing \<Rightarrow> 1 | Finished \<Rightarrow> 0 | Quitting \<Rightarrow> 2
   | Hand c \<Rightarrow> if c = Some CmdQuit then 4 else if QuitMsg \<in> set (swSends w) then 3 else 5
   | Loop \<Rightarrow> if QuitMsg \<in> set (swSends w) then 3 else 5)"

definition spin_rank :: "spin_world \<Rightarrow> nat" where
  "spin_rank w = caller_rank (swCaller w) + phase_rank w"

lemma no_quit_before_stop:
  assumes "spin_inv w" "looping (swPhase w)" "swCaller w \<noteq> Waiting"
  shows "QuitMsg \<notin> set (swSends w)" "swPhase w \<noteq> Hand (Some CmdQuit)"
proof -
  have "filter (Not \<circ> is_tick) (spin_pending w) = []" using assms by (simp add: spin_inv_def)
  then have "QuitMsg \<notin> set (spin_pending w)" by (auto simp: filter_empty_conv)
  then show "QuitMsg \<notin> set (swSends w)" "swPhase w \<noteq> Hand (Some CmdQuit)" by (auto simp: spin_pending_def)
qed

lemma one_quit:
  assumes "spin_inv w" "looping (swPhase w)" "swSends w = xs @ QuitMsg # ys"
  shows "QuitMsg \<notin> set xs \<union> set ys" "swPhase w \<noteq> Hand (Some CmdQuit)"
proof -
  have f: "filter (Not \<circ> is_tick) (spin_pending w) = [] \<or> filter (Not \<circ> is_tick) (spin_pending w) = [QuitMsg]"
    using assms by (simp add: spin_inv_def split: if_split_asm)
  have "filter (Not \<circ> is_tick) (spin_pending w) = filter (Not \<circ> is_tick) (case swInit w of None \<Rightarrow> [] | Some c \<Rightarrow> [cmd_msg c]) @
      filter (Not \<circ> is_tick) xs @ QuitMsg # filter (Not \<circ> is_tick) ys @
      filter (Not \<circ> is_tick) (case swPhase w of Hand (Some c) \<Rightarrow> [cmd_msg c] | _ \<Rightarrow> [])"
    unfolding spin_pending_def assms(3) by simp
  with f have "filter (Not \<circ> is_tick) xs = []" "filter (Not \<circ> is_tick) ys = []"
    "filter (Not \<circ> is_tick) (case swPhase w of Hand (Some c) \<Rightarrow> [cmd_msg c] | _ \<Rightarrow> []) = []"
    by (auto simp: append_eq_Cons_conv)
  then show "QuitMsg \<notin> set xs \<union> set ys" "swPhase w \<noteq> Hand (Some CmdQuit)" by (auto simp: filter_empty_conv)
qed

lemma spin_rank_step:
  assumes "spin_step render b w w'" "spin_inv w"
  shows "if b then spin_rank w' < spin_rank w else spin_rank w' = spin_rank w"
  using assms(1)
proof cases
  case (recv_stop m c)
  then show ?thesis using no_quit_before_stop[OF assms(2)] by (auto simp: spin_rank_def phase_rank_def stop_update looping_def)
next
  case (recv_quit xs ys)
  then show ?thesis by (auto simp: spin_rank_def phase_rank_def)
next
  case (hand_over c)
  then show ?thesis using one_quit(2)[OF assms(2)] no_quit_before_stop[OF assms(2)]
    by (cases c) (auto simp: spin_rank_def phase_rank_def looping_def dest: split_list)
next
  case (recv_msg xs msg ys m c)
  then have "c \<noteq> Some CmdQuit" using recv_is_tick[OF assms(2) recv_msg(3-5)]
    by (cases msg) (auto simp: spinnerModel_Update_def bubble_Update_def Let_def split: if_splits)
  with recv_msg show ?thesis by (auto simp: spin_rank_def phase_rank_def)
next
  case (init_cmd c)
  have "c \<noteq> CmdQuit" using init_cmd(3) spin_invD(7)[OF assms(2)] by auto
  with init_cmd show ?thesis by (auto simp: spin_rank_def phase_rank_def split: spin_phase.split)
next
  case (drop_send xs msg ys)
  then show ?thesis using spin_invD(2)[OF assms(2)] by (auto simp: spin_rank_def phase_rank_def)
qed (auto simp: spin_rank_def phase_rank_def split: spin_phase.split)

lemma spin_rank_run:
  "spin_run render bs w w' \<Longrightarrow> spin_inv w \<Longrightarrow> spin_rank w' + length (filter (\<lambda>b. b) bs) \<le> spin_rank w"
proof (induction rule: spin_run.induct)
  case (snoc bs w w1 b w2)
  then show ?case using spin_rank_step[OF snoc.hyps(2) spin_run_inv[OF snoc.hyps(1)]] by (cases b) auto
qed simp

lemma loop_main:
  assumes "spin_inv w" "swPhase w = Loop" "swCaller w \<noteq> Working" "swCaller w \<noteq> Back"
  shows "\<exists>w2. spin_step render True w w2"
proof (cases "swCaller w")
  case Sending
  then show ?thesis using recv_stop[OF Sending assms(2)] by (metis prod.collapse)
next
  case Waiting
  then have "filter (Not \<circ> is_tick) (spin_pending w) = [QuitMsg]" using spin_invD(5)[OF assms(1)] assms(2) by (simp add: looping_def)
  then have "QuitMsg \<in> set (filter (Not \<circ> is_tick) (spin_pending w))" by simp
  then have "QuitMsg \<in> set (spin_pending w)" by simp
  then have "QuitMsg \<in> set (swSends w)" using assms(2) spin_invD(7)[OF assms(1)] by (auto simp: spin_pending_def split: option.splits)
  then show ?thesis using recv_quit[OF assms(2)] by (metis split_list)
qed (use assms in auto)

text \<open>Unless \<^verbatim>\<open>Stop\<close> has returned, a step of stopping is possible, at once or after a hand-over of the animation.\<close>

lemma stop_enabled:
  assumes "spin_inv w" "swCaller w \<noteq> Back"
  obtains w1 w2 bs where "spin_run render bs w w1" "spin_step render True w1 w2"
proof -
  consider (work) "swCaller w = Working" | (notrun) "swPhase w = NotRun" | (quitting) "swPhase w = Quitting"
    | (closing) "swPhase w = Closing" | (fin) "swPhase w = Finished" "swCaller w \<noteq> Working" "swCaller w \<noteq> Back"
    | (loop) "swPhase w = Loop" "swCaller w \<noteq> Working" "swCaller w \<noteq> Back"
    | (hand) c where "swPhase w = Hand c" "swCaller w \<noteq> Working" "swCaller w \<noteq> Back"
    using assms(2) by (cases "swPhase w") auto
  then show thesis
  proof cases
    case work
    then show ?thesis using that[OF spin_run.refl] call_stop by blast
  next
    case notrun
    then show ?thesis using that[OF spin_run.refl] run_fails by blast
  next
    case quitting
    then show ?thesis using that[OF spin_run.refl] shut_down by blast
  next
    case closing
    then show ?thesis using that[OF spin_run.refl] run_returns by blast
  next
    case fin
    then have "swCtxDone w" using spin_invD(2)[OF assms(1)] by simp
    then show ?thesis using that[OF spin_run.refl] fin send_dropped[of w] wait_returns[of w] by (cases "swCaller w") auto
  next
    case loop
    then show ?thesis using loop_main[OF assms(1) loop] that[OF spin_run.refl] by blast
  next
    case (hand c)
    have i: "spin_inv w1" if "spin_step render b w w1" for b w1 using spin_inv_step[OF that assms(1)] .
    let ?w1 = "w\<lparr>swPhase := Loop, swSends := swSends w @ map cmd_msg (case c of None \<Rightarrow> [] | Some x \<Rightarrow> [x]),
      swViews := swViews w @ [spinnerModel_View render (swModel w)]\<rparr>"
    have s: "spin_step render (c = Some CmdQuit) w ?w1" by (rule hand_over[OF hand(1)])
    have "\<exists>w2. spin_step render True ?w1 w2"
      using hand by (intro loop_main[OF i[OF s]]) auto
    then show ?thesis using that[OF spin_run.snoc[OF spin_run.refl s]] by blast
  qed
qed

lemma stop_reachable:
  "spin_inv w \<Longrightarrow> \<exists>bs w'. spin_run render bs w w' \<and> swCaller w' = Back"
proof (induction "spin_rank w" arbitrary: w rule: less_induct)
  case less
  show ?case
  proof (cases "swCaller w = Back")
    case False
    obtain w1 w2 bs where r: "spin_run render bs w w1" "spin_step render True w1 w2"
      by (rule stop_enabled[OF less.prems False, of render])
    have i1: "spin_inv w1" by (rule spin_run_inv[OF r(1) less.prems])
    have "spin_rank w2 < spin_rank w" using spin_rank_run[OF r(1) less.prems] spin_rank_step[OF r(2) i1] by simp
    from less.hyps[OF this spin_inv_step[OF r(2) i1]] obtain bs' w' where "spin_run render bs' w2 w'" "swCaller w' = Back" by blast
    with spin_run_trans[OF spin_run.snoc[OF r]] show ?thesis by blast
  qed (blast intro: spin_run.refl)
qed

text \<open>The end: after \<^verbatim>\<open>Stop\<close> nothing is drawn.\<close>

lemma finished_step:
  "spin_step render b w w' \<Longrightarrow> swCaller w = Back \<and> swPhase w = Finished \<Longrightarrow>
    swCaller w' = Back \<and> swPhase w' = Finished \<and> swViews w' = swViews w"
  by (erule spin_step.cases) auto

lemma finished_run:
  "spin_run render bs w w' \<Longrightarrow> swCaller w = Back \<and> swPhase w = Finished \<Longrightarrow>
    swCaller w' = Back \<and> swPhase w' = Finished \<and> swViews w' = swViews w"
  by (induction rule: spin_run.induct) (use finished_step in metis)+


text \<open>A run in which \<^verbatim>\<open>Stop\<close> is called before the program has been scheduled.\<close>

definition dot_model :: spinnerModel where
  "dot_model = \<lparr>smSpinner = \<lparr>bbFrames = MiniDot, bbFrame = 0, bbID = 1, bbTag = 0\<rparr>, smMessage = ''m''\<rparr>"


text \<open>While the program loops there is exactly one tick in flight, and it is the one the model accepts: the animation neither dies nor doubles.\<close>

lemma spinner_keeps_turning:
  "spin_run render bs (spin_start m) w \<Longrightarrow> looping (swPhase w) \<Longrightarrow>
    filter is_tick (spin_pending w) = [cur_tick w] \<and> snd (spinnerModel_Update (swModel w) (cur_tick w)) \<noteq> None"
  using spin_invD(4)[OF spin_run_inv[OF _ spin_inv_start]]
  by (simp add: cur_tick_def spinnerModel_Update_def bubble_Update_def Let_def)

text \<open>Without a terminal the spinner is two lines, and without a writer nothing.\<close>

lemma plain_spinner:
  "\<not> isWriterTTY t wr \<Longrightarrow> Spinner_Start (NewSpinnerWriter t i msg (Some wr)) = msg @ [CHR 0x0A] \<and>
     Spinner_Stop (NewSpinnerWriter t i msg (Some wr)) = ''done'' @ [CHR 0x0A]"
  "Spinner_Start (NewSpinnerWriter t i msg None) = []" "Spinner_Stop (NewSpinnerWriter t i msg None) = []"
  by (simp_all add: NewSpinnerWriter_def Spinner_Start_def Spinner_Stop_def)

end
