(* ===== verification/Scan_Console.thy ===== *)
theory Scan_Console
  imports Scan Logging Spinner
begin

text \<open>
  What a scan tells its user beside the reports (\<^verbatim>\<open>cmd/complyctl/cli/scan.go\<close>): the progress lines, the
  warnings on standard error and the entries of the log, and which collisions of mapping references
  reach them.
\<close>

section \<open>Reports to the user\<close>

definition reportOperationalWarnings :: "string list \<Rightarrow> string" where
  "reportOperationalWarnings errors = (let warnings = FormatOperationalWarnings errors in if warnings \<noteq> [] then warnings else [])"

text \<open>The printed warning and the calls of the logger.\<close>

definition reportMappingCollisions :: "MappingCollision list \<Rightarrow> string \<times> log_call list" where
  "reportMappingCollisions collisions =
    (let warnings = FormatMappingCollisions collisions in
     (if warnings \<noteq> [] then warnings else [],
      map (\<lambda>c. CWarn ''mapping reference collision''
        [''id'', mcID c, ''retained'', mcRetainedTitle c, ''discarded'', mcDiscardedTitle c,
         ''policy_wins'', if mcPolicyWins c then ''true'' else ''false'']) collisions))"

definition reportDiscardedMappingRefs :: "string list \<Rightarrow> log_call list" where
  "reportDiscardedMappingRefs titles = map (\<lambda>t. CWarn ''discarding provider mapping reference with empty id'' [''title'', t]) titles"

text \<open>The beginning of \<^verbatim>\<open>processScanOutput\<close>, before any report is written.\<close>

definition scan_notices ::
    "string \<Rightarrow> scanOutput \<Rightarrow> string \<Rightarrow> resolvedMappings \<Rightarrow> MappingReference list \<Rightarrow> TargetConfig list \<Rightarrow> string \<times> log_call list" where
  "scan_notices now scanOut repository mappings policyRefs policyTargets =
    (let (_, collisions, discardedTitles) = buildEvaluators now repository mappings policyRefs (soMappingReferences scanOut)
           policyTargets (soAssessments scanOut) (soAssessmentTargets scanOut);
         (printed, logged) = reportMappingCollisions collisions in
     (reportOperationalWarnings (soErrors scanOut) @ printed, logged @ reportDiscardedMappingRefs discardedTitles))"

text \<open>\<^verbatim>\<open>executeScan\<close>: what the spinner writes, with the scan; the deferred \<^verbatim>\<open>Stop\<close> runs on an error too.\<close>

definition executeScan ::
    "(nat \<Rightarrow> bool) \<Rightarrow> nat \<Rightarrow> bool \<Rightarrow> manager \<Rightarrow> (string, EvaluatorGroup) gomap \<Rightarrow> TargetConfig list \<Rightarrow>
      string \<times> (prov_err + scanOutput)" where
  "executeScan isTerminal nextID deadline mgr groups policyTargets =
    (let scanSpin = NewSpinner isTerminal nextID ''Scanning targets...'' in
     (Spinner_Start scanSpin @ Spinner_Stop scanSpin, scanAllTargets deadline mgr groups policyTargets))"

section \<open>Which collisions are reported\<close>

text \<open>The merge of one target's references.\<close>

definition target_merge ::
    "MappingReference list \<Rightarrow> (string, MappingReference list) gomap \<Rightarrow> TargetConfig \<Rightarrow>
      MappingReference list \<times> MappingCollision list \<times> string list" where
  "target_merge policyRefs perTargetRefs target =
    MergeMappingReferences policyRefs (case go_get perTargetRefs (tcID target) of Some rs \<Rightarrow> rs | None \<Rightarrow> [])"

lemma add_collisions_new:
  "add_collisions seen cs = (new, seen') \<Longrightarrow>
    set seen' = set seen \<union> mcID ` set cs \<and> distinct (map mcID new) \<and> mcID ` set new = mcID ` set cs - set seen"
proof (induction cs arbitrary: seen new seen')
  case (Cons c cs)
  show ?case
  proof (cases "mcID c \<in> set seen")
    case True
    then show ?thesis using Cons.IH[of seen new seen'] Cons.prems by auto
  next
    case False
    then obtain new' where n: "add_collisions (mcID c # seen) cs = (new', seen')" "new = c # new'"
      using Cons.prems by (auto split: prod.splits)
    from Cons.IH[OF n(1)] n(2) False show ?thesis by auto
  qed
qed simp

lemma build_loop_collisions:
  "build_loop now r m prefs refs as ts targets seen = (evs, cs, ds) \<Longrightarrow>
    distinct (map mcID cs) \<and> mcID ` set cs = (\<Union>t \<in> set targets. mcID ` set (fst (snd (target_merge prefs refs t)))) - set seen \<and>
    ds = concat (map (snd \<circ> snd \<circ> target_merge prefs refs) targets)"
proof (induction targets arbitrary: seen evs cs ds)
  case (Cons t targets)
  obtain merged coll disc where m: "target_merge prefs refs t = (merged, coll, disc)" by (rule prod_cases3)
  obtain new seen' where n: "add_collisions seen coll = (new, seen')" by fastforce
  obtain evs' cs' ds' where b: "build_loop now r m prefs refs as ts targets seen' = (evs', cs', ds')" by (rule prod_cases3)
  have "cs = new @ cs'" "ds = disc @ ds'"
    using Cons.prems m n b by (auto simp: target_merge_def Let_def)
  let ?T = "\<Union>t \<in> set targets. mcID ` set (fst (snd (target_merge prefs refs t)))"
  have 1: "distinct (map mcID new)" "mcID ` set new = mcID ` set coll - set seen" "set seen' = set seen \<union> mcID ` set coll"
    using add_collisions_new[OF n] by simp_all
  have 2: "distinct (map mcID cs')" "mcID ` set cs' = ?T - set seen'" "ds' = concat (map (snd \<circ> snd \<circ> target_merge prefs refs) targets)"
    using Cons.IH[OF b] by blast+
  have "mcID ` set new \<inter> mcID ` set cs' = {}" unfolding 1(2) 2(2) 1(3) by blast
  moreover have "mcID ` set new \<union> mcID ` set cs' = (mcID ` set coll \<union> ?T) - set seen" unfolding 1(2) 2(2) 1(3) by blast
  ultimately show ?case using 1(1) 2(1,3) m \<open>cs = new @ cs'\<close> \<open>ds = disc @ ds'\<close> by (simp add: image_Un comp_def)
qed simp

lemma collisions_printed [simp]: "FormatMappingCollisions cs = [] \<longleftrightarrow> cs = []"
  by (simp add: FormatMappingCollisions_def Let_def)

text \<open>
  Every ID on which references collide, on whatever target, is printed and logged exactly once, and every
  reference without an ID is logged.
\<close>

lemma scan_notices_complete:
  "let (_, collisions, discarded) = buildEvaluators now repository mappings policyRefs refs targets as ts;
       (printed, logged) = reportMappingCollisions collisions in
    distinct (map mcID collisions) \<and>
    mcID ` set collisions = (\<Union>t \<in> set targets. mcID ` set (fst (snd (target_merge policyRefs refs t)))) \<and>
    (printed = [] \<longleftrightarrow> collisions = []) \<and> length logged = length collisions \<and>
    length (reportDiscardedMappingRefs discarded) = sum_list (map (length \<circ> snd \<circ> snd \<circ> target_merge policyRefs refs) targets)"
proof -
  obtain evs cs ds where b: "buildEvaluators now repository mappings policyRefs refs targets as ts = (evs, cs, ds)" by (rule prod_cases3)
  have "build_loop now repository mappings policyRefs refs as ts targets [] = (evs, cs, ds)" using b by (simp add: buildEvaluators_def)
  from build_loop_collisions[OF this] b show ?thesis
    by (simp add: reportMappingCollisions_def reportDiscardedMappingRefs_def Let_def length_concat comp_def)
qed

text \<open>
  But only the first collision on an ID is: the comment in \<^verbatim>\<open>buildEvaluators\<close> speaks of the same collision on two
  targets, the code compares IDs alone. Two references of one target that collide with the policy's are
  both discarded, and the second is neither printed nor logged.
\<close>

definition clash_ref :: "string \<Rightarrow> MappingReference" where
  "clash_ref title = \<lparr>mrID = ''nist'', mrTitle = title, mrVersion = [], mrDescription = [], mrURL = []\<rparr>"

lemma second_collision_silent:
  "let target = \<lparr>tcID = ''t'', tcPolicies = [], tcVariables = []\<rparr>;
       refs = [(''t'', [clash_ref ''first'', clash_ref ''second''])] in
   map mcDiscardedTitle (fst (snd (target_merge [clash_ref ''policy''] refs target))) = [''first'', ''second''] \<and>
   map mcDiscardedTitle (fst (snd (buildEvaluators ''n'' [] \<lparr>rmReqToControl = [], rmReqToPlan = [], rmReqToComplypackRef = []\<rparr>
     [clash_ref ''policy''] refs [target] [] []))) = [''first'']"
  by code_simp

text \<open>Without a terminal the scan is announced and closed by two lines, whether it succeeds or not.\<close>

lemma executeScan_plain:
  "\<not> isTerminal stderr_fd \<Longrightarrow> fst (executeScan isTerminal i deadline mgr groups ts) = ''Scanning targets...'' @ [CHR 0x0A] @ ''done'' @ [CHR 0x0A]"
  by (simp add: executeScan_def NewSpinner_def NewSpinnerWriter_def isWriterTTY_def Spinner_Start_def Spinner_Stop_def)

end
