(* ===== verification/Spec2Isabelle.thy ===== *)
theory Spec2Isabelle
  imports Config Workspace Policy_Resolver Signature Commands Doctor_Report Recovery Logging Registry_Source Mock_Registry
    Test_Doubles Behavioral_Steps Command_Line Provider_Process Scan_Console
begin

text \<open>
  A verification development for complyctl, the compliance command line tool of this repository.

  \<^bold>\<open>The program.\<close> A workspace configuration (\<^verbatim>\<open>complytime.yaml\<close>) names policies and complypacks in OCI
  registries and the targets to assess. \<^verbatim>\<open>get\<close> verifies and copies them into a cache and records each
  in \<^verbatim>\<open>state.json\<close>. \<^verbatim>\<open>generate\<close> resolves a cached policy to a graph, groups its assessments by
  evaluator and has the provider of each evaluator generate artifacts; a generation state records from
  which digests. \<^verbatim>\<open>scan\<close> regenerates when that state is stale, scans the targets through the providers,
  accumulates the results by control and writes the evaluation log and the reports. \<^verbatim>\<open>list\<close>,
  \<^verbatim>\<open>providers\<close> and \<^verbatim>\<open>doctor\<close> report on cache and configuration, \<^verbatim>\<open>init\<close> writes a configuration.

  \<^bold>\<open>Theories.\<close> In the order of dependence; names are those of the source where HOL allows it.
  \<^item> Prelude: strings, maps and results of Go, the locale of maps; Filepath: \<^verbatim>\<open>path/filepath\<close>;
    OCI_Reference: the vendored digest and reference parsers; Filesystem: documents, directories and the
    system calls, each of which can fail.
  \<^item> Config (\<^verbatim>\<open>internal/complytime/config.go\<close>), Workspace (\<^verbatim>\<open>consts.go\<close>, \<^verbatim>\<open>legacy.go\<close>, \<^verbatim>\<open>workspace.go\<close>,
    \<^verbatim>\<open>cli/init.go\<close>): the configuration and where things live.
  \<^item> Cache_State, Complypack_Cache, Policy_Store, Registry, Sync, Signature (\<^verbatim>\<open>internal/cache\<close>,
    \<^verbatim>\<open>internal/registry\<close>, \<^verbatim>\<open>internal/policy/loader.go\<close>): the state, the two caches, the loader, incremental
    synchronisation and signature verification.
  \<^item> Provider (\<^verbatim>\<open>pkg/provider\<close>): discovery, manager, routing and both sides of the plugin protocol.
  \<^item> Policy_Resolver, Generation (\<^verbatim>\<open>internal/policy\<close>, generation in \<^verbatim>\<open>cli/scan.go\<close> and \<^verbatim>\<open>cli/generate.go\<close>).
  \<^item> Evaluation, Reports (\<^verbatim>\<open>internal/output\<close>, \<^verbatim>\<open>internal/terminal/table.go\<close>).
  \<^item> Scan, Get, Commands (\<^verbatim>\<open>cli/scan.go\<close>, \<^verbatim>\<open>cli/get.go\<close>, \<^verbatim>\<open>cli/generate.go\<close>, \<^verbatim>\<open>cli/list.go\<close>, \<^verbatim>\<open>cli/providers.go\<close>),
    Doctor and Doctor_Report (\<^verbatim>\<open>internal/doctor\<close>, \<^verbatim>\<open>cli/doctor.go\<close>): the commands, which compose the components.
  \<^item> Logging (\<^verbatim>\<open>pkg/log\<close>, \<^verbatim>\<open>cli/root.go\<close>, \<^verbatim>\<open>main.go\<close>, \<^verbatim>\<open>internal/version\<close>): the logger, the log file that is opened
    on the first write, and how a run ends. Flags, Command_Line (the vendored \<^verbatim>\<open>spf13/pflag\<close> and \<^verbatim>\<open>spf13/cobra\<close>
    and the tree of \<^verbatim>\<open>cli.New\<close>): from the argument list to the call of a command.
  \<^item> Provider_Process (\<^verbatim>\<open>pkg/provider/initialization.go\<close>, \<^verbatim>\<open>plugin.go\<close>): the processes behind the provider manager.
  \<^item> Recovery (syncs on a healthy cache and on a store cut short), Sync_Loader and Get_Resolve (the loader on what
    a sync and what a whole get wrote): the composition of sync, get and loader. Registry_Source
    (\<^verbatim>\<open>internal/cache/source.go\<close>, \<^verbatim>\<open>complypack_source.go\<close>): a sync over the registry client.
  \<^item> Spinner (\<^verbatim>\<open>internal/terminal/spinner.go\<close> with what it uses of the vendored \<^verbatim>\<open>bubbles\<close> and \<^verbatim>\<open>bubbletea\<close>): the goroutines
    behind the progress display. Scan_Console: the progress lines, warnings and log entries of a scan.
  \<^item> Mock_Registry (\<^verbatim>\<open>cmd/mock-oci-registry\<close>), Test_Doubles (\<^verbatim>\<open>cmd/test-provider\<close>, \<^verbatim>\<open>cache/cachetest\<close>),
    Behavioral_Report (\<^verbatim>\<open>cmd/behavioral-report\<close>): the programs the end-to-end tests run against; Behavioral_Steps
    (\<^verbatim>\<open>tests/behavioral\<close>): the steps and plans the report evaluates.
  \<^item> This theory: properties that need signature verification and the get command together.

  \<^bold>\<open>State and effects.\<close> A Go struct is a record, an enumeration a datatype or its number, an error a value of
  a datatype per component. The file system is an association list from paths to documents, passed
  through every operation that can change it; \<^verbatim>\<open>faults\<close> says which system calls fail, so that the
  theorems on errors hold for every combination of failures. The world of a sync is the state in memory
  with the file system; the get command adds its cache of verifiers and what it printed. A Go map is an
  association list whose order is the order of iteration, over which the theorems quantify.

  \<^bold>\<open>Parameters.\<close> What is not code of the repository is an argument: registries (\<^verbatim>\<open>PolicySource\<close>), provider
  processes (\<^verbatim>\<open>Provider\<close>) and the plugin library that starts them, sigstore, YAML, JSON and bundle decoding, the SARIF and OSCAL libraries, time,
  random names, the environment, SHA-256, the archive writer and the rendering of log entries. Hypotheses on them are stated in the theorems that need them, and
  every such theorem has an instance.

  \<^bold>\<open>Interfaces.\<close> \<^verbatim>\<open>go_map\<close> (built-in maps), \<^verbatim>\<open>digest_store\<close> (recording a version under a key; policies and
  complypacks), \<^verbatim>\<open>wire_codec\<close> (a message and its protobuf form; six codecs), \<^verbatim>\<open>policy_loader\<close> (what the
  resolver needs of the loader; the cache), \<^verbatim>\<open>worst_of\<close> (aggregation of results; the severity order),
  \<^verbatim>\<open>loader_invariant\<close> (what every operation of the loader keeps of the file system; a healthy cache) and
  \<^verbatim>\<open>seeding\<close> (how a content store grows; the stores whose blobs and manifests lie under their digests). Each is interpreted on the definitions of the model.

  \<^bold>\<open>What is shown.\<close>
  \<^item> Verification: what a configured verifier accepts, sigstore accepted for the signing layer of the
    reference; get records only verified policies and complypacks; a rejected signature changes nothing. The signature is
    not bound to the artifact, and an entry's verification block can be ignored: both are proved as they are.
  \<^item> Persistence: \<^verbatim>\<open>state.json\<close> is replaced atomically under any fault, a saved state is loaded back, and
    reachable states hold well-formed digests only; what a sync reports is what state and cache contain,
    a second sync changes nothing. What a sync fetched is what the loader finds, and its digest is the one
    recorded unless the tag moves during the sync, when an unverified artifact is recorded as verified. When
    registries and cache are healthy, get succeeds from every state, records every policy and leaves each
    version to be resolved; a store that was cut short is never repaired.
  \<^item> Complypack cache: what is stored is found, a failed store keeps the other versions, path components
    stay inside the cache but for a single dot, and how many versions survive.
  \<^item> Providers: the wire adapters are inverse up to a normal form, discovery prefers the user's directory,
    a broadcast asks every provider once and loses nothing.
  \<^item> Policies: grouping partitions the assessments, displayed metadata agree with the resolved graph, a saved
    generation is fresh exactly when it should be, generate and scan generate alike.
  \<^item> Results: the evaluator refines a specification by control and worst result, and the three reports
    agree on the counts; a scan without error left every log on disk.
  \<^item> Diagnostics: every result is reported once, counts and exit code are stable.
  \<^item> Configuration: validation accepts exactly the well-formed configurations, references are parsed back
    from their printed form, init never changes an existing file.

  \<^item> The run: the exit code says whether the command succeeded, and the log file of the workspace holds
    exactly the entries of the last run. Every spelling of a command line applies its settings in their order
    and runs the command with them; a line of scan runs the scan it says. No provider process outlives an
    error of loading, and none the cleanup at the end. Stopping the spinner ends in every interleaving, with
    at most nine steps besides those of the animation.
  \<^item> Test programs: the mock registry is content addressed, serves what it was seeded with and is resolved by
    the client; the test provider fails a scan exactly when told to; a policy of the mock source goes
    through sync and loader unchanged; the behavioural report writes its files and fails as its results say. A
    behavioural plan passes exactly when its steps do, and what its verdicts do not show is stated.

  \<^bold>\<open>Bounds.\<close> All definitions are total. Only the loop over PEM blocks has fuel: a block consumes input, so one
  round per byte and a last one suffice, which is proved from that law of the decoder. Counts are integers
  of unlimited size except where the code parses or truncates them.

  \<^bold>\<open>Not modelled.\<close> The drawing of the spinner, its recovery from a panic, and the texts of help and completion scripts
  (output only); the gRPC transport, network access and the credential store (other systems); the
  interleaving of log entries with the file operations of a command; the messages of the behavioural steps and
  the copy of the mock registry they run against; the texts of errors of libraries; deadlines and cancellation; symbolic links and
  file modes; colours of the log; generated code. What is left of the sources beside these is accessors of one
  field, declarations of structures of options, and comments.
\<close>

section \<open>Instances\<close>

definition demo_block :: "VerificationConfig" where
  "demo_block = \<lparr>vcIssuer = ''i'', vcIdentity = ''s'', vcKey = [], vcTrustedRoot = []\<rparr>"

definition demo_tag :: "string \<Rightarrow> NameRef" where
  "demo_tag t = \<lparr>nrContext = ''reg.io/p'', nrIdentifier = t, nrInsecure = False\<rparr>"

definition demo_verifier :: verify_func where
  "demo_verifier = verify_keyless demo_sigstore [] ''is''"

definition evil_artifact :: RemoteDescriptor where
  "evil_artifact = \<lparr>rdDigestHex = ''ee'', rdImage = Inl ''any''\<rparr>"

definition accept_ext :: get_ext where
  "accept_ext = strict_ext\<lparr>gxNewKeyed := NewKeyedVerifier demo_sigstore, gxNewKeyless := NewKeylessVerifier demo_sigstore\<rparr>"

definition ws_block :: "VerificationConfig option" where
  "ws_block = Some \<lparr>vcIssuer = [], vcIdentity = [], vcKey = ''/keys/cosign.pub'', vcTrustedRoot = []\<rparr>"

definition start_world :: get_world where
  "start_world = \<lparr>gwState = empty_state, gwFs = [], gwVerifiers = Some [], gwNotes = []\<rparr>"

definition accept_run :: "get_world \<times> get_err list" where
  "accept_run = syncAllPolicies accept_ext no_faults [''c''] [''d''] ws_block [keyed_entry] start_world"

section \<open>Signatures and what get records\<close>

lemma configured_verifier_verified:
  assumes "buildVerifierFromConfig (NewKeyedVerifier sg) (NewKeylessVerifier sg) cfg = Inr vf" "vf ref insecure = Inr vr"
  shows "vrVerified vr"
proof (cases "vcKey cfg = []")
  case True
  then show ?thesis
    using assms by (auto simp: buildVerifierFromConfig_def elim!: NewKeylessVerifier_cases verify_keyless_accepts)
next
  case False
  then show ?thesis
    using assms by (auto simp: buildVerifierFromConfig_def elim!: NewKeyedVerifier_cases verify_keyed_accepts)
qed

text \<open>
  Property C2. The get command on sigstore: with a configured workspace verification block and no entry
  that opts out, get records no unverified artifact: whatever the registries answer and whatever fails,
  every policy recorded after the policy half and every complypack recorded after the complypack half,
  which works on the state loaded again with the verifiers of the first, is verified or was recorded
  before with the same digest.
\<close>

theorem get_records_only_verified:
  assumes "gxNewKeyed x = NewKeyedVerifier sg" "gxNewKeyless x = NewKeylessVerifier sg"
    and "IsConfigured wsCfg" "\<forall>e \<in> set policies \<union> set packs. \<not> peSkipVerify e" "gwVerifiers w = Some []"
    and "syncAllPolicies x flt cacheDir dataDir wsCfg policies w = (w1, errs)"
    and "syncAllComplypacks x flt cacheDir dataDir baseDir wsCfg packs (w1\<lparr>gwState := st\<rparr>) = (w2, errs')"
  shows "only_verified GetPolicyState (gwState w) (gwState w1) \<and> only_verified GetComplypackState st (gwState w2)"
proof -
  have sound: "\<forall>cfg vf ref h vr. gxBuilder x cfg = Inr vf \<longrightarrow> vf ref h = Inr vr \<longrightarrow> vrVerified vr"
    using configured_verifier_verified unfolding assms(1,2) by blast
  obtain m where p: "only_verified GetPolicyState (gwState w) (gwState w1)" "gwVerifiers w1 = Some m" "verifiers_ok (gxBuilder x) m"
    using policies_only_verified[OF sound assms(3) _ assms(5) verifiers_ok_Nil assms(6)] assms(4) by auto
  show ?thesis
    using complypacks_only_verified[OF sound assms(3) _ _ p(3) assms(7)] p(1,2) assms(4) by simp
qed


text \<open>
  Property C3. The signature is not bound to the artifact: when the configured verifier accepts a
  reference, and the registry then serves any other artifact under it and the old signature image
  under the signature tag of that artifact, the verifier accepts the other artifact with the same
  result. The signed payload, which names the artifact, is never read; only its digest is verified.
\<close>

theorem copied_signature_accepted:
  assumes "buildVerifierFromConfig (NewKeyedVerifier sg) (NewKeylessVerifier sg) cfg = Inr vf" "vf registryRef insecure = Inr vr"
    and "sgParseReference sg registryRef insecure = Inr ref" "sgRemoteGet sg ref = Inr desc"
    and "sgNewTag sg (sigTagStr ref (rdDigestHex desc)) insecure = Inr sigTag"
    and "sgNewTag sg (sigTagStr ref (rdDigestHex other)) insecure = Inr otherTag" "otherTag \<noteq> ref"
  shows "\<exists>vf'. buildVerifierFromConfig (NewKeyedVerifier (copy_signature ref other sigTag otherTag sg))
      (NewKeylessVerifier (copy_signature ref other sigTag otherTag sg)) cfg = Inr vf' \<and> vf' registryRef insecure = Inr vr"
proof -
  have nb: "sgNewBundle demo_sigstore = (\<lambda>_. None)" by (simp add: demo_sigstore_def)
  have b: "bundleFromCosignOCI (copy_signature ref other sigTag otherTag sg) registryRef insecure = bundleFromCosignOCI sg registryRef insecure"
    using assms(3-7) by (rule bundleFromCosignOCI_copied)
  show ?thesis
    using assms(1,2) verify_keyed_copied[OF _ b, of "vcKey cfg" vf]
      verify_keyless_copied[OF _ b, of "vcIssuer cfg" "vcIdentity cfg" "vcTrustedRoot cfg" vf]
    by (cases "vcKey cfg = []") (simp_all add: buildVerifierFromConfig_def)
qed

lemma demo_built: "buildVerifierFromConfig (NewKeyedVerifier demo_sigstore) (NewKeylessVerifier demo_sigstore) demo_block = Inr demo_verifier"
  by (simp add: buildVerifierFromConfig_def NewKeylessVerifier_def demo_block_def demo_sigstore_def demo_verifier_def)

lemma demo_accepts: "demo_verifier ''reg.io/p:v1'' False =
    Inr \<lparr>vrVerified = True, vrSignerIdentity = ''signer'', vrIssuer = ''issuer'', vrVerifiedAt = 7\<rparr>"
proof -
  have c: "parseCertificateChain demo_sigstore ''x!'' = Inr [''!'']"
    by (simp add: parseCertificateChain_def demo_sigstore_def demo_pem_def)
  have s: "base64_DecodeString ''c2lnbg=='' = Some ''sign''" by (simp add: base64_DecodeString_def base64_val_def Let_def char_of_def bit_0)
  have h: "hex_DecodeString ''0b0C'' = Some [CHR 0x0B, CHR 0x0C]" by (simp add: hex_val_def Let_def char_of_def bit_0)
  have m: "buildVerificationMaterial demo_sigstore [(cosignAnnotationSignature, ''c2lnbg==''), (cosignAnnotationCert, ''x!'')] =
      Inr \<lparr>vmContent = Some (X509CertificateChain [''!'']), vmTlogEntries = []\<rparr>"
    by (simp add: buildVerificationMaterial_def c cosignAnnotationCert_def cosignAnnotationSignature_def cosignAnnotationBundle_def go_get_def)
  have a: "resolveArtifactDigest demo_sigstore ''reg.io/p:v1'' False = Inr (demo_tag ''v1'', ''aa'')"
    by (simp add: resolveArtifactDigest_def demo_sigstore_def demo_name_def demo_remote_def demo_tag_def)
  have f: "fetchCosignSignature demo_sigstore (demo_tag ''v1'') ''aa'' ''reg.io/p:v1'' False = Inr demo_layer"
    by (simp add: fetchCosignSignature_def findSigningLayer_def sigTagStr_def demo_sigstore_def demo_name_def demo_remote_def
        demo_tag_def demo_layer_def)
  have g: "go_get [(cosignAnnotationSignature, ''c2lnbg==''), (cosignAnnotationCert, ''x!'')] cosignAnnotationSignature = Some ''c2lnbg==''"
    by (simp add: go_get_def)
  have nb: "sgNewBundle demo_sigstore = (\<lambda>_. None)" by (simp add: demo_sigstore_def)
  have b: "bundleFromCosignOCI demo_sigstore ''reg.io/p:v1'' False =
      Inr (\<lparr>pbMediaType = ''application/vnd.dev.sigstore.bundle+json;version=0.1'',
         pbVerificationMaterial = \<lparr>vmContent = Some (X509CertificateChain [''!'']), vmTlogEntries = []\<rparr>,
         pbDigestAlgorithm = SHA2_256, pbMessageDigest = [CHR 0x0B, CHR 0x0C], pbSignature = ''sign''\<rparr>, [CHR 0x0B, CHR 0x0C])"
    using m by (simp add: bundleFromCosignOCI_def a f buildProtobufBundle_def demo_layer_def s h g nb Let_def del: hex_DecodeString.simps)
  show ?thesis
    unfolding demo_verifier_def verify_keyless_def b by (simp add: extractVerificationResult_def demo_sigstore_def)
qed


theorem copied_signature_accepted_witness:
  "\<exists>vf'. buildVerifierFromConfig
       (NewKeyedVerifier (copy_signature (demo_tag ''v1'') evil_artifact (demo_tag ''sha256-aa.sig'') (demo_tag ''sha256-ee.sig'') demo_sigstore))
       (NewKeylessVerifier (copy_signature (demo_tag ''v1'') evil_artifact (demo_tag ''sha256-aa.sig'') (demo_tag ''sha256-ee.sig'') demo_sigstore))
       demo_block = Inr vf' \<and>
     vf' ''reg.io/p:v1'' False = Inr \<lparr>vrVerified = True, vrSignerIdentity = ''signer'', vrIssuer = ''issuer'', vrVerifiedAt = 7\<rparr>"
proof -
  let ?d = "\<lparr>rdDigestHex = ''aa'', rdImage = Inl ''none''\<rparr> :: RemoteDescriptor"
  have p: "sgParseReference demo_sigstore ''reg.io/p:v1'' False = Inr (demo_tag ''v1'')"
    by (simp add: demo_sigstore_def demo_name_def demo_tag_def)
  have g: "sgRemoteGet demo_sigstore (demo_tag ''v1'') = Inr ?d"
    by (simp add: demo_sigstore_def demo_remote_def demo_tag_def)
  have t: "sgNewTag demo_sigstore (sigTagStr (demo_tag ''v1'') (rdDigestHex ?d)) False = Inr (demo_tag ''sha256-aa.sig'')"
    by (simp add: demo_sigstore_def demo_name_def demo_tag_def sigTagStr_def)
  have e: "sgNewTag demo_sigstore (sigTagStr (demo_tag ''v1'') (rdDigestHex evil_artifact)) False = Inr (demo_tag ''sha256-ee.sig'')"
    by (simp add: demo_sigstore_def demo_name_def demo_tag_def sigTagStr_def evil_artifact_def)
  have n: "demo_tag ''sha256-ee.sig'' \<noteq> demo_tag ''v1''" by (simp add: demo_tag_def)
  show ?thesis by (rule copied_signature_accepted[where vf = demo_verifier, OF demo_built demo_accepts p g t e n])
qed

theorem get_records_only_verified_witness:
  "map_option psVerified (GetPolicyState (gwState (fst accept_run)) ''policies/nist'') = Some True"
proof -
  have k: "gxNewKeyed accept_ext = NewKeyedVerifier demo_sigstore" "gxNewKeyless accept_ext = NewKeylessVerifier demo_sigstore"
    by (simp_all add: accept_ext_def)
  have ws: "IsConfigured ws_block" by (simp add: ws_block_def IsConfigured_def)
  have sk: "\<forall>e \<in> set [keyed_entry] \<union> set [keyed_entry]. \<not> peSkipVerify e" by (simp add: keyed_entry_def)
  have c: "gwVerifiers start_world = Some []" by (simp add: start_world_def)
  have r: "syncAllPolicies accept_ext no_faults [''c''] [''d''] ws_block [keyed_entry] start_world = (fst accept_run, snd accept_run)"
    by (simp add: accept_run_def)
  obtain w2 errs where p: "syncAllComplypacks accept_ext no_faults [''c''] [''d''] [''w''] ws_block [keyed_entry]
      ((fst accept_run)\<lparr>gwState := empty_state\<rparr>) = (w2, errs)" by fastforce
  have "GetPolicyState (gwState (fst accept_run)) ''policies/nist'' \<noteq> None" by code_simp
  then obtain ps where ps: "GetPolicyState (gwState (fst accept_run)) ''policies/nist'' = Some ps" by blast
  from get_records_only_verified[OF k ws sk c r p] ps show ?thesis
    by (auto simp: only_verified_def start_world_def empty_state_def GetPolicyState_def)
qed


end
